(* ===== verification/Prelude.thy ===== *)
theory Prelude
  imports Main
begin

text \<open>
  Shared vocabulary of the development: the JSON values that cross the wire, the two array
  idioms the frontend uses everywhere (\<open>findIndex\<close> and \<open>filter((_, i) => i !== idx)\<close>),
  runs of event-driven components, and the three interface contracts that components rely on:

  \<^item> \<open>invariant_machine\<close>: a step function with an invariant that every step keeps;
  \<^item> \<open>external_store\<close>: the contract of React's \<open>useSyncExternalStore\<close> (an update that
    does not call the listeners leaves the snapshot as it was);
  \<^item> \<open>keyed_store\<close>: the same per key, which gives an \<open>external_store\<close> for each key.
\<close>

named_theorems step_simps \<open>equations of the component operations\<close>
named_theorems inv_intros \<open>preservation lemmas of the component invariants\<close>

section \<open>JSON values\<close>

text \<open>
  The values \<open>JSON.parse\<close> can return, with \<open>JUndef\<close> for a field that is absent. Numbers are
  integers: every number the modelled code reads from the wire is an integer.
\<close>

datatype json =
    JUndef
  | JNull
  | JBool bool
  | JNum int
  | JStr string
  | JArr "json list"
  | JObj "(string \<times> json) list"

text \<open>JavaScript truthiness.\<close>

fun truthy :: "json \<Rightarrow> bool" where
  "truthy JUndef = False"
| "truthy JNull = False"
| "truthy (JBool b) = b"
| "truthy (JNum n) = (n \<noteq> 0)"
| "truthy (JStr s) = (s \<noteq> [])"
| "truthy (JArr _) = True"
| "truthy (JObj _) = True"

text \<open>\<open>x == null\<close>.\<close>

definition nullish :: "json \<Rightarrow> bool" where
  "nullish v \<longleftrightarrow> v = JUndef \<or> v = JNull"

datatype js_error = TypeError | SyntaxError

text \<open>
  Property access \<open>v.name\<close>: a TypeError on \<open>undefined\<close> and \<open>null\<close>, \<open>undefined\<close> for an
  absent field.
\<close>

fun field :: "json \<Rightarrow> string \<Rightarrow> js_error + json" where
  "field JUndef _ = Inl TypeError"
| "field JNull _ = Inl TypeError"
| "field (JObj fs) name = Inr (case map_of fs name of None \<Rightarrow> JUndef | Some v \<Rightarrow> v)"
| "field _ _ = Inr JUndef"

fun_cases field_InrE: "field v name = Inr w"

section \<open>Array idioms\<close>

text \<open>\<open>findIndex\<close>, with \<open>None\<close> for -1.\<close>

fun find_index :: "('a \<Rightarrow> bool) \<Rightarrow> 'a list \<Rightarrow> nat option" where
  "find_index P [] = None"
| "find_index P (x # xs) = (if P x then Some 0 else map_option Suc (find_index P xs))"

text \<open>\<open>list.filter((_, i) => i !== idx)\<close>.\<close>

definition remove_at :: "nat \<Rightarrow> 'a list \<Rightarrow> 'a list" where
  "remove_at i xs = take i xs @ drop (Suc i) xs"

lemma find_index_None [simp]: "find_index P xs = None \<longleftrightarrow> (\<forall>x \<in> set xs. \<not> P x)"
  by (induction xs) auto

lemma find_index_SomeD:
  "find_index P xs = Some i \<Longrightarrow> i < length xs \<and> P (xs ! i) \<and> (\<forall>j < i. \<not> P (xs ! j))"
proof (induction xs arbitrary: i)
  case Nil
  then show ?case by simp
next
  case (Cons x xs)
  show ?case
  proof (cases "P x")
    case True
    with Cons.prems show ?thesis by simp
  next
    case False
    with Cons.prems obtain k where k: "find_index P xs = Some k" "i = Suc k" by auto
    from Cons.IH [OF k(1)] k(2) False show ?thesis
      by (auto simp: nth_Cons split: nat.splits)
  qed
qed

lemma find_index_split:
  assumes "find_index P xs = Some i"
  shows "\<exists>ys z zs. xs = ys @ z # zs \<and> length ys = i \<and> P z \<and> (\<forall>y \<in> set ys. \<not> P y)"
proof -
  from find_index_SomeD [OF assms]
  have i: "i < length xs" "P (xs ! i)" "\<forall>j < i. \<not> P (xs ! j)" by auto
  have "xs = take i xs @ xs ! i # drop (Suc i) xs" by (rule id_take_nth_drop [OF i(1)])
  moreover have "\<forall>y \<in> set (take i xs). \<not> P y" using i by (auto simp: in_set_conv_nth)
  moreover have "length (take i xs) = i" using i(1) by simp
  ultimately show ?thesis using i(2) by blast
qed

lemma find_index_append:
  "find_index P (xs @ ys) =
     (case find_index P xs of Some i \<Rightarrow> Some i
      | None \<Rightarrow> map_option (\<lambda>i. i + length xs) (find_index P ys))"
  by (induction xs)
    (auto split: option.splits simp: option.map_comp o_def option.map_ident simp del: find_index_None)

lemma remove_at_append [simp]: "remove_at (length ys) (ys @ z # zs) = ys @ zs"
  by (simp add: remove_at_def)

lemma set_remove_at_subset: "set (remove_at i xs) \<subseteq> set xs"
  by (auto simp: remove_at_def dest: in_set_takeD in_set_dropD)

lemma filter_remove_at:
  assumes "i < length xs" and "\<not> Q (xs ! i)"
  shows "filter Q (remove_at i xs) = filter Q xs"
proof -
  have "filter Q xs = filter Q (take i xs @ xs ! i # drop (Suc i) xs)"
    using id_take_nth_drop [OF assms(1)] by simp
  with assms(2) show ?thesis by (simp add: remove_at_def)
qed

section \<open>Runs\<close>

text \<open>A component driven by a list of events, first event first.\<close>

definition run :: "('e \<Rightarrow> 's \<Rightarrow> 's) \<Rightarrow> 'e list \<Rightarrow> 's \<Rightarrow> 's" where
  "run step es s = fold step es s"

lemma run_Nil [simp]: "run step [] s = s"
  by (simp add: run_def)

lemma run_Cons [simp]: "run step (e # es) s = run step es (step e s)"
  by (simp add: run_def)

lemma run_append [simp]: "run step (es @ fs) s = run step fs (run step es s)"
  by (simp add: run_def)

text \<open>A run whose every event passes a guard that may look at the state it meets.\<close>

fun guarded :: "('e \<Rightarrow> 's \<Rightarrow> 's) \<Rightarrow> ('e \<Rightarrow> 's \<Rightarrow> bool) \<Rightarrow> 'e list \<Rightarrow> 's \<Rightarrow> bool" where
  "guarded step ok [] s = True"
| "guarded step ok (e # es) s = (ok e s \<and> guarded step ok es (step e s))"

lemma guarded_stateless [simp]: "guarded step (\<lambda>e _. P e) es s \<longleftrightarrow> (\<forall>e \<in> set es. P e)"
  by (induction es arbitrary: s) auto

locale invariant_machine =
  fixes step :: "'e \<Rightarrow> 's \<Rightarrow> 's"
    and ok :: "'e \<Rightarrow> 's \<Rightarrow> bool"
    and inv :: "'s \<Rightarrow> bool"
  assumes inv_step: "inv s \<Longrightarrow> ok e s \<Longrightarrow> inv (step e s)"
begin

lemma inv_run: "inv s \<Longrightarrow> guarded step ok es s \<Longrightarrow> inv (run step es s)"
  by (induction es arbitrary: s) (auto intro: inv_step)

lemma inv_prefix:
  "inv s \<Longrightarrow> guarded step ok (es @ fs) s \<Longrightarrow> inv (run step es s)"
  by (induction es arbitrary: s) (auto intro: inv_step)

end

text \<open>A quantity that no step decreases does not decrease over a run.\<close>

locale monotone_machine = invariant_machine step ok inv
  for step :: "'e \<Rightarrow> 's \<Rightarrow> 's" and ok :: "'e \<Rightarrow> 's \<Rightarrow> bool" and inv :: "'s \<Rightarrow> bool" +
  fixes le :: "'s \<Rightarrow> 's \<Rightarrow> bool"
  assumes le_refl: "le s s"
    and le_trans: "le s t \<Longrightarrow> le t u \<Longrightarrow> le s u"
    and le_step: "inv s \<Longrightarrow> ok e s \<Longrightarrow> le s (step e s)"
begin

lemma le_run: "inv s \<Longrightarrow> guarded step ok es s \<Longrightarrow> le s (run step es s)"
proof (induction es arbitrary: s)
  case Nil
  show ?case by (simp add: le_refl)
next
  case (Cons e es)
  then have "inv (step e s)" by (auto intro: inv_step)
  with Cons have "le (step e s) (run step es (step e s))" by simp
  moreover have "le s (step e s)" using Cons.prems by (auto intro: le_step)
  ultimately show ?case by (auto intro: le_trans)
qed

end

text \<open>
  A component that implements an abstract one: every step it may take is matched by the abstract
  step of the same event, so runs are.
\<close>

locale simulation = invariant_machine step ok inv
  for step :: "'e \<Rightarrow> 's \<Rightarrow> 's" and ok :: "'e \<Rightarrow> 's \<Rightarrow> bool" and inv :: "'s \<Rightarrow> bool" +
  fixes abs_step :: "'e \<Rightarrow> 'a \<Rightarrow> 'a"
    and abs_of :: "'s \<Rightarrow> 'a"
  assumes abs_commutes: "inv s \<Longrightarrow> ok e s \<Longrightarrow> abs_of (step e s) = abs_step e (abs_of s)"
begin

lemma run_refines:
  "inv s \<Longrightarrow> guarded step ok es s \<Longrightarrow> abs_of (run step es s) = run abs_step es (abs_of s)"
proof (induction es arbitrary: s)
  case (Cons e es)
  then have "inv (step e s)" by (auto intro: inv_step)
  with Cons show ?case by (simp add: abs_commutes)
qed simp

end

text \<open>A reflexive and transitive relation that every step of a fold respects.\<close>

lemma fold_rel:
  assumes "\<And>t. R t t" "\<And>t u v. R t u \<Longrightarrow> R u v \<Longrightarrow> R t v" "\<And>x t. R t (f x t)"
  shows "R s (fold f xs s)"
proof (induction xs arbitrary: s)
  case (Cons x xs)
  have "R s (f x s)" by (rule assms(3))
  with Cons [of "f x s"] show ?case using assms(2) by auto
qed (simp add: assms(1))

section \<open>External stores\<close>

text \<open>
  A subscriber of \<open>useSyncExternalStore\<close>: it holds the last snapshot it read and reads again
  exactly when the store calls its listener.
\<close>

fun consume :: "('op \<Rightarrow> 's \<Rightarrow> 's \<times> bool) \<Rightarrow> ('s \<Rightarrow> 'v) \<Rightarrow> 'op list \<Rightarrow> 's \<times> 'v \<Rightarrow> 's \<times> 'v" where
  "consume upd snap [] (s, v) = (s, v)"
| "consume upd snap (x # xs) (s, v) =
     (case upd x s of (s', notified) \<Rightarrow>
        consume upd snap xs (s', if notified then snap s' else v))"

locale external_store =
  fixes upd :: "'op \<Rightarrow> 's \<Rightarrow> 's \<times> bool"
    and snap :: "'s \<Rightarrow> 'v"
    and good :: "'s \<Rightarrow> bool"
  assumes good_upd: "good s \<Longrightarrow> good (fst (upd x s))"
    and silent: "good s \<Longrightarrow> \<not> snd (upd x s) \<Longrightarrow> snap (fst (upd x s)) = snap s"
begin

text \<open>No tearing: whatever the operations, what the subscriber holds is the current snapshot.\<close>

lemma consumer_in_sync:
  "good s \<Longrightarrow> v = snap s \<Longrightarrow> consume upd snap xs (s, v) = (s', v') \<Longrightarrow> v' = snap s' \<and> good s'"
proof (induction xs arbitrary: s v)
  case Nil
  then show ?case by auto
next
  case (Cons x xs)
  obtain t n where u: "upd x s = (t, n)" by force
  from good_upd [OF Cons.prems(1), of x] u have "good t" by simp
  moreover from silent [OF Cons.prems(1), of x] u Cons.prems(2)
  have "(if n then snap t else v) = snap t" by simp
  ultimately show ?case using Cons.IH [of t] Cons.prems(3) u by simp
qed

end

locale keyed_store =
  fixes upd :: "'op \<Rightarrow> 's \<Rightarrow> 's \<times> 'k list"
    and look :: "'s \<Rightarrow> 'k \<Rightarrow> 'v"
    and good :: "'s \<Rightarrow> bool"
  assumes keyed_good: "good s \<Longrightarrow> good (fst (upd x s))"
    and keyed_silent: "good s \<Longrightarrow> k \<notin> set (snd (upd x s)) \<Longrightarrow> look (fst (upd x s)) k = look s k"

sublocale keyed_store \<subseteq> key: external_store
  "\<lambda>x s. (fst (upd x s), k \<in> set (snd (upd x s)))" "\<lambda>s. look s k" good
  for k
  by unfold_locales (auto simp: keyed_good keyed_silent)

end
