(* ===== verification/JsMap.thy ===== *)
theory JsMap
  imports Prelude "HOL-Library.AList"
begin

text \<open>
  JavaScript's \<open>Map\<close>: an insertion-ordered association list with distinct keys. Setting a key
  that is present keeps its place, deleting removes the entry. The list operations are those of
  the library's \<open>AList\<close>; the contract the stores rely on is the locale \<open>js_map_contract\<close>,
  interpreted here on the association lists.
\<close>

type_synonym ('k, 'v) jmap = "('k \<times> 'v) list"

definition jget :: "('k, 'v) jmap \<Rightarrow> 'k \<Rightarrow> 'v option" where
  "jget m k = map_of m k"

definition jset :: "'k \<Rightarrow> 'v \<Rightarrow> ('k, 'v) jmap \<Rightarrow> ('k, 'v) jmap" where
  "jset k v m = AList.update k v m"

definition jdel :: "'k \<Rightarrow> ('k, 'v) jmap \<Rightarrow> ('k, 'v) jmap" where
  "jdel k m = AList.delete k m"

definition jhas :: "('k, 'v) jmap \<Rightarrow> 'k \<Rightarrow> bool" where
  "jhas m k \<longleftrightarrow> k \<in> fst ` set m"

definition jwf :: "('k, 'v) jmap \<Rightarrow> bool" where
  "jwf m \<longleftrightarrow> distinct (map fst m)"

text \<open>
  The shape of the stores' \<open>mapsEqual\<close>: same size, and every entry of the first is matched by
  the second.
\<close>

definition same_entries :: "('k, 'v) jmap \<Rightarrow> ('k, 'v) jmap \<Rightarrow> bool" where
  "same_entries a b \<longleftrightarrow> length a = length b \<and> (\<forall>(k, v) \<in> set a. jget b k = Some v)"

locale js_map_contract =
  fixes get :: "'m \<Rightarrow> 'k \<Rightarrow> 'v option"
    and put :: "'k \<Rightarrow> 'v \<Rightarrow> 'm \<Rightarrow> 'm"
    and del :: "'k \<Rightarrow> 'm \<Rightarrow> 'm"
    and entries :: "'m \<Rightarrow> ('k \<times> 'v) list"
    and wf :: "'m \<Rightarrow> bool"
    and emp :: "'m"
  assumes wf_emp: "wf emp"
    and wf_put: "wf m \<Longrightarrow> wf (put k v m)"
    and wf_del: "wf m \<Longrightarrow> wf (del k m)"
    and get_emp: "get emp k = None"
    and get_put: "get (put k v m) = (get m)(k \<mapsto> v)"
    and get_del: "wf m \<Longrightarrow> get (del k m) = (get m)(k := None)"
    and entries_get: "wf m \<Longrightarrow> (k, v) \<in> set (entries m) \<longleftrightarrow> get m k = Some v"
    and entries_distinct: "wf m \<Longrightarrow> distinct (map fst (entries m))"
begin

lemma get_fold_put:
  "get (fold (\<lambda>(k, v). put k v) ps m) = get m ++ map_of (rev ps)"
  by (induction ps arbitrary: m) (auto simp: get_put fun_eq_iff map_add_def split: option.splits)

lemma wf_fold_put: "wf m \<Longrightarrow> wf (fold (\<lambda>(k, v). put k v) ps m)"
  by (induction ps arbitrary: m) (auto simp: wf_put)

lemma dom_entries: "wf m \<Longrightarrow> dom (get m) = fst ` set (entries m)"
  by (auto simp: dom_def image_iff entries_get [symmetric] intro: prod.collapse) (metis fst_conv)

lemma finite_dom: "wf m \<Longrightarrow> finite (dom (get m))"
  by (simp add: dom_entries)

lemma size_entries: "wf m \<Longrightarrow> length (entries m) = card (dom (get m))"
  using distinct_card [OF entries_distinct, of m] by (simp add: dom_entries)

text \<open>Two maps of one size, one inside the other, are equal.\<close>

lemma same_size_submap:
  assumes "wf a" "wf b" "length (entries a) = length (entries b)"
    and sub: "\<And>k v. get a k = Some v \<Longrightarrow> get b k = Some v"
  shows "get a = get b"
proof
  have "dom (get a) \<subseteq> dom (get b)" using sub by blast
  moreover have "card (dom (get a)) = card (dom (get b))"
    using assms(1-3) by (simp add: size_entries)
  ultimately have dom: "dom (get a) = dom (get b)"
    by (simp add: assms(2) card_subset_eq finite_dom)
  fix k
  show "get a k = get b k"
  proof (cases "get a k")
    case None
    then show ?thesis using dom by (metis domIff)
  next
    case (Some v)
    then show ?thesis using sub by simp
  qed
qed

end

lemma jget_jset [simp]: "jget (jset k v m) k' = (if k' = k then Some v else jget m k')"
  by (simp add: jget_def jset_def update_conv')

lemma jget_jset_fun: "jget (jset k v m) = (jget m)(k \<mapsto> v)"
  by (simp add: fun_eq_iff)

lemma jget_jdel [simp]: "jget (jdel k m) k' = (if k' = k then None else jget m k')"
  by (simp add: jget_def jdel_def delete_conv')

lemma jget_Nil [simp]: "jget [] k = None"
  by (simp add: jget_def)

lemma jwf_Nil [simp, intro]: "jwf []"
  by (simp add: jwf_def)

lemma jwf_jset [simp, intro]: "jwf m \<Longrightarrow> jwf (jset k v m)"
  by (simp add: jwf_def jset_def distinct_update)

lemma jwf_jdel [simp, intro]: "jwf m \<Longrightarrow> jwf (jdel k m)"
  by (simp add: jwf_def jdel_def distinct_delete)

lemma jget_entry: "jwf m \<Longrightarrow> (k, v) \<in> set m \<longleftrightarrow> jget m k = Some v"
  by (simp add: jwf_def jget_def)

lemma jhas_jget: "jhas m k \<longleftrightarrow> jget m k \<noteq> None"
  by (simp add: jhas_def jget_def map_of_eq_None_iff)

interpretation jm: js_map_contract jget jset jdel "\<lambda>m. m" jwf "[]"
  by unfold_locales (auto simp: jget_jset_fun jget_entry fun_eq_iff, simp add: jwf_def)

lemma same_entries_iff:
  assumes "jwf a" "jwf b"
  shows "same_entries a b \<longleftrightarrow> jget a = jget b"
proof
  assume eq: "same_entries a b"
  then have "jget b k = Some v" if "jget a k = Some v" for k v
    using that assms by (auto simp: same_entries_def jget_entry [OF assms(1), symmetric])
  with eq assms show "jget a = jget b"
    by (intro jm.same_size_submap) (auto simp: same_entries_def)
next
  assume eq: "jget a = jget b"
  then have "length a = length b" using jm.size_entries assms by metis
  with eq assms show "same_entries a b"
    by (auto simp: same_entries_def jget_entry)
qed

end
