(* ===== verification/VoiceStores.thy ===== *)
theory VoiceStores
  imports JsMap
begin

text \<open>
  The two module-level stores of the voice presence: who is in which voice channel
  (\<open>frontend/lib/voice-occupancy-store.ts\<close>) and who is muted
  (\<open>frontend/lib/voice-mute-store.ts\<close>). Both keep a mutable \<open>current\<close> map, an immutable
  \<open>snapshot\<close> that React reads, and a set of listeners. An operation returns the new store and
  the listeners it called, in order; no call means React is not told.

  The lemmas show that the snapshot is always the current map, that each store refines a plain
  map from user ids, and that the listeners are called exactly when that map changes.
\<close>

record 'v store =
  current :: "(string, 'v) jmap"
  snapshot :: "(string, 'v) jmap"
  listeners :: "nat list"

record mute_state =
  audio_muted :: bool
  video_muted :: bool

definition empty_store :: "'v store" where
  "empty_store = \<lparr>current = [], snapshot = [], listeners = []\<rparr>"

definition notify :: "'v store \<Rightarrow> 'v store \<times> nat list" where
  "notify s = (s\<lparr>snapshot := current s\<rparr>, listeners s)"

text \<open>
  \<open>listeners\<close> is a JavaScript \<open>Set\<close>: adding a listener twice keeps one, in its first place.
  The function that \<open>subscribe\<close> returns deletes it.
\<close>

definition subscribe :: "nat \<Rightarrow> 'v store \<Rightarrow> 'v store" where
  "subscribe l s =
     (if l \<in> set (listeners s) then s else s\<lparr>listeners := listeners s @ [l]\<rparr>)"

definition unsubscribe :: "nat \<Rightarrow> 'v store \<Rightarrow> 'v store" where
  "unsubscribe l s = s\<lparr>listeners := filter (\<lambda>x. x \<noteq> l) (listeners s)\<rparr>"

section \<open>Voice occupancy\<close>

definition occ_maps_equal :: "(string, string) jmap \<Rightarrow> (string, string) jmap \<Rightarrow> bool" where
  "occ_maps_equal a b \<longleftrightarrow> length a = length b \<and> (\<forall>(k, v) \<in> set a. jget b k = Some v)"

definition seed_occupancy_map :: "(string \<times> string option) list \<Rightarrow> (string, string) jmap" where
  "seed_occupancy_map pairs =
     fold (\<lambda>(uid, cid) next. case cid of None \<Rightarrow> next | Some c \<Rightarrow> jset uid c next) pairs []"

definition seed_voice_occupancy ::
  "(string \<times> string option) list \<Rightarrow> string store \<Rightarrow> string store \<times> nat list" where
  "seed_voice_occupancy pairs s =
     (let next = seed_occupancy_map pairs in
      if occ_maps_equal (current s) next then (s, [])
      else notify (s\<lparr>current := next\<rparr>))"

definition set_voice_occupancy ::
  "string \<Rightarrow> string option \<Rightarrow> string store \<Rightarrow> string store \<times> nat list" where
  "set_voice_occupancy user channel s =
     (case channel of
        None \<Rightarrow>
          if \<not> jhas (current s) user then (s, [])
          else notify (s\<lparr>current := jdel user (current s)\<rparr>)
      | Some c \<Rightarrow>
          if jget (current s) user = Some c then (s, [])
          else notify (s\<lparr>current := jset user c (current s)\<rparr>))"

datatype occ_op = OccSeed "(string \<times> string option) list" | OccSet string "string option"

fun occ_upd :: "occ_op \<Rightarrow> string store \<Rightarrow> string store \<times> nat list" where
  "occ_upd (OccSeed pairs) s = seed_voice_occupancy pairs s"
| "occ_upd (OccSet u c) s = set_voice_occupancy u c s"

section \<open>Voice mute\<close>

definition mute_maps_equal ::
  "(string, mute_state) jmap \<Rightarrow> (string, mute_state) jmap \<Rightarrow> bool" where
  "mute_maps_equal a b \<longleftrightarrow> length a = length b \<and>
     (\<forall>(k, v) \<in> set a. case jget b k of None \<Rightarrow> False
        | Some other \<Rightarrow> audio_muted other = audio_muted v \<and> video_muted other = video_muted v)"

definition seed_voice_mute ::
  "(string \<times> mute_state) list \<Rightarrow> mute_state store \<Rightarrow> mute_state store \<times> nat list" where
  "seed_voice_mute pairs s =
     (let next = fold (\<lambda>(uid, state) next. jset uid state next) pairs [] in
      if mute_maps_equal (current s) next then (s, [])
      else notify (s\<lparr>current := next\<rparr>))"

datatype mute_kind = AudioKind | VideoKind

definition mute_default :: mute_state where
  "mute_default = \<lparr>audio_muted = True, video_muted = True\<rparr>"

fun mute_apply :: "mute_kind \<Rightarrow> bool \<Rightarrow> mute_state \<Rightarrow> mute_state" where
  "mute_apply AudioKind m p = p\<lparr>audio_muted := m\<rparr>"
| "mute_apply VideoKind m p = p\<lparr>video_muted := m\<rparr>"

definition set_voice_mute ::
  "string \<Rightarrow> mute_kind \<Rightarrow> bool \<Rightarrow> mute_state store \<Rightarrow> mute_state store \<times> nat list" where
  "set_voice_mute user kind muted s =
     (let prev = (case jget (current s) user of None \<Rightarrow> mute_default | Some p \<Rightarrow> p);
          next = mute_apply kind muted prev in
      if audio_muted prev = audio_muted next \<and> video_muted prev = video_muted next
         \<and> jhas (current s) user
      then (s, [])
      else notify (s\<lparr>current := jset user next (current s)\<rparr>))"

definition clear_voice_mute :: "string \<Rightarrow> mute_state store \<Rightarrow> mute_state store \<times> nat list" where
  "clear_voice_mute user s =
     (if \<not> jhas (current s) user then (s, [])
      else notify (s\<lparr>current := jdel user (current s)\<rparr>))"

datatype mute_op =
    MuteSeed "(string \<times> mute_state) list"
  | MuteSet string mute_kind bool
  | MuteClear string

fun mute_upd :: "mute_op \<Rightarrow> mute_state store \<Rightarrow> mute_state store \<times> nat list" where
  "mute_upd (MuteSeed pairs) s = seed_voice_mute pairs s"
| "mute_upd (MuteSet u k m) s = set_voice_mute u k m s"
| "mute_upd (MuteClear u) s = clear_voice_mute u s"

section \<open>The abstract maps\<close>

text \<open>What the stores promise: a map from user ids, overwritten by each operation.\<close>

fun occ_spec :: "occ_op \<Rightarrow> (string \<Rightarrow> string option) \<Rightarrow> string \<Rightarrow> string option" where
  "occ_spec (OccSeed pairs) m =
     map_of (rev (List.map_filter (\<lambda>(u, c). map_option (Pair u) c) pairs))"
| "occ_spec (OccSet u c) m = m(u := c)"

fun mute_spec :: "mute_op \<Rightarrow> (string \<Rightarrow> mute_state option) \<Rightarrow> string \<Rightarrow> mute_state option" where
  "mute_spec (MuteSeed pairs) m = map_of (rev pairs)"
| "mute_spec (MuteSet u k b) m =
     m(u \<mapsto> mute_apply k b (case m u of None \<Rightarrow> mute_default | Some p \<Rightarrow> p))"
| "mute_spec (MuteClear u) m = m(u := None)"

definition store_good :: "'v store \<Rightarrow> bool" where
  "store_good s \<longleftrightarrow> jwf (current s) \<and> snapshot s = current s"

text \<open>
  What every operation of either store does: it leaves the store good and the listeners as they
  are, moves the snapshot to the specified map, and calls the listeners if and only if that is
  a change.
\<close>

definition store_step_ok ::
  "'v store \<Rightarrow> (string \<Rightarrow> 'v option) \<Rightarrow> 'v store \<times> nat list \<Rightarrow> bool" where
  "store_step_ok s m r \<longleftrightarrow>
     store_good (fst r) \<and> listeners (fst r) = listeners s \<and> jget (snapshot (fst r)) = m \<and>
     snd r = (if m = jget (snapshot s) then [] else listeners s)"

lemma store_step_unchanged:
  "store_good s \<Longrightarrow> m = jget (current s) \<Longrightarrow> store_step_ok s m (s, [])"
  by (simp add: store_step_ok_def store_good_def)

lemma store_step_notify:
  "store_good s \<Longrightarrow> jwf c \<Longrightarrow> m = jget c \<Longrightarrow> m \<noteq> jget (current s) \<Longrightarrow>
   store_step_ok s m (notify (s\<lparr>current := c\<rparr>))"
  by (simp add: store_step_ok_def store_good_def notify_def)

lemmas store_step_intros = store_step_unchanged store_step_notify

lemma occ_maps_equal_same: "occ_maps_equal a b = same_entries a b"
  by (simp add: occ_maps_equal_def same_entries_def)

lemma mute_maps_equal_same: "mute_maps_equal a b = same_entries a b"
  by (fastforce simp: mute_maps_equal_def same_entries_def split: option.splits)

lemma seed_occupancy_fold:
  "fold (\<lambda>(uid, cid) next. case cid of None \<Rightarrow> next | Some c \<Rightarrow> jset uid c next) pairs m =
   fold (\<lambda>(k, v). jset k v) (List.map_filter (\<lambda>(u, c). map_option (Pair u) c) pairs) m"
  by (induction pairs arbitrary: m) (auto simp: map_filter_simps split: option.splits)

lemma seed_occupancy_jget:
  "jget (seed_occupancy_map pairs) =
     map_of (rev (List.map_filter (\<lambda>(u, c). map_option (Pair u) c) pairs))"
  unfolding seed_occupancy_map_def seed_occupancy_fold jm.get_fold_put
  by (simp add: fun_eq_iff map_add_def split: option.splits)

lemma seed_occupancy_jwf: "jwf (seed_occupancy_map pairs)"
  unfolding seed_occupancy_map_def seed_occupancy_fold by (rule jm.wf_fold_put) simp

lemma mute_fold_jget: "jget (fold (\<lambda>(k, v). jset k v) pairs []) = map_of (rev pairs)"
  unfolding jm.get_fold_put by (simp add: fun_eq_iff map_add_def split: option.splits)

lemma mute_fold_jwf: "jwf (fold (\<lambda>(k, v). jset k v) pairs [])"
  by (rule jm.wf_fold_put) simp

lemma mute_state_eq_iff:
  "p = q \<longleftrightarrow> audio_muted p = audio_muted q \<and> video_muted p = video_muted (q :: mute_state)"
  by (cases p; cases q) simp

lemma occ_upd_ok:
  assumes good: "store_good s"
  shows "store_step_ok s (occ_spec op (jget (snapshot s))) (occ_upd op s)"
proof -
  from good have wf: "jwf (current s)" and sn: "snapshot s = current s"
    by (auto simp: store_good_def)
  show ?thesis
  proof (cases op)
    case (OccSeed pairs)
    then show ?thesis
      using good wf seed_occupancy_jwf [of pairs]
      by (auto simp: seed_voice_occupancy_def Let_def occ_maps_equal_same same_entries_iff
            seed_occupancy_jget intro!: store_step_intros)
  next
    case (OccSet u c)
    then show ?thesis
      using good wf sn
      by (auto simp: set_voice_occupancy_def jhas_jget fun_eq_iff split: option.splits
            intro!: store_step_intros dest!: spec [where x = u])
  qed
qed

lemma mute_upd_ok:
  assumes good: "store_good s"
  shows "store_step_ok s (mute_spec op (jget (snapshot s))) (mute_upd op s)"
proof -
  from good have wf: "jwf (current s)" and sn: "snapshot s = current s"
    by (auto simp: store_good_def)
  show ?thesis
  proof (cases op)
    case (MuteSeed pairs)
    then show ?thesis
      using good wf mute_fold_jwf [of pairs]
      by (auto simp: seed_voice_mute_def Let_def mute_maps_equal_same same_entries_iff
            mute_fold_jget intro!: store_step_intros)
  next
    case (MuteSet u k b)
    then show ?thesis
      using good wf sn
      by (auto simp: set_voice_mute_def Let_def jhas_jget fun_eq_iff mute_state_eq_iff
            split: option.splits intro!: store_step_intros dest!: spec [where x = u])
  next
    case (MuteClear u)
    then show ?thesis
      using good wf sn
      by (auto simp: clear_voice_mute_def jhas_jget fun_eq_iff intro!: store_step_intros
            dest!: spec [where x = u])
  qed
qed

interpretation occ: external_store
  "\<lambda>op s. (fst (occ_upd op s), l \<in> set (snd (occ_upd op s)))" "\<lambda>s. jget (snapshot s)"
  "\<lambda>s. store_good s \<and> l \<in> set (listeners s)"
  for l
  by unfold_locales
    (use occ_upd_ok in \<open>fastforce simp: store_step_ok_def split: if_splits\<close>)+

interpretation mute: external_store
  "\<lambda>op s. (fst (mute_upd op s), l \<in> set (snd (mute_upd op s)))" "\<lambda>s. jget (snapshot s)"
  "\<lambda>s. store_good s \<and> l \<in> set (listeners s)"
  for l
  by unfold_locales
    (use mute_upd_ok in \<open>fastforce simp: store_step_ok_def split: if_splits\<close>)+

section \<open>Properties\<close>

lemma subscribed_good: "store_good (subscribe l empty_store) \<and> l \<in> set (listeners (subscribe l empty_store))"
  by (simp add: store_good_def subscribe_def empty_store_def)

lemma subscribed_snapshot [simp]: "jget (snapshot (subscribe l empty_store)) = (\<lambda>_. None)"
  by (simp add: subscribe_def empty_store_def jget_def fun_eq_iff)

lemma occ_consume_spec:
  "store_good s \<Longrightarrow>
   jget (snapshot (fst (consume (\<lambda>op s. (fst (occ_upd op s), l \<in> set (snd (occ_upd op s)))) f ops (s, v))))
     = fold occ_spec ops (jget (snapshot s))"
proof (induction ops arbitrary: s v)
  case (Cons op ops)
  from occ_upd_ok [OF Cons.prems, of op]
  have "store_good (fst (occ_upd op s))"
    "jget (snapshot (fst (occ_upd op s))) = occ_spec op (jget (snapshot s))"
    by (simp_all add: store_step_ok_def)
  with Cons.IH show ?case by simp
qed simp

lemma mute_consume_spec:
  "store_good s \<Longrightarrow>
   jget (snapshot (fst (consume (\<lambda>op s. (fst (mute_upd op s), l \<in> set (snd (mute_upd op s)))) f ops (s, v))))
     = fold mute_spec ops (jget (snapshot s))"
proof (induction ops arbitrary: s v)
  case (Cons op ops)
  from mute_upd_ok [OF Cons.prems, of op]
  have "store_good (fst (mute_upd op s))"
    "jget (snapshot (fst (mute_upd op s))) = mute_spec op (jget (snapshot s))"
    by (simp_all add: store_step_ok_def)
  with Cons.IH show ?case by simp
qed simp

text \<open>A component subscribed to the voice occupancy always shows the map the operations
  describe: it reads the snapshot again only when its listener is called, and still, after any
  seeds and single changes, what it holds is the last seed overwritten by the changes after it.
\<close>

theorem occupancy_subscriber_in_sync:
  "snd (consume (\<lambda>op s. (fst (occ_upd op s), l \<in> set (snd (occ_upd op s))))
      (\<lambda>s. jget (snapshot s)) ops (subscribe l empty_store, \<lambda>_. None))
   = fold occ_spec ops (\<lambda>_. None)"
  (is "snd ?r = _")
proof -
  have "snd ?r = jget (snapshot (fst ?r))"
    by (rule occ.consumer_in_sync [OF subscribed_good _ prod.collapse [symmetric], THEN conjunct1]) simp
  then show ?thesis by (simp add: occ_consume_spec subscribed_good)
qed

text \<open>The same for the mute store: the subscriber always holds the specified map, in which a
  change of one kind for an unknown user leaves the other kind muted and a voice-leave forgets
  the user.
\<close>

theorem mute_subscriber_in_sync:
  "snd (consume (\<lambda>op s. (fst (mute_upd op s), l \<in> set (snd (mute_upd op s))))
      (\<lambda>s. jget (snapshot s)) ops (subscribe l empty_store, \<lambda>_. None))
   = fold mute_spec ops (\<lambda>_. None)"
  (is "snd ?r = _")
proof -
  have "snd ?r = jget (snapshot (fst ?r))"
    by (rule mute.consumer_in_sync [OF subscribed_good _ prod.collapse [symmetric], THEN conjunct1]) simp
  then show ?thesis by (simp add: mute_consume_spec subscribed_good)
qed

end
