(* ===== verification/VolumeStore.thy ===== *)
theory VolumeStore
  imports JsMap Complex_Main
begin

text \<open>
  \<open>ParticipantVolumeStore\<close> of \<open>frontend/hooks/use-participant-volume.ts\<close>: volume overrides
  per user id with listeners per key. An operation returns the new store and the keys it
  notified, in order; \<open>vol_calls\<close> expands them into the listeners that run. Volumes are reals
  (the code's doubles, without rounding and without NaN).

  The lemmas show that the effective volume is the clamped value, that no stored override is
  near the default, and that exactly the keys whose effective volume changed are notified.
\<close>

record vol_store =
  volumes :: "(string, real) jmap"
  vol_listeners :: "(string, nat list) jmap"

definition vol_get :: "vol_store \<Rightarrow> string \<Rightarrow> real" where
  "vol_get s user = (case jget (volumes s) user of None \<Rightarrow> 1 | Some v \<Rightarrow> v)"

definition vol_set :: "string \<Rightarrow> real \<Rightarrow> vol_store \<Rightarrow> vol_store \<times> string list" where
  "vol_set user volume s =
     (let clamped = max 0 (min 2 volume);
          is_default = \<bar>clamped - 1\<bar> < 1 / 1000;
          current = jget (volumes s) user in
      if is_default then
        if current = None then (s, [])
        else (s\<lparr>volumes := jdel user (volumes s)\<rparr>, [user])
      else
        if current = Some clamped then (s, [])
        else (s\<lparr>volumes := jset user clamped (volumes s)\<rparr>, [user]))"

definition vol_reset :: "vol_store \<Rightarrow> vol_store \<times> string list" where
  "vol_reset s =
     (if volumes s = [] then (s, [])
      else (s\<lparr>volumes := []\<rparr>, map fst (volumes s)))"

definition vol_subscribe :: "string \<Rightarrow> nat \<Rightarrow> vol_store \<Rightarrow> vol_store" where
  "vol_subscribe user l s =
     (let bucket = (case jget (vol_listeners s) user of None \<Rightarrow> [] | Some b \<Rightarrow> b) in
      s\<lparr>vol_listeners := jset user (if l \<in> set bucket then bucket else bucket @ [l])
                          (vol_listeners s)\<rparr>)"

definition vol_unsubscribe :: "string \<Rightarrow> nat \<Rightarrow> vol_store \<Rightarrow> vol_store" where
  "vol_unsubscribe user l s =
     (case jget (vol_listeners s) user of
        None \<Rightarrow> s
      | Some bucket \<Rightarrow>
          (let rest = filter (\<lambda>x. x \<noteq> l) bucket in
           s\<lparr>vol_listeners := if rest = [] then jdel user (vol_listeners s)
                               else jset user rest (vol_listeners s)\<rparr>))"

definition vol_notify :: "vol_store \<Rightarrow> string \<Rightarrow> nat list" where
  "vol_notify s user = (case jget (vol_listeners s) user of None \<Rightarrow> [] | Some b \<Rightarrow> b)"

definition vol_calls :: "vol_store \<Rightarrow> string list \<Rightarrow> nat list" where
  "vol_calls s keys = concat (map (vol_notify s) keys)"

datatype vol_op = VolSet string real | VolReset

fun vol_upd :: "vol_op \<Rightarrow> vol_store \<Rightarrow> vol_store \<times> string list" where
  "vol_upd (VolSet u v) s = vol_set u v s"
| "vol_upd VolReset s = vol_reset s"

section \<open>What the store promises\<close>

text \<open>The volume a slider position stands for: clamped, with the default absorbing its epsilon.\<close>

definition effective :: "real \<Rightarrow> real" where
  "effective v = (let c = max 0 (min 2 v) in if \<bar>c - 1\<bar> < 1 / 1000 then 1 else c)"

fun vol_spec :: "vol_op \<Rightarrow> (string \<Rightarrow> real) \<Rightarrow> string \<Rightarrow> real" where
  "vol_spec (VolSet u v) g = g(u := effective v)"
| "vol_spec VolReset g = (\<lambda>_. 1)"

definition override_ok :: "real \<Rightarrow> bool" where
  "override_ok v \<longleftrightarrow> 0 \<le> v \<and> v \<le> 2 \<and> 1 / 1000 \<le> \<bar>v - 1\<bar>"

definition vol_good :: "vol_store \<Rightarrow> bool" where
  "vol_good s \<longleftrightarrow> jwf (volumes s) \<and> (\<forall>u v. jget (volumes s) u = Some v \<longrightarrow> override_ok v)"

lemma override_ok_ne_1: "override_ok v \<Longrightarrow> v \<noteq> 1"
  by (auto simp: override_ok_def)

lemma override_ok_clamp: "\<not> \<bar>max 0 (min 2 v) - 1\<bar> < 1 / 1000 \<Longrightarrow> override_ok (max 0 (min 2 v))"
  by (auto simp: override_ok_def)

lemma vol_get_eq_1: "vol_good s \<Longrightarrow> vol_get s u = 1 \<longleftrightarrow> jget (volumes s) u = None"
  using override_ok_ne_1 by (fastforce simp: vol_good_def vol_get_def split: option.splits)

lemma vol_good_set: "vol_good s \<Longrightarrow> vol_good (fst (vol_set u v s))"
  by (auto simp: vol_set_def Let_def vol_good_def override_ok_clamp split: if_splits)

lemma vol_good_reset: "vol_good s \<Longrightarrow> vol_good (fst (vol_reset s))"
  by (auto simp: vol_reset_def vol_good_def)

lemma vol_good_upd: "vol_good s \<Longrightarrow> vol_good (fst (vol_upd op s))"
  by (cases op) (auto intro: vol_good_set vol_good_reset)

lemma vol_get_set: "vol_get (fst (vol_set u v s)) = (vol_get s)(u := effective v)"
  by (auto simp: vol_set_def Let_def effective_def vol_get_def fun_eq_iff split: option.splits)

lemma vol_get_reset: "vol_get (fst (vol_reset s)) = (\<lambda>_. 1)"
  by (auto simp: vol_reset_def vol_get_def)

lemma vol_upd_spec: "vol_get (fst (vol_upd op s)) = vol_spec op (vol_get s)"
  by (cases op) (auto simp: vol_get_set vol_get_reset)

lemma vol_set_notified:
  assumes "vol_good s"
  shows "snd (vol_set u v s) = (if effective v = vol_get s u then [] else [u])"
proof -
  have "jget (volumes s) u = Some w \<Longrightarrow> w \<noteq> 1" for w
    using assms override_ok_ne_1 by (auto simp: vol_good_def)
  then show ?thesis
    by (auto simp: vol_set_def Let_def effective_def vol_get_def split: option.splits)
qed

lemma vol_reset_notified:
  assumes "vol_good s"
  shows "set (snd (vol_reset s)) = {k. vol_get s k \<noteq> 1}" and "distinct (snd (vol_reset s))"
proof -
  have "set (map fst (volumes s)) = dom (jget (volumes s))"
    using assms jm.dom_entries [of "volumes s"] by (simp add: vol_good_def)
  then show "set (snd (vol_reset s)) = {k. vol_get s k \<noteq> 1}"
    using assms by (auto simp: vol_reset_def vol_get_eq_1)
  show "distinct (snd (vol_reset s))"
    using assms by (auto simp: vol_reset_def vol_good_def jwf_def)
qed

lemma vol_upd_notified:
  assumes "vol_good s"
  shows "set (snd (vol_upd op s)) = {k. vol_spec op (vol_get s) k \<noteq> vol_get s k}"
    and "distinct (snd (vol_upd op s))"
  using assms vol_reset_notified [OF assms]
  by (cases op; auto simp: vol_set_notified)+

interpretation vol: keyed_store vol_upd vol_get vol_good
proof unfold_locales
  fix s x k
  assume s: "vol_good s"
  then show "vol_good (fst (vol_upd x s))" by (rule vol_good_upd)
  assume "k \<notin> set (snd (vol_upd x s))"
  with s show "vol_get (fst (vol_upd x s)) k = vol_get s k"
    by (simp add: vol_upd_notified vol_upd_spec)
qed

definition vol_empty :: vol_store where
  "vol_empty = \<lparr>volumes = [], vol_listeners = []\<rparr>"

lemma vol_good_empty: "vol_good vol_empty"
  by (simp add: vol_good_def vol_empty_def)

lemma vol_get_run:
  "vol_get (fold (\<lambda>op s. fst (vol_upd op s)) ops s) = fold vol_spec ops (vol_get s)"
  by (induction ops arbitrary: s) (simp_all add: vol_upd_spec)

lemma vol_good_run: "vol_good s \<Longrightarrow> vol_good (fold (\<lambda>op s. fst (vol_upd op s)) ops s)"
  by (induction ops arbitrary: s) (simp_all add: vol_good_upd)

text \<open>The volume a participant is played at is the last slider position set since the last
  reset, clamped to [0, 2] with the default absorbing its epsilon, and 1 otherwise; and the next
  operation notifies exactly the participants whose volume it changes, each once.
\<close>

theorem volume_store_exact:
  "let s = fold (\<lambda>op s. fst (vol_upd op s)) ops vol_empty
   in vol_get s = fold vol_spec ops (\<lambda>_. 1)
    \<and> set (snd (vol_upd op s)) = {k. vol_get (fst (vol_upd op s)) k \<noteq> vol_get s k}
    \<and> distinct (snd (vol_upd op s))"
proof -
  have "vol_get vol_empty = (\<lambda>_. 1)" by (simp add: vol_get_def vol_empty_def jget_def fun_eq_iff)
  then show ?thesis
    using vol_good_run [OF vol_good_empty, of ops]
    by (simp add: Let_def vol_get_run vol_upd_notified vol_upd_spec)
qed

end
