(* ===== verification/Snowflake.thy ===== *)
theory Snowflake
  imports Prelude
begin
unbundle bit_operations_syntax

text \<open>
  Message ids: Sonyflake numbers written as decimal strings. Models \<open>cmpIds\<close> and
  \<open>syntheticMessageId\<close> of \<open>frontend/contexts/chat-context.tsx\<close> and \<open>snowflakeToDate\<close> of
  \<open>frontend/components/hub/text-channel-view.tsx\<close>, with JavaScript's \<open>BigInt(string)\<close> and
  \<open>BigInt.toString\<close> written out.

  The lemmas show that printing and reading back a number is the identity, that \<open>cmpIds\<close> is a
  comparator (the contract \<open>id_comparator\<close>, with the facts about the "keep the later id" idiom
  of the unread bookkeeping), and where a synthetic id stands among the others.
\<close>

section \<open>Decimal strings\<close>

definition digit_char :: "nat \<Rightarrow> char" where
  "digit_char d = char_of (48 + d)"

fun show_nat :: "nat \<Rightarrow> string" where
  "show_nat n = (if n < 10 then [digit_char n] else show_nat (n div 10) @ [digit_char (n mod 10)])"

declare show_nat.simps [simp del]

definition show_int :: "int \<Rightarrow> string" where
  "show_int i = (if i < 0 then CHR ''-'' # show_nat (nat (- i)) else show_nat (nat i))"

text \<open>The value of a digit in a radix up to 36.\<close>

definition digit_val :: "nat \<Rightarrow> char \<Rightarrow> nat option" where
  "digit_val radix c =
     (let n = of_char c :: nat;
          d = (if 48 \<le> n \<and> n \<le> 57 then n - 48
               else if 97 \<le> n \<and> n \<le> 122 then n - 87
               else if 65 \<le> n \<and> n \<le> 90 then n - 55 else 36)
      in if d < radix then Some d else None)"

fun parse_radix :: "nat \<Rightarrow> nat \<Rightarrow> string \<Rightarrow> nat option" where
  "parse_radix radix acc [] = Some acc"
| "parse_radix radix acc (c # cs) =
     (case digit_val radix c of None \<Rightarrow> None | Some d \<Rightarrow> parse_radix radix (acc * radix + d) cs)"

definition parse_digits :: "nat \<Rightarrow> string \<Rightarrow> int option" where
  "parse_digits radix s = (if s = [] then None else map_option int (parse_radix radix 0 s))"

definition js_space :: "char \<Rightarrow> bool" where
  "js_space c \<longleftrightarrow> (of_char c :: nat) \<in> {9, 10, 11, 12, 13, 32}"

definition js_trim :: "string \<Rightarrow> string" where
  "js_trim s = rev (dropWhile js_space (rev (dropWhile js_space s)))"

text \<open>
  \<open>BigInt(s)\<close>, \<open>None\<close> for the SyntaxError: surrounding white space is dropped, the empty string
  is 0, decimal numbers may carry a sign, and the other radices have a prefix and no sign.
\<close>

definition bigint :: "string \<Rightarrow> int option" where
  "bigint s =
     (case js_trim s of
        [] \<Rightarrow> Some 0
      | c # cs \<Rightarrow>
          if c = CHR ''-'' then map_option uminus (parse_digits 10 cs)
          else if c = CHR ''+'' then parse_digits 10 cs
          else if c = CHR ''0'' \<and> cs \<noteq> [] \<and> hd cs \<in> {CHR ''x'', CHR ''X''} then parse_digits 16 (tl cs)
          else if c = CHR ''0'' \<and> cs \<noteq> [] \<and> hd cs \<in> {CHR ''o'', CHR ''O''} then parse_digits 8 (tl cs)
          else if c = CHR ''0'' \<and> cs \<noteq> [] \<and> hd cs \<in> {CHR ''b'', CHR ''B''} then parse_digits 2 (tl cs)
          else parse_digits 10 (c # cs))"

section \<open>The operations\<close>

definition cmp_ids :: "string \<Rightarrow> string \<Rightarrow> js_error + int" where
  "cmp_ids a b =
     (case bigint a of
        None \<Rightarrow> Inl SyntaxError
      | Some ab \<Rightarrow>
          (case bigint b of
             None \<Rightarrow> Inl SyntaxError
           | Some bb \<Rightarrow> Inr (if ab < bb then -1 else if ab > bb then 1 else 0)))"

definition SONYFLAKE_EPOCH_MS :: int where
  "SONYFLAKE_EPOCH_MS = 1409529600000"

text \<open>\<open>now\<close> is \<open>Date.now()\<close>, in milliseconds.\<close>

definition synthetic_message_id :: "int \<Rightarrow> int \<Rightarrow> string" where
  "synthetic_message_id now counter =
     (let ten_ms = (now - SONYFLAKE_EPOCH_MS) div 10
      in show_int (ten_ms * 16777216 + (counter AND 0xffffff)))"

text \<open>\<open>snowflakeToDate(id).getTime()\<close>.\<close>

definition snowflake_to_date :: "string \<Rightarrow> js_error + int" where
  "snowflake_to_date mid =
     (case bigint mid of
        None \<Rightarrow> Inl SyntaxError
      | Some n \<Rightarrow> Inr (SONYFLAKE_EPOCH_MS + drop_bit 24 n * 10))"

text \<open>
  The id the servers generate: time in 10 ms units, an 8-bit sequence and a 16-bit machine id
  (the layout both source comments give).
\<close>

definition server_message_id :: "int \<Rightarrow> nat \<Rightarrow> nat \<Rightarrow> string" where
  "server_message_id ten_ms sequence machine =
     show_int (ten_ms * 16777216 + int (sequence mod 256) * 65536 + int (machine mod 65536))"

section \<open>Printing and reading back\<close>

lemma digit_val_digit_char: "d < 10 \<Longrightarrow> digit_val 10 (digit_char d) = Some d"
  by (simp add: digit_val_def digit_char_def)

lemma digit_char_not_space: "d < 10 \<Longrightarrow> \<not> js_space (digit_char d)"
  by (simp add: digit_char_def js_space_def)

lemma digit_char_ne:
  assumes "d < 10" and "of_char c < (48::nat) \<or> 57 < (of_char c :: nat)"
  shows "digit_char d \<noteq> c"
proof
  assume "digit_char d = c"
  then have "of_char c = 48 + d" using assms(1) by (auto simp: digit_char_def)
  with assms show False by simp
qed

lemma show_nat_digits: "\<forall>c \<in> set (show_nat n). \<exists>d < 10. c = digit_char d"
proof (induction n rule: show_nat.induct)
  case (1 n)
  have "\<exists>d < 10. digit_char (n mod 10) = digit_char d" by (intro exI [of _ "n mod 10"]) simp
  with 1 show ?case by (subst show_nat.simps) auto
qed

lemma show_nat_ne [simp]: "show_nat n \<noteq> []"
  by (subst show_nat.simps) simp

lemma parse_radix_append:
  "parse_radix r a (xs @ ys) =
     (case parse_radix r a xs of None \<Rightarrow> None | Some b \<Rightarrow> parse_radix r b ys)"
  by (induction r a xs rule: parse_radix.induct) (auto split: option.splits)

lemma parse_show_nat: "parse_radix 10 0 (show_nat n) = Some n"
proof (induction n rule: show_nat.induct)
  case (1 n)
  then show ?case
    by (subst show_nat.simps) (auto simp: parse_radix_append digit_val_digit_char)
qed

lemma js_trim_id: "\<forall>c \<in> set s. \<not> js_space c \<Longrightarrow> js_trim s = s"
proof -
  assume s: "\<forall>c \<in> set s. \<not> js_space c"
  have id: "dropWhile js_space t = t" if "\<forall>c \<in> set t. \<not> js_space c" for t
    using that by (cases t) auto
  show ?thesis using s by (simp add: js_trim_def id)
qed

lemma bigint_show_nat: "bigint (show_nat n) = Some (int n)"
proof -
  obtain c cs where sn: "show_nat n = c # cs" by (cases "show_nat n") auto
  have dig: "\<exists>d < 10. x = digit_char d" if "x \<in> set (c # cs)" for x
    using that show_nat_digits [of n] sn by auto
  have trim: "js_trim (c # cs) = c # cs"
    using dig by (intro js_trim_id) (auto dest: digit_char_not_space)
  have "c \<noteq> CHR ''-''" "c \<noteq> CHR ''+''"
    using dig [of c] by (auto simp: digit_char_ne)
  moreover have "hd cs \<notin> {CHR ''x'', CHR ''X'', CHR ''o'', CHR ''O'', CHR ''b'', CHR ''B''}"
    if "cs \<noteq> []"
    using dig [of "hd cs"] that by (auto simp: digit_char_ne digit_char_ne [THEN not_sym])
  ultimately show ?thesis
    using parse_show_nat [of n]
    by (auto simp: bigint_def sn trim parse_digits_def)
qed

lemma bigint_show_int: "bigint (show_int i) = Some i"
proof (cases "i < 0")
  case False
  then show ?thesis by (simp add: show_int_def bigint_show_nat)
next
  case True
  have "\<forall>c \<in> set (show_int i). \<not> js_space c"
    using show_nat_digits [of "nat (- i)"] True
    by (auto simp: show_int_def js_space_def dest!: bspec digit_char_not_space)
  then have "js_trim (show_int i) = show_int i" by (rule js_trim_id)
  with True show ?thesis
    using parse_show_nat [of "nat (- i)"]
    by (simp add: bigint_def show_int_def parse_digits_def)
qed

section \<open>Order and time\<close>

text \<open>
  The contract of a comparator: what the unread bookkeeping needs of \<open>cmpIds\<close>. \<open>later\<close> is the
  idiom \<open>cmp(prev, new) > 0 ? prev : new\<close>.
\<close>

definition later :: "('a \<Rightarrow> 'a \<Rightarrow> int) \<Rightarrow> 'a \<Rightarrow> 'a \<Rightarrow> 'a" where
  "later cmp prev new = (if cmp prev new > 0 then prev else new)"

locale id_comparator =
  fixes cmp :: "'a \<Rightarrow> 'a \<Rightarrow> int"
  assumes cmp_refl: "cmp a a = 0"
    and cmp_swap: "cmp b a = - cmp a b"
    and cmp_trans: "cmp a b \<le> 0 \<Longrightarrow> cmp b c \<le> 0 \<Longrightarrow> cmp a c \<le> 0"
begin

lemma later_left: "cmp a (later cmp a b) \<le> 0"
  by (auto simp: later_def cmp_refl)

lemma later_right: "cmp b (later cmp a b) \<le> 0"
  using cmp_swap [of a b] by (auto simp: later_def cmp_refl)

lemma later_least: "cmp a c \<le> 0 \<Longrightarrow> cmp b c \<le> 0 \<Longrightarrow> cmp (later cmp a b) c \<le> 0"
  by (simp add: later_def)

lemma later_idem: "later cmp a a = a"
  by (simp add: later_def)

lemma later_in: "later cmp a b \<in> {a, b}"
  by (simp add: later_def)

lemma fold_later_bound: "cmp a (fold (\<lambda>b x. later cmp x b) bs a) \<le> 0"
proof (induction bs arbitrary: a)
  case Nil
  then show ?case by (simp add: cmp_refl)
next
  case (Cons b bs)
  from cmp_trans [OF later_left Cons.IH [of "later cmp a b"]] show ?case by simp
qed

end

text \<open>
  The comparison of two well-formed ids, as \<open>cmpIds\<close> returns it. \<open>id_val\<close> is the number an id
  denotes; ids on the wire are decimal strings, for which \<open>cmp_ids\<close> does not throw.
\<close>

definition id_val :: "string \<Rightarrow> int" where
  "id_val s = (case bigint s of Some n \<Rightarrow> n | None \<Rightarrow> 0)"

definition cmp_val :: "string \<Rightarrow> string \<Rightarrow> int" where
  "cmp_val a b = (if id_val a < id_val b then -1 else if id_val a > id_val b then 1 else 0)"

definition dec_id :: "string \<Rightarrow> bool" where
  "dec_id s \<longleftrightarrow> bigint s \<noteq> None"

interpretation ids: id_comparator cmp_val
  by unfold_locales (auto simp: cmp_val_def split: if_splits)

lemma cmp_ids_val: "dec_id a \<Longrightarrow> dec_id b \<Longrightarrow> cmp_ids a b = Inr (cmp_val a b)"
  by (auto simp: dec_id_def cmp_ids_def cmp_val_def id_val_def)

lemma cmp_ids_Inl: "cmp_ids a b = Inl e \<longleftrightarrow> e = SyntaxError \<and> \<not> (dec_id a \<and> dec_id b)"
  by (auto simp: dec_id_def cmp_ids_def split: option.splits)

lemma cmp_val_le_0 [simp]: "cmp_val a b \<le> 0 \<longleftrightarrow> id_val a \<le> id_val b"
  and cmp_val_gt_0 [simp]: "cmp_val a b > 0 \<longleftrightarrow> id_val a > id_val b"
  and cmp_val_lt_0 [simp]: "cmp_val a b < 0 \<longleftrightarrow> id_val a < id_val b"
  and cmp_val_ge_0 [simp]: "cmp_val a b \<ge> 0 \<longleftrightarrow> id_val a \<ge> id_val b"
  by (auto simp: cmp_val_def)

lemma id_val_show [simp]: "id_val (show_int i) = i"
  by (simp add: id_val_def bigint_show_int)

lemma dec_id_show [simp]: "dec_id (show_int i)"
  by (simp add: dec_id_def bigint_show_int)

lemma and_24_bits: "(c :: int) AND 0xffffff = c mod 16777216"
  using take_bit_eq_mask [of 24 c] by (simp add: take_bit_eq_mod mask_eq_exp_minus_1)

lemma synthetic_val:
  "id_val (synthetic_message_id now c) =
     (now - SONYFLAKE_EPOCH_MS) div 10 * 16777216 + c mod 16777216"
  by (simp add: synthetic_message_id_def Let_def and_24_bits)

lemma synthetic_dec: "dec_id (synthetic_message_id now c)"
  by (simp add: synthetic_message_id_def Let_def)

lemma snowflake_to_date_show:
  "0 \<le> r \<Longrightarrow> r < 16777216 \<Longrightarrow>
   snowflake_to_date (show_int (t * 16777216 + r)) = Inr (SONYFLAKE_EPOCH_MS + t * 10)"
  by (simp add: snowflake_to_date_def bigint_show_int drop_bit_eq_div)

section \<open>Properties\<close>

text \<open>C30. An optimistic message shows the time it was sent at: \<open>snowflakeToDate\<close> reads back from a
  synthetic id the clock it was made with, to the 10 ms of a tick, whatever the counter.
\<close>

theorem synthetic_id_keeps_time:
  "\<exists>d. snowflake_to_date (synthetic_message_id now c) = Inr d \<and> d \<le> now \<and> now < d + 10"
proof -
  have "snowflake_to_date (synthetic_message_id now c) =
      Inr (SONYFLAKE_EPOCH_MS + (now - SONYFLAKE_EPOCH_MS) div 10 * 10)"
    by (simp add: synthetic_message_id_def Let_def and_24_bits snowflake_to_date_show)
  moreover have "x div 10 * 10 \<le> x \<and> x < x div 10 * 10 + 10" for x :: int by presburger
  ultimately show ?thesis by (smt (verit))
qed

text \<open>Optimistic messages sort in the order they were sent: with the clock not going back and
  the counter below 2^24, a later synthetic id compares greater.
\<close>

theorem synthetic_ids_increase:
  assumes "now \<le> now'" "0 \<le> c" "c < c'" "c' < 16777216"
  shows "cmp_ids (synthetic_message_id now c) (synthetic_message_id now' c') = Inr (-1)"
proof -
  have "(now - SONYFLAKE_EPOCH_MS) div 10 \<le> (now' - SONYFLAKE_EPOCH_MS) div 10"
    using assms(1) by (intro zdiv_mono1) auto
  with assms show ?thesis
    by (simp add: cmp_ids_val synthetic_dec cmp_val_def synthetic_val)
qed

theorem synthetic_ids_increase_witness:
  "cmp_ids (synthetic_message_id 1700000000000 3) (synthetic_message_id 1700000000004 4) = Inr (-1)"
  by (rule synthetic_ids_increase) simp_all

text \<open>A synthetic id is not above the server's ids of its own tick: a server id whose 8-bit
  sequence is not zero is above every synthetic id of the tick whose counter is below 2^16.
\<close>

theorem synthetic_id_below_server_id:
  assumes "0 \<le> c" "c < 65536" "0 < sequence" "sequence < 256"
  shows "cmp_ids (synthetic_message_id now c)
           (server_message_id ((now - SONYFLAKE_EPOCH_MS) div 10) sequence machine) = Inr (-1)"
  using assms
  by (simp add: cmp_ids_val synthetic_dec cmp_val_def synthetic_val server_message_id_def)

theorem synthetic_id_below_server_id_witness:
  "cmp_ids (synthetic_message_id 1700000000000 3)
     (server_message_id ((1700000000000 - SONYFLAKE_EPOCH_MS) div 10) 1 9) = Inr (-1)"
  by (rule synthetic_id_below_server_id) simp_all

end
