(* ===== verification/ChatGateway.thy ===== *)
theory ChatGateway
  imports Prelude Complex_Main
begin

text \<open>
  The WebSocket side of \<open>ChatClient\<close> (\<open>packages/sdk-chat/src/client.ts\<close>): connection state,
  sessions with RESUME, heartbeats and reconnection with decorrelated jitter.

  The record \<open>gw\<close> holds the private fields of the class together with the part of the browser
  it acts on: the sockets it opened (by number, with their ready state and whether their
  handlers are still attached), the timers that are pending, and the log \<open>out\<close> of what it did,
  in order (events delivered to subscribers, frames sent, sockets opened and closed). One input
  is one callback run to its end: a call of the public API, a socket event, or a timer. Random
  numbers are part of the input. A callback that throws keeps the effects it had; the
  \<open>try/catch\<close> of \<open>onmessage\<close> swallows the exception.

  Timers are not given a clock: a pending timer may fire at any time after it was set. An
  interval stays pending when it fires, a timeout does not. Subscribers do not call back into
  the client while an event is delivered.
\<close>

section \<open>State\<close>

datatype conn_state =
  Disconnected | Connecting | Identifying | Connected | Resuming | Reconnecting

datatype ready_state = CONNECTING | OPEN | CLOSING | CLOSED

record sock =
  ready :: ready_state
  attached :: bool

datatype timer_job = FirstBeat int | Beat int | Reopen

datatype timer = Timer timer_job int \<comment> \<open>what runs, and the delay it was set with\<close>

datatype gw_event =
    EvState conn_state
  | EvReady json json json
  | EvResumed int
  | EvMessageNew json
  | EvMessageUpdated json
  | EvMessageDeleted json
  | EvAttachmentUpdated json
  | EvTypingStart json
  | EvCallInvite json
  | EvCallDecline json
  | EvCallCancel json
  | EvCallEnded json
  | EvError string

datatype effect =
    Deliver nat gw_event
  | Send nat int json
  | Close nat int string
  | OpenSocket nat string

record gw =
  base_url :: string
  token :: string
  handlers :: "nat list"
  ws :: "nat option"
  conn :: conn_state
  session_id :: json
  last_seq :: json
  hb_interval :: "nat option"
  ack_pending :: bool
  reconnect_timer :: "nat option"
  reconnect_delay :: int
  reconnect_attempts :: nat
  intentional_close :: bool
  origin :: string
  sockets :: "nat \<Rightarrow> sock option"
  timers :: "nat \<Rightarrow> timer option"
  next_id :: nat
  out :: "effect list"

definition new_client :: "string \<Rightarrow> string \<Rightarrow> string \<Rightarrow> gw" where
  "new_client org base tok =
     \<lparr>base_url = base, token = tok, handlers = [], ws = None, conn = Disconnected,
      session_id = JNull, last_seq = JNum 0, hb_interval = None, ack_pending = False,
      reconnect_timer = None, reconnect_delay = 1000, reconnect_attempts = 0,
      intentional_close = False, origin = org, sockets = (\<lambda>_. None), timers = (\<lambda>_. None),
      next_id = 0, out = []\<rparr>"

section \<open>Events and subscribers\<close>

definition log_out :: "effect list \<Rightarrow> gw \<Rightarrow> gw" where
  "log_out es s = s\<lparr>out := out s @ es\<rparr>"

definition emit :: "gw_event \<Rightarrow> gw \<Rightarrow> gw" where
  "emit ev s = log_out (map (\<lambda>h. Deliver h ev) (handlers s)) s"

definition on_handler :: "nat \<Rightarrow> gw \<Rightarrow> gw" where
  "on_handler h s = s\<lparr>handlers := handlers s @ [h]\<rparr>"

definition off_handler :: "nat \<Rightarrow> gw \<Rightarrow> gw" where
  "off_handler h s = s\<lparr>handlers := filter (\<lambda>x. x \<noteq> h) (handlers s)\<rparr>"

definition set_state :: "conn_state \<Rightarrow> gw \<Rightarrow> gw" where
  "set_state st s = (if conn s = st then s else emit (EvState st) (s\<lparr>conn := st\<rparr>))"

definition update_token :: "string \<Rightarrow> gw \<Rightarrow> gw" where
  "update_token tok s = s\<lparr>token := tok\<rparr>"

section \<open>Sockets, timers and frames\<close>

text \<open>
  \<open>new URL(u, base)\<close> for the two documented shapes of \<open>baseUrl\<close>, absolute and rooted at the
  origin of the page, with the protocol swapped.
\<close>

definition starts_with :: "string \<Rightarrow> string \<Rightarrow> bool" where
  "starts_with p s \<longleftrightarrow> take (length p) s = p"

definition ws_url :: "string \<Rightarrow> string \<Rightarrow> string" where
  "ws_url org base =
     (let u = base @ ''/gateway'';
          full = (if starts_with ''http://'' u \<or> starts_with ''https://'' u then u else org @ u)
      in if starts_with ''https:'' full then ''wss:'' @ drop 6 full else ''ws:'' @ drop 5 full)"

definition open_web_socket :: "gw \<Rightarrow> gw" where
  "open_web_socket s =
     (let s1 = set_state (if truthy (session_id s) then Resuming else Connecting) s;
          i = next_id s1
      in log_out [OpenSocket i (ws_url (origin s) (base_url s))]
           (s1\<lparr>ws := Some i,
               sockets := (sockets s1)(i \<mapsto> \<lparr>ready = CONNECTING, attached = True\<rparr>),
               next_id := Suc i\<rparr>))"

definition set_timer :: "timer_job \<Rightarrow> int \<Rightarrow> gw \<Rightarrow> gw" where
  "set_timer job delay s =
     s\<lparr>timers := (timers s)(next_id s \<mapsto> Timer job delay), next_id := Suc (next_id s)\<rparr>"

definition clear_timer :: "nat \<Rightarrow> gw \<Rightarrow> gw" where
  "clear_timer t s = s\<lparr>timers := (timers s)(t := None)\<rparr>"

definition sock_open :: "gw \<Rightarrow> nat \<Rightarrow> bool" where
  "sock_open s i = (case sockets s i of None \<Rightarrow> False | Some k \<Rightarrow> ready k = OPEN)"

text \<open>\<open>socket.close(code, reason)\<close>: nothing happens when it is already closing or closed.\<close>

definition close_socket :: "nat \<Rightarrow> int \<Rightarrow> string \<Rightarrow> gw \<Rightarrow> gw" where
  "close_socket i code reason s =
     (case sockets s i of
        None \<Rightarrow> s
      | Some k \<Rightarrow>
          if ready k = OPEN \<or> ready k = CONNECTING
          then log_out [Close i code reason]
                 (s\<lparr>sockets := (sockets s)(i \<mapsto> k\<lparr>ready := CLOSING\<rparr>)\<rparr>)
          else s)"

definition close_ws :: "int \<Rightarrow> string \<Rightarrow> gw \<Rightarrow> gw" where
  "close_ws code reason s =
     (case ws s of None \<Rightarrow> s | Some i \<Rightarrow> close_socket i code reason s)"

definition send_frame :: "int \<Rightarrow> json \<Rightarrow> gw \<Rightarrow> gw" where
  "send_frame op d s =
     (case ws s of
        None \<Rightarrow> s
      | Some i \<Rightarrow> if sock_open s i then log_out [Send i op d] s else s)"

section \<open>Heartbeat\<close>

definition clear_heartbeat :: "gw \<Rightarrow> gw" where
  "clear_heartbeat s =
     (case hb_interval s of
        None \<Rightarrow> s
      | Some t \<Rightarrow> (clear_timer t s)\<lparr>hb_interval := None\<rparr>)"

text \<open>A number used as a delay; anything else is NaN, which timers take as 0.\<close>

fun to_delay :: "json \<Rightarrow> int" where
  "to_delay (JNum n) = n"
| "to_delay _ = 0"

definition start_heartbeat :: "json \<Rightarrow> real \<Rightarrow> gw \<Rightarrow> gw" where
  "start_heartbeat interval r s =
     (let s1 = (clear_heartbeat s)\<lparr>ack_pending := False\<rparr>;
          n = to_delay interval
      in set_timer (FirstBeat n) \<lfloor>of_int n * r\<rfloor> s1)"

definition send_heartbeat :: "gw \<Rightarrow> gw" where
  "send_heartbeat s = send_frame 1 (last_seq s) (s\<lparr>ack_pending := True\<rparr>)"

definition first_beat :: "int \<Rightarrow> gw \<Rightarrow> gw" where
  "first_beat n s =
     (let s1 = send_heartbeat s
      in (set_timer (Beat n) n s1)\<lparr>hb_interval := Some (next_id s1)\<rparr>)"

definition interval_beat :: "gw \<Rightarrow> gw" where
  "interval_beat s =
     (if ack_pending s then close_ws 4000 ''heartbeat timeout'' s else send_heartbeat s)"

section \<open>Reconnection\<close>

definition next_delay :: "real \<Rightarrow> int \<Rightarrow> int" where
  "next_delay r prev = min 30000 \<lfloor>1000 + r * of_int (prev * 3 - 1000)\<rfloor>"

definition schedule_reconnect :: "real \<Rightarrow> gw \<Rightarrow> gw" where
  "schedule_reconnect r s =
     (let s1 = set_state Reconnecting s;
          d = next_delay r (reconnect_delay s1);
          s2 = s1\<lparr>reconnect_attempts := Suc (reconnect_attempts s1), reconnect_delay := d\<rparr>
      in (set_timer Reopen d s2)\<lparr>reconnect_timer := Some (next_id s2)\<rparr>)"

definition clear_timers :: "gw \<Rightarrow> gw" where
  "clear_timers s =
     (let s1 = clear_heartbeat s in
      case reconnect_timer s1 of
        None \<Rightarrow> s1
      | Some t \<Rightarrow> (clear_timer t s1)\<lparr>reconnect_timer := None\<rparr>)"

section \<open>Frames from the server\<close>

type_synonym outcome = "gw \<times> js_error option"

definition handle_hello :: "json \<Rightarrow> real \<Rightarrow> gw \<Rightarrow> outcome" where
  "handle_hello data r s =
     (case field data ''heartbeat_interval'' of
        Inl e \<Rightarrow> (s, Some e)
      | Inr interval \<Rightarrow>
          (let s1 = start_heartbeat interval r s in
           if truthy (session_id s1)
           then (send_frame 6
                   (JObj [(''session_id'', session_id s1), (''seq'', last_seq s1)])
                   (set_state Resuming s1), None)
           else (send_frame 2 (JObj [(''token'', JStr (token s1))])
                   (set_state Identifying s1), None)))"

definition handle_ready :: "json \<Rightarrow> gw \<Rightarrow> outcome" where
  "handle_ready d s =
     (case field d ''session_id'' of
        Inl e \<Rightarrow> (s, Some e)
      | Inr sid \<Rightarrow>
          (let s1 = set_state Connected
                      (s\<lparr>session_id := sid, reconnect_attempts := 0, reconnect_delay := 1000\<rparr>)
           in case field d ''user'' of
                Inl e \<Rightarrow> (s1, Some e)
              | Inr u \<Rightarrow>
                  (case (field u ''id'', field u ''username'') of
                     (Inr uid, Inr name) \<Rightarrow> (emit (EvReady sid uid name) s1, None)
                   | _ \<Rightarrow> (s1, Some TypeError))))"

definition handle_resumed :: "gw \<Rightarrow> gw" where
  "handle_resumed s =
     emit (EvResumed 0)
       (set_state Connected (s\<lparr>reconnect_attempts := 0, reconnect_delay := 1000\<rparr>))"

definition handle_dispatch :: "json \<Rightarrow> json \<Rightarrow> gw \<Rightarrow> outcome" where
  "handle_dispatch t d s =
     (if t = JStr ''READY'' then handle_ready d s
      else if t = JStr ''RESUMED'' then (handle_resumed s, None)
      else if t = JStr ''MESSAGE_CREATE'' then (emit (EvMessageNew d) s, None)
      else if t = JStr ''MESSAGE_UPDATE'' then (emit (EvMessageUpdated d) s, None)
      else if t = JStr ''MESSAGE_DELETE'' then (emit (EvMessageDeleted d) s, None)
      else if t = JStr ''ATTACHMENT_UPDATED'' then (emit (EvAttachmentUpdated d) s, None)
      else if t = JStr ''TYPING_START'' then (emit (EvTypingStart d) s, None)
      else if t = JStr ''DM_CALL_INVITE'' then (emit (EvCallInvite d) s, None)
      else if t = JStr ''DM_CALL_DECLINE'' then (emit (EvCallDecline d) s, None)
      else if t = JStr ''DM_CALL_CANCEL'' then (emit (EvCallCancel d) s, None)
      else if t = JStr ''DM_CALL_ENDED'' then (emit (EvCallEnded d) s, None)
      else (s, None))"

text \<open>A field of the frame, once the frame is known to be an object.\<close>

definition fld :: "json \<Rightarrow> string \<Rightarrow> json" where
  "fld v name = (case field v name of Inl _ \<Rightarrow> JUndef | Inr w \<Rightarrow> w)"

definition handle_frame :: "json \<Rightarrow> real \<Rightarrow> gw \<Rightarrow> outcome" where
  "handle_frame frame r s =
     (if intentional_close s then (s, None)
      else case field frame ''op'' of
        Inl e \<Rightarrow> (s, Some e)
      | Inr op \<Rightarrow>
          if op = JNum 10 then handle_hello (fld frame ''d'') r s
          else if op = JNum 0 then
            (let s1 = (if nullish (fld frame ''s'') then s
                       else s\<lparr>last_seq := fld frame ''s''\<rparr>)
             in handle_dispatch (fld frame ''t'') (fld frame ''d'') s1)
          else if op = JNum 11 then (s\<lparr>ack_pending := False\<rparr>, None)
          else if op = JNum 9 then
            (if truthy (fld frame ''d'') then s
             else s\<lparr>session_id := JNull, last_seq := JNum 0\<rparr>, None)
          else if op = JNum 7 then (close_ws 4000 ''server reconnect'' s, None)
          else (s, None))"

section \<open>Socket callbacks and the public API\<close>

text \<open>\<open>None\<close> stands for data that is not JSON.\<close>

definition on_message :: "json option \<Rightarrow> real \<Rightarrow> gw \<Rightarrow> gw" where
  "on_message data r s =
     (case data of None \<Rightarrow> s | Some frame \<Rightarrow> fst (handle_frame frame r s))"

definition on_close :: "real \<Rightarrow> gw \<Rightarrow> gw" where
  "on_close r s =
     (let s1 = clear_heartbeat (s\<lparr>ws := None\<rparr>) in
      if intentional_close s1 then set_state Disconnected s1 else schedule_reconnect r s1)"

definition connect :: "gw \<Rightarrow> gw" where
  "connect s =
     (if ws s \<noteq> None then s else open_web_socket (s\<lparr>intentional_close := False\<rparr>))"

definition detach_socket :: "nat \<Rightarrow> gw \<Rightarrow> gw" where
  "detach_socket i s =
     s\<lparr>sockets := (sockets s)(i := map_option (\<lambda>k. k\<lparr>attached := False\<rparr>) (sockets s i))\<rparr>"

definition disconnect :: "gw \<Rightarrow> gw" where
  "disconnect s =
     (let s1 = (clear_timers (s\<lparr>intentional_close := True\<rparr>))
                 \<lparr>session_id := JNull, last_seq := JNum 0\<rparr>;
          s2 = (case ws s1 of
                  None \<Rightarrow> s1
                | Some i \<Rightarrow>
                    (close_socket i 1000 ''client disconnect'' (detach_socket i s1))\<lparr>ws := None\<rparr>)
      in set_state Disconnected s2)"

section \<open>The machine\<close>

datatype input =
    CallConnect
  | CallDisconnect
  | CallUpdateToken string
  | CallOn nat
  | CallOff nat
  | SockOpened nat
  | SockMessage nat "json option" real
  | SockClosed nat real
  | SockError nat
  | TimerFires nat

definition sock_event :: "nat \<Rightarrow> (sock \<Rightarrow> gw \<Rightarrow> gw) \<Rightarrow> gw \<Rightarrow> gw" where
  "sock_event i f s = (case sockets s i of None \<Rightarrow> s | Some k \<Rightarrow> f k s)"

fun fire :: "nat \<Rightarrow> timer \<Rightarrow> gw \<Rightarrow> gw" where
  "fire t (Timer (FirstBeat n) _) s = first_beat n (clear_timer t s)"
| "fire t (Timer (Beat _) _) s = interval_beat s"
| "fire t (Timer Reopen _) s = open_web_socket ((clear_timer t s)\<lparr>reconnect_timer := None\<rparr>)"

fun gw_step :: "input \<Rightarrow> gw \<Rightarrow> gw" where
  "gw_step CallConnect s = connect s"
| "gw_step CallDisconnect s = disconnect s"
| "gw_step (CallUpdateToken tok) s = update_token tok s"
| "gw_step (CallOn h) s = on_handler h s"
| "gw_step (CallOff h) s = off_handler h s"
| "gw_step (SockOpened i) s =
     sock_event i (\<lambda>k s. if ready k = CONNECTING
        then s\<lparr>sockets := (sockets s)(i \<mapsto> k\<lparr>ready := OPEN\<rparr>)\<rparr> else s) s"
| "gw_step (SockMessage i data r) s =
     sock_event i (\<lambda>k s. if ready k = OPEN \<and> attached k then on_message data r s else s) s"
| "gw_step (SockClosed i r) s =
     sock_event i (\<lambda>k s. if ready k = CLOSED then s
        else (let s1 = s\<lparr>sockets := (sockets s)(i \<mapsto> k\<lparr>ready := CLOSED\<rparr>)\<rparr>
              in if attached k then on_close r s1 else s1)) s"
| "gw_step (SockError i) s =
     sock_event i (\<lambda>k s. if ready k \<noteq> CLOSED \<and> attached k
        then emit (EvError ''WebSocket error'') s else s) s"
| "gw_step (TimerFires t) s = (case timers s t of None \<Rightarrow> s | Some tm \<Rightarrow> fire t tm s)"

end
