(* ===== verification/ChatGatewayLemmas.thy ===== *)
theory ChatGatewayLemmas
  imports ChatGateway
begin

text \<open>
  The lemmas of the gateway client. First the frame of each operation (the fields it leaves
  alone), then two invariants:

  \<^item> \<open>gw_inv\<close> holds in every state any sequence of inputs can reach: the fields that name a
    socket or a timer name a live one, the reconnect delay stays between its bounds, and a
    client that is not disconnected has a socket or a pending reconnect (it is never stuck);
  \<^item> \<open>gw_single\<close> holds when \<open>connect()\<close> is called only on a disconnected client, as the chat
    provider does: one live socket at most, no reconnect pending beside it, and after
    \<open>disconnect()\<close> neither.
\<close>

section \<open>Frames\<close>

lemma log_out_frame [simp]:
  "base_url (log_out es s) = base_url s"
  "token (log_out es s) = token s"
  "handlers (log_out es s) = handlers s"
  "ws (log_out es s) = ws s"
  "conn (log_out es s) = conn s"
  "session_id (log_out es s) = session_id s"
  "last_seq (log_out es s) = last_seq s"
  "hb_interval (log_out es s) = hb_interval s"
  "ack_pending (log_out es s) = ack_pending s"
  "reconnect_timer (log_out es s) = reconnect_timer s"
  "reconnect_delay (log_out es s) = reconnect_delay s"
  "reconnect_attempts (log_out es s) = reconnect_attempts s"
  "intentional_close (log_out es s) = intentional_close s"
  "origin (log_out es s) = origin s"
  "sockets (log_out es s) = sockets s"
  "timers (log_out es s) = timers s"
  "next_id (log_out es s) = next_id s"
  by (simp_all add: log_out_def)

lemma out_log_out [simp]: "out (log_out es s) = out s @ es"
  by (simp add: log_out_def)

lemma emit_frame [simp]:
  "base_url (emit ev s) = base_url s"
  "token (emit ev s) = token s"
  "handlers (emit ev s) = handlers s"
  "ws (emit ev s) = ws s"
  "conn (emit ev s) = conn s"
  "session_id (emit ev s) = session_id s"
  "last_seq (emit ev s) = last_seq s"
  "hb_interval (emit ev s) = hb_interval s"
  "ack_pending (emit ev s) = ack_pending s"
  "reconnect_timer (emit ev s) = reconnect_timer s"
  "reconnect_delay (emit ev s) = reconnect_delay s"
  "reconnect_attempts (emit ev s) = reconnect_attempts s"
  "intentional_close (emit ev s) = intentional_close s"
  "origin (emit ev s) = origin s"
  "sockets (emit ev s) = sockets s"
  "timers (emit ev s) = timers s"
  "next_id (emit ev s) = next_id s"
  by (simp_all add: emit_def)

lemma out_emit [simp]: "out (emit ev s) = out s @ map (\<lambda>h. Deliver h ev) (handlers s)"
  by (simp add: emit_def)

lemma set_state_frame [simp]:
  "base_url (set_state st s) = base_url s"
  "token (set_state st s) = token s"
  "handlers (set_state st s) = handlers s"
  "ws (set_state st s) = ws s"
  "session_id (set_state st s) = session_id s"
  "last_seq (set_state st s) = last_seq s"
  "hb_interval (set_state st s) = hb_interval s"
  "ack_pending (set_state st s) = ack_pending s"
  "reconnect_timer (set_state st s) = reconnect_timer s"
  "reconnect_delay (set_state st s) = reconnect_delay s"
  "reconnect_attempts (set_state st s) = reconnect_attempts s"
  "intentional_close (set_state st s) = intentional_close s"
  "origin (set_state st s) = origin s"
  "sockets (set_state st s) = sockets s"
  "timers (set_state st s) = timers s"
  "next_id (set_state st s) = next_id s"
  by (simp_all add: set_state_def)

lemma conn_set_state [simp]: "conn (set_state st s) = st"
  by (simp add: set_state_def)

lemma set_timer_frame [simp]:
  "base_url (set_timer j d s) = base_url s"
  "token (set_timer j d s) = token s"
  "handlers (set_timer j d s) = handlers s"
  "ws (set_timer j d s) = ws s"
  "conn (set_timer j d s) = conn s"
  "session_id (set_timer j d s) = session_id s"
  "last_seq (set_timer j d s) = last_seq s"
  "hb_interval (set_timer j d s) = hb_interval s"
  "ack_pending (set_timer j d s) = ack_pending s"
  "reconnect_timer (set_timer j d s) = reconnect_timer s"
  "reconnect_delay (set_timer j d s) = reconnect_delay s"
  "reconnect_attempts (set_timer j d s) = reconnect_attempts s"
  "intentional_close (set_timer j d s) = intentional_close s"
  "origin (set_timer j d s) = origin s"
  "sockets (set_timer j d s) = sockets s"
  "out (set_timer j d s) = out s"
  by (simp_all add: set_timer_def)

lemma set_timer_writes [simp]:
  "timers (set_timer j d s) = (timers s)(next_id s \<mapsto> Timer j d)"
  "next_id (set_timer j d s) = Suc (next_id s)"
  by (simp_all add: set_timer_def)

lemma clear_timer_frame [simp]:
  "base_url (clear_timer t s) = base_url s"
  "token (clear_timer t s) = token s"
  "handlers (clear_timer t s) = handlers s"
  "ws (clear_timer t s) = ws s"
  "conn (clear_timer t s) = conn s"
  "session_id (clear_timer t s) = session_id s"
  "last_seq (clear_timer t s) = last_seq s"
  "hb_interval (clear_timer t s) = hb_interval s"
  "ack_pending (clear_timer t s) = ack_pending s"
  "reconnect_timer (clear_timer t s) = reconnect_timer s"
  "reconnect_delay (clear_timer t s) = reconnect_delay s"
  "reconnect_attempts (clear_timer t s) = reconnect_attempts s"
  "intentional_close (clear_timer t s) = intentional_close s"
  "origin (clear_timer t s) = origin s"
  "sockets (clear_timer t s) = sockets s"
  "next_id (clear_timer t s) = next_id s"
  "out (clear_timer t s) = out s"
  by (simp_all add: clear_timer_def)

lemma timers_clear_timer [simp]: "timers (clear_timer t s) = (timers s)(t := None)"
  by (simp add: clear_timer_def)

lemma close_socket_frame [simp]:
  "base_url (close_socket i c r s) = base_url s"
  "token (close_socket i c r s) = token s"
  "handlers (close_socket i c r s) = handlers s"
  "ws (close_socket i c r s) = ws s"
  "conn (close_socket i c r s) = conn s"
  "session_id (close_socket i c r s) = session_id s"
  "last_seq (close_socket i c r s) = last_seq s"
  "hb_interval (close_socket i c r s) = hb_interval s"
  "ack_pending (close_socket i c r s) = ack_pending s"
  "reconnect_timer (close_socket i c r s) = reconnect_timer s"
  "reconnect_delay (close_socket i c r s) = reconnect_delay s"
  "reconnect_attempts (close_socket i c r s) = reconnect_attempts s"
  "intentional_close (close_socket i c r s) = intentional_close s"
  "origin (close_socket i c r s) = origin s"
  "timers (close_socket i c r s) = timers s"
  "next_id (close_socket i c r s) = next_id s"
  by (simp_all add: close_socket_def split: option.split)

lemma close_ws_frame [simp]:
  "base_url (close_ws c r s) = base_url s"
  "token (close_ws c r s) = token s"
  "handlers (close_ws c r s) = handlers s"
  "ws (close_ws c r s) = ws s"
  "conn (close_ws c r s) = conn s"
  "session_id (close_ws c r s) = session_id s"
  "last_seq (close_ws c r s) = last_seq s"
  "hb_interval (close_ws c r s) = hb_interval s"
  "ack_pending (close_ws c r s) = ack_pending s"
  "reconnect_timer (close_ws c r s) = reconnect_timer s"
  "reconnect_delay (close_ws c r s) = reconnect_delay s"
  "reconnect_attempts (close_ws c r s) = reconnect_attempts s"
  "intentional_close (close_ws c r s) = intentional_close s"
  "origin (close_ws c r s) = origin s"
  "timers (close_ws c r s) = timers s"
  "next_id (close_ws c r s) = next_id s"
  by (simp_all add: close_ws_def split: option.split)

lemma send_frame_frame [simp]:
  "base_url (send_frame op d s) = base_url s"
  "token (send_frame op d s) = token s"
  "handlers (send_frame op d s) = handlers s"
  "ws (send_frame op d s) = ws s"
  "conn (send_frame op d s) = conn s"
  "session_id (send_frame op d s) = session_id s"
  "last_seq (send_frame op d s) = last_seq s"
  "hb_interval (send_frame op d s) = hb_interval s"
  "ack_pending (send_frame op d s) = ack_pending s"
  "reconnect_timer (send_frame op d s) = reconnect_timer s"
  "reconnect_delay (send_frame op d s) = reconnect_delay s"
  "reconnect_attempts (send_frame op d s) = reconnect_attempts s"
  "intentional_close (send_frame op d s) = intentional_close s"
  "origin (send_frame op d s) = origin s"
  "sockets (send_frame op d s) = sockets s"
  "timers (send_frame op d s) = timers s"
  "next_id (send_frame op d s) = next_id s"
  by (simp_all add: send_frame_def split: option.split)

lemma clear_heartbeat_frame [simp]:
  "base_url (clear_heartbeat s) = base_url s"
  "token (clear_heartbeat s) = token s"
  "handlers (clear_heartbeat s) = handlers s"
  "ws (clear_heartbeat s) = ws s"
  "conn (clear_heartbeat s) = conn s"
  "session_id (clear_heartbeat s) = session_id s"
  "last_seq (clear_heartbeat s) = last_seq s"
  "ack_pending (clear_heartbeat s) = ack_pending s"
  "reconnect_timer (clear_heartbeat s) = reconnect_timer s"
  "reconnect_delay (clear_heartbeat s) = reconnect_delay s"
  "reconnect_attempts (clear_heartbeat s) = reconnect_attempts s"
  "intentional_close (clear_heartbeat s) = intentional_close s"
  "origin (clear_heartbeat s) = origin s"
  "sockets (clear_heartbeat s) = sockets s"
  "next_id (clear_heartbeat s) = next_id s"
  "out (clear_heartbeat s) = out s"
  by (simp_all add: clear_heartbeat_def split: option.split)

lemma hb_clear_heartbeat [simp]: "hb_interval (clear_heartbeat s) = None"
  by (simp add: clear_heartbeat_def split: option.split)

lemma send_heartbeat_frame [simp]:
  "base_url (send_heartbeat s) = base_url s"
  "token (send_heartbeat s) = token s"
  "handlers (send_heartbeat s) = handlers s"
  "ws (send_heartbeat s) = ws s"
  "conn (send_heartbeat s) = conn s"
  "session_id (send_heartbeat s) = session_id s"
  "last_seq (send_heartbeat s) = last_seq s"
  "hb_interval (send_heartbeat s) = hb_interval s"
  "reconnect_timer (send_heartbeat s) = reconnect_timer s"
  "reconnect_delay (send_heartbeat s) = reconnect_delay s"
  "reconnect_attempts (send_heartbeat s) = reconnect_attempts s"
  "intentional_close (send_heartbeat s) = intentional_close s"
  "origin (send_heartbeat s) = origin s"
  "sockets (send_heartbeat s) = sockets s"
  "timers (send_heartbeat s) = timers s"
  "next_id (send_heartbeat s) = next_id s"
  by (simp_all add: send_heartbeat_def)

lemma ack_send_heartbeat [simp]: "ack_pending (send_heartbeat s)"
  by (simp add: send_heartbeat_def)

section \<open>The unconditional invariant\<close>

definition live :: "gw \<Rightarrow> nat \<Rightarrow> bool" where
  "live s i = (case sockets s i of None \<Rightarrow> False | Some k \<Rightarrow> attached k \<and> ready k \<noteq> CLOSED)"

fun is_beat :: "timer option \<Rightarrow> bool" where
  "is_beat (Some (Timer (Beat _) _)) = True"
| "is_beat _ = False"

fun is_reopen :: "timer option \<Rightarrow> bool" where
  "is_reopen (Some (Timer Reopen _)) = True"
| "is_reopen _ = False"

definition refs_live :: "gw \<Rightarrow> bool" where
  "refs_live s \<longleftrightarrow>
     (\<forall>i. ws s = Some i \<longrightarrow> live s i) \<and>
     (\<forall>t. hb_interval s = Some t \<longrightarrow> is_beat (timers s t)) \<and>
     (\<forall>t. reconnect_timer s = Some t \<longrightarrow> is_reopen (timers s t)) \<and>
     (\<forall>i. next_id s \<le> i \<longrightarrow> sockets s i = None \<and> timers s i = None)"

definition delay_ok :: "gw \<Rightarrow> bool" where
  "delay_ok s \<longleftrightarrow> 1000 \<le> reconnect_delay s \<and> reconnect_delay s \<le> 30000"

definition has_way_back :: "gw \<Rightarrow> bool" where
  "has_way_back s \<longleftrightarrow> ws s \<noteq> None \<or> (\<exists>t. is_reopen (timers s t))"

definition gw_inv :: "gw \<Rightarrow> bool" where
  "gw_inv s \<longleftrightarrow> refs_live s \<and> delay_ok s \<and> (conn s \<noteq> Disconnected \<longrightarrow> has_way_back s) \<and>
     (conn s = Disconnected \<longrightarrow> intentional_close s \<or> (\<forall>i. \<not> live s i))"

text \<open>The only assumption on an input: \<open>Math.random()\<close> is in \<open>[0, 1)\<close>.\<close>

fun random_ok :: "input \<Rightarrow> bool" where
  "random_ok (SockMessage _ _ r) = (0 \<le> r \<and> r < 1)"
| "random_ok (SockClosed _ r) = (0 \<le> r \<and> r < 1)"
| "random_ok _ = True"

lemma is_reopenE:
  assumes "is_reopen t" obtains d where "t = Some (Timer Reopen d)"
  using assms by (cases t rule: is_reopen.cases) auto

lemma is_beat_not_reopen: "is_beat t \<Longrightarrow> \<not> is_reopen t"
  by (cases t rule: is_beat.cases) auto

lemma next_delay_bounds:
  assumes "0 \<le> r" "r < 1" "1000 \<le> prev"
  shows "1000 \<le> next_delay r prev" "next_delay r prev \<le> 30000" "next_delay r prev \<le> 3 * prev"
proof -
  have pos: "0 \<le> r * real_of_int (prev * 3 - 1000)" using assms by simp
  then have "1000 \<le> \<lfloor>1000 + r * real_of_int (prev * 3 - 1000)\<rfloor>"
    by (simp add: le_floor_iff)
  then show "1000 \<le> next_delay r prev" by (simp add: next_delay_def)
  show "next_delay r prev \<le> 30000" by (simp add: next_delay_def)
  have "r * real_of_int (prev * 3 - 1000) \<le> 1 * real_of_int (prev * 3 - 1000)"
    using assms by (intro mult_right_mono) auto
  then have "1000 + r * real_of_int (prev * 3 - 1000) \<le> real_of_int (3 * prev)" by simp
  from floor_mono [OF this]
  have "\<lfloor>1000 + r * real_of_int (prev * 3 - 1000)\<rfloor> \<le> 3 * prev" by (simp only: floor_of_int)
  then show "next_delay r prev \<le> 3 * prev" by (simp add: next_delay_def)
qed

lemma refs_liveI:
  "(\<And>i. ws s = Some i \<Longrightarrow> live s i) \<Longrightarrow>
   (\<And>t. hb_interval s = Some t \<Longrightarrow> is_beat (timers s t)) \<Longrightarrow>
   (\<And>t. reconnect_timer s = Some t \<Longrightarrow> is_reopen (timers s t)) \<Longrightarrow>
   (\<And>i. next_id s \<le> i \<Longrightarrow> sockets s i = None \<and> timers s i = None) \<Longrightarrow> refs_live s"
  by (simp add: refs_live_def)

text \<open>An operation that writes none of the fields an invariant reads keeps it.\<close>

lemma live_cong: "sockets s' i = sockets s i \<Longrightarrow> live s' i = live s i"
  by (simp add: live_def)

lemma refs_live_frame:
  "refs_live s \<Longrightarrow> ws s' = ws s \<Longrightarrow> hb_interval s' = hb_interval s \<Longrightarrow>
   reconnect_timer s' = reconnect_timer s \<Longrightarrow> sockets s' = sockets s \<Longrightarrow>
   timers s' = timers s \<Longrightarrow> next_id s' = next_id s \<Longrightarrow> refs_live s'"
  by (simp add: refs_live_def live_def)

lemma refs_live_clear_heartbeat: "refs_live s \<Longrightarrow> refs_live (clear_heartbeat s)"
  by (auto simp: refs_live_def live_def clear_heartbeat_def is_beat_not_reopen split: option.splits)

lemma reopen_clear_heartbeat:
  "refs_live s \<Longrightarrow> is_reopen (timers (clear_heartbeat s) t) = is_reopen (timers s t)"
  by (auto simp: refs_live_def clear_heartbeat_def is_beat_not_reopen split: option.splits)

lemma refs_live_set_timer: "refs_live s \<Longrightarrow> refs_live (set_timer j d s)"
  by (auto simp: refs_live_def live_def)

lemma live_close_socket: "live (close_socket j c r s) i = live s i"
  by (auto simp: live_def close_socket_def split: option.splits)

lemma live_close_ws: "live (close_ws c r s) i = live s i"
  by (auto simp: close_ws_def live_close_socket split: option.splits)

lemma sockets_close_socket_None:
  "sockets (close_socket j c r s) i = None \<longleftrightarrow> sockets s i = None"
  by (auto simp: close_socket_def split: option.splits)

lemma sockets_close_ws_None: "sockets (close_ws c r s) i = None \<longleftrightarrow> sockets s i = None"
  by (auto simp: close_ws_def sockets_close_socket_None split: option.splits)

lemma refs_live_close_ws: "refs_live s \<Longrightarrow> refs_live (close_ws c r s)"
  by (simp add: refs_live_def live_close_ws sockets_close_ws_None)

section \<open>Calm steps\<close>

text \<open>
  Most callbacks neither open nor end a connection: they keep the links between fields, sockets
  and timers, and do not disconnect the client. \<open>calm s s'\<close> says so of a whole callback.
\<close>

definition same_links :: "gw \<Rightarrow> gw \<Rightarrow> bool" where
  "same_links s s' \<longleftrightarrow> ws s' = ws s \<and> reconnect_timer s' = reconnect_timer s \<and>
     intentional_close s' = intentional_close s \<and>
     (\<forall>i. live s' i = live s i) \<and>
     (\<forall>t. is_reopen (timers s' t) = is_reopen (timers s t))"

definition calm :: "gw \<Rightarrow> gw \<Rightarrow> bool" where
  "calm s s' \<longleftrightarrow> (refs_live s \<longrightarrow> refs_live s' \<and> same_links s s') \<and> (delay_ok s \<longrightarrow> delay_ok s') \<and>
     (conn s' = Disconnected \<longrightarrow> conn s = Disconnected)"

named_theorems calm_intros \<open>composition rules for calm steps\<close>

lemma calm_refl [calm_intros]: "calm s s"
  by (simp add: calm_def same_links_def)

lemma calm_trans: "calm s t \<Longrightarrow> calm t u \<Longrightarrow> calm s u"
  by (auto simp: calm_def same_links_def)

lemma calm_frame:
  "ws s' = ws s \<Longrightarrow> hb_interval s' = hb_interval s \<Longrightarrow> reconnect_timer s' = reconnect_timer s \<Longrightarrow>
   sockets s' = sockets s \<Longrightarrow> timers s' = timers s \<Longrightarrow> next_id s' = next_id s \<Longrightarrow>
   intentional_close s' = intentional_close s \<Longrightarrow> (delay_ok s \<Longrightarrow> delay_ok s') \<Longrightarrow>
   (conn s' = Disconnected \<Longrightarrow> conn s = Disconnected) \<Longrightarrow> calm s s'"
  by (auto simp: calm_def same_links_def refs_live_def live_def)

lemma delay_ok_frame: "reconnect_delay s' = reconnect_delay s \<Longrightarrow> delay_ok s' = delay_ok s"
  by (simp add: delay_ok_def)

lemma calm_log_out [calm_intros]: "calm s t \<Longrightarrow> calm s (log_out es t)"
  by (erule calm_trans, rule calm_frame) (auto simp: delay_ok_def)

lemma calm_emit [calm_intros]: "calm s t \<Longrightarrow> calm s (emit ev t)"
  by (erule calm_trans, rule calm_frame) (auto simp: delay_ok_def)

lemma calm_set_state [calm_intros]: "st \<noteq> Disconnected \<Longrightarrow> calm s t \<Longrightarrow> calm s (set_state st t)"
  by (erule calm_trans, rule calm_frame) (auto simp: delay_ok_def)

lemma calm_send_frame [calm_intros]: "calm s t \<Longrightarrow> calm s (send_frame op d t)"
  by (erule calm_trans, rule calm_frame) (auto simp: delay_ok_def)

lemma calm_send_heartbeat [calm_intros]: "calm s t \<Longrightarrow> calm s (send_heartbeat t)"
  by (erule calm_trans, rule calm_frame) (auto simp: delay_ok_def)

lemma calm_ack [calm_intros]: "calm s t \<Longrightarrow> calm s (t\<lparr>ack_pending := b\<rparr>)"
  by (erule calm_trans, rule calm_frame) (auto simp: delay_ok_def)

lemma calm_seq [calm_intros]: "calm s t \<Longrightarrow> calm s (t\<lparr>last_seq := v\<rparr>)"
  by (erule calm_trans, rule calm_frame) (auto simp: delay_ok_def)

lemma calm_session [calm_intros]: "calm s t \<Longrightarrow> calm s (t\<lparr>session_id := v\<rparr>)"
  by (erule calm_trans, rule calm_frame) (auto simp: delay_ok_def)

lemma calm_attempts [calm_intros]: "calm s t \<Longrightarrow> calm s (t\<lparr>reconnect_attempts := n\<rparr>)"
  by (erule calm_trans, rule calm_frame) (auto simp: delay_ok_def)

lemma calm_delay [calm_intros]: "calm s t \<Longrightarrow> calm s (t\<lparr>reconnect_delay := 1000\<rparr>)"
  by (erule calm_trans, rule calm_frame) (auto simp: delay_ok_def)

lemma calm_token [calm_intros]: "calm s t \<Longrightarrow> calm s (t\<lparr>token := tok\<rparr>)"
  by (erule calm_trans, rule calm_frame) (auto simp: delay_ok_def)

lemma calm_handlers [calm_intros]: "calm s t \<Longrightarrow> calm s (t\<lparr>handlers := hs\<rparr>)"
  by (erule calm_trans, rule calm_frame) (auto simp: delay_ok_def)

lemma calm_clear_heartbeat [calm_intros]: "calm s t \<Longrightarrow> calm s (clear_heartbeat t)"
  by (erule calm_trans)
    (auto simp: calm_def same_links_def refs_live_clear_heartbeat reopen_clear_heartbeat live_def
      delay_ok_def)

lemma calm_close_ws [calm_intros]: "calm s t \<Longrightarrow> calm s (close_ws c r t)"
  by (erule calm_trans)
    (auto simp: calm_def same_links_def refs_live_close_ws live_close_ws delay_ok_def)

lemma calm_first_timer [calm_intros]: "calm s t \<Longrightarrow> calm s (set_timer (FirstBeat n) d t)"
  by (erule calm_trans)
    (auto simp: calm_def same_links_def refs_live_set_timer live_def delay_ok_def refs_live_def)

lemma calm_beat_timer [calm_intros]:
  "calm s t \<Longrightarrow> calm s ((set_timer (Beat n) d t)\<lparr>hb_interval := Some (next_id t)\<rparr>)"
  by (erule calm_trans) (auto simp: calm_def same_links_def refs_live_def live_def delay_ok_def)

lemma calm_clear_first:
  "timers s t = Some (Timer (FirstBeat n) d) \<Longrightarrow> calm s (clear_timer t s)"
  by (auto simp: calm_def same_links_def refs_live_def live_def delay_ok_def)

lemma calm_start_heartbeat [calm_intros]: "calm s t \<Longrightarrow> calm s (start_heartbeat n r t)"
  by (auto simp: start_heartbeat_def Let_def intro!: calm_intros)

lemma calm_handle_hello: "calm s (fst (handle_hello d r s))"
  by (auto simp: handle_hello_def Let_def intro!: calm_intros split: sum.splits)

lemma calm_handle_ready [calm_intros]: "calm s t \<Longrightarrow> calm s (fst (handle_ready d t))"
  by (auto simp: handle_ready_def Let_def intro!: calm_intros split: sum.splits)

lemma calm_handle_dispatch [calm_intros]: "calm s t \<Longrightarrow> calm s (fst (handle_dispatch n d t))"
  by (auto simp: handle_dispatch_def handle_resumed_def intro!: calm_intros)

lemma calm_handle_frame: "calm s (fst (handle_frame f r s))"
  by (auto simp: handle_frame_def Let_def calm_handle_hello intro!: calm_intros split: sum.splits)

lemma handle_frame_intentional: "intentional_close s \<Longrightarrow> fst (handle_frame f r s) = s"
  by (simp add: handle_frame_def)

lemma calm_on_message: "calm s (on_message m r s)"
  by (auto simp: on_message_def calm_handle_frame intro: calm_refl split: option.splits)

lemma calm_interval_beat: "calm s (interval_beat s)"
  by (auto simp: interval_beat_def intro!: calm_intros)

lemma calm_first_beat: "calm s t \<Longrightarrow> calm s (first_beat n t)"
  unfolding first_beat_def Let_def by (rule calm_beat_timer, rule calm_send_heartbeat)

lemma gw_inv_calm:
  "gw_inv s \<Longrightarrow> calm s s' \<Longrightarrow> (conn s = Disconnected \<Longrightarrow> conn s' = Disconnected) \<Longrightarrow> gw_inv s'"
  by (auto simp: gw_inv_def calm_def same_links_def has_way_back_def)

section \<open>Steps that open or end a connection\<close>

lemma open_web_socket_writes [simp]:
  "ws (open_web_socket s) = Some (next_id s)"
  "conn (open_web_socket s) = (if truthy (session_id s) then Resuming else Connecting)"
  "sockets (open_web_socket s) = (sockets s)(next_id s \<mapsto> \<lparr>ready = CONNECTING, attached = True\<rparr>)"
  "next_id (open_web_socket s) = Suc (next_id s)"
  "timers (open_web_socket s) = timers s"
  "hb_interval (open_web_socket s) = hb_interval s"
  "reconnect_timer (open_web_socket s) = reconnect_timer s"
  "reconnect_delay (open_web_socket s) = reconnect_delay s"
  "intentional_close (open_web_socket s) = intentional_close s"
  "session_id (open_web_socket s) = session_id s"
  "last_seq (open_web_socket s) = last_seq s"
  by (simp_all add: open_web_socket_def Let_def)

lemma schedule_reconnect_writes [simp]:
  "ws (schedule_reconnect r s) = ws s"
  "conn (schedule_reconnect r s) = Reconnecting"
  "sockets (schedule_reconnect r s) = sockets s"
  "next_id (schedule_reconnect r s) = Suc (next_id s)"
  "timers (schedule_reconnect r s) =
     (timers s)(next_id s \<mapsto> Timer Reopen (next_delay r (reconnect_delay s)))"
  "hb_interval (schedule_reconnect r s) = hb_interval s"
  "reconnect_timer (schedule_reconnect r s) = Some (next_id s)"
  "reconnect_delay (schedule_reconnect r s) = next_delay r (reconnect_delay s)"
  "intentional_close (schedule_reconnect r s) = intentional_close s"
  "session_id (schedule_reconnect r s) = session_id s"
  "last_seq (schedule_reconnect r s) = last_seq s"
  by (simp_all add: schedule_reconnect_def Let_def)

lemma clear_timers_frame [simp]:
  "ws (clear_timers s) = ws s" "conn (clear_timers s) = conn s"
  "sockets (clear_timers s) = sockets s" "next_id (clear_timers s) = next_id s"
  "reconnect_delay (clear_timers s) = reconnect_delay s"
  "intentional_close (clear_timers s) = intentional_close s"
  "hb_interval (clear_timers s) = None" "reconnect_timer (clear_timers s) = None"
  "handlers (clear_timers s) = handlers s" "out (clear_timers s) = out s"
  by (auto simp: clear_timers_def Let_def split: option.splits)

lemma timers_clear_timers:
  "timers (clear_timers s) t =
     (if hb_interval s = Some t \<or> reconnect_timer s = Some t then None else timers s t)"
  by (auto simp: clear_timers_def Let_def clear_heartbeat_def split: option.splits)

lemma disconnect_writes [simp]:
  "ws (disconnect s) = None" "conn (disconnect s) = Disconnected"
  "next_id (disconnect s) = next_id s" "intentional_close (disconnect s)"
  "hb_interval (disconnect s) = None" "reconnect_timer (disconnect s) = None"
  "reconnect_delay (disconnect s) = reconnect_delay s"
  "session_id (disconnect s) = JNull" "last_seq (disconnect s) = JNum 0"
  by (auto simp: disconnect_def Let_def detach_socket_def split: option.split)

lemma timers_disconnect:
  "timers (disconnect s) t =
     (if hb_interval s = Some t \<or> reconnect_timer s = Some t then None else timers s t)"
  by (auto simp: disconnect_def Let_def detach_socket_def timers_clear_timers split: option.split)

lemma live_disconnect: "live (disconnect s) i \<longleftrightarrow> live s i \<and> ws s \<noteq> Some i"
  by (auto simp: disconnect_def Let_def detach_socket_def close_socket_def live_def
      split: option.splits)

lemma sockets_disconnect_None: "sockets (disconnect s) i = None \<longleftrightarrow> sockets s i = None"
  by (auto simp: disconnect_def Let_def detach_socket_def close_socket_def split: option.splits)

lemma gw_inv_disconnect: "gw_inv s \<Longrightarrow> gw_inv (disconnect s)"
  by (simp add: gw_inv_def refs_live_def delay_ok_def timers_disconnect sockets_disconnect_None)

lemma gw_inv_connect: "gw_inv s \<Longrightarrow> gw_inv (connect s)"
  by (auto simp: gw_inv_def refs_live_def delay_ok_def has_way_back_def connect_def live_def)

lemma gw_inv_reopen:
  "gw_inv s \<Longrightarrow> timers s t = Some (Timer Reopen d) \<Longrightarrow>
   gw_inv (open_web_socket ((clear_timer t s)\<lparr>reconnect_timer := None\<rparr>))"
  by (auto simp: gw_inv_def refs_live_def delay_ok_def has_way_back_def live_def)

text \<open>The close callback, with the socket already marked closed.\<close>

definition closed_socket :: "nat \<Rightarrow> sock \<Rightarrow> gw \<Rightarrow> gw" where
  "closed_socket i k s = s\<lparr>sockets := (sockets s)(i \<mapsto> k\<lparr>ready := CLOSED\<rparr>)\<rparr>"

lemma gw_inv_on_close:
  assumes "gw_inv s" "sockets s i = Some k" "0 \<le> r" "r < 1"
  shows "gw_inv (on_close r (closed_socket i k s))"
proof -
  let ?s = "(closed_socket i k s)\<lparr>ws := None\<rparr>"
  from assms have "refs_live ?s"
    by (auto simp: gw_inv_def refs_live_def live_def closed_socket_def)
  then have rl: "refs_live (clear_heartbeat ?s)" by (rule refs_live_clear_heartbeat)
  have d: "1000 \<le> reconnect_delay s" using assms by (simp add: gw_inv_def delay_ok_def)
  show ?thesis
  proof (cases "intentional_close s")
    case True
    with rl assms show ?thesis
      by (auto simp: on_close_def Let_def gw_inv_def refs_live_def delay_ok_def live_def
          closed_socket_def)
  next
    case False
    with rl next_delay_bounds [OF assms(3,4) d] show ?thesis
      by (auto simp: on_close_def Let_def gw_inv_def refs_live_def delay_ok_def live_def
          has_way_back_def closed_socket_def intro: exI [of _ "next_id s"])
  qed
qed

lemma gw_inv_closed_detached:
  "gw_inv s \<Longrightarrow> sockets s i = Some k \<Longrightarrow> \<not> attached k \<Longrightarrow> gw_inv (closed_socket i k s)"
  by (auto simp: gw_inv_def refs_live_def live_def delay_ok_def has_way_back_def closed_socket_def)

lemma calm_opened:
  "sockets s i = Some k \<Longrightarrow> ready k = CONNECTING \<Longrightarrow>
   calm s (s\<lparr>sockets := (sockets s)(i \<mapsto> k\<lparr>ready := OPEN\<rparr>)\<rparr>)"
  by (auto simp: calm_def same_links_def refs_live_def live_def delay_ok_def)

lemma gw_inv_opened:
  "gw_inv s \<Longrightarrow> sockets s i = Some k \<Longrightarrow> ready k = CONNECTING \<Longrightarrow>
   gw_inv (s\<lparr>sockets := (sockets s)(i \<mapsto> k\<lparr>ready := OPEN\<rparr>)\<rparr>)"
  by (erule gw_inv_calm) (auto simp: calm_opened)

lemma on_message_state:
  assumes "gw_inv s" "sockets s i = Some k" "ready k = OPEN" "attached k"
    and "conn s = Disconnected"
  shows "on_message m r s = s"
proof -
  have "live s i" using assms by (simp add: live_def)
  with assms have "intentional_close s" by (auto simp: gw_inv_def)
  then show ?thesis by (auto simp: on_message_def handle_frame_intentional split: option.splits)
qed

lemma interval_beat_conn [simp]: "conn (interval_beat s) = conn s"
  by (simp add: interval_beat_def)

lemma first_beat_conn [simp]: "conn (first_beat n s) = conn s"
  by (simp add: first_beat_def Let_def)

lemma gw_inv_fire: "gw_inv s \<Longrightarrow> timers s t = Some tm \<Longrightarrow> gw_inv (fire t tm s)"
proof (cases tm)
  case (Timer j d)
  assume inv: "gw_inv s" and tm: "timers s t = Some tm"
  show ?thesis
  proof (cases j)
    case (FirstBeat n)
    with tm Timer inv show ?thesis
      by (auto intro!: gw_inv_calm [OF inv] calm_first_beat calm_clear_first)
  next
    case (Beat n)
    with Timer inv show ?thesis by (auto intro!: gw_inv_calm [OF inv] calm_interval_beat)
  next
    case Reopen
    with Timer inv tm show ?thesis by (simp add: gw_inv_reopen)
  qed
qed

lemma gw_inv_simple:
  "gw_inv s \<Longrightarrow> gw_inv (update_token tok s)" "gw_inv s \<Longrightarrow> gw_inv (on_handler h s)"
  "gw_inv s \<Longrightarrow> gw_inv (off_handler h s)" "gw_inv s \<Longrightarrow> gw_inv (emit ev s)"
  by (erule gw_inv_calm;
      auto simp: update_token_def on_handler_def off_handler_def intro!: calm_intros)+

lemma gw_inv_step:
  assumes inv: "gw_inv s" and r: "random_ok e"
  shows "gw_inv (gw_step e s)"
proof (cases e)
  case (SockMessage i m r)
  then show ?thesis
    using inv on_message_state [OF inv]
    by (auto simp: sock_event_def intro!: gw_inv_calm [OF inv calm_on_message] split: option.splits)
next
  case (SockClosed i r)
  then show ?thesis
    using inv assms(2) gw_inv_on_close [OF inv] gw_inv_closed_detached [OF inv]
    by (auto simp: sock_event_def Let_def closed_socket_def split: option.splits)
qed (use inv in \<open>auto simp: gw_inv_connect gw_inv_disconnect gw_inv_simple gw_inv_opened gw_inv_fire
       sock_event_def split: option.splits\<close>)

lemma gw_inv_new: "gw_inv (new_client org base tok)"
  by (simp add: gw_inv_def refs_live_def delay_ok_def new_client_def live_def)

interpretation gwi: invariant_machine gw_step "\<lambda>e _. random_ok e" gw_inv
  by unfold_locales (rule gw_inv_step)

section \<open>One connection at a time\<close>

definition gw_single :: "gw \<Rightarrow> bool" where
  "gw_single s \<longleftrightarrow> gw_inv s \<and>
     (\<forall>i. live s i \<longrightarrow> ws s = Some i) \<and>
     (\<forall>t. is_reopen (timers s t) \<longrightarrow> reconnect_timer s = Some t) \<and>
     (ws s \<noteq> None \<longrightarrow> reconnect_timer s = None) \<and>
     (conn s = Disconnected \<longrightarrow> ws s = None \<and> reconnect_timer s = None) \<and>
     (intentional_close s \<longrightarrow> conn s = Disconnected)"

text \<open>The provider's discipline: \<open>connect()\<close> only on a client that is disconnected.\<close>

fun disciplined :: "input \<Rightarrow> gw \<Rightarrow> bool" where
  "disciplined CallConnect s = (conn s = Disconnected)"
| "disciplined e s = random_ok e"

lemma disciplined_random: "disciplined e s \<Longrightarrow> random_ok e"
  by (cases e) auto

lemma gw_single_calm:
  "gw_single s \<Longrightarrow> calm s s' \<Longrightarrow> gw_inv s' \<Longrightarrow>
   (conn s = Disconnected \<Longrightarrow> conn s' = Disconnected) \<Longrightarrow> gw_single s'"
  by (auto simp: gw_single_def calm_def same_links_def gw_inv_def)

lemma gw_single_connect:
  "gw_single s \<Longrightarrow> conn s = Disconnected \<Longrightarrow> gw_single (connect s)"
  using gw_inv_connect [of s] by (auto simp: gw_single_def connect_def live_def split: if_splits)

lemma gw_single_disconnect: "gw_single s \<Longrightarrow> gw_single (disconnect s)"
  using gw_inv_disconnect [of s]
  by (auto simp: gw_single_def live_disconnect timers_disconnect)

lemma gw_single_reopen:
  assumes s: "gw_single s" and t: "timers s t = Some (Timer Reopen d)"
  shows "gw_single (open_web_socket ((clear_timer t s)\<lparr>reconnect_timer := None\<rparr>))"
proof -
  have "is_reopen (timers s t)" using t by simp
  with s have rt: "reconnect_timer s = Some t" by (auto simp: gw_single_def)
  with s have "ws s = None" "conn s \<noteq> Disconnected" "\<not> intentional_close s"
    and "\<And>u. is_reopen (timers s u) \<Longrightarrow> u = t" and "\<And>i. \<not> live s i"
    by (auto simp: gw_single_def)
  moreover have "gw_inv (open_web_socket ((clear_timer t s)\<lparr>reconnect_timer := None\<rparr>))"
    using s t by (auto simp: gw_single_def intro: gw_inv_reopen)
  ultimately show ?thesis by (auto simp: gw_single_def live_def split: if_splits)
qed

lemma gw_single_on_close:
  assumes s: "gw_single s" and k: "sockets s i = Some k" "ready k \<noteq> CLOSED" "attached k"
    and r: "0 \<le> r" "r < 1"
  shows "gw_single (on_close r (closed_socket i k s))"
proof -
  have inv: "gw_inv s" and "live s i" using s k by (auto simp: gw_single_def live_def)
  with s have w: "ws s = Some i" "reconnect_timer s = None" "\<not> intentional_close s"
    by (auto simp: gw_single_def)
  have no: "\<not> is_reopen (timers s t)" for t using s w by (auto simp: gw_single_def)
  have "gw_inv (on_close r (closed_socket i k s))" by (rule gw_inv_on_close [OF inv k(1) r])
  moreover have "refs_live (closed_socket i k s\<lparr>ws := None\<rparr>)"
    using inv k by (auto simp: gw_inv_def refs_live_def live_def closed_socket_def)
  ultimately show ?thesis
    using s w no reopen_clear_heartbeat [of "closed_socket i k s\<lparr>ws := None\<rparr>"]
    by (auto simp: gw_single_def on_close_def Let_def live_def closed_socket_def split: if_splits)
qed

lemma gw_single_closed_detached:
  "gw_single s \<Longrightarrow> sockets s i = Some k \<Longrightarrow> \<not> attached k \<Longrightarrow> gw_single (closed_socket i k s)"
  using gw_inv_closed_detached [of s i k]
  by (auto simp: gw_single_def live_def closed_socket_def split: if_splits)

lemma gw_single_fire: "gw_single s \<Longrightarrow> timers s t = Some tm \<Longrightarrow> gw_single (fire t tm s)"
proof (cases tm)
  case (Timer j d)
  assume single: "gw_single s" and tm: "timers s t = Some tm"
  then have inv: "gw_inv (fire t tm s)" by (auto simp: gw_single_def intro: gw_inv_fire)
  show ?thesis
  proof (cases j)
    case (FirstBeat n)
    with tm Timer inv show ?thesis
      by (auto intro!: gw_single_calm [OF single] calm_first_beat calm_clear_first)
  next
    case (Beat n)
    with Timer inv show ?thesis by (auto intro!: gw_single_calm [OF single] calm_interval_beat)
  next
    case Reopen
    with Timer single tm show ?thesis by (simp add: gw_single_reopen)
  qed
qed

lemma gw_single_step:
  assumes single: "gw_single s" and d: "disciplined e s"
  shows "gw_single (gw_step e s)"
proof -
  have inv: "gw_inv s" using single by (simp add: gw_single_def)
  from inv disciplined_random [OF d] have inv': "gw_inv (gw_step e s)" by (rule gw_inv_step)
  show ?thesis
  proof (cases e)
    case (SockMessage i m r)
    then show ?thesis
      using single inv' on_message_state [OF inv]
      by (auto simp: sock_event_def intro!: gw_single_calm [OF single calm_on_message]
          split: option.splits if_splits)
  next
    case (SockClosed i r)
    then show ?thesis
      using single d gw_single_on_close [OF single] gw_single_closed_detached [OF single]
      by (auto simp: sock_event_def Let_def closed_socket_def split: option.splits)
  next
    case (SockOpened i)
    then show ?thesis
      using single inv'
      by (auto simp: sock_event_def intro!: gw_single_calm [OF single] calm_opened
          split: option.splits if_splits)
  qed (use single inv' d in \<open>auto simp: gw_single_connect gw_single_disconnect gw_single_fire
         sock_event_def update_token_def on_handler_def off_handler_def
         intro!: gw_single_calm [OF single] calm_intros split: option.splits if_splits\<close>)
qed

lemma gw_single_new: "gw_single (new_client org base tok)"
  by (simp add: gw_single_def gw_inv_new) (simp add: new_client_def live_def)

interpretation gws: invariant_machine gw_step disciplined gw_single
  by unfold_locales (rule gw_single_step)

section \<open>Silence after disconnect\<close>

text \<open>Everything but a call of the public API.\<close>

fun environment :: "input \<Rightarrow> bool" where
  "environment (SockOpened _) = True"
| "environment (SockMessage _ _ _) = True"
| "environment (SockClosed _ _) = True"
| "environment (SockError _) = True"
| "environment (TimerFires _) = True"
| "environment _ = False"

definition silent :: "gw \<Rightarrow> bool" where
  "silent s \<longleftrightarrow> gw_single s \<and> conn s = Disconnected"

lemma silentD:
  "silent s \<Longrightarrow> ws s = None \<and> (\<forall>i. \<not> live s i) \<and> (\<forall>t. \<not> is_reopen (timers s t))"
  by (auto simp: silent_def gw_single_def)

lemma silent_step:
  assumes s: "silent s" and e: "environment e" "random_ok e"
  shows "silent (gw_step e s) \<and> out (gw_step e s) = out s"
proof -
  have w: "ws s = None" and l: "\<And>i. \<not> live s i" and n: "\<And>t. \<not> is_reopen (timers s t)"
    using silentD [OF s] by auto
  have dead: "attached k \<Longrightarrow> ready k = CLOSED" if "sockets s i = Some k" for i k
    using l [of i] that by (auto simp: live_def)
  have "gw_single (gw_step e s)"
    using s e by (intro gw_single_step) (auto simp: silent_def elim: environment.elims)
  moreover have "conn (gw_step e s) = Disconnected \<and> out (gw_step e s) = out s"
  proof (cases e)
    case (TimerFires t)
    show ?thesis
    proof (cases "timers s t")
      case (Some tm)
      then obtain j d where tm: "tm = Timer j d" by (cases tm)
      from n [of t] Some tm have "j \<noteq> Reopen" by auto
      with Some TimerFires tm w s show ?thesis
        by (cases j) (auto simp: silent_def first_beat_def interval_beat_def send_heartbeat_def
            send_frame_def close_ws_def Let_def)
    qed (use TimerFires s in \<open>simp add: silent_def\<close>)
  qed (use e dead s in \<open>fastforce simp: sock_event_def silent_def Let_def split: option.splits\<close>)+
  ultimately show ?thesis by (simp add: silent_def)
qed

lemma silent_run:
  "silent s \<Longrightarrow> \<forall>e \<in> set es. environment e \<and> random_ok e \<Longrightarrow>
   silent (run gw_step es s) \<and> out (run gw_step es s) = out s"
  by (induction es arbitrary: s) (auto dest: silent_step)

end
