(* ===== verification/ChatGatewayProps.thy ===== *)
theory ChatGatewayProps
  imports ChatGatewayLemmas
begin

text \<open>
  The properties of the gateway client: what holds after every sequence of inputs, the reply to
  HELLO across a reconnect, the heartbeat, and two behaviours of the heartbeat timers that the
  class does not intend. The lemmas before them evaluate one operation on a socket that is open.
\<close>

section \<open>One callback on an open socket\<close>

definition link_open :: "nat \<Rightarrow> gw \<Rightarrow> bool" where
  "link_open i s \<longleftrightarrow> ws s = Some i \<and> sockets s i = Some \<lparr>ready = OPEN, attached = True\<rparr>"

lemma send_frame_open [simp]:
  "link_open i s \<Longrightarrow> out (send_frame op d s) = out s @ [Send i op d]"
  by (simp add: link_open_def send_frame_def sock_open_def)

lemma out_set_state [simp]:
  "out (set_state st s) =
     out s @ (if conn s = st then [] else map (\<lambda>h. Deliver h (EvState st)) (handlers s))"
  by (simp add: set_state_def)

lemma link_open_frame [simp]:
  "link_open i (set_state st s) = link_open i s" "link_open i (clear_heartbeat s) = link_open i s"
  "link_open i (set_timer j d s) = link_open i s" "link_open i (send_frame op x s) = link_open i s"
  "link_open i (send_heartbeat s) = link_open i s" "link_open i (ack_pending_update f s) = link_open i s"
  "link_open i (clear_timer t s) = link_open i s" "link_open i (hb_interval_update g s) = link_open i s"
  by (simp_all add: link_open_def)

lemma is_reopenD: "is_reopen t \<Longrightarrow> \<exists>d. t = Some (Timer Reopen d)"
  by (erule is_reopenE) auto

text \<open>What the client owes the server after HELLO.\<close>

definition hello_reply :: "gw \<Rightarrow> int \<times> json" where
  "hello_reply s =
     (if truthy (session_id s)
      then (6, JObj [(''session_id'', session_id s), (''seq'', last_seq s)])
      else (2, JObj [(''token'', JStr (token s))]))"

definition hello_state :: "gw \<Rightarrow> conn_state" where
  "hello_state s = (if truthy (session_id s) then Resuming else Identifying)"

definition hello_frame :: "int \<Rightarrow> json" where
  "hello_frame n = JObj [(''op'', JNum 10), (''d'', JObj [(''heartbeat_interval'', JNum n)])]"

lemma hello_replies:
  assumes "link_open i s" "\<not> intentional_close s"
  shows "let s' = on_message (Some (hello_frame n)) r s in
     out s' = out s @ (if conn s = hello_state s then [] else
                         map (\<lambda>h. Deliver h (EvState (hello_state s))) (handlers s))
                    @ [Send i (fst (hello_reply s)) (snd (hello_reply s))]
     \<and> conn s' = hello_state s \<and> session_id s' = session_id s \<and> last_seq s' = last_seq s
     \<and> link_open i s'"
  using assms
  by (simp add: hello_frame_def on_message_def handle_frame_def handle_hello_def Let_def fld_def
      start_heartbeat_def hello_reply_def hello_state_def)

text \<open>The four callbacks of a lost connection that comes back.\<close>

definition reconnect_cycle :: "nat \<Rightarrow> nat \<Rightarrow> int \<Rightarrow> real \<Rightarrow> real \<Rightarrow> input list" where
  "reconnect_cycle i n interval r r' =
     [SockClosed i r, TimerFires n, SockOpened (Suc n),
      SockMessage (Suc n) (Some (hello_frame interval)) r']"

lemma reopened:
  fixes r :: real
  assumes "link_open i s" "\<not> intentional_close s" "gw_inv s"
  defines "s' \<equiv> run gw_step [SockClosed i r, TimerFires (next_id s), SockOpened (Suc (next_id s))] s"
  shows "link_open (Suc (next_id s)) s'" "\<not> intentional_close s'" "session_id s' = session_id s"
    "last_seq s' = last_seq s" "token s' = token s"
proof -
  let ?c = "closed_socket i \<lparr>ready = OPEN, attached = True\<rparr> s"
  have k: "sockets s i = Some \<lparr>ready = OPEN, attached = True\<rparr>" "ws s = Some i"
    using assms(1) by (auto simp: link_open_def)
  have a: "gw_step (SockClosed i r) s = schedule_reconnect r (clear_heartbeat (?c\<lparr>ws := None\<rparr>))"
    using k assms(2) by (simp add: sock_event_def on_close_def Let_def closed_socket_def)
  obtain d where b: "timers (gw_step (SockClosed i r) s) (next_id s) = Some (Timer Reopen d)"
    and n: "next_id (gw_step (SockClosed i r) s) = Suc (next_id s)"
    unfolding a by (simp add: schedule_reconnect_def Let_def closed_socket_def)
  have f: "\<not> intentional_close (gw_step (SockClosed i r) s)"
    "session_id (gw_step (SockClosed i r) s) = session_id s"
    "last_seq (gw_step (SockClosed i r) s) = last_seq s"
    "token (gw_step (SockClosed i r) s) = token s"
    unfolding a using assms(2) by (simp_all add: schedule_reconnect_def Let_def closed_socket_def)
  show "link_open (Suc (next_id s)) s'" "\<not> intentional_close s'" "session_id s' = session_id s"
    "last_seq s' = last_seq s" "token s' = token s"
    unfolding s'_def using b n f
    by (simp_all add: sock_event_def open_web_socket_def Let_def link_open_def del: gw_step.simps(8))
qed


section \<open>Properties\<close>

text \<open>
  C3. Whatever the application, the server and the timers do, the client is never stuck and
  never holds a dead reference: a socket it points to is attached and not closed, a reconnect
  timer it points to is pending, the backoff delay is within [1000, 30000], and unless it is
  disconnected it has a socket or a pending reconnect.
\<close>

theorem gateway_never_stuck:
  fixes org base tok :: string
  assumes "\<forall>e \<in> set es. random_ok e"
  defines "s \<equiv> run gw_step es (new_client org base tok)"
  shows "(\<forall>i. ws s = Some i \<longrightarrow> live s i)
    \<and> (\<forall>t. reconnect_timer s = Some t \<longrightarrow> (\<exists>d. timers s t = Some (Timer Reopen d)))
    \<and> 1000 \<le> reconnect_delay s \<and> reconnect_delay s \<le> 30000
    \<and> (conn s \<noteq> Disconnected \<longrightarrow> ws s \<noteq> None \<or> (\<exists>t d. timers s t = Some (Timer Reopen d)))"
proof -
  have "gw_inv s"
    unfolding s_def by (rule gwi.inv_run [OF gw_inv_new]) (use assms(1) in simp)
  then show ?thesis
    by (auto simp: gw_inv_def refs_live_def delay_ok_def has_way_back_def dest: is_reopenD)
qed

theorem gateway_never_stuck_witness:
  "reconnect_delay (run gw_step [CallConnect, SockClosed 0 0.5, TimerFires 1]
     (new_client ''https://h'' ''/api/chat'' ''jwt'')) \<le> 30000"
  by (rule gateway_never_stuck [THEN conjunct2, THEN conjunct2, THEN conjunct2, THEN conjunct1]) simp

text \<open>
  C11. When \<open>connect()\<close> is called only on a disconnected client, there is one connection at a
  time: every live socket is the current one, and a reconnect is pending only when there is no
  socket and then it is the only one.
\<close>

theorem gateway_single_connection:
  fixes org base tok :: string
  assumes "guarded gw_step disciplined es (new_client org base tok)"
  defines "s \<equiv> run gw_step es (new_client org base tok)"
  shows "(\<forall>i j. live s i \<longrightarrow> live s j \<longrightarrow> i = j)
    \<and> (\<forall>t u. is_reopen (timers s t) \<longrightarrow> is_reopen (timers s u) \<longrightarrow> t = u)
    \<and> ((\<exists>i. live s i) \<longrightarrow> (\<forall>t. \<not> is_reopen (timers s t)))"
proof -
  have "gw_single s"
    unfolding s_def by (rule gws.inv_run [OF gw_single_new assms(1)])
  then have a: "live s i \<Longrightarrow> ws s = Some i" and b: "is_reopen (timers s t) \<Longrightarrow> reconnect_timer s = Some t"
    and c: "ws s \<noteq> None \<Longrightarrow> reconnect_timer s = None" for i t
    by (simp_all add: gw_single_def)
  have "i = j" if "live s i" "live s j" for i j using that [THEN a] by simp
  moreover have "t = u" if "is_reopen (timers s t)" "is_reopen (timers s u)" for t u
    using that [THEN b] by simp
  moreover have "\<not> is_reopen (timers s t)" if "live s i" for i t
    using a [OF that] b [of t] c by auto
  ultimately show ?thesis by blast
qed

theorem gateway_single_connection_witness:
  "{i. live (run gw_step [CallConnect, SockOpened 0, SockClosed 0 0.5, TimerFires 1]
             (new_client ''https://h'' ''/api/chat'' ''jwt'')) i} = {2}"
proof -
  let ?es = "[CallConnect, SockOpened 0, SockClosed 0 0.5, TimerFires 1]"
  define s where "s = run gw_step ?es (new_client ''https://h'' ''/api/chat'' ''jwt'')"
  have "guarded gw_step disciplined ?es (new_client ''https://h'' ''/api/chat'' ''jwt'')"
    by (simp add: new_client_def)
  from gateway_single_connection [THEN conjunct1, OF this, folded s_def]
  have one: "\<forall>i j. live s i \<longrightarrow> live s j \<longrightarrow> i = j" .
  have "live s 2" unfolding s_def by code_simp
  with one show ?thesis unfolding s_def [symmetric] by auto
qed



text \<open>
  C18. A lost connection comes back with the session it had: from any reachable state with an
  open socket, the close event, the reconnect timer, the new socket opening and the server's
  HELLO make the client send, as its last frame on the new socket, RESUME with the session and
  the last sequence number it saw when it has a session, and IDENTIFY with its token otherwise.
\<close>

theorem gateway_resumes_session:
  fixes interval :: int and r r' :: real
  assumes "gw_inv s" "link_open i s" "\<not> intentional_close s"
  defines "s' \<equiv> run gw_step (reconnect_cycle i (next_id s) interval r r') s"
  shows "last (out s') = Send (Suc (next_id s)) (fst (hello_reply s)) (snd (hello_reply s))
    \<and> conn s' = hello_state s \<and> session_id s' = session_id s \<and> last_seq s' = last_seq s"
proof -
  let ?m = "run gw_step [SockClosed i r, TimerFires (next_id s), SockOpened (Suc (next_id s))] s"
  note m = reopened [OF assms(2,3,1), of r]
  have "s' = on_message (Some (hello_frame interval)) r' ?m"
    using m(1) by (simp add: s'_def reconnect_cycle_def sock_event_def link_open_def)
  with hello_replies [OF m(1,2), of interval r'] m show ?thesis
    by (simp add: Let_def hello_reply_def hello_state_def)
qed

definition resting :: gw where
  "resting = (new_client ''https://h'' ''/api/chat'' ''jwt'')
     \<lparr>ws := Some 0, conn := Connected, session_id := JStr ''abc'', last_seq := JNum 7,
      hb_interval := Some 1, next_id := 2,
      sockets := [0 \<mapsto> \<lparr>ready = OPEN, attached = True\<rparr>], timers := [1 \<mapsto> Timer (Beat 9) 9]\<rparr>"

theorem gateway_resumes_session_witness:
  "last (out (run gw_step (reconnect_cycle 0 (next_id resting) 41250 0 0) resting))
     = Send (Suc (next_id resting)) (fst (hello_reply resting)) (snd (hello_reply resting))
   \<and> hello_reply resting = (6, JObj [(''session_id'', JStr ''abc''), (''seq'', JNum 7)])"
  by (intro conjI gateway_resumes_session [THEN conjunct1])
    (simp_all add: resting_def new_client_def gw_inv_def refs_live_def live_def link_open_def
      delay_ok_def has_way_back_def hello_reply_def)

text \<open>
  The session a client has to resume, as a function of the frames alone: READY sets the session,
  every dispatch with a sequence number moves the number, a final INVALID_SESSION forgets both.
\<close>

definition session_frame :: "json option \<Rightarrow> json \<times> json \<Rightarrow> json \<times> json" where
  "session_frame m s =
     (case m of None \<Rightarrow> s
      | Some f \<Rightarrow>
          (if fld f ''op'' = JNum 0
           then (if fld f ''t'' = JStr ''READY'' \<and> \<not> nullish (fld f ''d'')
                 then fld (fld f ''d'') ''session_id'' else fst s,
                 if nullish (fld f ''s'') then snd s else fld f ''s'')
           else if fld f ''op'' = JNum 9 \<and> \<not> truthy (fld f ''d'') then (JNull, JNum 0)
           else s))"

lemma field_Inl: "field v n = Inl e \<Longrightarrow> nullish v"
  by (cases "(v, n)" rule: field.cases) (auto simp: nullish_def)

lemma field_not_nullish: "\<not> nullish v \<Longrightarrow> field v n = Inr (fld v n)"
  by (cases "(v, n)" rule: field.cases) (auto simp: nullish_def fld_def)

lemma field_nullish: "nullish v \<Longrightarrow> field v n = Inl TypeError"
  by (auto simp: nullish_def)

lemma handle_ready_session:
  "session_id (fst (handle_ready d s)) =
     (if nullish d then session_id s else fld d ''session_id'')"
  "last_seq (fst (handle_ready d s)) = last_seq s"
  "intentional_close (fst (handle_ready d s)) = intentional_close s"
  by (cases "nullish d";
      simp add: handle_ready_def field_nullish field_not_nullish Let_def split: sum.split)+

lemma handle_dispatch_session:
  "session_id (fst (handle_dispatch t d s)) =
     (if t = JStr ''READY'' \<and> \<not> nullish d then fld d ''session_id'' else session_id s)"
  "last_seq (fst (handle_dispatch t d s)) = last_seq s"
  "intentional_close (fst (handle_dispatch t d s)) = intentional_close s"
  by (simp_all add: handle_dispatch_def handle_ready_session handle_resumed_def)

lemma start_heartbeat_session [simp]:
  "session_id (start_heartbeat n r s) = session_id s"
  "last_seq (start_heartbeat n r s) = last_seq s"
  "intentional_close (start_heartbeat n r s) = intentional_close s"
  "token (start_heartbeat n r s) = token s"
  by (simp_all add: start_heartbeat_def Let_def)

lemma handle_hello_session:
  "session_id (fst (handle_hello d r s)) = session_id s"
  "last_seq (fst (handle_hello d r s)) = last_seq s"
  "intentional_close (fst (handle_hello d r s)) = intentional_close s"
  by (simp_all add: handle_hello_def Let_def split: sum.split)

lemma on_message_session:
  assumes "\<not> intentional_close s"
  shows "(session_id (on_message m r s), last_seq (on_message m r s)) =
      session_frame m (session_id s, last_seq s)" (is ?session)
    and "\<not> intentional_close (on_message m r s)" (is ?going)
proof -
  have "?session \<and> ?going"
  proof (cases m)
    case None
    with assms show ?thesis by (simp add: on_message_def session_frame_def)
  next
    case (Some f)
    show ?thesis
    proof (cases "nullish f")
      case True
      with assms Some show ?thesis
        by (auto simp: on_message_def session_frame_def handle_frame_def nullish_def fld_def)
    next
      case False
      with assms Some show ?thesis
        by (simp add: on_message_def session_frame_def handle_frame_def field_not_nullish
            handle_hello_session handle_dispatch_session Let_def)
    qed
  qed
  then show ?session ?going by blast+
qed

text \<open>
  C10. The session the client will resume is exactly the one the server's frames describe,
  malformed frames included: after any frames, delivered while the client is not closing, its
  session id and sequence number are those of the abstract session after the same frames.
\<close>

theorem gateway_session_refines:
  assumes "\<not> intentional_close s"
  shows "(\<lambda>c. (session_id c, last_seq c)) (fold (\<lambda>(m, r). on_message m r) ms s)
    = fold (\<lambda>(m, r). session_frame m) ms (session_id s, last_seq s)"
  using assms
proof (induction ms arbitrary: s)
  case (Cons x ms)
  obtain m r where x: "x = (m, r)" by force
  show ?case using Cons.IH [OF on_message_session(2) [OF Cons.prems, of m r]] x
    by (simp add: on_message_session(1) [OF Cons.prems])
qed simp

theorem gateway_session_refines_witness:
  "(\<lambda>c. (session_id c, last_seq c)) (fold (\<lambda>(m, r). on_message m r)
      [(Some (JObj [(''op'', JNum 9), (''d'', JBool False)]), 0), (None, 0)] resting)
   = (JNull, JNum 0)"
  by (subst gateway_session_refines)
    (simp_all add: resting_def new_client_def session_frame_def fld_def)

definition ack_frame :: json where
  "ack_frame = JObj [(''op'', JNum 11)]"

text \<open>
  C29. A dead link is detected within two beats of the heartbeat interval and a live one is kept:
  a beat sends a heartbeat with the last sequence number; the next beat closes the socket with
  code 4000 when no acknowledgement came in between, and sends another heartbeat when one came.
\<close>

theorem gateway_detects_dead_link:
  assumes "link_open i s" "timers s b = Some (Timer (Beat n) d)" "\<not> ack_pending s"
    and "\<not> intentional_close s"
  shows "let dead = run gw_step [TimerFires b, TimerFires b] s;
             fine = run gw_step [TimerFires b, SockMessage i (Some ack_frame) r, TimerFires b] s
         in out dead = out s @ [Send i 1 (last_seq s), Close i 4000 ''heartbeat timeout'']
          \<and> \<not> sock_open dead i
          \<and> out fine = out s @ [Send i 1 (last_seq s), Send i 1 (last_seq s)] \<and> link_open i fine"
proof -
  have ack: "gw_step (SockMessage i (Some ack_frame) r) t = t\<lparr>ack_pending := False\<rparr>"
    if "link_open i t" "\<not> intentional_close t" for t
    using that by (simp add: link_open_def sock_event_def on_message_def handle_frame_def ack_frame_def)
  have beat: "gw_step (TimerFires b) t =
      (if ack_pending t then close_ws 4000 ''heartbeat timeout'' t else send_heartbeat t)"
    if "timers t b = timers s b" for t
    using that assms(2) by (simp add: interval_beat_def)
  have sent: "out (send_heartbeat t) = out t @ [Send i 1 (last_seq t)]" if "link_open i t" for t
    using that by (simp add: send_heartbeat_def link_open_def send_frame_def sock_open_def)
  have closed: "out (close_ws c w t) = out t @ [Close i c w]" "\<not> sock_open (close_ws c w t) i"
    if "link_open i t" for c w t
    using that by (simp_all add: close_ws_def close_socket_def link_open_def sock_open_def)
  show ?thesis
    using assms
    by (simp add: Let_def beat ack sent closed run_def del: gw_step.simps)
qed

theorem gateway_detects_dead_link_witness:
  "\<not> sock_open (run gw_step [TimerFires 1, TimerFires 1] resting) 0"
  using gateway_detects_dead_link [of 0 resting 1 9 9 0]
  by (simp add: Let_def resting_def new_client_def link_open_def del: gw_step.simps)

section \<open>Timers that outlive their connection\<close>

lemma beat_survives:
  assumes "silent s" "environment e" "random_ok e" "is_beat (timers s t)" "t < next_id s"
  shows "is_beat (timers (gw_step e s) t) \<and> t < next_id (gw_step e s)"
proof -
  have l: "\<not> live s i" for i using silentD [OF assms(1)] by simp
  have dead: "attached k \<Longrightarrow> ready k = CLOSED" if "sockets s i = Some k" for i k
    using l [of i] that by (simp add: live_def)
  show ?thesis
  proof (cases e)
    case (TimerFires u)
    show ?thesis
    proof (cases "timers s u")
      case (Some tm)
      then obtain j d where tm: "tm = Timer j d" by (cases tm)
      have "\<not> is_reopen (timers s u)" using silentD [OF assms(1)] by simp
      with Some tm have "j \<noteq> Reopen" by auto
      with Some TimerFires tm assms show ?thesis
        by (cases j) (auto simp: first_beat_def interval_beat_def Let_def)
    qed (use TimerFires assms in simp)
  qed (use assms dead in \<open>fastforce simp: sock_event_def Let_def split: option.splits\<close>)+
qed

lemma beat_survives_run:
  "silent s \<Longrightarrow> \<forall>e \<in> set es. environment e \<and> random_ok e \<Longrightarrow> is_beat (timers s t) \<Longrightarrow>
   t < next_id s \<Longrightarrow> is_beat (timers (run gw_step es s) t)"
proof (induction es arbitrary: s)
  case (Cons e es)
  then have "silent (gw_step e s)" using silent_step by simp
  with Cons beat_survives [of s e t] show ?case by simp
qed simp

text \<open>A heartbeat interval can outlive \<open>disconnect()\<close>: the timeout of the first, jittered beat
  is kept in no field and \<open>clearHeartbeat\<close> does not clear it, so when it fires after
  \<open>disconnect()\<close> it starts an interval, and no later event of the environment ever stops it.
\<close>

theorem heartbeat_outlives_disconnect:
  assumes "gw_single s" "timers s t = Some (Timer (FirstBeat n) d)"
    and "\<forall>e \<in> set late. environment e \<and> random_ok e"
  shows "is_beat (timers (run gw_step (CallDisconnect # TimerFires t # late) s) (next_id s))"
proof -
  let ?d = "disconnect s"
  have "refs_live s" using assms(1) by (simp add: gw_single_def gw_inv_def)
  with assms(2) have "timers ?d t = Some (Timer (FirstBeat n) d)"
    by (auto simp: timers_disconnect refs_live_def)
  moreover have "silent ?d" using assms(1) by (simp add: silent_def gw_single_disconnect)
  moreover have "is_beat (timers (first_beat n (clear_timer t ?d)) (next_id s))"
    "next_id s < next_id (first_beat n (clear_timer t ?d))"
    by (simp_all add: first_beat_def Let_def)
  ultimately show ?thesis
    using beat_survives_run [of "first_beat n (clear_timer t ?d)" late "next_id s"] assms(3)
      silent_step [of ?d "TimerFires t"] by simp
qed

theorem heartbeat_outlives_disconnect_witness:
  "is_beat (timers (run gw_step (CallDisconnect # TimerFires 1 # [SockClosed 0 0])
     (run gw_step [CallConnect, SockOpened 0, SockMessage 0 (Some (hello_frame 41250)) 0.5]
        (new_client ''https://h'' ''/api/chat'' ''jwt'')))
     (next_id (run gw_step [CallConnect, SockOpened 0, SockMessage 0 (Some (hello_frame 41250)) 0.5]
        (new_client ''https://h'' ''/api/chat'' ''jwt''))))"
  by (rule heartbeat_outlives_disconnect [OF gws.inv_run [OF gw_single_new]])
    (simp_all add: new_client_def connect_def open_web_socket_def Let_def set_state_def emit_def
      log_out_def sock_event_def on_message_def hello_frame_def handle_frame_def handle_hello_def
      fld_def start_heartbeat_def clear_heartbeat_def set_timer_def send_frame_def)

definition flaky_start :: "input list" where
  "flaky_start =
     [CallConnect, SockOpened 0, SockMessage 0 (Some (hello_frame 41250)) 0.5, SockClosed 0 0,
      TimerFires 2, SockOpened 3, SockMessage 3 (Some (hello_frame 41250)) 0.5,
      TimerFires 1, SockMessage 3 (Some ack_frame) 0, TimerFires 4, SockMessage 3 (Some ack_frame) 0]"

text \<open>Because of that timer, a client that lost its first connection before the first beat runs
  two heartbeat intervals on the second connection, of which it remembers one; when both fire
  before the acknowledgement of the first is back, it closes the healthy connection as dead.
\<close>

theorem heartbeat_doubled:
  "let s = run gw_step flaky_start (new_client ''https://h'' ''/api/chat'' ''jwt'')
   in link_open 3 s \<and> \<not> ack_pending s
    \<and> is_beat (timers s 5) \<and> is_beat (timers s 6) \<and> hb_interval s = Some 6
    \<and> last (out (run gw_step [TimerFires 5, TimerFires 6] s)) = Close 3 4000 ''heartbeat timeout''"
  by (simp add: flaky_start_def ack_frame_def new_client_def connect_def open_web_socket_def Let_def
      set_state_def emit_def log_out_def sock_event_def on_message_def hello_frame_def
      handle_frame_def handle_hello_def fld_def start_heartbeat_def clear_heartbeat_def
      set_timer_def send_frame_def on_close_def schedule_reconnect_def next_delay_def clear_timer_def
      first_beat_def send_heartbeat_def interval_beat_def sock_open_def link_open_def close_ws_def
      close_socket_def)
end
