(* ===== verification/ChatApi.thy ===== *)
theory ChatApi
  imports Snowflake ChatGateway
begin

text \<open>
  The REST side of \<open>ChatClient\<close> (\<open>packages/sdk-chat/src/client.ts\<close>): the requests it builds,
  what it makes of the responses, \<open>parseRetryAfter\<close>, and \<open>uploadAttachment\<close>, whose promise is
  settled by the events of an \<open>XMLHttpRequest\<close>.

  A method is a request and a function from what \<open>fetch\<close> came back with to the value or the
  error of the promise. Strings are sequences of bytes (UTF-8), and a request body is the JSON
  value that is stringified, with the fields that are \<open>undefined\<close> left out.
\<close>

section \<open>Requests and responses\<close>

datatype http_method = GET | POST | PATCH | DELETE

record request =
  req_method :: http_method
  req_url :: string
  req_headers :: "(string \<times> string) list"
  req_body :: "json option"

record response =
  res_status :: int
  res_text :: string
  res_json :: "json option" \<comment> \<open>the body parsed, \<open>None\<close> when it is not JSON\<close>
  res_retry_after :: "string option"

datatype fetched = Failed | Fetched response

datatype api_error =
    ApiError int string "int option" \<comment> \<open>status, body, seconds of Retry-After\<close>
  | NetworkError
  | BadJson

definition res_ok :: "response \<Rightarrow> bool" where
  "res_ok res \<longleftrightarrow> 200 \<le> res_status res \<and> res_status res \<le> 299"

text \<open>
  \<open>parseInt(raw, 10)\<close>: white space, one sign, then the longest run of digits; \<open>None\<close> is NaN.
\<close>

definition is_digit :: "char \<Rightarrow> bool" where
  "is_digit c \<longleftrightarrow> digit_val 10 c \<noteq> None"

definition parse_int10 :: "string \<Rightarrow> int option" where
  "parse_int10 raw =
     (let s = dropWhile js_space raw;
          neg = (s \<noteq> [] \<and> hd s = CHR ''-'');
          body = (if s \<noteq> [] \<and> hd s \<in> {CHR ''-'', CHR ''+''} then tl s else s)
      in map_option (\<lambda>n. if neg then - n else n) (parse_digits 10 (takeWhile is_digit body)))"

definition parse_retry_after :: "string option \<Rightarrow> int option" where
  "parse_retry_after header =
     (case header of
        None \<Rightarrow> None
      | Some raw \<Rightarrow>
          if raw = [] then None
          else (case parse_int10 raw of None \<Rightarrow> None | Some n \<Rightarrow> if n > 0 then Some n else None))"

definition chat_error :: "response \<Rightarrow> api_error" where
  "chat_error res = ApiError (res_status res) (res_text res) (parse_retry_after (res_retry_after res))"

definition json_result :: "fetched \<Rightarrow> api_error + json" where
  "json_result f =
     (case f of
        Failed \<Rightarrow> Inl NetworkError
      | Fetched res \<Rightarrow>
          if \<not> res_ok res then Inl (chat_error res)
          else (case res_json res of None \<Rightarrow> Inl BadJson | Some v \<Rightarrow> Inr v))"

definition unit_result :: "fetched \<Rightarrow> api_error + unit" where
  "unit_result f =
     (case f of
        Failed \<Rightarrow> Inl NetworkError
      | Fetched res \<Rightarrow> if \<not> res_ok res then Inl (chat_error res) else Inr ())"

text \<open>\<open>sendTyping\<close> and \<open>markRead\<close> do not look at the status.\<close>

definition sent_result :: "fetched \<Rightarrow> api_error + unit" where
  "sent_result f = (case f of Failed \<Rightarrow> Inl NetworkError | Fetched _ \<Rightarrow> Inr ())"

section \<open>The methods\<close>

definition api_headers :: "string \<Rightarrow> (string \<times> string) list" where
  "api_headers tok =
     [(''Content-Type'', ''application/json''), (''Authorization'', ''Bearer '' @ tok)]"

definition channel_url :: "string \<Rightarrow> string \<Rightarrow> string" where
  "channel_url base channel = base @ ''/v1/channels/'' @ channel"

text \<open>\<open>JSON.stringify\<close> of an object literal leaves the undefined fields out.\<close>

definition json_body :: "(string \<times> json) list \<Rightarrow> json option" where
  "json_body fs = Some (JObj (filter (\<lambda>(_, v). v \<noteq> JUndef) fs))"

definition opt_json :: "('a \<Rightarrow> json) \<Rightarrow> 'a option \<Rightarrow> json" where
  "opt_json f x = (case x of None \<Rightarrow> JUndef | Some a \<Rightarrow> f a)"

record send_options =
  so_content :: string
  so_client_id :: "string option"
  so_thread_root_id :: "string option"
  so_attachments :: "json list option"

definition send_message_req :: "string \<Rightarrow> string \<Rightarrow> string \<Rightarrow> send_options \<Rightarrow> request" where
  "send_message_req base tok channel opts =
     \<lparr>req_method = POST, req_url = channel_url base channel @ ''/messages'',
      req_headers = api_headers tok,
      req_body = json_body
        [(''content'', JStr (so_content opts)),
         (''client_id'', opt_json JStr (so_client_id opts)),
         (''thread_root_id'', opt_json JStr (so_thread_root_id opts)),
         (''attachments'', opt_json JArr (so_attachments opts))]\<rparr>"

definition edit_message_req :: "string \<Rightarrow> string \<Rightarrow> string \<Rightarrow> string \<Rightarrow> string \<Rightarrow> request" where
  "edit_message_req base tok channel message_id content =
     \<lparr>req_method = PATCH, req_url = channel_url base channel @ ''/messages/'' @ message_id,
      req_headers = api_headers tok, req_body = json_body [(''content'', JStr content)]\<rparr>"

definition delete_message_req :: "string \<Rightarrow> string \<Rightarrow> string \<Rightarrow> string \<Rightarrow> request" where
  "delete_message_req base tok channel message_id =
     \<lparr>req_method = DELETE, req_url = channel_url base channel @ ''/messages/'' @ message_id,
      req_headers = api_headers tok, req_body = None\<rparr>"

text \<open>The serialisation of \<open>URLSearchParams\<close>.\<close>

definition hex_char :: "nat \<Rightarrow> char" where
  "hex_char n = (if n < 10 then char_of (48 + n) else char_of (55 + n))"

definition form_byte :: "char \<Rightarrow> string" where
  "form_byte c =
     (let n = of_char c :: nat in
      if n = 32 then ''+''
      else if 48 \<le> n \<and> n \<le> 57 \<or> 65 \<le> n \<and> n \<le> 90 \<or> 97 \<le> n \<and> n \<le> 122
           \<or> n \<in> {42, 45, 46, 95} then [c]
      else CHR ''%'' # [hex_char (n div 16), hex_char (n mod 16)])"

definition form_param :: "string \<times> string \<Rightarrow> string" where
  "form_param p = concat (map form_byte (fst p)) @ ''='' @ concat (map form_byte (snd p))"

fun join :: "string \<Rightarrow> string list \<Rightarrow> string" where
  "join sep [] = []"
| "join sep [x] = x"
| "join sep (x # y # xs) = x @ sep @ join sep (y # xs)"

definition history_params :: "int option \<Rightarrow> string option \<Rightarrow> (string \<times> string) list" where
  "history_params limit before =
     (case limit of None \<Rightarrow> [] | Some n \<Rightarrow> if n = 0 then [] else [(''limit'', show_int n)]) @
     (case before of None \<Rightarrow> [] | Some b \<Rightarrow> if b = [] then [] else [(''before'', b)])"

definition get_history_req ::
  "string \<Rightarrow> string \<Rightarrow> string \<Rightarrow> int option \<Rightarrow> string option \<Rightarrow> request" where
  "get_history_req base tok channel limit before =
     (let qs = join ''&'' (map form_param (history_params limit before)) in
      \<lparr>req_method = GET,
       req_url = channel_url base channel @ ''/messages'' @ (if qs \<noteq> [] then ''?'' @ qs else []),
       req_headers = api_headers tok, req_body = None\<rparr>)"

definition send_typing_req :: "string \<Rightarrow> string \<Rightarrow> string \<Rightarrow> request" where
  "send_typing_req base tok channel =
     \<lparr>req_method = POST, req_url = channel_url base channel @ ''/typing'',
      req_headers = api_headers tok, req_body = None\<rparr>"

definition mark_read_req :: "string \<Rightarrow> string \<Rightarrow> string \<Rightarrow> string \<Rightarrow> request" where
  "mark_read_req base tok channel message_id =
     \<lparr>req_method = POST, req_url = channel_url base channel @ ''/ack'',
      req_headers = api_headers tok, req_body = json_body [(''message_id'', JStr message_id)]\<rparr>"

definition get_read_states_req :: "string \<Rightarrow> string \<Rightarrow> request" where
  "get_read_states_req base tok =
     \<lparr>req_method = GET, req_url = base @ ''/v1/read-states'', req_headers = api_headers tok,
      req_body = None\<rparr>"

definition sync_req :: "string \<Rightarrow> string \<Rightarrow> (string \<times> string) list \<Rightarrow> request" where
  "sync_req base tok channels =
     \<lparr>req_method = POST, req_url = base @ ''/v1/sync'', req_headers = api_headers tok,
      req_body = json_body [(''channels'', JArr (map (\<lambda>(channel, after).
        JObj [(''channel_id'', JStr channel), (''after'', JStr after)]) channels))]\<rparr>"

datatype attachment_kind = Image | Video | Audio | Document

definition attachment_kind :: "string \<Rightarrow> attachment_kind" where
  "attachment_kind content_type =
     (if starts_with ''image/'' content_type then Image
      else if starts_with ''video/'' content_type then Video
      else if starts_with ''audio/'' content_type then Audio
      else Document)"

section \<open>Uploading\<close>

text \<open>
  The state of one call of \<open>uploadAttachment\<close>: the promise, the request (\<open>in_flight\<close> from
  \<open>send\<close> until a final event) and the percentages reported. The rules of the browser are those
  of the standard: events come only while the request is in flight, and \<open>abort()\<close> fires the
  abort event only then.
\<close>

datatype 'a promise = Pending | Fulfilled 'a | Rejected api_error

record upload =
  up_promise :: "json promise"
  up_in_flight :: bool
  up_progress :: "int list"

definition settle :: "json promise \<Rightarrow> upload \<Rightarrow> upload" where
  "settle p u = (if up_promise u = Pending then u\<lparr>up_promise := p\<rparr> else u)"

datatype upload_event =
    Progress bool int int \<comment> \<open>lengthComputable, loaded, total\<close>
  | Loaded int "json option" string string \<comment> \<open>status, parsed text, text, statusText\<close>
  | XhrError
  | SignalAborts

text \<open>\<open>Math.round((loaded / total) * 100)\<close>.\<close>

definition percent :: "int \<Rightarrow> int \<Rightarrow> int" where
  "percent loaded whole = \<lfloor>of_int loaded / of_int whole * 100 + (1 / 2 :: real)\<rfloor>"

definition upload_loaded :: "int \<Rightarrow> json option \<Rightarrow> string \<Rightarrow> string \<Rightarrow> json promise" where
  "upload_loaded status parsed txt status_text =
     (if 200 \<le> status \<and> status < 300 then
        (case parsed of
           Some v \<Rightarrow> Fulfilled v
         | None \<Rightarrow> Rejected (ApiError 500 ''Invalid response JSON'' None))
      else Rejected (ApiError status (if txt \<noteq> [] then txt else status_text) None))"

fun upload_step :: "bool \<Rightarrow> upload_event \<Rightarrow> upload \<Rightarrow> upload" where
  "upload_step watched e u =
     (if \<not> up_in_flight u then u
      else case e of
        Progress computable loaded whole \<Rightarrow>
          if computable \<and> watched
          then u\<lparr>up_progress := up_progress u @ [percent loaded whole]\<rparr> else u
      | Loaded status parsed txt st \<Rightarrow>
          settle (upload_loaded status parsed txt st) (u\<lparr>up_in_flight := False\<rparr>)
      | XhrError \<Rightarrow>
          settle (Rejected (ApiError 0 ''Network error'' None)) (u\<lparr>up_in_flight := False\<rparr>)
      | SignalAborts \<Rightarrow>
          settle (Rejected (ApiError 0 ''Upload cancelled'' None)) (u\<lparr>up_in_flight := False\<rparr>))"

text \<open>
  The call: with a signal that is already aborted it aborts the request it has not sent and
  returns without sending.
\<close>

definition upload_start :: "bool \<Rightarrow> upload" where
  "upload_start already_aborted =
     \<lparr>up_promise = Pending, up_in_flight = \<not> already_aborted, up_progress = []\<rparr>"

section \<open>Reading Retry-After\<close>

lemma is_digit_digit_char: "d < 10 \<Longrightarrow> is_digit (digit_char d)"
  by (simp add: is_digit_def digit_val_digit_char)

lemma show_nat_all_digits: "c \<in> set (show_nat n) \<Longrightarrow> is_digit c \<and> \<not> js_space c \<and> c \<noteq> CHR ''-'' \<and> c \<noteq> CHR ''+''"
  using show_nat_digits [of n]
  by (auto simp: is_digit_digit_char digit_char_not_space digit_char_ne dest!: bspec)

lemma take_digits_show_nat [simp]: "takeWhile is_digit (show_nat n) = show_nat n"
  by (simp add: takeWhile_eq_all_conv show_nat_all_digits)

lemma parse_digits_show_nat [simp]: "parse_digits 10 (show_nat n) = Some (int n)"
  by (simp add: parse_digits_def parse_show_nat)

lemma parse_int10_show_nat: "parse_int10 (show_nat n) = Some (int n)"
proof -
  have "hd (show_nat n) \<in> set (show_nat n)" by simp
  from show_nat_all_digits [OF this] have h: "\<not> js_space (hd (show_nat n))"
    "hd (show_nat n) \<noteq> CHR ''-''" "hd (show_nat n) \<noteq> CHR ''+''" by auto
  then have "dropWhile js_space (show_nat n) = show_nat n"
    by (cases "show_nat n") auto
  with h show ?thesis by (simp add: parse_int10_def Let_def)
qed

lemma parse_int10_show_int: "parse_int10 (show_int k) = Some k"
proof (cases "k < 0")
  case False
  then show ?thesis by (simp add: show_int_def parse_int10_show_nat)
next
  case True
  then show ?thesis by (simp add: show_int_def parse_int10_def js_space_def Let_def)
qed

lemma retry_after_show_int:
  "parse_retry_after (Some (show_int k)) = (if 0 < k then Some k else None)"
proof -
  have "show_int k \<noteq> []" by (simp add: show_int_def)
  then show ?thesis by (simp add: parse_retry_after_def parse_int10_show_int)
qed

section \<open>Uploads\<close>

fun is_progress :: "upload_event \<Rightarrow> bool" where
  "is_progress (Progress _ _ _) = True"
| "is_progress _ = False"

text \<open>What the promise of an upload becomes when the request ends with an event.\<close>

fun final_outcome :: "upload_event \<Rightarrow> json promise" where
  "final_outcome (Loaded status parsed txt st) = upload_loaded status parsed txt st"
| "final_outcome XhrError = Rejected (ApiError 0 ''Network error'' None)"
| "final_outcome SignalAborts = Rejected (ApiError 0 ''Upload cancelled'' None)"
| "final_outcome (Progress _ _ _) = Pending"

fun reported :: "upload_event \<Rightarrow> int list" where
  "reported (Progress True loaded whole) = [percent loaded whole]"
| "reported _ = []"

lemma upload_over: "\<not> up_in_flight u \<Longrightarrow> fold (upload_step w) es u = u"
  by (induction es) simp_all

lemma upload_progress_run:
  "up_in_flight u \<Longrightarrow> up_promise u = Pending \<Longrightarrow> \<forall>e \<in> set ps. is_progress e \<Longrightarrow>
   fold (upload_step True) ps u = u\<lparr>up_progress := up_progress u @ concat (map reported ps)\<rparr>"
proof (induction ps arbitrary: u)
  case (Cons e ps)
  then obtain b l t where "e = Progress b l t" by (cases e) auto
  with Cons show ?case by (cases b) auto
qed simp

lemma upload_final_step:
  "up_in_flight u \<Longrightarrow> up_promise u = Pending \<Longrightarrow> \<not> is_progress e \<Longrightarrow>
   upload_step w e u = u\<lparr>up_promise := final_outcome e, up_in_flight := False\<rparr>"
  by (cases e) (auto simp: settle_def)

lemma percent_bounds:
  assumes "0 \<le> loaded" "loaded \<le> whole" "0 < whole"
  shows "0 \<le> percent loaded whole" "percent loaded whole \<le> 100"
proof -
  let ?q = "real_of_int loaded / real_of_int whole"
  have q: "0 \<le> ?q" "?q \<le> 1" using assms by auto
  then show "0 \<le> percent loaded whole" by (simp add: percent_def)
  have "?q * 100 + 1 / 2 < 101" using q by simp
  then show "percent loaded whole \<le> 100" by (simp add: percent_def floor_le_iff)
qed

section \<open>Properties\<close>



text \<open>An upload settles exactly once, by the first event that ends its request: progress before
  it is reported in order and as percentages in [0, 100], and nothing after it changes the
  promise or reports progress.
\<close>

theorem upload_settles_once:
  assumes "\<forall>e \<in> set ps. is_progress e" "\<not> is_progress e"
    and "\<forall>b l t. Progress b l t \<in> set ps \<longrightarrow> 0 \<le> l \<and> l \<le> t \<and> 0 < t"
  shows "let u = fold (upload_step True) (ps @ e # rest) (upload_start False)
         in up_promise u = final_outcome e \<and> up_promise u \<noteq> Pending
          \<and> up_progress u = concat (map reported ps) \<and> set (up_progress u) \<subseteq> {0..100}"
proof -
  let ?s = "upload_start False"
  let ?m = "?s\<lparr>up_progress := concat (map reported ps)\<rparr>"
  have "fold (upload_step True) ps ?s = ?m"
    using upload_progress_run [of ?s ps] assms(1) by (simp add: upload_start_def)
  moreover have "upload_step True e ?m = ?m\<lparr>up_promise := final_outcome e, up_in_flight := False\<rparr>"
    using assms(2) by (intro upload_final_step) (simp_all add: upload_start_def)
  ultimately have u: "fold (upload_step True) (ps @ e # rest) ?s =
      ?m\<lparr>up_promise := final_outcome e, up_in_flight := False\<rparr>"
    by (simp add: upload_over del: upload_step.simps)
  have "final_outcome e \<noteq> Pending"
    using assms(2) by (cases e) (auto simp: upload_loaded_def split: option.splits)
  moreover have "set (reported p) \<subseteq> {0..100}" if "p \<in> set ps" for p
    using assms(3) that percent_bounds by (cases p rule: reported.cases) auto
  ultimately show ?thesis unfolding u Let_def by auto
qed

theorem upload_settles_once_witness:
  "up_promise (fold (upload_step True)
      ([Progress True 1 2] @ Loaded 200 None ''<html>'' ''OK'' # [SignalAborts]) (upload_start False))
   = Rejected (ApiError 500 ''Invalid response JSON'' None)"
  using upload_settles_once [of "[Progress True 1 2]" "Loaded 200 None ''<html>'' ''OK''" "[SignalAborts]"]
  by (simp add: Let_def upload_loaded_def del: upload_step.simps)

text \<open>An upload started with a signal that is already aborted never settles: the request is
  aborted before it was sent, no event of it follows, and the promise stays pending.
\<close>

theorem upload_already_aborted_hangs:
  "up_promise (fold (upload_step watched) es (upload_start True)) = Pending"
  by (subst upload_over) (simp_all add: upload_start_def)

end
