(* ===== verification/ChatStore.thy ===== *)
theory ChatStore
  imports ChatApi
begin

text \<open>
  \<open>ChatProvider\<close> of \<open>frontend/contexts/chat-context.tsx\<close>: messages, typing, unread counts and
  history of the channels, fed by the gateway client and the REST calls.

  The record \<open>chat\<close> holds the React state of the provider, its refs, what was last rendered,
  and the part of the environment it waits on: REST calls in flight with the variables their
  continuation captured (\<open>calls\<close>), typing timeouts (\<open>typing_due\<close>) and rate-limit countdowns.
  \<open>effects\<close> logs what it asked of the outside, in order.

  A functional state update is applied where it is issued, which is the order React applies them
  in. \<open>Render\<close> takes the state into what the effects of that render will see, \<open>Flush\<close> runs those
  effects: the refs that mirror state, then the transition of the active channel. Other inputs
  may come between the two. Ids are compared by \<open>cmp_val\<close>, which is \<open>cmpIds\<close> on decimal ids
  (\<open>cmp_ids_val\<close>).
\<close>

section \<open>State\<close>

datatype send_status = Sending | SendFailed

record chat_msg =
  msg_hub :: string
  msg_channel :: string
  msg_id :: string
  msg_author :: string
  msg_author_type :: string
  msg_content :: string
  msg_thread_root :: "string option"
  msg_mentions :: "string list"
  msg_mention_groups :: "string list"
  msg_mention_everyone :: bool
  msg_attachments :: "json list"
  msg_edited_at :: "string option"
  msg_deleted_at :: "string option"
  msg_client :: "string option"
  msg_bucket :: int
  msg_status :: "send_status option"

record unread_row =
  last_read :: string
  unread_count :: nat

record payload =
  pl_channel :: string
  pl_content :: string
  pl_attachments :: "json list option"

record read_state =
  rs_channel :: string
  rs_last_read :: string

record sync_channel =
  sc_channel :: string
  sc_messages :: "chat_msg list"
  sc_limited :: bool

datatype sound = MessageIn | MessageOut

datatype chat_effect =
    MarkRead string string
  | PostMessage string string string "json list option" \<comment> \<open>channel, client id, content, attachments\<close>
  | FetchHistory string "string option"
  | FetchReadStates
  | FetchSync "(string \<times> string) list"
  | PostTyping string
  | Unauthorized
  | PlaySound sound
  | ShowToast nat int
  | DismissToast nat
  | ClientConnect
  | ClientDisconnect

text \<open>A call in flight, with what its continuation captured.\<close>

datatype call =
    CReadStates
  | CSync "string option" "read_state list list" \<comment> \<open>my id, the batches still to come\<close>
  | CHistory string
  | CMore string
  | CSend string string

datatype reply =
    RStates "read_state list"
  | RSync "sync_channel list"
  | RHistory "chat_msg list"
  | RSent
  | RFail api_error

record chat =
  client_on :: bool
  conn_shown :: conn_state
  messages :: "string \<rightharpoonup> chat_msg list"
  typing :: "string \<rightharpoonup> string list"
  unread :: "string \<rightharpoonup> unread_row"
  divider :: "string \<rightharpoonup> string option"
  active :: "string option"
  rendered_messages :: "string \<rightharpoonup> chat_msg list"
  rendered_unread :: "string \<rightharpoonup> unread_row"
  rendered_active :: "string option"
  messages_ref :: "string \<rightharpoonup> chat_msg list"
  unread_ref :: "string \<rightharpoonup> unread_row"
  active_ref :: "string option"
  effect_active :: "string option" \<comment> \<open>the channel the transition effect last ran for\<close>
  my_id :: "string option"
  typing_timers :: "string \<Rightarrow> string \<rightharpoonup> nat"
  last_message_at :: "string \<Rightarrow> string \<rightharpoonup> int"
  loading :: "string set"
  loaded :: "string set"
  synth_counter :: int
  pending_payload :: "string \<rightharpoonup> payload"
  rate_toast :: "string \<rightharpoonup> nat"
  typing_due :: "nat \<rightharpoonup> string \<times> string"
  countdowns :: "nat \<rightharpoonup> string \<times> int"
  calls :: "nat \<rightharpoonup> call"
  fresh :: nat
  effects :: "chat_effect list"

definition new_chat :: chat where
  "new_chat =
     \<lparr>client_on = False, conn_shown = Disconnected, messages = (\<lambda>_. None), typing = (\<lambda>_. None),
      unread = (\<lambda>_. None), divider = (\<lambda>_. None), active = None, rendered_messages = (\<lambda>_. None),
      rendered_unread = (\<lambda>_. None), rendered_active = None, messages_ref = (\<lambda>_. None),
      unread_ref = (\<lambda>_. None), active_ref = None, effect_active = None, my_id = None,
      typing_timers = (\<lambda>_ _. None), last_message_at = (\<lambda>_ _. None), loading = {}, loaded = {},
      synth_counter = 0, pending_payload = (\<lambda>_. None), rate_toast = (\<lambda>_. None),
      typing_due = (\<lambda>_. None), countdowns = (\<lambda>_. None), calls = (\<lambda>_. None), fresh = 0,
      effects = []\<rparr>"

section \<open>Small steps\<close>

definition ask :: "chat_effect list \<Rightarrow> chat \<Rightarrow> chat" where
  "ask es s = s\<lparr>effects := effects s @ es\<rparr>"

definition call_out :: "chat_effect \<Rightarrow> call \<Rightarrow> chat \<Rightarrow> chat" where
  "call_out e c s = ask [e] (s\<lparr>calls := (calls s)(fresh s \<mapsto> c), fresh := Suc (fresh s)\<rparr>)"

definition put_messages :: "string \<Rightarrow> chat_msg list \<Rightarrow> chat \<Rightarrow> chat" where
  "put_messages ch l s = s\<lparr>messages := (messages s)(ch \<mapsto> l)\<rparr>"

definition put_unread :: "string \<Rightarrow> string \<Rightarrow> nat \<Rightarrow> chat \<Rightarrow> chat" where
  "put_unread ch lr n s =
     s\<lparr>unread := (unread s)(ch \<mapsto> \<lparr>last_read = lr, unread_count = n\<rparr>)\<rparr>"

text \<open>\<open>prevRow && cmpIds(prevRow.lastReadMessageId, id) > 0 ? prevRow.lastReadMessageId : id\<close>\<close>

definition later_read :: "unread_row option \<Rightarrow> string \<Rightarrow> string" where
  "later_read row mid = (case row of None \<Rightarrow> mid | Some r \<Rightarrow> later cmp_val (last_read r) mid)"

definition ack_up_to :: "string \<Rightarrow> string \<Rightarrow> chat \<Rightarrow> chat" where
  "ack_up_to ch mid s =
     (if \<not> client_on s then s
      else if (case unread_ref s ch of None \<Rightarrow> False
               | Some prev \<Rightarrow> cmp_val (last_read prev) mid \<ge> 0 \<and> unread_count prev = 0) then s
      else put_unread ch (later_read (unread s ch) mid) 0 (ask [MarkRead ch mid] s))"

section \<open>Events of the gateway\<close>

text \<open>The list of the channel after a new message: the optimistic copy moves to the tail.\<close>

definition insert_new :: "chat_msg \<Rightarrow> chat_msg list \<Rightarrow> chat_msg list" where
  "insert_new msg l =
     (case msg_client msg of
        None \<Rightarrow> l @ [msg]
      | Some c \<Rightarrow>
          if c = [] then l @ [msg]
          else (case find_index (\<lambda>m. msg_client m = Some c) l of
                  Some i \<Rightarrow> remove_at i l @ [msg]
                | None \<Rightarrow> l @ [msg]))"

definition forget_payload :: "string option \<Rightarrow> chat \<Rightarrow> chat" where
  "forget_payload c s =
     (case c of None \<Rightarrow> s
      | Some k \<Rightarrow> if k = [] then s else s\<lparr>pending_payload := (pending_payload s)(k := None)\<rparr>)"

text \<open>A message ends its author's typing.\<close>

definition stop_typing :: "string \<Rightarrow> string \<Rightarrow> int \<Rightarrow> chat \<Rightarrow> chat" where
  "stop_typing ch author now s =
     (let s1 = (case typing_timers s ch author of
                  None \<Rightarrow> s
                | Some t \<Rightarrow> s\<lparr>typing_due := (typing_due s)(t := None),
                              typing_timers := (typing_timers s)
                                (ch := (typing_timers s ch)(author := None))\<rparr>);
          s2 = s1\<lparr>last_message_at := (last_message_at s1)
                    (ch := (last_message_at s1 ch)(author \<mapsto> now))\<rparr>
      in case typing s2 ch of
           None \<Rightarrow> s2
         | Some us \<Rightarrow> if author \<notin> set us then s2
                      else s2\<lparr>typing := (typing s2)(ch \<mapsto> filter (\<lambda>u. u \<noteq> author) us)\<rparr>)"

definition count_new :: "bool \<Rightarrow> bool \<Rightarrow> chat_msg \<Rightarrow> chat \<Rightarrow> chat" where
  "count_new is_mine is_focused msg s =
     (let ch = msg_channel msg in
      if is_mine then put_unread ch (later_read (unread s ch) (msg_id msg)) 0 s
      else if is_focused then ack_up_to ch (msg_id msg) s
      else (case unread s ch of
              None \<Rightarrow> put_unread ch ''0'' 1 s
            | Some row \<Rightarrow> put_unread ch (last_read row) (unread_count row + 1) s))"

definition on_message_new :: "int \<Rightarrow> chat_msg \<Rightarrow> chat \<Rightarrow> chat" where
  "on_message_new now msg s =
     (let ch = msg_channel msg;
          is_mine = (my_id s = Some (msg_author msg));
          s1 = (case messages s ch of None \<Rightarrow> s | Some l \<Rightarrow> put_messages ch (insert_new msg l) s);
          s2 = stop_typing ch (msg_author msg) now (forget_payload (msg_client msg) s1);
          is_focused = (active_ref s2 = Some ch);
          s3 = count_new is_mine is_focused msg s2
      in if is_mine then ask [PlaySound MessageOut] s3
         else if is_focused then ask [PlaySound MessageIn] s3 else s3)"

definition edit_list :: "string \<Rightarrow> (chat_msg list \<Rightarrow> chat_msg list) \<Rightarrow> chat \<Rightarrow> chat" where
  "edit_list ch f s = (case messages s ch of None \<Rightarrow> s | Some l \<Rightarrow> put_messages ch (f l) s)"

definition on_message_updated :: "string \<Rightarrow> string \<Rightarrow> string \<Rightarrow> chat \<Rightarrow> chat" where
  "on_message_updated ch mid content =
     edit_list ch (map (\<lambda>m. if msg_id m = mid
       then m\<lparr>msg_content := content, msg_edited_at := Some ''now''\<rparr> else m))"

definition on_message_deleted :: "string \<Rightarrow> string \<Rightarrow> chat \<Rightarrow> chat" where
  "on_message_deleted ch mid = edit_list ch (filter (\<lambda>m. msg_id m \<noteq> mid))"

definition on_attachment_updated :: "string \<Rightarrow> string \<Rightarrow> json list \<Rightarrow> chat \<Rightarrow> chat" where
  "on_attachment_updated ch mid atts =
     edit_list ch (map (\<lambda>m. if msg_id m = mid then m\<lparr>msg_attachments := atts\<rparr> else m))"

definition on_typing_start :: "int \<Rightarrow> string \<Rightarrow> string \<Rightarrow> chat \<Rightarrow> chat" where
  "on_typing_start now ch user s =
     (if my_id s = Some user then s
      else if now - (case last_message_at s ch user of None \<Rightarrow> 0 | Some t \<Rightarrow> t) < 2000 then s
      else
        (let existing = (case typing s ch of None \<Rightarrow> [] | Some us \<Rightarrow> us);
             s1 = (if user \<in> set existing then s
                   else s\<lparr>typing := (typing s)(ch \<mapsto> existing @ [user])\<rparr>);
             s2 = (case typing_timers s1 ch user of
                     None \<Rightarrow> s1 | Some t \<Rightarrow> s1\<lparr>typing_due := (typing_due s1)(t := None)\<rparr>)
         in s2\<lparr>typing_due := (typing_due s2)(fresh s2 \<mapsto> (ch, user)),
               typing_timers := (typing_timers s2)
                 (ch := (typing_timers s2 ch)(user \<mapsto> fresh s2)),
               fresh := Suc (fresh s2)\<rparr>))"

text \<open>The timeout of 6 seconds.\<close>

definition typing_timeout :: "nat \<Rightarrow> chat \<Rightarrow> chat" where
  "typing_timeout t s =
     (case typing_due s t of
        None \<Rightarrow> s
      | Some (ch, user) \<Rightarrow>
          (let s1 = s\<lparr>typing_due := (typing_due s)(t := None),
                      typing_timers := (typing_timers s)
                        (ch := (typing_timers s ch)(user := None))\<rparr>
           in case typing s1 ch of
                None \<Rightarrow> s1
              | Some us \<Rightarrow> s1\<lparr>typing := (typing s1)(ch \<mapsto> filter (\<lambda>u. u \<noteq> user) us)\<rparr>))"

section \<open>Sessions, read states and the backfill of unread counts\<close>

definition session_start :: "chat \<Rightarrow> chat" where
  "session_start s = call_out FetchReadStates CReadStates (ask [ClientConnect] (s\<lparr>client_on := True\<rparr>))"

definition session_end :: "chat \<Rightarrow> chat" where
  "session_end s =
     (if \<not> client_on s then s
      else ask (ClientDisconnect # map DismissToast (filter (\<lambda>i. i \<in> ran (rate_toast s)) [0 ..< fresh s]))
        (s\<lparr>client_on := False, messages := (\<lambda>_. None), typing := (\<lambda>_. None), unread := (\<lambda>_. None),
           divider := (\<lambda>_. None), loading := {}, loaded := {}, pending_payload := (\<lambda>_. None),
           typing_due := (\<lambda>_. None), typing_timers := (\<lambda>_ _. None),
           last_message_at := (\<lambda>_ _. None), rate_toast := (\<lambda>_. None)\<rparr>))"

definition merge_read_state :: "read_state \<Rightarrow> chat \<Rightarrow> chat" where
  "merge_read_state rs s =
     put_unread (rs_channel rs) (later_read (unread s (rs_channel rs)) (rs_last_read rs))
       (case unread s (rs_channel rs) of None \<Rightarrow> 0 | Some row \<Rightarrow> unread_count row) s"

fun batches :: "nat \<Rightarrow> 'a list \<Rightarrow> 'a list list" where
  "batches n [] = []"
| "batches n (x # xs) = take (Suc n) (x # xs) # batches n (drop n xs)"

definition sync_next :: "string option \<Rightarrow> read_state list list \<Rightarrow> chat \<Rightarrow> chat" where
  "sync_next mine bs s =
     (case bs of
        [] \<Rightarrow> s
      | b # rest \<Rightarrow>
          call_out (FetchSync (map (\<lambda>rs. (rs_channel rs, rs_last_read rs)) b)) (CSync mine rest) s)"

text \<open>Batches of 50 (\<open>batches 49\<close>), of the channels that were ever read.\<close>

definition on_read_states :: "read_state list \<Rightarrow> chat \<Rightarrow> chat" where
  "on_read_states states s =
     sync_next (my_id s) (batches 49 (filter (\<lambda>rs. rs_last_read rs \<noteq> ''0'') states))
       (fold merge_read_state states s)"

definition foreign_count :: "string option \<Rightarrow> chat_msg list \<Rightarrow> nat" where
  "foreign_count mine ms =
     (case mine of
        None \<Rightarrow> length ms
      | Some me \<Rightarrow> if me = [] then length ms else length (filter (\<lambda>m. msg_author m \<noteq> me) ms))"

definition merge_sync :: "string option \<Rightarrow> sync_channel \<Rightarrow> chat \<Rightarrow> chat" where
  "merge_sync mine sc s =
     (case unread s (sc_channel sc) of
        None \<Rightarrow> s
      | Some row \<Rightarrow>
          (let n = foreign_count mine (sc_messages sc);
               u = (if sc_limited sc then max 300 n else n)
           in put_unread (sc_channel sc) (last_read row) (max (unread_count row) u) s))"

definition on_sync :: "string option \<Rightarrow> read_state list list \<Rightarrow> sync_channel list \<Rightarrow> chat \<Rightarrow> chat" where
  "on_sync mine rest scs s = sync_next mine rest (fold (merge_sync mine) scs s)"

section \<open>Rendering and the active channel\<close>

definition set_active :: "string option \<Rightarrow> chat \<Rightarrow> chat" where
  "set_active ch s = s\<lparr>active := ch\<rparr>"

definition render :: "chat \<Rightarrow> chat" where
  "render s = s\<lparr>rendered_messages := messages s, rendered_unread := unread s,
                rendered_active := active s\<rparr>"

definition enter_channel :: "string \<Rightarrow> chat \<Rightarrow> chat" where
  "enter_channel ch s =
     (let pos = (case unread_ref s ch of None \<Rightarrow> None
                 | Some row \<Rightarrow> if unread_count row > 0 then Some (last_read row) else None);
          s1 = s\<lparr>divider := (divider s)(ch \<mapsto> pos)\<rparr>
      in case messages_ref s1 ch of
           None \<Rightarrow> s1
         | Some l \<Rightarrow>
             if l = [] then s1
             else (case unread_ref s1 ch of
                     None \<Rightarrow> ack_up_to ch (msg_id (last l)) s1
                   | Some row \<Rightarrow>
                       if cmp_val (last_read row) (msg_id (last l)) < 0
                       then ack_up_to ch (msg_id (last l)) s1
                       else if unread_count row > 0 then put_unread ch (last_read row) 0 s1
                       else s1))"

definition flush :: "chat \<Rightarrow> chat" where
  "flush s =
     (let s1 = s\<lparr>active_ref := rendered_active s, unread_ref := rendered_unread s,
                 messages_ref := rendered_messages s\<rparr>
      in if rendered_active s = effect_active s then s1
         else (let s2 = s1\<lparr>effect_active := rendered_active s\<rparr>
               in case rendered_active s of None \<Rightarrow> s2 | Some ch \<Rightarrow> enter_channel ch s2))"

section \<open>History\<close>

definition ensure_history :: "string \<Rightarrow> chat \<Rightarrow> chat" where
  "ensure_history ch s =
     (if \<not> client_on s \<or> ch \<in> loaded s \<or> ch \<in> loading s then s
      else call_out (FetchHistory ch None) (CHistory ch) (s\<lparr>loading := insert ch (loading s)\<rparr>))"

definition merge_history :: "chat_msg list \<Rightarrow> chat_msg list \<Rightarrow> chat_msg list" where
  "merge_history reversed existing =
     reversed @ filter (\<lambda>m. msg_status m \<noteq> None \<and> msg_id m \<notin> set (map msg_id reversed)) existing"

definition on_history :: "string \<Rightarrow> chat_msg list \<Rightarrow> chat \<Rightarrow> chat" where
  "on_history ch history s =
     (let s1 = s\<lparr>loaded := insert ch (loaded s), loading := loading s - {ch}\<rparr>;
          reversed = rev history;
          existing = (case messages s1 ch of None \<Rightarrow> [] | Some l \<Rightarrow> l);
          s2 = put_messages ch (merge_history reversed existing) s1
      in if active_ref s2 = Some ch \<and> reversed \<noteq> []
         then (let newest = msg_id (last reversed) in
               case unread_ref s2 ch of
                 None \<Rightarrow> ack_up_to ch newest s2
               | Some row \<Rightarrow> if cmp_val (last_read row) newest < 0 then ack_up_to ch newest s2 else s2)
         else s2)"

definition history_failed :: "string \<Rightarrow> api_error \<Rightarrow> chat \<Rightarrow> chat" where
  "history_failed ch err s =
     (let s1 = s\<lparr>loading := loading s - {ch}\<rparr> in
      case err of ApiError st _ _ \<Rightarrow> if st = 401 then ask [Unauthorized] s1 else s1 | _ \<Rightarrow> s1)"

definition load_more :: "string \<Rightarrow> chat \<Rightarrow> chat" where
  "load_more ch s =
     (if \<not> client_on s then s
      else (case messages_ref s ch of
              None \<Rightarrow> s
            | Some [] \<Rightarrow> s
            | Some (oldest # _) \<Rightarrow>
                call_out (FetchHistory ch (Some (msg_id oldest))) (CMore ch) s))"

definition on_more :: "string \<Rightarrow> chat_msg list \<Rightarrow> chat \<Rightarrow> chat" where
  "on_more ch older s =
     (if older = [] then s
      else put_messages ch (rev older @ (case messages s ch of None \<Rightarrow> [] | Some l \<Rightarrow> l)) s)"

section \<open>Sending\<close>

definition show_rate_limit :: "string \<Rightarrow> int \<Rightarrow> chat \<Rightarrow> chat" where
  "show_rate_limit ch seconds s =
     (let s1 = (case rate_toast s ch of None \<Rightarrow> s | Some i \<Rightarrow> ask [DismissToast i] s);
          i = fresh s1
      in ask [ShowToast i seconds]
           (s1\<lparr>rate_toast := (rate_toast s1)(ch \<mapsto> i),
               countdowns := (countdowns s1)(i \<mapsto> (ch, seconds)), fresh := Suc i\<rparr>))"

text \<open>One tick of the interval of a countdown.\<close>

definition countdown_tick :: "nat \<Rightarrow> chat \<Rightarrow> chat" where
  "countdown_tick i s =
     (case countdowns s i of
        None \<Rightarrow> s
      | Some (ch, remaining) \<Rightarrow>
          if remaining - 1 \<le> 0
          then ask [DismissToast i]
                 (s\<lparr>countdowns := (countdowns s)(i := None), rate_toast := (rate_toast s)(ch := None)\<rparr>)
          else ask [ShowToast i (remaining - 1)]
                 (s\<lparr>countdowns := (countdowns s)(i \<mapsto> (ch, remaining - 1))\<rparr>))"

definition do_send :: "string \<Rightarrow> string \<Rightarrow> string \<Rightarrow> json list option \<Rightarrow> chat \<Rightarrow> chat" where
  "do_send ch cid content atts s =
     (if \<not> client_on s then s
      else call_out (PostMessage ch cid content atts) (CSend ch cid) s)"

definition mark_failed :: "string \<Rightarrow> chat_msg list \<Rightarrow> chat_msg list" where
  "mark_failed cid l =
     (case find_index (\<lambda>m. msg_client m = Some cid) l of
        None \<Rightarrow> l | Some i \<Rightarrow> l[i := (l ! i)\<lparr>msg_status := Some SendFailed\<rparr>])"

definition send_failed :: "string \<Rightarrow> string \<Rightarrow> api_error \<Rightarrow> chat \<Rightarrow> chat" where
  "send_failed ch cid err s =
     (case err of
        ApiError st _ retry \<Rightarrow>
          if st = 401 then ask [Unauthorized] s
          else edit_list ch (mark_failed cid)
                 (if st = 429 then show_rate_limit ch (case retry of None \<Rightarrow> 5 | Some n \<Rightarrow> n) s else s)
      | _ \<Rightarrow> edit_list ch (mark_failed cid) s)"

definition synthetic_msg ::
  "string \<Rightarrow> string \<Rightarrow> string \<Rightarrow> string \<Rightarrow> string \<Rightarrow> json list option \<Rightarrow> string \<Rightarrow> chat_msg" where
  "synthetic_msg hub ch mid me content atts cid =
     \<lparr>msg_hub = hub, msg_channel = ch, msg_id = mid, msg_author = me,
      msg_author_type = ''permanent'', msg_content = content, msg_thread_root = None,
      msg_mentions = [], msg_mention_groups = [], msg_mention_everyone = False,
      msg_attachments = (case atts of None \<Rightarrow> [] | Some a \<Rightarrow> a), msg_edited_at = None,
      msg_deleted_at = None, msg_client = Some cid, msg_bucket = 0, msg_status = Some Sending\<rparr>"

text \<open>\<open>cid\<close> is the random id of the message, \<open>now\<close> the clock, \<open>hub\<close> the hub of the session.\<close>

definition send_message ::
  "string \<Rightarrow> int \<Rightarrow> string \<Rightarrow> string \<Rightarrow> string \<Rightarrow> json list option \<Rightarrow> chat \<Rightarrow> chat" where
  "send_message cid now hub ch content atts s =
     (case my_id s of
        None \<Rightarrow> s
      | Some me \<Rightarrow>
          (let trimmed = js_trim content in
           if \<not> client_on s \<or> (trimmed = [] \<and> (case atts of None \<Rightarrow> True | Some a \<Rightarrow> a = [])) then s
           else
             (let n = (synth_counter s + 1) AND 0xffffff;
                  msg = synthetic_msg hub ch (synthetic_message_id now n) me trimmed atts cid;
                  s1 = s\<lparr>synth_counter := n,
                         pending_payload := (pending_payload s)
                           (cid \<mapsto> \<lparr>pl_channel = ch, pl_content = trimmed, pl_attachments = atts\<rparr>)\<rparr>;
                  l = (case messages s1 ch of None \<Rightarrow> [] | Some l \<Rightarrow> l)
              in do_send ch cid trimmed atts (put_messages ch (l @ [msg]) s1))))"

definition retry_list :: "string \<Rightarrow> chat_msg list \<Rightarrow> chat_msg list" where
  "retry_list cid l =
     (case find_index (\<lambda>m. msg_client m = Some cid) l of
        None \<Rightarrow> l | Some i \<Rightarrow> remove_at i l @ [(l ! i)\<lparr>msg_status := Some Sending\<rparr>])"

definition retry_message :: "string \<Rightarrow> string \<Rightarrow> chat \<Rightarrow> chat" where
  "retry_message ch cid s =
     (case pending_payload s cid of
        None \<Rightarrow> s
      | Some p \<Rightarrow>
          do_send ch cid (pl_content p) (pl_attachments p) (edit_list ch (retry_list cid) s))"

definition cancel_message :: "string \<Rightarrow> string \<Rightarrow> chat \<Rightarrow> chat" where
  "cancel_message ch cid s =
     edit_list ch (filter (\<lambda>m. msg_client m \<noteq> Some cid))
       (s\<lparr>pending_payload := (pending_payload s)(cid := None)\<rparr>)"

definition send_typing :: "string \<Rightarrow> chat \<Rightarrow> chat" where
  "send_typing ch s = (if client_on s then ask [PostTyping ch] s else s)"

section \<open>The machine\<close>

datatype chat_input =
    WsState conn_state
  | WsNew int chat_msg
  | WsUpdated string string string
  | WsDeleted string string
  | WsAttachments string string "json list"
  | WsTyping int string string
  | UserChanged "string option"
  | SessionStart
  | SessionEnd
  | SetActive "string option"
  | Render
  | Flush
  | EnsureHistory string
  | LoadMore string
  | SendMessage string int string string string "json list option"
  | RetryMessage string string
  | CancelMessage string string
  | SendTyping string
  | TypingTimeout nat
  | CountdownTick nat
  | Done nat reply

text \<open>A call comes back: its continuation runs, once.\<close>

fun continue :: "call \<Rightarrow> reply \<Rightarrow> chat \<Rightarrow> chat" where
  "continue CReadStates (RStates rs) s = on_read_states rs s"
| "continue (CSync mine rest) (RSync scs) s = on_sync mine rest scs s"
| "continue (CHistory ch) (RHistory h) s = on_history ch h s"
| "continue (CHistory ch) (RFail err) s = history_failed ch err s"
| "continue (CMore ch) (RHistory h) s = on_more ch h s"
| "continue (CSend ch cid) (RFail err) s = send_failed ch cid err s"
| "continue _ _ s = s"

text \<open>Events of the gateway reach the provider while its client is subscribed.\<close>

fun gateway_event :: "chat_input \<Rightarrow> bool" where
  "gateway_event (WsState _) = True"
| "gateway_event (WsNew _ _) = True"
| "gateway_event (WsUpdated _ _ _) = True"
| "gateway_event (WsDeleted _ _) = True"
| "gateway_event (WsAttachments _ _ _) = True"
| "gateway_event (WsTyping _ _ _) = True"
| "gateway_event _ = False"

fun deliver :: "chat_input \<Rightarrow> chat \<Rightarrow> chat" where
  "deliver (WsState st) s = s\<lparr>conn_shown := st\<rparr>"
| "deliver (WsNew now msg) s = on_message_new now msg s"
| "deliver (WsUpdated ch mid c) s = on_message_updated ch mid c s"
| "deliver (WsDeleted ch mid) s = on_message_deleted ch mid s"
| "deliver (WsAttachments ch mid a) s = on_attachment_updated ch mid a s"
| "deliver (WsTyping now ch u) s = on_typing_start now ch u s"
| "deliver (UserChanged u) s = s\<lparr>my_id := u\<rparr>"
| "deliver SessionStart s = (if client_on s then s else session_start s)"
| "deliver SessionEnd s = session_end s"
| "deliver (SetActive ch) s = set_active ch s"
| "deliver Render s = render s"
| "deliver Flush s = flush s"
| "deliver (EnsureHistory ch) s = ensure_history ch s"
| "deliver (LoadMore ch) s = load_more ch s"
| "deliver (SendMessage cid now hub ch c a) s = send_message cid now hub ch c a s"
| "deliver (RetryMessage ch cid) s = retry_message ch cid s"
| "deliver (CancelMessage ch cid) s = cancel_message ch cid s"
| "deliver (SendTyping ch) s = send_typing ch s"
| "deliver (TypingTimeout t) s = typing_timeout t s"
| "deliver (CountdownTick i) s = countdown_tick i s"
| "deliver (Done n r) s =
     (case calls s n of None \<Rightarrow> s | Some c \<Rightarrow> continue c r (s\<lparr>calls := (calls s)(n := None)\<rparr>))"

definition chat_step :: "chat_input \<Rightarrow> chat \<Rightarrow> chat" where
  "chat_step e s = (if gateway_event e \<and> \<not> client_on s then s else deliver e s)"

end
