(* ===== verification/ChatStoreLemmas.thy ===== *)
theory ChatStoreLemmas
  imports ChatStore
begin

text \<open>
  The lemmas of the chat provider. The fields each small step leaves alone come first; then the
  order on read positions with its interpretation as a monotone machine, the typing invariant,
  the history invariant, and the lists of messages as refinements of a log.
\<close>

section \<open>Frames\<close>

lemma ask_frame [simp]:
  "unread (ask es s) = unread s" "messages (ask es s) = messages s" "typing (ask es s) = typing s"
  "typing_timers (ask es s) = typing_timers s" "typing_due (ask es s) = typing_due s"
  "loading (ask es s) = loading s" "loaded (ask es s) = loaded s" "calls (ask es s) = calls s"
  "fresh (ask es s) = fresh s" "client_on (ask es s) = client_on s"
  "unread_ref (ask es s) = unread_ref s" "my_id (ask es s) = my_id s"
  "active_ref (ask es s) = active_ref s" "pending_payload (ask es s) = pending_payload s"
  "messages_ref (ask es s) = messages_ref s" "rate_toast (ask es s) = rate_toast s"
  "countdowns (ask es s) = countdowns s" "effects (ask es s) = effects s @ es"
  by (simp_all add: ask_def)

lemma call_out_frame [simp]:
  "unread (call_out e c s) = unread s" "messages (call_out e c s) = messages s"
  "typing (call_out e c s) = typing s" "typing_timers (call_out e c s) = typing_timers s"
  "typing_due (call_out e c s) = typing_due s" "loading (call_out e c s) = loading s"
  "loaded (call_out e c s) = loaded s" "client_on (call_out e c s) = client_on s"
  "pending_payload (call_out e c s) = pending_payload s"
  "calls (call_out e c s) = (calls s)(fresh s \<mapsto> c)" "fresh (call_out e c s) = Suc (fresh s)"
  "effects (call_out e c s) = effects s @ [e]"
  by (simp_all add: call_out_def)

lemma put_messages_frame [simp]:
  "unread (put_messages ch l s) = unread s" "typing (put_messages ch l s) = typing s"
  "typing_timers (put_messages ch l s) = typing_timers s"
  "typing_due (put_messages ch l s) = typing_due s" "loading (put_messages ch l s) = loading s"
  "loaded (put_messages ch l s) = loaded s" "calls (put_messages ch l s) = calls s"
  "fresh (put_messages ch l s) = fresh s" "client_on (put_messages ch l s) = client_on s"
  "unread_ref (put_messages ch l s) = unread_ref s" "my_id (put_messages ch l s) = my_id s"
  "active_ref (put_messages ch l s) = active_ref s" "effects (put_messages ch l s) = effects s"
  "pending_payload (put_messages ch l s) = pending_payload s"
  "messages (put_messages ch l s) = (messages s)(ch \<mapsto> l)"
  by (simp_all add: put_messages_def)

lemma put_unread_frame [simp]:
  "messages (put_unread ch lr n s) = messages s" "typing (put_unread ch lr n s) = typing s"
  "typing_timers (put_unread ch lr n s) = typing_timers s"
  "typing_due (put_unread ch lr n s) = typing_due s" "loading (put_unread ch lr n s) = loading s"
  "loaded (put_unread ch lr n s) = loaded s" "calls (put_unread ch lr n s) = calls s"
  "fresh (put_unread ch lr n s) = fresh s" "effects (put_unread ch lr n s) = effects s"
  "unread (put_unread ch lr n s) = (unread s)(ch \<mapsto> \<lparr>last_read = lr, unread_count = n\<rparr>)"
  "client_on (put_unread ch lr n s) = client_on s"
  by (simp_all add: put_unread_def)

lemma edit_list_frame [simp]:
  "unread (edit_list ch f s) = unread s" "typing (edit_list ch f s) = typing s"
  "typing_timers (edit_list ch f s) = typing_timers s" "typing_due (edit_list ch f s) = typing_due s"
  "loading (edit_list ch f s) = loading s" "loaded (edit_list ch f s) = loaded s"
  "calls (edit_list ch f s) = calls s" "fresh (edit_list ch f s) = fresh s"
  "client_on (edit_list ch f s) = client_on s" "effects (edit_list ch f s) = effects s"
  "pending_payload (edit_list ch f s) = pending_payload s"
  "messages (edit_list ch f s) = (messages s)(ch := map_option f (messages s ch))"
  by (auto simp: edit_list_def fun_eq_iff split: option.split)

lemma ack_up_to_frame [simp]:
  "messages (ack_up_to ch m s) = messages s" "typing (ack_up_to ch m s) = typing s"
  "typing_timers (ack_up_to ch m s) = typing_timers s"
  "typing_due (ack_up_to ch m s) = typing_due s" "loading (ack_up_to ch m s) = loading s"
  "loaded (ack_up_to ch m s) = loaded s" "calls (ack_up_to ch m s) = calls s"
  "fresh (ack_up_to ch m s) = fresh s" "client_on (ack_up_to ch m s) = client_on s"
  by (simp_all add: ack_up_to_def)

lemma forget_payload_frame [simp]:
  "messages (forget_payload c s) = messages s" "typing (forget_payload c s) = typing s"
  "unread (forget_payload c s) = unread s" "unread_ref (forget_payload c s) = unread_ref s"
  "typing_timers (forget_payload c s) = typing_timers s" "typing_due (forget_payload c s) = typing_due s"
  "loading (forget_payload c s) = loading s" "loaded (forget_payload c s) = loaded s"
  "calls (forget_payload c s) = calls s" "fresh (forget_payload c s) = fresh s"
  "client_on (forget_payload c s) = client_on s" "my_id (forget_payload c s) = my_id s"
  "active_ref (forget_payload c s) = active_ref s"
  by (simp_all add: forget_payload_def split: option.split)

lemma stop_typing_frame [simp]:
  "messages (stop_typing ch a now s) = messages s" "unread (stop_typing ch a now s) = unread s"
  "loading (stop_typing ch a now s) = loading s" "loaded (stop_typing ch a now s) = loaded s"
  "calls (stop_typing ch a now s) = calls s" "fresh (stop_typing ch a now s) = fresh s"
  "client_on (stop_typing ch a now s) = client_on s" "my_id (stop_typing ch a now s) = my_id s"
  "active_ref (stop_typing ch a now s) = active_ref s"
  "unread_ref (stop_typing ch a now s) = unread_ref s"
  "effects (stop_typing ch a now s) = effects s"
  by (simp_all add: stop_typing_def Let_def split: option.split)

lemma count_new_frame [simp]:
  "messages (count_new b f m s) = messages s" "typing (count_new b f m s) = typing s"
  "typing_timers (count_new b f m s) = typing_timers s"
  "typing_due (count_new b f m s) = typing_due s" "loading (count_new b f m s) = loading s"
  "loaded (count_new b f m s) = loaded s" "calls (count_new b f m s) = calls s"
  "fresh (count_new b f m s) = fresh s" "client_on (count_new b f m s) = client_on s"
  by (simp_all add: count_new_def Let_def split: option.split)

lemma on_typing_start_frame [simp]:
  "messages (on_typing_start now ch u s) = messages s" "unread (on_typing_start now ch u s) = unread s"
  "loading (on_typing_start now ch u s) = loading s" "loaded (on_typing_start now ch u s) = loaded s"
  "calls (on_typing_start now ch u s) = calls s" "client_on (on_typing_start now ch u s) = client_on s"
  by (simp_all add: on_typing_start_def Let_def split: option.split)

lemma typing_timeout_frame [simp]:
  "messages (typing_timeout t s) = messages s" "unread (typing_timeout t s) = unread s"
  "loading (typing_timeout t s) = loading s" "loaded (typing_timeout t s) = loaded s"
  "calls (typing_timeout t s) = calls s" "fresh (typing_timeout t s) = fresh s"
  "client_on (typing_timeout t s) = client_on s"
  by (simp_all add: typing_timeout_def Let_def split: option.split prod.split)

lemma show_rate_limit_frame [simp]:
  "messages (show_rate_limit ch n s) = messages s" "unread (show_rate_limit ch n s) = unread s"
  "typing (show_rate_limit ch n s) = typing s" "typing_due (show_rate_limit ch n s) = typing_due s"
  "typing_timers (show_rate_limit ch n s) = typing_timers s"
  "loading (show_rate_limit ch n s) = loading s" "loaded (show_rate_limit ch n s) = loaded s"
  "calls (show_rate_limit ch n s) = calls s" "client_on (show_rate_limit ch n s) = client_on s"
  "fresh (show_rate_limit ch n s) = Suc (fresh s)"
  "pending_payload (show_rate_limit ch n s) = pending_payload s"
  by (simp_all add: show_rate_limit_def Let_def split: option.split)

lemma countdown_tick_frame [simp]:
  "messages (countdown_tick i s) = messages s" "unread (countdown_tick i s) = unread s"
  "typing (countdown_tick i s) = typing s" "typing_due (countdown_tick i s) = typing_due s"
  "typing_timers (countdown_tick i s) = typing_timers s" "loading (countdown_tick i s) = loading s"
  "loaded (countdown_tick i s) = loaded s" "calls (countdown_tick i s) = calls s"
  "fresh (countdown_tick i s) = fresh s"
  by (simp_all add: countdown_tick_def split: option.split)

lemma do_send_frame [simp]:
  "messages (do_send ch c x a s) = messages s" "unread (do_send ch c x a s) = unread s"
  "typing (do_send ch c x a s) = typing s" "typing_due (do_send ch c x a s) = typing_due s"
  "typing_timers (do_send ch c x a s) = typing_timers s" "loading (do_send ch c x a s) = loading s"
  "loaded (do_send ch c x a s) = loaded s" "client_on (do_send ch c x a s) = client_on s"
  "pending_payload (do_send ch c x a s) = pending_payload s"
  by (simp_all add: do_send_def)

lemma sync_next_frame [simp]:
  "messages (sync_next m bs s) = messages s" "unread (sync_next m bs s) = unread s"
  "typing (sync_next m bs s) = typing s" "typing_due (sync_next m bs s) = typing_due s"
  "typing_timers (sync_next m bs s) = typing_timers s" "loading (sync_next m bs s) = loading s"
  "loaded (sync_next m bs s) = loaded s" "client_on (sync_next m bs s) = client_on s"
  by (simp_all add: sync_next_def split: list.split)

section \<open>Read positions never go back\<close>

definition read_le :: "chat \<Rightarrow> chat \<Rightarrow> bool" where
  "read_le s t \<longleftrightarrow>
     (\<forall>ch r. unread s ch = Some r \<longrightarrow>
        (\<exists>r'. unread t ch = Some r' \<and> id_val (last_read r) \<le> id_val (last_read r')))"

lemma read_le_refl: "read_le s s"
  by (simp add: read_le_def)

lemma read_le_trans: "read_le s t \<Longrightarrow> read_le t u \<Longrightarrow> read_le s u"
  unfolding read_le_def by (meson order_trans)

lemma read_le_same: "unread t = unread s \<Longrightarrow> read_le s t"
  by (simp add: read_le_def)

lemma read_le_put:
  "unread t = (unread s)(ch \<mapsto> \<lparr>last_read = lr, unread_count = n\<rparr>) \<Longrightarrow>
   (\<And>r. unread s ch = Some r \<Longrightarrow> id_val (last_read r) \<le> id_val lr) \<Longrightarrow> read_le s t"
  by (auto simp: read_le_def)

lemma later_read_ge: "row = Some r \<Longrightarrow> id_val (last_read r) \<le> id_val (later_read row mid)"
  by (simp add: later_read_def later_def)

lemma read_le_later:
  "unread t = (unread s)(ch \<mapsto> \<lparr>last_read = later_read (unread s ch) mid, unread_count = n\<rparr>) \<Longrightarrow>
   read_le s t"
  by (erule read_le_put) (rule later_read_ge)

lemma read_le_ack: "unread s' = unread s \<Longrightarrow> read_le s (ack_up_to ch mid s')"
  by (auto simp: ack_up_to_def intro: read_le_same read_le_later)

lemma read_le_count: "unread s' = unread s \<Longrightarrow> read_le s (count_new b f msg s')"
proof (cases b)
  case False
  assume u: "unread s' = unread s"
  show ?thesis
  proof (cases f)
    case True
    with False u show ?thesis by (simp add: count_new_def Let_def read_le_ack)
  next
    case f: False
    from u show ?thesis
      by (intro read_le_put [of _ _ "msg_channel msg"
            "case unread s (msg_channel msg) of None \<Rightarrow> ''0'' | Some row \<Rightarrow> last_read row"
            "case unread s (msg_channel msg) of None \<Rightarrow> 1 | Some row \<Rightarrow> unread_count row + 1"])
        (auto simp: count_new_def Let_def False f split: option.split)
  qed
next
  case True
  assume u: "unread s' = unread s"
  with True show ?thesis
    by (intro read_le_later [of _ _ "msg_channel msg" "msg_id msg" 0]) (simp add: count_new_def Let_def)
qed

lemma read_le_message: "read_le s (on_message_new now msg s)"
proof -
  define s2 where "s2 = stop_typing (msg_channel msg) (msg_author msg) now
    (forget_payload (msg_client msg)
      (case messages s (msg_channel msg) of None \<Rightarrow> s
       | Some l \<Rightarrow> put_messages (msg_channel msg) (insert_new msg l) s))"
  have "unread s2 = unread s" by (simp add: s2_def split: option.split)
  then have c: "read_le s (count_new b f msg s2)" for b f by (rule read_le_count)
  then show ?thesis
    using c by (simp add: on_message_new_def Let_def s2_def [symmetric] read_le_def)
qed

lemma read_le_merge_state: "read_le s (merge_read_state rs s)"
  by (rule read_le_later) (simp add: merge_read_state_def)

lemma read_le_merge_sync: "read_le s (merge_sync mine sc s)"
proof (cases "unread s (sc_channel sc)")
  case None
  then show ?thesis by (simp add: merge_sync_def read_le_refl)
next
  case (Some row)
  then show ?thesis by (simp add: merge_sync_def Let_def read_le_def)
qed

lemma read_le_fold: "(\<And>x t. read_le t (f x t)) \<Longrightarrow> read_le s (fold f xs s)"
  by (rule fold_rel) (auto intro: read_le_refl read_le_trans)

lemma read_le_states: "read_le s (on_read_states states s)"
  using read_le_fold [of merge_read_state s states] read_le_merge_state
  by (simp add: on_read_states_def read_le_def)

lemma read_le_sync: "read_le s (on_sync mine rest scs s)"
  using read_le_fold [of "merge_sync mine" s scs] read_le_merge_sync
  by (simp add: on_sync_def read_le_def)

lemma read_le_enter:
  assumes "unread_ref s' = unread s" "unread s' = unread s"
  shows "read_le s (enter_channel ch s')"
proof -
  have "read_le s (ack_up_to ch m (s'\<lparr>divider := d\<rparr>))" for m d
    using assms(2) by (intro read_le_ack) simp
  moreover have "read_le s (s'\<lparr>divider := d\<rparr>)" for d
    using assms(2) by (intro read_le_same) simp
  moreover have "read_le s (put_unread ch (last_read row) 0 (s'\<lparr>divider := d\<rparr>))"
    if "unread s ch = Some row" for row d
    using assms(2) that by (intro read_le_put [of _ _ ch]) auto
  ultimately show ?thesis
    using assms(1) by (simp add: enter_channel_def Let_def split: option.split)
qed

lemma read_le_history: "read_le s (on_history ch h s)"
  by (auto simp: on_history_def Let_def split: option.split
      intro: read_le_ack read_le_same)

text \<open>
  What the monotone reading asks of an input: the session does not end, and the effects of a
  render run before the unread counts change again.
\<close>

fun reading_ok :: "chat_input \<Rightarrow> chat \<Rightarrow> bool" where
  "reading_ok SessionEnd s = False"
| "reading_ok Flush s = (rendered_unread s = unread s)"
| "reading_ok _ s = True"

lemma read_le_continue: "read_le s (continue c r (s\<lparr>calls := k\<rparr>))"
proof -
  let ?s = "s\<lparr>calls := k\<rparr>"
  have "read_le ?s (continue c r ?s)"
    by (cases "(c, r, ?s)" rule: continue.cases)
      (auto simp: read_le_states read_le_sync read_le_history history_failed_def Let_def
        send_failed_def on_more_def intro: read_le_same split: api_error.split)
  then show ?thesis by (simp add: read_le_def)
qed

lemma read_le_step:
  assumes "reading_ok e s"
  shows "read_le s (chat_step e s)"
proof -
  have "read_le s (deliver e s)"
  proof (cases e)
    case Flush
    with assms show ?thesis
      by (auto simp: flush_def Let_def intro: read_le_same read_le_enter split: option.split)
  next
    case (Done n r)
    then show ?thesis by (auto intro: read_le_refl read_le_continue split: option.split)
  qed (use assms in \<open>auto simp: read_le_message on_message_updated_def on_message_deleted_def
      on_attachment_updated_def session_start_def set_active_def render_def ensure_history_def
      load_more_def send_message_def retry_message_def cancel_message_def send_typing_def Let_def
      intro!: read_le_same split: option.split list.split\<close>)
  then show ?thesis by (simp add: chat_step_def read_le_refl)
qed

interpretation reading: monotone_machine chat_step reading_ok "\<lambda>_. True" read_le
  by unfold_locales (auto intro: read_le_refl read_le_trans read_le_step)

section \<open>Who is typing\<close>

definition typing_list :: "chat \<Rightarrow> string \<Rightarrow> string list" where
  "typing_list s ch = (case typing s ch of None \<Rightarrow> [] | Some us \<Rightarrow> us)"

definition typing_inv :: "chat \<Rightarrow> bool" where
  "typing_inv s \<longleftrightarrow>
     (\<forall>ch. distinct (typing_list s ch) \<and> set (typing_list s ch) = dom (typing_timers s ch)) \<and>
     (\<forall>ch u t. typing_timers s ch u = Some t \<longleftrightarrow> typing_due s t = Some (ch, u)) \<and>
     (\<forall>t. fresh s \<le> t \<longrightarrow> typing_due s t = None)"

text \<open>An input that does not touch typing.\<close>

definition quiet :: "chat \<Rightarrow> chat \<Rightarrow> bool" where
  "quiet s t \<longleftrightarrow> typing t = typing s \<and> typing_timers t = typing_timers s \<and>
     typing_due t = typing_due s \<and> fresh s \<le> fresh t"

lemma quiet_refl: "quiet s s"
  by (simp add: quiet_def)

lemma quiet_trans: "quiet s t \<Longrightarrow> quiet t u \<Longrightarrow> quiet s u"
  by (simp add: quiet_def)

lemma quiet_fold: "(\<And>x t. quiet t (f x t)) \<Longrightarrow> quiet s (fold f xs s)"
  by (rule fold_rel) (auto intro: quiet_refl quiet_trans)

lemma typing_inv_quiet: "typing_inv s \<Longrightarrow> quiet s t \<Longrightarrow> typing_inv t"
  by (simp add: typing_inv_def quiet_def typing_list_def)

lemma quiet_merges: "quiet s (fold merge_read_state rs s)" "quiet s (fold (merge_sync mine) scs s)"
  by (rule quiet_fold;
      simp add: quiet_def merge_read_state_def merge_sync_def Let_def split: option.split)+

lemma quiet_sync_next: "quiet s t \<Longrightarrow> quiet s (sync_next mine bs t)"
  by (simp add: quiet_def sync_next_def split: list.split)

lemma quiet_do_send: "quiet s t \<Longrightarrow> quiet s (do_send ch c x a t)"
  by (simp add: quiet_def do_send_def)

lemma quiet_enter: "quiet s t \<Longrightarrow> quiet s (enter_channel ch t)"
  by (simp add: quiet_def enter_channel_def Let_def split: option.split)

lemma quiet_flush: "quiet s (flush s)"
  by (auto simp: flush_def Let_def quiet_def intro!: quiet_enter [unfolded quiet_def] split: option.split)

lemma quiet_continue: "quiet s (continue c r (s\<lparr>calls := k\<rparr>))"
proof -
  let ?s = "s\<lparr>calls := k\<rparr>"
  have "quiet ?s (on_read_states rs ?s)" "quiet ?s (on_sync mine rest scs ?s)" for rs mine rest scs
    unfolding on_read_states_def on_sync_def by (intro quiet_sync_next quiet_merges)+
  moreover have "quiet ?s (on_history ch h ?s)" for ch h
    by (simp add: quiet_def on_history_def Let_def split: option.split)
  ultimately have "quiet ?s (continue c r ?s)"
    by (cases "(c, r, ?s)" rule: continue.cases)
      (auto simp: quiet_refl history_failed_def Let_def quiet_def send_failed_def on_more_def
        split: api_error.split)
  then show ?thesis by (simp add: quiet_def)
qed

lemma filter_keeps: "xs = filter P xs \<longleftrightarrow> (\<forall>x \<in> set xs. P x)"
  using filter_id_conv [of P xs] by metis

lemma typing_inv_remove:
  assumes i: "typing_inv s" and t: "typing_due s t = Some (ch, a)"
    and l: "typing_list s' = (typing_list s)(ch := filter (\<lambda>u. u \<noteq> a) (typing_list s ch))"
    and tt: "typing_timers s' = (typing_timers s)(ch := (typing_timers s ch)(a := None))"
    and d: "typing_due s' = (typing_due s)(t := None)" and f: "fresh s' = fresh s"
  shows "typing_inv s'"
proof -
  have sets: "distinct (typing_list s c) \<and> set (typing_list s c) = dom (typing_timers s c)" for c
    using i by (simp add: typing_inv_def)
  have iff: "typing_timers s c u = Some v \<longleftrightarrow> typing_due s v = Some (c, u)" for c u v
    using i by (simp add: typing_inv_def)
  have ta: "typing_timers s ch a = Some t" using iff t by simp
  have "distinct (typing_list s' c) \<and> set (typing_list s' c) = dom (typing_timers s' c)" for c
    using sets [of c] sets [of ch] by (auto simp: l tt)
  moreover have "typing_timers s' c u = Some v \<longleftrightarrow> typing_due s' v = Some (c, u)" for c u v
  proof (cases "c = ch \<and> u = a")
    case True
    with ta iff [of ch a v] show ?thesis by (auto simp: tt d)
  next
    case False
    with iff [of c u v] t show ?thesis by (auto simp: tt d)
  qed
  moreover have "\<forall>v. fresh s' \<le> v \<longrightarrow> typing_due s' v = None"
    using i by (simp add: typing_inv_def d f)
  ultimately show ?thesis unfolding typing_inv_def by blast
qed

lemma stop_typing_inv:
  assumes "typing_inv s"
  shows "typing_inv (stop_typing ch a now s)"
proof (cases "typing_timers s ch a")
  case None
  have "set (typing_list s ch) = dom (typing_timers s ch)" using assms by (simp add: typing_inv_def)
  with None have "a \<notin> set (typing_list s ch)" by auto
  with None have "quiet s (stop_typing ch a now s)"
    by (auto simp: stop_typing_def Let_def quiet_def typing_list_def split: option.split)
  with assms show ?thesis by (rule typing_inv_quiet)
next
  case (Some t)
  with assms have "typing_due s t = Some (ch, a)" by (simp add: typing_inv_def)
  with assms show ?thesis
    by (rule typing_inv_remove)
      (use Some in \<open>auto simp: stop_typing_def Let_def typing_list_def fun_eq_iff filter_keeps
         split: option.split\<close>)
qed

lemma typing_timeout_inv:
  assumes "typing_inv s"
  shows "typing_inv (typing_timeout t s)"
proof (cases "typing_due s t")
  case None
  with assms show ?thesis by (simp add: typing_timeout_def)
next
  case (Some p)
  obtain ch a where p: "p = (ch, a)" by force
  with Some have "typing_due s t = Some (ch, a)" by simp
  with assms show ?thesis
    by (rule typing_inv_remove)
      (use Some p in \<open>auto simp: typing_timeout_def Let_def typing_list_def fun_eq_iff
         split: option.split\<close>)
qed

lemma typing_start_inv:
  assumes "typing_inv s"
  shows "typing_inv (on_typing_start now ch a s)"
proof (cases "on_typing_start now ch a s = s")
  case True
  with assms show ?thesis by simp
next
  case False
  let ?t = "on_typing_start now ch a s"
  from False have ok: "my_id s \<noteq> Some a"
    "\<not> now - (case last_message_at s ch a of None \<Rightarrow> 0 | Some t \<Rightarrow> t) < 2000"
    by (auto simp: on_typing_start_def split: if_splits)
  have l: "typing_list ?t = (typing_list s)(ch := if a \<in> set (typing_list s ch) then typing_list s ch
      else typing_list s ch @ [a])"
    using ok by (auto simp: on_typing_start_def Let_def typing_list_def fun_eq_iff split: option.split)
  have tt: "typing_timers ?t = (typing_timers s)(ch := (typing_timers s ch)(a \<mapsto> fresh s))"
    and f: "fresh ?t = Suc (fresh s)"
    and d: "typing_due ?t = (case typing_timers s ch a of None \<Rightarrow> typing_due s
        | Some t \<Rightarrow> (typing_due s)(t := None))(fresh s \<mapsto> (ch, a))"
    using ok by (simp_all add: on_typing_start_def Let_def split: option.split)
  have sets: "distinct (typing_list s c) \<and> set (typing_list s c) = dom (typing_timers s c)" for c
    using assms by (simp add: typing_inv_def)
  have iff: "typing_timers s c u = Some v \<longleftrightarrow> typing_due s v = Some (c, u)" for c u v
    using assms by (simp add: typing_inv_def)
  have new: "typing_due s v = None" if "fresh s \<le> v" for v
    using assms that by (simp add: typing_inv_def)
  have "distinct (typing_list ?t c) \<and> set (typing_list ?t c) = dom (typing_timers ?t c)" for c
    using sets [of c] sets [of ch] by (auto simp: l tt)
  moreover have "typing_timers ?t c u = Some v \<longleftrightarrow> typing_due ?t v = Some (c, u)" for c u v
  proof (cases "c = ch \<and> u = a")
    case True
    with iff [of ch a v] show ?thesis by (auto simp: tt d split: option.split)
  next
    case False
    with iff [of c u v] new [of "fresh s"] iff [of ch a v] show ?thesis
      by (auto simp: tt d split: option.split)
  qed
  moreover have "\<forall>v. fresh ?t \<le> v \<longrightarrow> typing_due ?t v = None"
    using new by (auto simp: d f split: option.split)
  ultimately show ?thesis unfolding typing_inv_def by blast
qed

lemma typing_inv_step:
  assumes "typing_inv s"
  shows "typing_inv (chat_step e s)"
proof -
  have "typing_inv (deliver e s)"
  proof (cases e)
    case (WsNew now msg)
    define s1 where "s1 = (case messages s (msg_channel msg) of None \<Rightarrow> s
       | Some l \<Rightarrow> put_messages (msg_channel msg) (insert_new msg l) s)"
    have "quiet s (forget_payload (msg_client msg) s1)"
      by (simp add: quiet_def s1_def split: option.split)
    with assms have i: "typing_inv (stop_typing (msg_channel msg) (msg_author msg) now
        (forget_payload (msg_client msg) s1))" (is "typing_inv ?s2")
      by (intro stop_typing_inv) (rule typing_inv_quiet)
    have "quiet ?s2 (deliver e s)"
      using WsNew by (simp add: quiet_def on_message_new_def Let_def s1_def)
    with i show ?thesis by (rule typing_inv_quiet)
  next
    case (WsTyping now ch u)
    with assms show ?thesis by (simp add: typing_start_inv)
  next
    case (TypingTimeout t)
    with assms show ?thesis by (simp add: typing_timeout_inv)
  next
    case SessionEnd
    with assms show ?thesis by (auto simp: session_end_def typing_inv_def typing_list_def)
  next
    case (Done n r)
    with assms show ?thesis
      by (auto intro: typing_inv_quiet [OF assms quiet_continue] split: option.split)
  next
    case Flush
    with assms quiet_flush show ?thesis by (auto intro: typing_inv_quiet)
  qed (rule typing_inv_quiet [OF assms];
      auto simp: on_message_updated_def on_message_deleted_def quiet_def do_send_def
      on_attachment_updated_def session_start_def set_active_def render_def ensure_history_def
      load_more_def send_message_def retry_message_def cancel_message_def send_typing_def Let_def
      split: option.split list.split)+
  with assms show ?thesis by (simp add: chat_step_def)
qed

lemma typing_inv_new: "typing_inv new_chat"
  by (auto simp: typing_inv_def new_chat_def typing_list_def)

interpretation typers: invariant_machine chat_step "\<lambda>_ _. True" typing_inv
  by unfold_locales (rule typing_inv_step)

end
