(* ===== verification/ChatLog.thy ===== *)
theory ChatLog
  imports ChatStoreLemmas
begin

text \<open>
  The message lists and the history requests of the chat provider. \<open>log_event\<close> is what a
  channel's list of delivered messages should do on each event of the gateway; the provider's
  list with the optimistic copies left out simulates it, as long as client ids are unique in the
  list. \<open>history_inv\<close> relates the bookkeeping of history requests to the calls in flight.
\<close>

section \<open>The log of a channel\<close>

definition delivered :: "chat_msg list \<Rightarrow> chat_msg list" where
  "delivered l = filter (\<lambda>m. msg_status m = None) l"

definition has_client :: "string \<Rightarrow> chat_msg \<Rightarrow> bool" where
  "has_client c m \<longleftrightarrow> msg_client m = Some c"

definition uniq_clients :: "chat_msg list \<Rightarrow> bool" where
  "uniq_clients l \<longleftrightarrow> (\<forall>c. c \<noteq> [] \<longrightarrow> length (filter (has_client c) l) \<le> 1)"

text \<open>A new message goes to the tail, in place of an earlier delivery of the same client id.\<close>

definition log_new :: "chat_msg \<Rightarrow> chat_msg list \<Rightarrow> chat_msg list" where
  "log_new msg l =
     (case msg_client msg of
        None \<Rightarrow> l @ [msg]
      | Some c \<Rightarrow> if c = [] then l @ [msg] else filter (\<lambda>m. \<not> has_client c m) l @ [msg])"

fun log_event :: "string \<Rightarrow> chat_input \<Rightarrow> chat_msg list \<Rightarrow> chat_msg list" where
  "log_event ch (WsNew now msg) l = (if msg_channel msg = ch then log_new msg l else l)"
| "log_event ch (WsUpdated c mid content) l =
     (if c = ch then map (\<lambda>m. if msg_id m = mid
        then m\<lparr>msg_content := content, msg_edited_at := Some ''now''\<rparr> else m) l else l)"
| "log_event ch (WsDeleted c mid) l = (if c = ch then filter (\<lambda>m. msg_id m \<noteq> mid) l else l)"
| "log_event ch (WsAttachments c mid atts) l =
     (if c = ch then map (\<lambda>m. if msg_id m = mid then m\<lparr>msg_attachments := atts\<rparr> else m) l else l)"
| "log_event ch _ l = l"

lemma uniq_split:
  assumes "uniq_clients (ys @ z # zs)" "has_client c z" "c \<noteq> []"
  shows "filter (has_client c) ys = []" "filter (has_client c) zs = []"
  using assms by (auto simp: uniq_clients_def dest!: spec [of _ c])

lemma insert_new_uniq:
  assumes "uniq_clients l" "msg_client msg = Some c" "c \<noteq> []"
  shows "insert_new msg l = filter (\<lambda>m. \<not> has_client c m) l @ [msg]"
proof (cases "find_index (\<lambda>m. msg_client m = Some c) l")
  case None
  then have "filter (\<lambda>m. \<not> has_client c m) l = l" by (auto simp: has_client_def filter_id_conv)
  with assms show ?thesis by (simp add: insert_new_def None)
next
  case (Some i)
  from find_index_split [OF Some] obtain ys z zs
    where l: "l = ys @ z # zs" "length ys = i" "msg_client z = Some c" by blast
  then have "filter (has_client c) ys = []" "filter (has_client c) zs = []"
    using uniq_split [of ys z zs c] assms by (simp_all add: has_client_def)
  then have "filter (\<lambda>m. \<not> has_client c m) l = ys @ zs"
    using l by (auto simp: has_client_def filter_empty_conv filter_id_conv)
  moreover have "remove_at i l = ys @ zs" using l by auto
  ultimately show ?thesis using assms by (simp add: insert_new_def Some)
qed

lemma insert_new_plain: "msg_client msg \<in> {None, Some []} \<Longrightarrow> insert_new msg l = l @ [msg]"
  by (auto simp: insert_new_def)

lemma delivered_insert_new:
  assumes "uniq_clients l" "msg_status msg = None"
  shows "delivered (insert_new msg l) = log_new msg (delivered l)"
proof (cases "msg_client msg \<in> {None, Some []}")
  case True
  with assms show ?thesis by (auto simp: insert_new_plain delivered_def log_new_def)
next
  case False
  then obtain c where c: "msg_client msg = Some c" "c \<noteq> []" by auto
  show ?thesis
    using assms(2) c by (simp add: insert_new_uniq [OF assms(1) c] delivered_def log_new_def conj_commute)
qed

lemma uniq_append:
  "uniq_clients l \<Longrightarrow> (\<And>c. msg_client m = Some c \<Longrightarrow> c \<noteq> [] \<Longrightarrow> filter (has_client c) l = []) \<Longrightarrow>
   uniq_clients (l @ [m])"
  by (auto simp: uniq_clients_def has_client_def)

lemma uniq_filter: "uniq_clients l \<Longrightarrow> uniq_clients (filter P l)"
proof -
  assume u: "uniq_clients l"
  have "length (filter (has_client c) (filter P l)) \<le> length (filter (has_client c) l)" for c
    by (induction l) auto
  with u show ?thesis unfolding uniq_clients_def by (meson order_trans)
qed

lemma uniq_map:
  "uniq_clients l \<Longrightarrow> (\<And>m. msg_client (f m) = msg_client m) \<Longrightarrow> uniq_clients (map f l)"
  by (simp add: uniq_clients_def filter_map o_def has_client_def [abs_def])

lemma uniq_insert_new:
  assumes "uniq_clients l"
  shows "uniq_clients (insert_new msg l)"
proof (cases "msg_client msg \<in> {None, Some []}")
  case True
  with assms show ?thesis by (auto simp: insert_new_plain intro: uniq_append)
next
  case False
  then obtain c where c: "msg_client msg = Some c" "c \<noteq> []" by auto
  show ?thesis
    using c unfolding insert_new_uniq [OF assms c]
    by (intro uniq_append uniq_filter [OF assms]) (auto simp: filter_empty_conv)
qed

lemma delivered_map:
  "(\<And>m. msg_status (f m) = msg_status m) \<Longrightarrow> delivered (map f l) = map f (delivered l)"
  by (simp add: delivered_def filter_map o_def)

lemma delivered_filter: "delivered (filter P l) = filter P (delivered l)"
  by (simp add: delivered_def conj_commute)

section \<open>The simulation\<close>

lemma messages_on_message_new:
  "messages (on_message_new now msg s) =
     (messages s)(msg_channel msg := map_option (insert_new msg) (messages s (msg_channel msg)))"
  by (auto simp: on_message_new_def Let_def fun_eq_iff split: option.split)

lemma messages_enter [simp]: "messages (enter_channel ch s) = messages s"
  by (simp add: enter_channel_def Let_def put_unread_def split: option.split)

lemma messages_flush [simp]: "messages (flush s) = messages s"
  by (simp add: flush_def Let_def split: option.split)

lemma client_on_enter [simp]: "client_on (enter_channel ch s) = client_on s"
  by (simp add: enter_channel_def Let_def split: option.split)

lemma client_on_flush [simp]: "client_on (flush s) = client_on s"
  by (simp add: flush_def Let_def split: option.split)

lemma client_on_message [simp]: "client_on (on_message_new now msg s) = client_on s"
  by (simp add: on_message_new_def Let_def split: option.split)

definition channel_list :: "string \<Rightarrow> chat \<Rightarrow> chat_msg list" where
  "channel_list ch s = (case messages s ch of None \<Rightarrow> [] | Some l \<Rightarrow> l)"

definition log_inv :: "string \<Rightarrow> chat \<Rightarrow> bool" where
  "log_inv ch s \<longleftrightarrow> client_on s \<and> messages s ch \<noteq> None \<and> uniq_clients (channel_list ch s)"

text \<open>No message with this client id has been delivered.\<close>

definition undelivered :: "string \<Rightarrow> chat_msg list \<Rightarrow> bool" where
  "undelivered cid l \<longleftrightarrow> (\<forall>m \<in> set l. has_client cid m \<longrightarrow> msg_status m \<noteq> None)"

text \<open>
  The inputs the simulation covers: everything but the end of the session and the replies that
  replace the list; a send brings a client id that is new to the list, and a retry, a cancel and
  a failure concern a message that was not delivered.
\<close>

fun log_ok :: "string \<Rightarrow> chat_input \<Rightarrow> chat \<Rightarrow> bool" where
  "log_ok ch (WsNew now msg) s = (msg_status msg = None)"
| "log_ok ch SessionEnd s = False"
| "log_ok ch (SendMessage cid now hub c x a) s =
     (c = ch \<longrightarrow> filter (has_client cid) (channel_list ch s) = [])"
| "log_ok ch (RetryMessage c cid) s = (c = ch \<longrightarrow> undelivered cid (channel_list ch s))"
| "log_ok ch (CancelMessage c cid) s = (c = ch \<longrightarrow> undelivered cid (channel_list ch s))"
| "log_ok ch (Done n r) s =
     (case calls s n of
        Some (CHistory c) \<Rightarrow> c \<noteq> ch
      | Some (CMore c) \<Rightarrow> c \<noteq> ch
      | Some (CSend c cid) \<Rightarrow> c = ch \<longrightarrow> undelivered cid (channel_list ch s)
      | _ \<Rightarrow> True)"
| "log_ok ch _ s = True"

text \<open>What an input does to the list of one channel, when it edits it in place.\<close>

lemma undelivered_find:
  assumes "undelivered cid l" "find_index (\<lambda>m. msg_client m = Some cid) l = Some i"
  obtains ys z zs where "l = ys @ z # zs" "length ys = i" "has_client cid z" "msg_status z \<noteq> None"
proof -
  from find_index_split [OF assms(2)] obtain ys z zs
    where "l = ys @ z # zs" "length ys = i" "msg_client z = Some cid" by blast
  with assms(1) that show thesis by (auto simp: undelivered_def has_client_def)
qed

lemma mark_failed_log:
  assumes "undelivered cid l"
  shows "delivered (mark_failed cid l) = delivered l" "uniq_clients l \<Longrightarrow> uniq_clients (mark_failed cid l)"
proof -
  have "delivered (mark_failed cid l) = delivered l \<and>
      (uniq_clients l \<longrightarrow> uniq_clients (mark_failed cid l))"
  proof (cases "find_index (\<lambda>m. msg_client m = Some cid) l")
    case (Some i)
    from undelivered_find [OF assms Some] obtain ys z zs
      where l: "l = ys @ z # zs" "length ys = i" "msg_status z \<noteq> None" by metis
    have m: "mark_failed cid l = l[i := (l ! i)\<lparr>msg_status := Some SendFailed\<rparr>]"
      by (simp add: mark_failed_def Some)
    show ?thesis unfolding m using l
      by (auto simp: delivered_def uniq_clients_def has_client_def)
  next
    case None
    show ?thesis by (simp add: mark_failed_def None)
  qed
  then show "delivered (mark_failed cid l) = delivered l"
    "uniq_clients l \<Longrightarrow> uniq_clients (mark_failed cid l)" by auto
qed

lemma retry_list_log:
  assumes "undelivered cid l"
  shows "delivered (retry_list cid l) = delivered l" "uniq_clients l \<Longrightarrow> uniq_clients (retry_list cid l)"
proof -
  have "delivered (retry_list cid l) = delivered l \<and>
      (uniq_clients l \<longrightarrow> uniq_clients (retry_list cid l))"
  proof (cases "find_index (\<lambda>m. msg_client m = Some cid) l")
    case (Some i)
    from undelivered_find [OF assms Some] obtain ys z zs
      where l: "l = ys @ z # zs" "length ys = i" "msg_status z \<noteq> None" by metis
    have "retry_list cid l = remove_at i l @ [(l ! i)\<lparr>msg_status := Some Sending\<rparr>]"
      by (simp add: retry_list_def Some)
    with l have r: "retry_list cid l = (ys @ zs) @ [z\<lparr>msg_status := Some Sending\<rparr>]" by auto
    show ?thesis unfolding r using l
      by (auto simp: delivered_def uniq_clients_def has_client_def)
  next
    case None
    show ?thesis by (simp add: retry_list_def None)
  qed
  then show "delivered (retry_list cid l) = delivered l"
    "uniq_clients l \<Longrightarrow> uniq_clients (retry_list cid l)" by auto
qed

lemma cancel_log:
  "undelivered cid l \<Longrightarrow> delivered (filter (\<lambda>m. msg_client m \<noteq> Some cid) l) = delivered l"
  by (auto simp: delivered_def undelivered_def has_client_def intro!: filter_cong)

text \<open>An input that leaves the list of the channel and the client alone.\<close>

lemma log_same:
  "log_inv ch s \<Longrightarrow> messages t ch = messages s ch \<Longrightarrow> client_on t = client_on s \<Longrightarrow>
   log_inv ch t \<and> delivered (channel_list ch t) = delivered (channel_list ch s)"
  by (simp add: log_inv_def channel_list_def)

text \<open>An input that edits it.\<close>

lemma log_edit:
  "log_inv ch s \<Longrightarrow> messages t ch = map_option f (messages s ch) \<Longrightarrow> client_on t = client_on s \<Longrightarrow>
   uniq_clients (f (channel_list ch s)) \<Longrightarrow>
   log_inv ch t \<and> delivered (channel_list ch t) = delivered (f (channel_list ch s))"
  by (auto simp: log_inv_def channel_list_def)

lemma messages_frames:
  "messages (fold merge_read_state rs s) = messages s"
  "messages (fold (merge_sync mine) scs s) = messages s"
  "client_on (fold merge_read_state rs s) = client_on s"
  "client_on (fold (merge_sync mine) scs s) = client_on s"
  by (induction rs arbitrary: s; induction scs arbitrary: s;
      simp add: merge_read_state_def merge_sync_def Let_def split: option.split)+

lemma client_on_countdown [simp]: "client_on (countdown_tick i s) = client_on s"
  by (simp add: countdown_tick_def split: option.split)

lemma log_done:
  assumes i: "log_inv ch s" and ok: "log_ok ch (Done n r) s" and c: "calls s n = Some c"
  defines "s' \<equiv> s\<lparr>calls := (calls s)(n := None)\<rparr>"
  shows "log_inv ch (continue c r s')
    \<and> delivered (channel_list ch (continue c r s')) = delivered (channel_list ch s)"
proof (cases "\<exists>cid. c = CSend ch cid")
  case True
  then obtain cid where cid: "c = CSend ch cid" by blast
  with ok c have u: "undelivered cid (channel_list ch s)" by simp
  from i have uq: "uniq_clients (channel_list ch s)" by (simp add: log_inv_def)
  show ?thesis
  proof (cases "messages (continue c r s') ch = messages s ch")
    case True
    then show ?thesis
      using log_same [OF i, of "continue c r s'"]
      by (cases r) (auto simp: cid s'_def send_failed_def split: api_error.split)
  next
    case False
    then have "messages (continue c r s') ch = map_option (mark_failed cid) (messages s ch)"
      by (cases r) (auto simp: cid s'_def send_failed_def split: api_error.splits if_splits)
    moreover have "client_on (continue c r s') = client_on s"
      by (cases r) (auto simp: cid s'_def send_failed_def split: api_error.split)
    ultimately show ?thesis
      using log_edit [OF i] mark_failed_log [OF u] uq by auto
  qed
next
  case False
  then have "messages (continue c r s') ch = messages s ch"
    "client_on (continue c r s') = client_on s"
    using ok c
    by (cases "(c, r, s')" rule: continue.cases;
        auto simp: s'_def on_read_states_def on_sync_def messages_frames on_history_def Let_def
          history_failed_def on_more_def send_failed_def split: option.split api_error.split)+
  then show ?thesis by (rule log_same [OF i])
qed

lemma log_step:
  assumes i: "log_inv ch s" and ok: "log_ok ch e s"
  shows "log_inv ch (chat_step e s)
    \<and> delivered (channel_list ch (chat_step e s)) = log_event ch e (delivered (channel_list ch s))"
proof -
  have on: "client_on s" and uq: "uniq_clients (channel_list ch s)"
    using i by (simp_all add: log_inv_def)
  from on have st: "chat_step e s = deliver e s" by (simp add: chat_step_def)
  have "log_inv ch (deliver e s)
    \<and> delivered (channel_list ch (deliver e s)) = log_event ch e (delivered (channel_list ch s))"
  proof (cases e)
    case (WsNew now msg)
    with ok have "msg_status msg = None" by simp
    with WsNew uq log_edit [OF i, of "deliver e s" "insert_new msg"] log_same [OF i, of "deliver e s"]
    show ?thesis
      by (cases "msg_channel msg = ch")
        (auto simp: messages_on_message_new uniq_insert_new delivered_insert_new)
  next
    case (WsUpdated c mid content)
    then show ?thesis
      using log_edit [OF i, of "deliver e s" "map (\<lambda>m. if msg_id m = mid
          then m\<lparr>msg_content := content, msg_edited_at := Some ''now''\<rparr> else m)"]
        log_same [OF i, of "deliver e s"] uq
      by (cases "c = ch") (auto simp: on_message_updated_def uniq_map delivered_map)
  next
    case (WsAttachments c mid atts)
    then show ?thesis
      using log_edit [OF i, of "deliver e s"
          "map (\<lambda>m. if msg_id m = mid then m\<lparr>msg_attachments := atts\<rparr> else m)"]
        log_same [OF i, of "deliver e s"] uq
      by (cases "c = ch") (auto simp: on_attachment_updated_def uniq_map delivered_map)
  next
    case (WsDeleted c mid)
    then show ?thesis
      using log_edit [OF i, of "deliver e s" "filter (\<lambda>m. msg_id m \<noteq> mid)"]
        log_same [OF i, of "deliver e s"] uq
      by (cases "c = ch") (auto simp: on_message_deleted_def uniq_filter delivered_filter)
  next
    case (RetryMessage c cid)
    then show ?thesis
      using log_edit [OF i, of "deliver e s" "retry_list cid"] log_same [OF i, of "deliver e s"] uq ok
      by (cases "c = ch") (auto simp: retry_message_def retry_list_log split: option.split)
  next
    case (CancelMessage c cid)
    then show ?thesis
      using log_edit [OF i, of "deliver e s" "filter (\<lambda>m. msg_client m \<noteq> Some cid)"]
        log_same [OF i, of "deliver e s"] uq ok
      by (cases "c = ch") (auto simp: cancel_message_def cancel_log uniq_filter)
  next
    case (SendMessage cid now hub c x a)
    show ?thesis
    proof (cases "messages (deliver e s) ch = messages s ch")
      case True
      then show ?thesis
        using SendMessage log_same [OF i, of "deliver e s"]
        by (auto simp: send_message_def Let_def split: option.split)
    next
      case False
      with SendMessage obtain me where me: "my_id s = Some me" and c: "c = ch"
        by (auto simp: send_message_def Let_def split: option.splits if_splits)
      define m where "m = synthetic_msg hub ch
        (synthetic_message_id now ((synth_counter s + 1) AND 0xffffff)) me (js_trim x) a cid"
      have m: "msg_client m = Some cid" "msg_status m = Some Sending"
        by (simp_all add: m_def synthetic_msg_def)
      have "messages (deliver e s) ch = map_option (\<lambda>l. l @ [m]) (messages s ch)"
        "client_on (deliver e s) = client_on s"
        using SendMessage False me c i
        by (auto simp: send_message_def Let_def m_def log_inv_def split: if_splits)
      moreover have "uniq_clients (channel_list ch s @ [m])"
        using uq ok SendMessage c m by (intro uniq_append) auto
      ultimately show ?thesis
        using log_edit [OF i, of "deliver e s" "\<lambda>l. l @ [m]"] SendMessage m
        by (simp add: delivered_def)
    qed
  next
    case (Done n r)
    then show ?thesis
      using i ok log_done [of ch s n r] by (cases "calls s n") auto
  qed (use i ok on log_same [OF i, of "deliver e s"] in \<open>auto simp: set_active_def render_def
      ensure_history_def load_more_def send_typing_def split: option.split list.split\<close>)
  then show ?thesis by (simp add: st)
qed

interpretation channel_log: simulation chat_step "log_ok ch" "log_inv ch" "log_event ch"
  "\<lambda>s. delivered (channel_list ch s)"
  for ch
  by unfold_locales (auto dest: log_step)

end
