(* ===== verification/ChatStoreProps.thy ===== *)
theory ChatStoreProps
  imports ChatLog
begin

text \<open>
  The bookkeeping of history requests, and the properties of the chat provider. The properties
  over runs rest on the interpretations of the machine contracts (\<open>reading\<close>, \<open>typers\<close>,
  \<open>fetching\<close>, \<open>channel_log\<close>).
\<close>

section \<open>History requests\<close>

text \<open>A reply fits its call; what else the network may return is excluded by the types.\<close>

fun fits :: "call \<Rightarrow> reply \<Rightarrow> bool" where
  "fits CReadStates (RStates _) = True"
| "fits (CSync _ _) (RSync _) = True"
| "fits (CHistory _) (RHistory _) = True"
| "fits (CMore _) (RHistory _) = True"
| "fits (CSend _ _) RSent = True"
| "fits _ (RFail _) = True"
| "fits _ _ = False"

fun reply_ok :: "chat_input \<Rightarrow> chat \<Rightarrow> bool" where
  "reply_ok (Done n r) s = (case calls s n of None \<Rightarrow> True | Some c \<Rightarrow> fits c r)"
| "reply_ok _ s = True"

definition history_inv :: "chat \<Rightarrow> bool" where
  "history_inv s \<longleftrightarrow> loading s \<inter> loaded s = {} \<and>
     (\<forall>ch \<in> loading s. \<exists>n. calls s n = Some (CHistory ch)) \<and>
     (\<forall>n. fresh s \<le> n \<longrightarrow> calls s n = None)"

text \<open>An input that keeps the requests: the calls may only gain new ones.\<close>

definition calls_grow :: "chat \<Rightarrow> chat \<Rightarrow> bool" where
  "calls_grow s t \<longleftrightarrow> loading t = loading s \<and> loaded t = loaded s \<and> fresh s \<le> fresh t \<and>
     (\<forall>n < fresh s. calls t n = calls s n) \<and>
     ((\<forall>n \<ge> fresh s. calls s n = None) \<longrightarrow> (\<forall>n \<ge> fresh t. calls t n = None))"

lemma history_inv_grow: "history_inv s \<Longrightarrow> calls_grow s t \<Longrightarrow> history_inv t"
  unfolding history_inv_def calls_grow_def by (metis not_le option.distinct(1))

lemma grow_same:
  "loading t = loading s \<Longrightarrow> loaded t = loaded s \<Longrightarrow> calls t = calls s \<Longrightarrow> fresh t = fresh s \<Longrightarrow>
   calls_grow s t"
  by (simp add: calls_grow_def)

lemma grow_call_out:
  "loading t = loading s \<Longrightarrow> loaded t = loaded s \<Longrightarrow> calls t = calls s \<Longrightarrow> fresh t = fresh s \<Longrightarrow>
   calls_grow s (call_out e c t)"
  by (auto simp: calls_grow_def)

lemma merge_frames:
  "loading (fold merge_read_state rs s) = loading s \<and> loaded (fold merge_read_state rs s) = loaded s
   \<and> calls (fold merge_read_state rs s) = calls s \<and> fresh (fold merge_read_state rs s) = fresh s"
  by (induction rs arbitrary: s) (simp_all add: merge_read_state_def)

lemma sync_frames:
  "loading (fold (merge_sync m) scs s) = loading s \<and> loaded (fold (merge_sync m) scs s) = loaded s
   \<and> calls (fold (merge_sync m) scs s) = calls s \<and> fresh (fold (merge_sync m) scs s) = fresh s"
  by (induction scs arbitrary: s) (simp_all add: merge_sync_def Let_def split: option.split)

lemma enter_frames:
  "loading (enter_channel ch s) = loading s \<and> loaded (enter_channel ch s) = loaded s
   \<and> calls (enter_channel ch s) = calls s \<and> fresh (enter_channel ch s) = fresh s"
  by (simp add: enter_channel_def Let_def split: option.split)

lemma grow_continue:
  assumes "\<And>ch. c \<noteq> CHistory ch"
  shows "calls_grow s (continue c r s)"
proof (cases "(c, r, s)" rule: continue.cases)
  case (1 rs t)
  then show ?thesis
    using merge_frames [of rs s]
    by (auto simp: on_read_states_def sync_next_def intro: grow_same grow_call_out split: list.split)
next
  case (2 mine rest scs t)
  then show ?thesis
    using sync_frames [of mine scs s]
    by (auto simp: on_sync_def sync_next_def intro: grow_same grow_call_out split: list.split)
qed (use assms in \<open>auto simp: on_more_def send_failed_def calls_grow_def split: api_error.split\<close>)

lemma history_inv_answered:
  assumes i: "history_inv s" and c: "calls s n = Some (CHistory ch)"
    and t: "calls t = (calls s)(n := None)" "loading t = loading s - {ch}"
      "loaded t \<subseteq> insert ch (loaded s)" "fresh t = fresh s"
  shows "history_inv t"
proof -
  have "\<exists>m. calls t m = Some (CHistory d)" if d: "d \<in> loading t" for d
  proof -
    from d t i obtain m where "calls s m = Some (CHistory d)" by (auto simp: history_inv_def)
    moreover from this d t c have "m \<noteq> n" by auto
    ultimately show ?thesis using t by auto
  qed
  moreover have "loading t \<inter> loaded t = {}" using i t by (auto simp: history_inv_def)
  moreover have "\<forall>m \<ge> fresh t. calls t m = None" using i t by (simp add: history_inv_def)
  ultimately show ?thesis unfolding history_inv_def by blast
qed

lemma history_inv_asked:
  assumes i: "history_inv s" and ch: "ch \<notin> loaded s"
    and t: "calls t = (calls s)(fresh s \<mapsto> CHistory ch)" "loading t = insert ch (loading s)"
      "loaded t = loaded s" "fresh t = Suc (fresh s)"
  shows "history_inv t"
proof -
  have "\<exists>m. calls t m = Some (CHistory d)" if d: "d \<in> loading s" for d
  proof -
    from d i obtain m where m: "calls s m = Some (CHistory d)" by (auto simp: history_inv_def)
    with i have "m \<noteq> fresh s" by (auto simp: history_inv_def)
    with m t show ?thesis by auto
  qed
  then have "\<forall>d \<in> loading t. \<exists>m. calls t m = Some (CHistory d)"
    using t(1,2) by auto
  moreover have "loading t \<inter> loaded t = {}" using i ch t by (auto simp: history_inv_def)
  moreover have "\<forall>m \<ge> fresh t. calls t m = None" using i t by (simp add: history_inv_def)
  ultimately show ?thesis unfolding history_inv_def by blast
qed

lemma history_inv_done:
  assumes i: "history_inv s" and c: "calls s n = Some c" and f: "fits c r"
  shows "history_inv (continue c r (s\<lparr>calls := (calls s)(n := None)\<rparr>))"
proof (cases "\<exists>ch. c = CHistory ch")
  case True
  then obtain ch where ch: "c = CHistory ch" by blast
  show ?thesis
    by (rule history_inv_answered [OF i c [unfolded ch]])
      (use f ch in \<open>cases r; auto simp: on_history_def history_failed_def Let_def
        split: option.split api_error.split\<close>)+
next
  case False
  let ?s = "s\<lparr>calls := (calls s)(n := None)\<rparr>"
  have "\<exists>m. calls ?s m = Some (CHistory d)" if d: "d \<in> loading s" for d
  proof -
    from d i obtain m where "calls s m = Some (CHistory d)" by (auto simp: history_inv_def)
    moreover from this c False have "m \<noteq> n" by auto
    ultimately show ?thesis by auto
  qed
  with i have "history_inv ?s" by (simp add: history_inv_def)
  then show ?thesis using grow_continue [of c ?s r] False by (auto intro: history_inv_grow)
qed

lemma history_inv_step:
  assumes i: "history_inv s" and ok: "reply_ok e s"
  shows "history_inv (chat_step e s)"
proof -
  have "history_inv (deliver e s)"
  proof (cases e)
    case (Done n r)
    with i ok show ?thesis by (auto simp: history_inv_done split: option.split)
  next
    case SessionEnd
    with i show ?thesis by (auto simp: session_end_def history_inv_def)
  next
    case (EnsureHistory ch)
    with i show ?thesis
      by (auto simp: ensure_history_def intro: history_inv_asked)
  next
    case SessionStart
    with i show ?thesis
      by (auto simp: session_start_def intro!: history_inv_grow [OF i] grow_call_out)
  next
    case (WsTyping now ch u)
    then show ?thesis
      by (intro history_inv_grow [OF i])
        (auto simp: calls_grow_def on_typing_start_def Let_def split: option.split)
  next
    case Flush
    then show ?thesis
      by (intro history_inv_grow [OF i] grow_same)
        (auto simp: flush_def Let_def enter_frames split: option.split)
  next
    case (LoadMore ch)
    then show ?thesis
      by (auto simp: load_more_def i intro!: history_inv_grow [OF i] grow_call_out
          split: option.split list.split)
  next
    case (SendMessage cid now hub ch x a)
    then show ?thesis
      by (auto simp: send_message_def do_send_def Let_def i
          intro!: history_inv_grow [OF i] grow_call_out split: option.split)
  next
    case (RetryMessage ch cid)
    then show ?thesis
      by (cases "client_on s")
        (auto simp: retry_message_def do_send_def i intro: history_inv_grow [OF i grow_call_out]
          history_inv_grow [OF i grow_same] split: option.split)
  qed (use i in \<open>auto simp: on_message_updated_def on_message_deleted_def on_attachment_updated_def
      on_message_new_def Let_def set_active_def render_def cancel_message_def send_typing_def
      intro!: history_inv_grow [OF i] grow_same split: option.split\<close>)
  with i show ?thesis by (simp add: chat_step_def)
qed

interpretation fetching: invariant_machine chat_step reply_ok history_inv
  by unfold_locales (rule history_inv_step)

lemma history_inv_new: "history_inv new_chat"
  by (simp add: history_inv_def new_chat_def)

section \<open>Properties\<close>


definition rows_demo :: chat where
  "rows_demo = new_chat\<lparr>client_on := True,
     unread := [''c'' \<mapsto> \<lparr>last_read = show_int 90, unread_count = 2\<rparr>]\<rparr>"


text \<open>
  C23. Nobody is shown typing for ever: after any inputs, a user is in the typing list of a
  channel exactly when a timeout that will remove this user is pending, and is there once.
\<close>

theorem typing_always_times_out:
  fixes es :: "chat_input list"
  defines "s \<equiv> run chat_step es new_chat"
  shows "distinct (typing_list s ch)
    \<and> (user \<in> set (typing_list s ch) \<longleftrightarrow> (\<exists>t. typing_due s t = Some (ch, user)))"
proof -
  have "typing_inv s" unfolding s_def by (rule typers.inv_run [OF typing_inv_new]) simp
  then show ?thesis by (auto simp: typing_inv_def dom_def)
qed




definition loaded_demo :: chat where
  "loaded_demo = new_chat\<lparr>client_on := True, my_id := Some ''me'', messages := [''c'' \<mapsto> []]\<rparr>"

definition demo_msg :: "string \<Rightarrow> string \<Rightarrow> string option \<Rightarrow> chat_msg" where
  "demo_msg mid author cid =
     (synthetic_msg ''h'' ''c'' mid author ''hi'' None [])\<lparr>msg_client := cid, msg_status := None\<rparr>"


lemma payload_frames:
  "pending_payload (put_unread ch lr n s) = pending_payload s"
  "pending_payload (ack_up_to ch mid s) = pending_payload s"
  "pending_payload (stop_typing ch u now s) = pending_payload s"
  by (simp_all add: put_unread_def ack_up_to_def stop_typing_def Let_def split: option.split)

lemma payload_count: "pending_payload (count_new a b m s) = pending_payload s"
  by (simp add: count_new_def Let_def payload_frames split: option.split)

lemma payload_after_new:
  assumes "msg_client m = Some c" "c \<noteq> []"
  shows "pending_payload (on_message_new now m s) c = None"
  unfolding on_message_new_def Let_def using assms
  by (simp add: payload_count payload_frames forget_payload_def)

text \<open>The server's echo settles a send: it leaves one message of that client id in the list, the
  server's, at the tail, and forgets the payload, so that a later retry does nothing.
\<close>

theorem echo_settles_send:
  fixes now :: int
  assumes "client_on s" "messages s ch = Some l" "uniq_clients l"
    and "msg_channel msg = ch" "msg_client msg = Some c" "c \<noteq> []"
  defines "s' \<equiv> chat_step (WsNew now msg) s"
  shows "filter (has_client c) (channel_list ch s') = [msg] \<and> last (channel_list ch s') = msg
    \<and> chat_step (RetryMessage ch c) s' = s'"
proof -
  have l: "channel_list ch s' = filter (\<lambda>m. \<not> has_client c m) l @ [msg]"
    using assms by (simp add: chat_step_def channel_list_def messages_on_message_new insert_new_uniq)
  have "pending_payload s' c = None"
    unfolding s'_def chat_step_def using assms(1,5,6) by (simp add: payload_after_new)
  then have "chat_step (RetryMessage ch c) s' = s'"
    by (simp add: chat_step_def retry_message_def)
  with assms(5) show ?thesis by (simp add: l has_client_def [of c msg])
qed

theorem echo_settles_send_witness:
  "last (channel_list ''c'' (chat_step (WsNew 0 (demo_msg ''9'' ''me'' (Some ''k'')))
     (chat_step (SendMessage ''k'' 1700000000000 ''h'' ''c'' ''hi'' None) loaded_demo)))
   = demo_msg ''9'' ''me'' (Some ''k'')"
  by (rule echo_settles_send [of _ _ "[synthetic_msg ''h'' ''c''
        (synthetic_message_id 1700000000000 1) ''me'' ''hi'' None ''k'']" _ "''k''",
        THEN conjunct2, THEN conjunct1])
    (simp_all add: loaded_demo_def new_chat_def chat_step_def send_message_def js_trim_def Let_def
      js_space_def uniq_clients_def demo_msg_def synthetic_msg_def has_client_def)

section \<open>Unread counts\<close>

lemma effect_active_frame [simp]:
  "effect_active (put_messages ch l s) = effect_active s"
  "effect_active (forget_payload c s) = effect_active s"
  "effect_active (stop_typing ch a now s) = effect_active s"
  "effect_active (put_unread ch lr n s) = effect_active s"
  by (simp_all add: put_messages_def forget_payload_def stop_typing_def put_unread_def Let_def
      split: option.split)

lemma put_unread_refs [simp]:
  "active_ref (put_unread ch lr n s) = active_ref s" "my_id (put_unread ch lr n s) = my_id s"
  by (simp_all add: put_unread_def)

lemma count_foreign:
  fixes now :: int
  assumes "client_on s" "active_ref s \<noteq> Some ch" "msg_channel m = ch" "my_id s \<noteq> Some (msg_author m)"
    and "messages s ch = Some l"
  defines "s' \<equiv> chat_step (WsNew now m) s"
  shows "unread s' = (unread s)(ch \<mapsto> \<lparr>last_read = (case unread s ch of None \<Rightarrow> ''0'' | Some r \<Rightarrow> last_read r),
      unread_count = (case unread s ch of None \<Rightarrow> 0 | Some r \<Rightarrow> unread_count r) + 1\<rparr>)"
    and "client_on s'" "active_ref s' = active_ref s" "my_id s' = my_id s"
    and "messages s' ch = Some (insert_new m l)" "effect_active s' = effect_active s"
  unfolding s'_def using assms(1-5)
  by (auto simp: chat_step_def on_message_new_def count_new_def Let_def split: option.split)

lemma count_foreign_run:
  assumes "client_on s" "active_ref s \<noteq> Some ch" "messages s ch = Some l"
    and "\<forall>(now, m) \<in> set ms. msg_channel m = ch \<and> my_id s \<noteq> Some (msg_author m)"
    and "unread s ch = Some row"
  defines "s' \<equiv> run chat_step (map (\<lambda>(now, m). WsNew now m) ms) s"
  shows "unread s' ch = Some \<lparr>last_read = last_read row, unread_count = unread_count row + length ms\<rparr>
    \<and> client_on s' \<and> effect_active s' = effect_active s
    \<and> messages s' ch = Some (fold (\<lambda>(now, m). insert_new m) ms l)"
  using assms(1-5) unfolding s'_def
proof (induction ms arbitrary: s l row)
  case Nil
  then show ?case by simp
next
  case (Cons x ms)
  obtain now m where x: "x = (now, m)" by force
  let ?t = "chat_step (WsNew now m) s"
  from Cons.prems x have "msg_channel m = ch" "my_id s \<noteq> Some (msg_author m)" by auto
  note c = count_foreign [OF Cons.prems(1,2) this Cons.prems(3), of now]
  have "unread ?t ch = Some \<lparr>last_read = last_read row, unread_count = unread_count row + 1\<rparr>"
    using c(1) Cons.prems(5) by simp
  from Cons.IH [OF c(2) _ c(5) _ this] Cons.prems c x show ?case by auto
qed

lemma insert_new_ne: "insert_new m l \<noteq> []"
  by (simp add: insert_new_def split: option.split)

lemma last_insert_new: "last (insert_new m l) = m"
  by (simp add: insert_new_def split: option.split)

lemma fold_insert_last:
  "ms \<noteq> [] \<Longrightarrow> fold (\<lambda>(now, m). insert_new m) ms l \<noteq> []
     \<and> last (fold (\<lambda>(now, m). insert_new m) ms l) = snd (last ms)"
  by (induction ms rule: rev_induct) (auto simp: insert_new_ne last_insert_new split: prod.split)

lemma enter_after_render:
  assumes "client_on s" "effect_active s \<noteq> Some ch" "messages s ch = Some l" "l \<noteq> []"
    and "unread s ch = Some row" "unread_count row > 0"
  defines "s' \<equiv> run chat_step [SetActive (Some ch), Render, Flush] s"
  shows "divider s' ch = Some (Some (last_read row))"
    "\<exists>row'. unread s' ch = Some row' \<and> unread_count row' = 0
       \<and> id_val (last_read row') = max (id_val (last_read row)) (id_val (msg_id (last l)))"
    "id_val (last_read row) < id_val (msg_id (last l)) \<Longrightarrow>
       effects s' = effects s @ [MarkRead ch (msg_id (last l))]"
  using assms
  by (auto simp: chat_step_def set_active_def render_def flush_def Let_def enter_channel_def
      ack_up_to_def put_unread_def later_read_def later_def ask_def max_def)

text \<open>
  C21. Unread counts are exact and entering clears them: while a loaded channel is not the active
  one, each message of somebody else adds one to its count and leaves the read position; making
  it active puts the divider at that position, sets the count to 0 and moves the read position to
  the newest message, marking that message read on the server, unless it is already as late.
\<close>

theorem unread_counted_then_cleared:
  assumes "client_on s" "active_ref s \<noteq> Some ch" "effect_active s \<noteq> Some ch"
    and "messages s ch = Some l" "unread s ch = Some row" "ms \<noteq> []"
    and "\<forall>(now, m) \<in> set ms. msg_channel m = ch \<and> my_id s \<noteq> Some (msg_author m)"
  defines "t \<equiv> run chat_step (map (\<lambda>(now, m). WsNew now m) ms) s"
    and "newest \<equiv> msg_id (snd (last ms))"
  shows "unread t ch = Some \<lparr>last_read = last_read row, unread_count = unread_count row + length ms\<rparr>
    \<and> divider (run chat_step [SetActive (Some ch), Render, Flush] t) ch = Some (Some (last_read row))
    \<and> (\<exists>row'. unread (run chat_step [SetActive (Some ch), Render, Flush] t) ch = Some row'
          \<and> unread_count row' = 0
          \<and> id_val (last_read row') = max (id_val (last_read row)) (id_val newest))
    \<and> (id_val (last_read row) < id_val newest \<longrightarrow>
        last (effects (run chat_step [SetActive (Some ch), Render, Flush] t)) = MarkRead ch newest)"
proof -
  note r = count_foreign_run [OF assms(1,2,4,7,5)]
  note l = fold_insert_last [OF assms(6), of l]
  have t: "unread t ch = Some \<lparr>last_read = last_read row, unread_count = unread_count row + length ms\<rparr>"
    "client_on t" "effect_active t \<noteq> Some ch"
    "messages t ch = Some (fold (\<lambda>(now, m). insert_new m) ms l)"
    using r assms(3) by (simp_all add: t_def)
  show ?thesis
    using enter_after_render [OF t(2,3,4) _ t(1)] l assms(6) t(1) by (simp add: newest_def)
qed

definition unread_demo :: chat where
  "unread_demo = new_chat\<lparr>client_on := True, my_id := Some ''me'', messages := [''c'' \<mapsto> []],
     unread := [''c'' \<mapsto> \<lparr>last_read = ''5'', unread_count = 0\<rparr>]\<rparr>"

theorem unread_counted_then_cleared_witness:
  "divider (run chat_step [SetActive (Some ''c''), Render, Flush]
     (run chat_step (map (\<lambda>(now, m). WsNew now m) [(0, demo_msg ''9'' ''you'' None)]) unread_demo)) ''c''
   = Some (Some (last_read \<lparr>last_read = ''5'', unread_count = 0\<rparr>))"
  by (rule unread_counted_then_cleared [of _ _ "[]" "\<lparr>last_read = ''5'', unread_count = 0\<rparr>",
        THEN conjunct2, THEN conjunct1])
    (simp_all add: unread_demo_def new_chat_def demo_msg_def synthetic_msg_def)

section \<open>Failed sends\<close>

text \<open>A send that failed can be retried and nothing of it is lost: an error other than 401 marks
  the message failed in its place (a 429 also shows the countdown the server asked for, 5 seconds
  by default), and a retry moves it to the tail, marks it as being sent and posts again the same
  content, attachments and client id.
\<close>

theorem failed_send_can_be_retried:
  fixes body :: string and retry :: "int option"
  assumes "client_on s" "calls s n = Some (CSend ch cid)" "messages s ch = Some (ys @ m # zs)"
    and "has_client cid m" "filter (has_client cid) ys = []"
    and "pending_payload s cid = Some p" "status \<noteq> 401"
  defines "f \<equiv> chat_step (Done n (RFail (ApiError status body retry))) s"
    and "r \<equiv> chat_step (RetryMessage ch cid) (chat_step (Done n (RFail (ApiError status body retry))) s)"
  shows "channel_list ch f = ys @ m\<lparr>msg_status := Some SendFailed\<rparr> # zs
    \<and> channel_list ch r = ys @ zs @ [m\<lparr>msg_status := Some Sending\<rparr>]
    \<and> last (effects r) = PostMessage ch cid (pl_content p) (pl_attachments p)
    \<and> (status = 429 \<longrightarrow> last (effects f) = ShowToast (fresh s) (case retry of None \<Rightarrow> 5 | Some k \<Rightarrow> k))"
proof -
  have find: "find_index (\<lambda>m. msg_client m = Some cid) (ys @ m' # zs) = Some (length ys)"
    if "msg_client m' = Some cid" for m'
  proof -
    have "find_index (\<lambda>m. msg_client m = Some cid) ys = None"
      using assms(5) by (auto simp: filter_empty_conv has_client_def)
    then show ?thesis using that by (simp add: find_index_append del: find_index_None)
  qed
  have m: "msg_client m = Some cid" using assms(4) by (simp add: has_client_def)
  let ?s = "s\<lparr>calls := (calls s)(n := None)\<rparr>"
  let ?g = "if status = 429 then show_rate_limit ch (case retry of None \<Rightarrow> 5 | Some k \<Rightarrow> k) ?s else ?s"
  have f: "f = edit_list ch (mark_failed cid) ?g"
    using assms(1,2,7) by (simp add: f_def chat_step_def send_failed_def)
  have g: "messages ?g = messages s" "client_on ?g = client_on s"
    "pending_payload ?g = pending_payload s" by simp_all
  have lf: "messages f ch = Some (ys @ m\<lparr>msg_status := Some SendFailed\<rparr> # zs)"
    using assms(3) find [OF m] by (simp add: f g mark_failed_def)
  have r: "r = do_send ch cid (pl_content p) (pl_attachments p) (edit_list ch (retry_list cid) f)"
    unfolding r_def f_def [symmetric] using assms(6) by (simp add: chat_step_def retry_message_def f g)
  have lr: "messages r ch = Some (ys @ zs @ [m\<lparr>msg_status := Some Sending\<rparr>])"
    using lf find [of "m\<lparr>msg_status := Some SendFailed\<rparr>"] m by (simp add: r retry_list_def)
  have "client_on f" using assms(1) by (simp add: f g)
  then have "last (effects r) = PostMessage ch cid (pl_content p) (pl_attachments p)"
    by (simp add: r do_send_def)
  moreover have "status = 429 \<Longrightarrow> last (effects f) = ShowToast (fresh s) (case retry of None \<Rightarrow> 5 | Some k \<Rightarrow> k)"
    by (simp add: f show_rate_limit_def Let_def split: option.split)
  ultimately show ?thesis by (simp add: channel_list_def lf lr)
qed

definition sending_demo :: chat where
  "sending_demo = loaded_demo\<lparr>calls := [3 \<mapsto> CSend ''c'' ''k''], fresh := 4,
     messages := [''c'' \<mapsto> [synthetic_msg ''h'' ''c'' ''9'' ''me'' ''hi'' None ''k'', demo_msg ''8'' ''you'' None]],
     pending_payload := [''k'' \<mapsto> \<lparr>pl_channel = ''c'', pl_content = ''hi'', pl_attachments = None\<rparr>]\<rparr>"

theorem failed_send_can_be_retried_witness:
  "last (effects (chat_step (RetryMessage ''c'' ''k'')
      (chat_step (Done 3 (RFail (ApiError 429 ''slow'' (Some 7)))) sending_demo)))
    = PostMessage ''c'' ''k'' ''hi'' None"
  using failed_send_can_be_retried [of sending_demo 3 "''c''" "''k''" "[]"
      "synthetic_msg ''h'' ''c'' ''9'' ''me'' ''hi'' None ''k''" "[demo_msg ''8'' ''you'' None]"
      "\<lparr>pl_channel = ''c'', pl_content = ''hi'', pl_attachments = None\<rparr>" 429 "''slow''" "Some 7"]
  by (simp add: sending_demo_def loaded_demo_def has_client_def synthetic_msg_def)

section \<open>Messages and toasts that go wrong\<close>

text \<open>A live message can be lost for the session: one that arrives while the channel's history
  is being loaded is not kept, so when the history that comes back was read before it, it is not
  in the list, and the channel counts as loaded and its history is not asked for again.
\<close>

theorem live_message_lost_during_history:
  fixes now :: int
  assumes "client_on s" "calls s n = Some (CHistory ch)" "messages s ch = None"
    and "msg_channel m = ch" "msg_id m \<notin> set (map msg_id h)"
  defines "s' \<equiv> run chat_step [WsNew now m, Done n (RHistory h)] s"
  shows "msg_id m \<notin> set (map msg_id (channel_list ch s')) \<and> ch \<in> loaded s'
    \<and> chat_step (EnsureHistory ch) s' = s'"
proof -
  let ?t = "on_message_new now m s"
  have t: "messages ?t ch = None" "calls ?t = calls s" "client_on ?t"
    using assms(1,3,4) by (simp_all add: messages_on_message_new on_message_new_def Let_def)
  then have s': "s' = on_history ch h (?t\<lparr>calls := (calls ?t)(n := None)\<rparr>)"
    using assms(1,2) by (simp add: s'_def chat_step_def)
  have "messages s' ch = Some (rev h)" and l: "ch \<in> loaded s'"
    using t(1) by (simp_all add: s' on_history_def Let_def merge_history_def split: option.split)
  with assms(5) show ?thesis
    by (simp add: channel_list_def chat_step_def ensure_history_def)
qed

theorem live_message_lost_during_history_witness:
  "msg_id (demo_msg ''9'' ''you'' None) \<notin> set (map msg_id (channel_list ''c'' (run chat_step
     [WsNew 0 (demo_msg ''9'' ''you'' None), Done 0 (RHistory [demo_msg ''8'' ''you'' None])]
     (new_chat\<lparr>client_on := True, calls := [0 \<mapsto> CHistory ''c''], loading := {''c''}, fresh := 1\<rparr>))))"
  by (rule live_message_lost_during_history [THEN conjunct1])
    (simp_all add: new_chat_def demo_msg_def synthetic_msg_def)

text \<open>The equations that evaluate a concrete run.\<close>

lemmas chat_eval = chat_step_def session_start_def ensure_history_def on_history_def merge_history_def
  send_message_def do_send_def call_out_def ask_def put_messages_def put_unread_def edit_list_def
  on_message_new_def insert_new_def forget_payload_def stop_typing_def count_new_def ack_up_to_def
  later_read_def mark_failed_def send_failed_def retry_message_def retry_list_def
  show_rate_limit_def countdown_tick_def remove_at_def channel_list_def Let_def
  js_trim_def js_space_def new_chat_def demo_msg_def synthetic_msg_def

text \<open>
  A message sent before the history is there can stay in the list twice: the history brings the
  server's copy, whose id is not the optimistic one's, so both are kept; the echo then replaces
  the first of the two, and the optimistic copy is shown as being sent for ever.
\<close>

definition early_send :: "chat_input list" where
  "early_send =
     [UserChanged (Some ''me''), SessionStart, EnsureHistory ''c'',
      SendMessage ''k'' 1700000000000 ''h'' ''c'' ''hi'' None,
      Done 1 (RHistory [demo_msg ''9'' ''me'' (Some ''k'')]), Done 2 RSent,
      WsNew 0 (demo_msg ''9'' ''me'' (Some ''k''))]"

theorem history_duplicates_pending:
  "map (\<lambda>m. (msg_client m, msg_status m)) (channel_list ''c'' (run chat_step early_send new_chat))
   = [(Some ''k'', Some Sending), (Some ''k'', None)]
   \<and> chat_step (RetryMessage ''c'' ''k'') (run chat_step early_send new_chat)
     = run chat_step early_send new_chat"
proof -
  have "synthetic_message_id 1700000000000 1 \<noteq> ''9''"
  proof
    assume "synthetic_message_id 1700000000000 1 = ''9''"
    then have "id_val (synthetic_message_id 1700000000000 1) = id_val ''9''" by simp
    moreover have "id_val ''9'' = 9"
      by (simp add: id_val_def bigint_def js_trim_def js_space_def parse_digits_def digit_val_def)
    ultimately show False by (simp add: synthetic_val SONYFLAKE_EPOCH_MS_def)
  qed
  then show ?thesis by (simp add: early_send_def chat_eval)
qed

text \<open>
  A send whose echo arrived and whose response was lost marks the delivered message as failed,
  and its retry does nothing.
\<close>

definition lost_response :: "chat_input list" where
  "lost_response =
     [UserChanged (Some ''me''), SessionStart, EnsureHistory ''c'', Done 1 (RHistory []),
      SendMessage ''k'' 1700000000000 ''h'' ''c'' ''hi'' None,
      WsNew 0 (demo_msg ''9'' ''me'' (Some ''k'')), Done 2 (RFail NetworkError)]"

theorem late_failure_marks_delivered:
  "map (\<lambda>m. (msg_id m, msg_status m)) (channel_list ''c'' (run chat_step lost_response new_chat))
   = [(''9'', Some SendFailed)]
   \<and> chat_step (RetryMessage ''c'' ''k'') (run chat_step lost_response new_chat)
     = run chat_step lost_response new_chat"
  by (simp add: lost_response_def chat_eval)

text \<open>
  A second 429 in a channel does not replace the first countdown: its interval goes on, so the
  toast that was dismissed is shown again beside the new one.
\<close>

theorem countdowns_stack:
  assumes "rate_toast s ch = Some i" "countdowns s i = Some (ch, k)" "2 \<le> k" "i < fresh s"
  shows "effects (countdown_tick i (show_rate_limit ch seconds s))
    = effects s @ [DismissToast i, ShowToast (fresh s) seconds, ShowToast i (k - 1)]"
  using assms by (simp add: show_rate_limit_def countdown_tick_def Let_def ask_def)

end
