(* ===== verification/VideoClient.thy ===== *)
theory VideoClient
  imports JsMap ChatApi
begin

text \<open>
  \<open>VideoClient\<close> of \<open>packages/sdk-video/src/client.ts\<close>, first part: the state, the frames it
  sends, the signaling with the media server, remote tracks and voice activity detection. The
  media controls are in \<open>VideoMedia\<close>.

  The record \<open>vc\<close> holds the private fields of the class and the part of the browser they refer
  to: sockets, peer connections, tracks, senders and participants are objects known by number,
  so that two fields or two keys can refer to the same one. An \<open>async\<close> function stops at each
  \<open>await\<close>: the rest of it, with the variables it captured, is an entry of \<open>v_calls\<close>, and runs
  when its result comes in. Server messages are chained on \<open>msgQueue\<close>; a chain is a list of
  messages of which one is handled at a time, and a rejected handler rejects the rest of it.
  The messages for the debug panel are not modelled.
\<close>

section \<open>Objects\<close>

datatype track_kind = AudioTrack | VideoTrack
datatype track_source = CameraSource | ScreenSource
datatype screen_profile = Gaming | Standard | Detail

record mtrack =
  t_kind :: track_kind
  t_enabled :: bool
  t_live :: bool
  t_device :: "string option"

record participant =
  p_id :: string
  p_user :: string
  p_audio :: "nat option"
  p_video :: "nat option"
  p_screen_video :: "nat option"
  p_screen_audio :: "nat option"
  p_speaking :: bool
  p_mic_muted :: bool
  p_deafened :: bool

type_synonym candidate = "string \<times> string option \<times> int option"

datatype v_frame =
    FJoin string
  | FOffer string
  | FAnswer string
  | FIce candidate
  | FMute track_kind bool
  | FDeafen bool
  | FPublish track_source track_kind nat
  | FLeave

datatype v_event =
    VConnected string
  | VJoined nat
  | VLeft string string
  | VTrackAdded string nat string track_source track_kind \<comment> \<open>participant, track, stream\<close>
  | VTrackRemoved string track_source track_kind
  | VTrackMuted string string bool
  | VDeafened string bool
  | VSpeaking string bool
  | VScreenStarted string
  | VScreenStopped string
  | VDisconnected string
  | VForced string
  | VErrorEvent string

text \<open>Why a call rejects: the media or SDP operation failed, or \<open>this.pc\<close> is null by now.\<close>

datatype v_error = MediaError | SdpError | NullPc | NoTrack | NotConnected

datatype v_effect =
    VSend nat v_frame
  | VEmit v_event
  | VClose nat
  | VRejects v_error

record stream_info =
  si_stream :: string
  si_participant :: string
  si_user :: string
  si_source :: "track_source option"
  si_kind :: "track_kind option"

datatype server_msg =
    MAnswer string string \<comment> \<open>sdp, participant id\<close>
  | MOffer "stream_info list option" string
  | MIce candidate
  | MJoined string string
  | MLeft string string
  | MMuted string string bool
  | MDeafened string bool
  | MError string
  | MForced string

record chain =
  todo :: "server_msg list"
  busy :: bool
  jammed :: bool

text \<open>What is left of an async function at one of its awaits.\<close>

datatype cont =
    KJoinMedia nat
  | KJoinCreated nat
  | KJoinLocal nat string
  | KAnswerSet nat string
  | KOfferSet nat
  | KOfferAnswer nat
  | KOfferLocal nat string
  | KIce nat
  | KMicMedia
  | KMicReplaced nat nat
  | KCamConstrained nat
  | KCamSwapped nat nat
  | KCamMedia
  | KCamReplaced nat nat
  | KCamEncoded bool
  | KRenegCreated
  | KRenegLocal string
  | KMicDevice string
  | KMicDeviceSet nat nat string
  | KCamDevice string
  | KCamDeviceSet nat nat bool string
  | KCamDeviceEncoded nat string
  | KScreenMedia screen_profile
  | KScreenParams nat "nat option"
  | KScreenCreated
  | KScreenLocal string
  | KUnpubCreated
  | KUnpubLocal string

text \<open>What an await comes back with: captured tracks (kind and device), an SDP, nothing, an error.\<close>

datatype v_result = RMedia "(track_kind \<times> string option) list" | RSdp string | ROk | RErr

datatype ended_job = EndRemoteScreen nat | EndScreenVideo | EndScreenAudio

section \<open>State\<close>

record vc =
  v_user :: string
  v_session :: string
  v_ws :: "nat option"
  v_socks :: "nat \<rightharpoonup> ready_state"
  v_pc :: "nat option"
  v_closed :: "nat set" \<comment> \<open>the peer connections that are closed\<close>
  v_local :: "nat list option"
  v_tracks :: "nat \<rightharpoonup> mtrack"
  v_senders :: "nat \<rightharpoonup> nat option"
  v_audio_sender :: "nat option"
  v_video_sender :: "nat option"
  v_mic_device :: "string option"
  v_cam_device :: "string option"
  v_screen_video :: "nat option"
  v_screen_audio :: "nat option"
  v_screen_vsender :: "nat option"
  v_screen_asender :: "nat option"
  v_mic :: bool
  v_cam :: bool
  v_joined :: bool
  v_pending :: "candidate list"
  v_pid :: "string option"
  v_parts :: "(string, nat) jmap"
  v_heap :: "nat \<rightharpoonup> participant"
  v_meta :: "string \<rightharpoonup> track_source \<times> track_kind"
  v_chain :: nat
  v_chains :: "nat \<Rightarrow> chain"
  v_analysers :: "(string, nat) jmap"
  v_polling :: bool
  v_silence :: "string \<rightharpoonup> nat"
  v_ended :: "nat \<rightharpoonup> ended_job"
  v_calls :: "nat \<rightharpoonup> cont"
  v_next :: nat
  v_out :: "v_effect list"

definition empty_chain :: chain where
  "empty_chain = \<lparr>todo = [], busy = False, jammed = False\<rparr>"

definition new_video :: "string \<Rightarrow> string \<Rightarrow> vc" where
  "new_video user session =
     \<lparr>v_user = user, v_session = session, v_ws = None, v_socks = (\<lambda>_. None), v_pc = None,
      v_closed = {}, v_local = None, v_tracks = (\<lambda>_. None), v_senders = (\<lambda>_. None),
      v_audio_sender = None, v_video_sender = None, v_mic_device = None, v_cam_device = None,
      v_screen_video = None, v_screen_audio = None, v_screen_vsender = None,
      v_screen_asender = None, v_mic = False, v_cam = False, v_joined = False, v_pending = [],
      v_pid = None, v_parts = [], v_heap = (\<lambda>_. None), v_meta = (\<lambda>_. None), v_chain = 0,
      v_chains = (\<lambda>_. empty_chain), v_analysers = [], v_polling = False,
      v_silence = (\<lambda>_. None), v_ended = (\<lambda>_. None), v_calls = (\<lambda>_. None), v_next = 1,
      v_out = []\<rparr>"

section \<open>Small steps\<close>

definition v_log :: "v_effect list \<Rightarrow> vc \<Rightarrow> vc" where
  "v_log es s = s\<lparr>v_out := v_out s @ es\<rparr>"

definition v_emit :: "v_event \<Rightarrow> vc \<Rightarrow> vc" where
  "v_emit e s = v_log [VEmit e] s"

definition v_throw :: "v_error \<Rightarrow> vc \<Rightarrow> vc" where
  "v_throw e s = v_log [VRejects e] s"

definition v_send :: "v_frame \<Rightarrow> vc \<Rightarrow> vc" where
  "v_send f s =
     (case v_ws s of
        None \<Rightarrow> s
      | Some i \<Rightarrow> if v_socks s i = Some OPEN then v_log [VSend i f] s else s)"

definition v_await :: "cont \<Rightarrow> vc \<Rightarrow> vc" where
  "v_await k s = s\<lparr>v_calls := (v_calls s)(v_next s \<mapsto> k), v_next := Suc (v_next s)\<rparr>"

definition pc_closed :: "nat \<Rightarrow> vc \<Rightarrow> bool" where
  "pc_closed pc s \<longleftrightarrow> pc \<in> v_closed s"

text \<open>The media tracks a capture returns, and operations on tracks and senders.\<close>

fun new_tracks :: "(track_kind \<times> string option) list \<Rightarrow> vc \<Rightarrow> vc \<times> nat list" where
  "new_tracks [] s = (s, [])"
| "new_tracks ((k, d) # rest) s =
     (let t = v_next s;
          s1 = s\<lparr>v_tracks := (v_tracks s)
                  (t \<mapsto> \<lparr>t_kind = k, t_enabled = True, t_live = True, t_device = d\<rparr>),
                v_next := Suc t\<rparr>
      in case new_tracks rest s1 of (s2, ts) \<Rightarrow> (s2, t # ts))"

definition set_track :: "(mtrack \<Rightarrow> mtrack) \<Rightarrow> nat \<Rightarrow> vc \<Rightarrow> vc" where
  "set_track f t s = s\<lparr>v_tracks := (v_tracks s)(t := map_option f (v_tracks s t))\<rparr>"

definition stop_track :: "nat \<Rightarrow> vc \<Rightarrow> vc" where
  "stop_track = set_track (\<lambda>tr. tr\<lparr>t_live := False\<rparr>)"

definition enable_track :: "bool \<Rightarrow> nat \<Rightarrow> vc \<Rightarrow> vc" where
  "enable_track b = set_track (\<lambda>tr. tr\<lparr>t_enabled := b\<rparr>)"

definition is_kind :: "vc \<Rightarrow> track_kind \<Rightarrow> nat \<Rightarrow> bool" where
  "is_kind s k t = (case v_tracks s t of None \<Rightarrow> False | Some tr \<Rightarrow> t_kind tr = k)"

definition track_live :: "vc \<Rightarrow> nat \<Rightarrow> bool" where
  "track_live s t = (case v_tracks s t of None \<Rightarrow> False | Some tr \<Rightarrow> t_live tr)"

definition device_of :: "vc \<Rightarrow> nat \<Rightarrow> string option" where
  "device_of s t = (case v_tracks s t of None \<Rightarrow> None | Some tr \<Rightarrow> t_device tr)"

definition local_tracks :: "vc \<Rightarrow> track_kind \<Rightarrow> nat list" where
  "local_tracks s k = (case v_local s of None \<Rightarrow> [] | Some ts \<Rightarrow> filter (is_kind s k) ts)"

definition add_local :: "nat \<Rightarrow> vc \<Rightarrow> vc" where
  "add_local t s = s\<lparr>v_local := Some ((case v_local s of None \<Rightarrow> [] | Some ts \<Rightarrow> ts) @ [t])\<rparr>"

definition replace_track :: "nat \<Rightarrow> nat option \<Rightarrow> vc \<Rightarrow> vc" where
  "replace_track sender t s = s\<lparr>v_senders := (v_senders s)(sender \<mapsto> t)\<rparr>"

text \<open>\<open>pc.addTrack(t)\<close>, or \<open>addTransceiver(t)\<close>: the new sender is \<open>v_next s\<close>.\<close>

definition add_sender :: "nat \<Rightarrow> vc \<Rightarrow> vc" where
  "add_sender t s =
     s\<lparr>v_senders := (v_senders s)(v_next s \<mapsto> Some t), v_next := Suc (v_next s)\<rparr>"

section \<open>Connecting\<close>

definition video_ws_url ::
  "string \<Rightarrow> string \<Rightarrow> string \<Rightarrow> string \<Rightarrow> string \<Rightarrow> string option \<Rightarrow> string" where
  "video_ws_url org server session user tok uuid =
     (let u = server @ ''/ws/'' @ session;
          full = (if starts_with ''http://'' u \<or> starts_with ''https://'' u then u else org @ u);
          sock = (if starts_with ''https:'' full then ''wss:'' @ drop 6 full else ''ws:'' @ drop 5 full)
      in sock @ ''?'' @ join ''&'' (map form_param
           ([(''user_id'', user), (''token'', tok)] @
            (case uuid of None \<Rightarrow> [] | Some x \<Rightarrow> if x = [] then [] else [(''user_uuid'', x)]))))"

definition v_connect :: "vc \<Rightarrow> vc" where
  "v_connect s =
     (if v_ws s \<noteq> None \<or> v_pc s \<noteq> None then s
      else
        (let p = v_next s; w = Suc p in
         s\<lparr>v_pc := Some p, v_ws := Some w, v_socks := (v_socks s)(w \<mapsto> CONNECTING),
           v_next := Suc w\<rparr>))"

section \<open>The first offer\<close>

definition create_and_send_offer :: "vc \<Rightarrow> vc" where
  "create_and_send_offer s =
     (case v_pc s of
        None \<Rightarrow> s
      | Some pc \<Rightarrow> if pc_closed pc s then s else v_await (KJoinMedia pc) s)"

text \<open>One captured track goes to the connection, muted; video is taken off its sender again.\<close>

definition add_muted :: "nat \<Rightarrow> vc \<Rightarrow> vc" where
  "add_muted t s =
     (let sender = v_next s;
          s1 = add_sender t (enable_track False t s)
      in if is_kind s VideoTrack t
         then replace_track sender None
                (s1\<lparr>v_video_sender := Some sender, v_cam_device := device_of s1 t\<rparr>)
         else s1\<lparr>v_audio_sender := Some sender, v_mic_device := device_of s1 t\<rparr>)"

definition join_media :: "nat \<Rightarrow> v_result \<Rightarrow> vc \<Rightarrow> vc" where
  "join_media pc r s =
     (case r of
        RMedia ks \<Rightarrow>
          (case new_tracks ks s of (s1, ts) \<Rightarrow>
             if pc_closed pc s1 then fold stop_track ts s1
             else v_await (KJoinCreated pc)
                    ((fold add_muted ts (s1\<lparr>v_local := Some ts\<rparr>))\<lparr>v_mic := False, v_cam := False\<rparr>))
      | _ \<Rightarrow> if pc_closed pc s then s else v_await (KJoinCreated pc) s)"

definition join_created :: "nat \<Rightarrow> v_result \<Rightarrow> vc \<Rightarrow> vc" where
  "join_created pc r s =
     (case r of
        RSdp sdp \<Rightarrow> if pc_closed pc s then s else v_await (KJoinLocal pc sdp) s
      | _ \<Rightarrow> v_throw SdpError s)"

definition join_local :: "nat \<Rightarrow> string \<Rightarrow> v_result \<Rightarrow> vc \<Rightarrow> vc" where
  "join_local pc sdp r s =
     (case r of
        RErr \<Rightarrow> v_throw SdpError s
      | _ \<Rightarrow> if pc_closed pc s then s else v_send (FJoin sdp) s)"

section \<open>Messages of the server\<close>

definition chain_upd :: "nat \<Rightarrow> (chain \<Rightarrow> chain) \<Rightarrow> vc \<Rightarrow> vc" where
  "chain_upd g f s = s\<lparr>v_chains := (v_chains s)(g := f (v_chains s g))\<rparr>"

definition handler_done :: "nat \<Rightarrow> vc \<Rightarrow> vc" where
  "handler_done g = chain_upd g (\<lambda>c. c\<lparr>busy := False\<rparr>)"

definition handler_rejects :: "nat \<Rightarrow> v_error \<Rightarrow> vc \<Rightarrow> vc" where
  "handler_rejects g e s = chain_upd g (\<lambda>c. c\<lparr>busy := False, jammed := True\<rparr>) (v_throw e s)"

definition set_part :: "(participant \<Rightarrow> participant) \<Rightarrow> nat \<Rightarrow> vc \<Rightarrow> vc" where
  "set_part f r s = s\<lparr>v_heap := (v_heap s)(r := map_option f (v_heap s r))\<rparr>"

definition register_stream :: "stream_info \<Rightarrow> vc \<Rightarrow> vc" where
  "register_stream t s =
     (let s1 = (if jhas (v_parts s) (si_stream t) then s
                else (case jget (v_parts s) (si_participant t) of
                        None \<Rightarrow> s
                      | Some r \<Rightarrow> s\<lparr>v_parts := jset (si_stream t) r (v_parts s)\<rparr>))
      in case (si_source t, si_kind t) of
           (Some src, Some k) \<Rightarrow> s1\<lparr>v_meta := (v_meta s1)(si_stream t \<mapsto> (src, k))\<rparr>
         | _ \<Rightarrow> s1)"

definition new_participant :: "string \<Rightarrow> string \<Rightarrow> participant" where
  "new_participant pid user =
     \<lparr>p_id = pid, p_user = user, p_audio = None, p_video = None, p_screen_video = None,
      p_screen_audio = None, p_speaking = False, p_mic_muted = True, p_deafened = False\<rparr>"

definition participant_joined :: "string \<Rightarrow> string \<Rightarrow> vc \<Rightarrow> vc" where
  "participant_joined pid user s =
     (let r = v_next s in
      v_emit (VJoined r)
        (s\<lparr>v_heap := (v_heap s)(r \<mapsto> new_participant pid user),
           v_parts := jset pid r (v_parts s), v_next := Suc r\<rparr>))"

definition participant_left :: "string \<Rightarrow> string \<Rightarrow> vc \<Rightarrow> vc" where
  "participant_left pid user s = v_emit (VLeft pid user) (s\<lparr>v_parts := jdel pid (v_parts s)\<rparr>)"

definition participant_muted :: "string \<Rightarrow> string \<Rightarrow> bool \<Rightarrow> vc \<Rightarrow> vc" where
  "participant_muted pid kind muted s =
     v_emit (VTrackMuted pid kind muted)
       (case jget (v_parts s) pid of
          None \<Rightarrow> s
        | Some r \<Rightarrow> if kind = ''audio'' then set_part (\<lambda>p. p\<lparr>p_mic_muted := muted\<rparr>) r s else s)"

definition participant_deafened :: "string \<Rightarrow> bool \<Rightarrow> vc \<Rightarrow> vc" where
  "participant_deafened pid deafened s =
     v_emit (VDeafened pid deafened)
       (case jget (v_parts s) pid of
          None \<Rightarrow> s | Some r \<Rightarrow> set_part (\<lambda>p. p\<lparr>p_deafened := deafened\<rparr>) r s)"

definition force_disconnected :: "string \<Rightarrow> vc \<Rightarrow> vc" where
  "force_disconnected reason s =
     (let s1 = v_emit (VForced (if reason = [] then ''force_disconnected'' else reason)) s in
      case v_ws s1 of
        None \<Rightarrow> s1
      | Some i \<Rightarrow>
          if v_socks s1 i \<in> {Some OPEN, Some CONNECTING}
          then v_log [VClose i] (s1\<lparr>v_socks := (v_socks s1)(i \<mapsto> CLOSING)\<rparr>) else s1)"

text \<open>The handler of a message of chain \<open>g\<close>, up to its first await.\<close>

definition handle_server_message :: "nat \<Rightarrow> server_msg \<Rightarrow> vc \<Rightarrow> vc" where
  "handle_server_message g m s =
     (if (case v_pc s of None \<Rightarrow> True | Some pc \<Rightarrow> pc_closed pc s) then handler_done g s
      else case m of
        MAnswer sdp pid \<Rightarrow> v_await (KAnswerSet g pid) s
      | MOffer tracks sdp \<Rightarrow>
          v_await (KOfferSet g) (fold register_stream (case tracks of None \<Rightarrow> [] | Some ts \<Rightarrow> ts) s)
      | MIce c \<Rightarrow> v_await (KIce g) s
      | MJoined pid user \<Rightarrow> handler_done g (participant_joined pid user s)
      | MLeft pid user \<Rightarrow> handler_done g (participant_left pid user s)
      | MMuted pid kind muted \<Rightarrow> handler_done g (participant_muted pid kind muted s)
      | MDeafened pid d \<Rightarrow> handler_done g (participant_deafened pid d s)
      | MError msg \<Rightarrow> handler_done g (v_emit (VErrorEvent msg) s)
      | MForced reason \<Rightarrow> handler_done g (force_disconnected reason s))"

definition answer_set :: "nat \<Rightarrow> string \<Rightarrow> v_result \<Rightarrow> vc \<Rightarrow> vc" where
  "answer_set g pid r s =
     (case r of
        RErr \<Rightarrow> handler_rejects g SdpError s
      | _ \<Rightarrow> handler_done g (v_emit (VConnected pid)
          ((fold (\<lambda>c. v_send (FIce c)) (v_pending s) (s\<lparr>v_pid := Some pid, v_joined := True\<rparr>))
             \<lparr>v_pending := []\<rparr>)))"

text \<open>
  The checks between the awaits of an offer: \<open>this.pc!.signalingState\<close> throws when \<open>this.pc\<close> is
  null, and ends the handler when the connection is closed.
\<close>

definition offer_stage :: "nat \<Rightarrow> v_result \<Rightarrow> (vc \<Rightarrow> vc) \<Rightarrow> vc \<Rightarrow> vc" where
  "offer_stage g r go s =
     (if r = RErr then handler_rejects g SdpError s
      else case v_pc s of
        None \<Rightarrow> handler_rejects g NullPc s
      | Some pc \<Rightarrow> if pc_closed pc s then handler_done g s else go s)"

definition sdp_of :: "v_result \<Rightarrow> string" where
  "sdp_of r = (case r of RSdp x \<Rightarrow> x | _ \<Rightarrow> [])"

definition offer_set :: "nat \<Rightarrow> v_result \<Rightarrow> vc \<Rightarrow> vc" where
  "offer_set g r = offer_stage g r (v_await (KOfferAnswer g))"

definition offer_answer :: "nat \<Rightarrow> v_result \<Rightarrow> vc \<Rightarrow> vc" where
  "offer_answer g r = offer_stage g r (v_await (KOfferLocal g (sdp_of r)))"

definition offer_local :: "nat \<Rightarrow> string \<Rightarrow> v_result \<Rightarrow> vc \<Rightarrow> vc" where
  "offer_local g sdp r = offer_stage g r (\<lambda>s. handler_done g (v_send (FAnswer sdp) s))"

text \<open>The queue: a message joins the current chain, and a chain runs its first message when idle.\<close>

definition enqueue_msg :: "server_msg \<Rightarrow> vc \<Rightarrow> vc" where
  "enqueue_msg m s = chain_upd (v_chain s) (\<lambda>c. c\<lparr>todo := todo c @ [m]\<rparr>) s"

definition pump :: "nat \<Rightarrow> vc \<Rightarrow> vc" where
  "pump g s =
     (let c = v_chains s g in
      if busy c \<or> jammed c then s
      else case todo c of
        [] \<Rightarrow> s
      | m # ms \<Rightarrow>
          handle_server_message g m (chain_upd g (\<lambda>c. c\<lparr>todo := ms, busy := True\<rparr>) s))"

section \<open>Events of the connection\<close>

definition on_ice_candidate :: "candidate \<Rightarrow> vc \<Rightarrow> vc" where
  "on_ice_candidate c s =
     (if v_joined s then v_send (FIce c) s else s\<lparr>v_pending := v_pending s @ [c]\<rparr>)"

definition setup_level_detection :: "string \<Rightarrow> nat \<Rightarrow> vc \<Rightarrow> vc" where
  "setup_level_detection pid t s =
     s\<lparr>v_analysers := jset pid t (v_analysers s), v_polling := True\<rparr>"

text \<open>A remote track \<open>t\<close> of the given kind, with the ids of its streams.\<close>

definition on_track :: "nat \<Rightarrow> track_kind \<Rightarrow> string list \<Rightarrow> vc \<Rightarrow> vc" where
  "on_track t track_kind streams s =
     (if \<not> v_joined s \<or> streams = [] then s
      else
        (let stream = hd streams in
         case jget (v_parts s) stream of
           None \<Rightarrow> s
         | Some r \<Rightarrow>
             (let src = (case v_meta s stream of None \<Rightarrow> CameraSource | Some m \<Rightarrow> fst m);
                  kind = (case v_meta s stream of None \<Rightarrow> track_kind | Some m \<Rightarrow> snd m);
                  pid = (case v_heap s r of None \<Rightarrow> [] | Some p \<Rightarrow> p_id p);
                  s1 = (case (kind, src) of
                          (AudioTrack, CameraSource) \<Rightarrow>
                            setup_level_detection pid t (set_part (\<lambda>p. p\<lparr>p_audio := Some t\<rparr>) r s)
                        | (VideoTrack, CameraSource) \<Rightarrow> set_part (\<lambda>p. p\<lparr>p_video := Some t\<rparr>) r s
                        | (VideoTrack, ScreenSource) \<Rightarrow>
                            (v_emit (VScreenStarted pid)
                               (set_part (\<lambda>p. p\<lparr>p_screen_video := Some t\<rparr>) r s))
                              \<lparr>v_ended := (v_ended s)(t \<mapsto> EndRemoteScreen r)\<rparr>
                        | (AudioTrack, ScreenSource) \<Rightarrow>
                            set_part (\<lambda>p. p\<lparr>p_screen_audio := Some t\<rparr>) r s)
              in v_emit (VTrackAdded pid t stream src kind) s1)))"

definition on_connection_failed :: "string \<Rightarrow> vc \<Rightarrow> vc" where
  "on_connection_failed state s =
     (if state \<in> {''failed'', ''closed''}
      then v_emit (VDisconnected (''peer connection '' @ state)) s else s)"

section \<open>Voice activity\<close>

text \<open>The mean of the voice bins 1 to 11 of the 256 bytes of the spectrum.\<close>

definition voice_level :: "nat list \<Rightarrow> real" where
  "voice_level bytes = of_nat (sum_list (take 11 (drop 1 bytes))) / 11"

text \<open>One poll: speaking before and silent ticks before, to speaking and silent ticks after.\<close>

definition vad_step :: "real \<Rightarrow> bool \<times> nat \<Rightarrow> bool \<times> nat" where
  "vad_step avg st =
     (case st of (was, ticks) \<Rightarrow>
        if was then
          (if avg < 12 then (if Suc ticks \<ge> 8 then (False, 0) else (True, Suc ticks))
           else (True, 0))
        else if avg > 22 then (True, 0) else (False, ticks))"

definition check_level :: "(string \<Rightarrow> nat list) \<Rightarrow> string \<Rightarrow> vc \<Rightarrow> vc" where
  "check_level spectrum pid s =
     (case jget (v_parts s) pid of
        None \<Rightarrow> s
      | Some r \<Rightarrow>
          (case v_heap s r of
             None \<Rightarrow> s
           | Some p \<Rightarrow>
               (case vad_step (voice_level (spectrum pid))
                       (p_speaking p, case v_silence s pid of None \<Rightarrow> 0 | Some n \<Rightarrow> n)
                of (speaking, ticks) \<Rightarrow>
                  (let s1 = s\<lparr>v_silence := (v_silence s)(pid \<mapsto> ticks)\<rparr> in
                   if speaking \<noteq> p_speaking p
                   then v_emit (VSpeaking pid speaking)
                          (set_part (\<lambda>p. p\<lparr>p_speaking := speaking\<rparr>) r s1)
                   else s1))))"

definition check_speaking_levels :: "(string \<Rightarrow> nat list) \<Rightarrow> vc \<Rightarrow> vc" where
  "check_speaking_levels spectrum s =
     (if v_polling s then fold (check_level spectrum) (map fst (v_analysers s)) s else s)"

section \<open>Getters\<close>

definition get_participants :: "vc \<Rightarrow> participant list" where
  "get_participants s = List.map_filter (\<lambda>(_, r). v_heap s r) (v_parts s)"

text \<open>The participants of the diagnostics: one per participant id, in the order of first key.\<close>

definition diagnostic_participants :: "vc \<Rightarrow> (string \<times> participant) list" where
  "diagnostic_participants s = fold (\<lambda>p m. jset (p_id p) p m) (get_participants s) []"

end
