(* ===== verification/VideoMedia.thy ===== *)
theory VideoMedia
  imports VideoClient
begin

text \<open>
  \<open>VideoClient\<close>, second part: microphone, camera, device selection, screen sharing, disconnect,
  and the machine that runs the whole class one callback at a time.
\<close>

section \<open>Renegotiation\<close>

definition renegotiate :: "vc \<Rightarrow> vc" where
  "renegotiate s = (if v_pc s = None \<or> v_ws s = None then s else v_await KRenegCreated s)"

text \<open>Errors after the first await are caught, a null \<open>this.pc\<close> included.\<close>

definition reneg_created :: "v_result \<Rightarrow> vc \<Rightarrow> vc" where
  "reneg_created r s =
     (if r = RErr \<or> v_pc s = None then s else v_await (KRenegLocal (sdp_of r)) s)"

definition reneg_local :: "string \<Rightarrow> v_result \<Rightarrow> vc \<Rightarrow> vc" where
  "reneg_local sdp r s = (if r = RErr then s else v_send (FOffer sdp) s)"

section \<open>Microphone\<close>

definition first_live :: "vc \<Rightarrow> track_kind \<Rightarrow> nat option" where
  "first_live s k =
     (case local_tracks s k of [] \<Rightarrow> None | t # _ \<Rightarrow> if track_live s t then Some t else None)"

definition finish_mic :: "bool \<Rightarrow> vc \<Rightarrow> vc" where
  "finish_mic reneg s =
     (let s1 = v_send (FMute AudioTrack False) (s\<lparr>v_mic := True\<rparr>)
      in if reneg then renegotiate s1 else s1)"

definition enable_mic :: "vc \<Rightarrow> vc" where
  "enable_mic s =
     (if v_mic s then s
      else case first_live s AudioTrack of
        Some t \<Rightarrow> finish_mic False (enable_track True t s)
      | None \<Rightarrow> v_await KMicMedia s)"

definition mic_media :: "v_result \<Rightarrow> vc \<Rightarrow> vc" where
  "mic_media r s =
     (case r of
        RMedia ks \<Rightarrow>
          (case new_tracks ks s of (s1, ts) \<Rightarrow>
             (case filter (is_kind s1 AudioTrack) ts of
                [] \<Rightarrow> finish_mic False s1
              | t # _ \<Rightarrow>
                  if v_pc s1 = None then finish_mic False s1
                  else
                    (let s2 = add_local t s1 in
                     case v_audio_sender s2 of
                       Some x \<Rightarrow> v_await (KMicReplaced t x) s2
                     | None \<Rightarrow>
                         finish_mic True ((add_sender t s2)
                           \<lparr>v_audio_sender := Some (v_next s2), v_mic_device := device_of s2 t\<rparr>))))
      | _ \<Rightarrow> v_throw MediaError s)"

text \<open>After the swap the log line reads \<open>this.pc\<close>, which throws when it is null.\<close>

definition mic_replaced :: "nat \<Rightarrow> nat \<Rightarrow> v_result \<Rightarrow> vc \<Rightarrow> vc" where
  "mic_replaced t sender r s =
     (if r = RErr then v_throw MediaError s
      else
        (let s1 = (replace_track sender (Some t) s)\<lparr>v_mic_device := device_of s t\<rparr>
         in if v_pc s1 = None then v_throw NullPc s1 else finish_mic False s1))"

definition disable_mic :: "vc \<Rightarrow> vc" where
  "disable_mic s =
     (let s1 = (case local_tracks s AudioTrack of [] \<Rightarrow> s | t # _ \<Rightarrow> enable_track False t s)
      in v_send (FMute AudioTrack True) (s1\<lparr>v_mic := False\<rparr>))"

definition toggle_mic :: "vc \<Rightarrow> vc" where
  "toggle_mic s = (if v_mic s then disable_mic s else enable_mic s)"

section \<open>Camera\<close>

definition finish_cam :: "bool \<Rightarrow> vc \<Rightarrow> vc" where
  "finish_cam reneg s =
     (let s1 = v_send (FMute VideoTrack False) (s\<lparr>v_cam := True\<rparr>)
      in if reneg then renegotiate s1 else s1)"

text \<open>\<open>applyCameraEncoderParams\<close> on the sender there is, whose errors are caught.\<close>

definition encode_cam :: "bool \<Rightarrow> vc \<Rightarrow> vc" where
  "encode_cam reneg s =
     (if v_video_sender s = None then finish_cam reneg s else v_await (KCamEncoded reneg) s)"

definition enable_camera :: "vc \<Rightarrow> vc" where
  "enable_camera s =
     (if v_cam s then s
      else case first_live s VideoTrack of
        Some t \<Rightarrow> v_await (KCamConstrained t) (enable_track True t s)
      | None \<Rightarrow> v_await KCamMedia s)"

definition cam_constrained :: "nat \<Rightarrow> vc \<Rightarrow> vc" where
  "cam_constrained t s =
     (case v_video_sender s of None \<Rightarrow> encode_cam False s | Some x \<Rightarrow> v_await (KCamSwapped t x) s)"

definition cam_swapped :: "nat \<Rightarrow> nat \<Rightarrow> v_result \<Rightarrow> vc \<Rightarrow> vc" where
  "cam_swapped t sender r s =
     (if r = RErr then v_throw MediaError s else encode_cam False (replace_track sender (Some t) s))"

definition cam_media :: "v_result \<Rightarrow> vc \<Rightarrow> vc" where
  "cam_media r s =
     (case r of
        RMedia ks \<Rightarrow>
          (case new_tracks ks s of (s1, ts) \<Rightarrow>
             (case filter (is_kind s1 VideoTrack) ts of
                [] \<Rightarrow> encode_cam False s1
              | t # _ \<Rightarrow>
                  if v_pc s1 = None then encode_cam False s1
                  else
                    (let s2 = add_local t s1 in
                     case v_video_sender s2 of
                       Some x \<Rightarrow> v_await (KCamReplaced t x) s2
                     | None \<Rightarrow>
                         encode_cam True ((add_sender t s2)
                           \<lparr>v_video_sender := Some (v_next s2), v_cam_device := device_of s2 t\<rparr>))))
      | _ \<Rightarrow> v_throw MediaError s)"

definition cam_replaced :: "nat \<Rightarrow> nat \<Rightarrow> v_result \<Rightarrow> vc \<Rightarrow> vc" where
  "cam_replaced t sender r s =
     (if r = RErr then v_throw MediaError s
      else
        (let s1 = (replace_track sender (Some t) s)\<lparr>v_cam_device := device_of s t\<rparr>
         in if v_pc s1 = None then v_throw NullPc s1 else encode_cam False s1))"

definition disable_camera :: "vc \<Rightarrow> vc" where
  "disable_camera s =
     (let s1 = (case local_tracks s VideoTrack of [] \<Rightarrow> s | t # _ \<Rightarrow> enable_track False t s);
          s2 = (case v_video_sender s1 of None \<Rightarrow> s1 | Some x \<Rightarrow> replace_track x None s1)
      in v_send (FMute VideoTrack True) (s2\<lparr>v_cam := False\<rparr>))"

definition toggle_camera :: "vc \<Rightarrow> vc" where
  "toggle_camera s = (if v_cam s then disable_camera s else enable_camera s)"

definition set_deafened :: "bool \<Rightarrow> vc \<Rightarrow> vc" where
  "set_deafened d s = v_send (FDeafen d) s"

section \<open>Device selection\<close>

definition set_mic_device :: "string \<Rightarrow> vc \<Rightarrow> vc" where
  "set_mic_device dev s =
     (if v_pc s = None \<or> v_mic_device s = Some dev then s else v_await (KMicDevice dev) s)"

text \<open>The new track takes the place of the local tracks of its kind, which are stopped.\<close>

definition swap_local :: "track_kind \<Rightarrow> nat \<Rightarrow> vc \<Rightarrow> vc" where
  "swap_local k t s =
     (let old = local_tracks s k in
      add_local t ((fold stop_track old s)
        \<lparr>v_local := Some (filter (\<lambda>x. x \<notin> set old) (case v_local s of None \<Rightarrow> [] | Some ts \<Rightarrow> ts))\<rparr>))"

definition mic_device_media :: "string \<Rightarrow> v_result \<Rightarrow> vc \<Rightarrow> vc" where
  "mic_device_media dev r s =
     (case r of
        RMedia ks \<Rightarrow>
          (case new_tracks ks s of (s1, ts) \<Rightarrow>
             (case filter (is_kind s1 AudioTrack) ts of
                [] \<Rightarrow> v_throw NoTrack s1
              | t # _ \<Rightarrow>
                  (let s2 = swap_local AudioTrack t (enable_track (v_mic s1) t s1) in
                   case v_audio_sender s2 of
                     Some x \<Rightarrow> v_await (KMicDeviceSet t x dev) s2
                   | None \<Rightarrow>
                       if v_pc s2 = None then v_throw NullPc s2
                       else (add_sender t s2)
                         \<lparr>v_audio_sender := Some (v_next s2),
                          v_mic_device := Some (case device_of s2 t of None \<Rightarrow> dev | Some d \<Rightarrow> d)\<rparr>)))
      | _ \<Rightarrow> v_throw MediaError s)"

definition mic_device_set :: "nat \<Rightarrow> nat \<Rightarrow> string \<Rightarrow> v_result \<Rightarrow> vc \<Rightarrow> vc" where
  "mic_device_set t sender dev r s =
     (if r = RErr then v_throw MediaError s
      else (replace_track sender (Some t) s)
        \<lparr>v_mic_device := Some (case device_of s t of None \<Rightarrow> dev | Some d \<Rightarrow> d)\<rparr>)"

definition set_camera_device :: "string \<Rightarrow> vc \<Rightarrow> vc" where
  "set_camera_device dev s =
     (if v_pc s = None \<or> v_cam_device s = Some dev then s else v_await (KCamDevice dev) s)"

definition cam_device_encode :: "nat \<Rightarrow> string \<Rightarrow> vc \<Rightarrow> vc" where
  "cam_device_encode t dev s =
     (if v_video_sender s = None
      then s\<lparr>v_cam_device := Some (case device_of s t of None \<Rightarrow> dev | Some d \<Rightarrow> d)\<rparr>
      else v_await (KCamDeviceEncoded t dev) s)"

definition cam_device_media :: "string \<Rightarrow> v_result \<Rightarrow> vc \<Rightarrow> vc" where
  "cam_device_media dev r s =
     (case r of
        RMedia ks \<Rightarrow>
          (case new_tracks ks s of (s1, ts) \<Rightarrow>
             (case filter (is_kind s1 VideoTrack) ts of
                [] \<Rightarrow> v_throw NoTrack s1
              | t # _ \<Rightarrow>
                  (let s2 = swap_local VideoTrack t (enable_track (v_cam s1) t s1) in
                   case v_video_sender s2 of
                     Some x \<Rightarrow> v_await (KCamDeviceSet t x (v_cam s2) dev) s2
                   | None \<Rightarrow>
                       if v_pc s2 = None then v_throw NullPc s2
                       else
                         (let s3 = (add_sender t s2)\<lparr>v_video_sender := Some (v_next s2)\<rparr> in
                          if v_cam s3 then cam_device_encode t dev s3
                          else v_await (KCamDeviceSet t (v_next s2) False dev) s3))))
      | _ \<Rightarrow> v_throw MediaError s)"

definition cam_device_set :: "nat \<Rightarrow> nat \<Rightarrow> bool \<Rightarrow> string \<Rightarrow> v_result \<Rightarrow> vc \<Rightarrow> vc" where
  "cam_device_set t sender sending dev r s =
     (if r = RErr then v_throw MediaError s
      else cam_device_encode t dev (replace_track sender (if sending then Some t else None) s))"

definition cam_device_encoded :: "nat \<Rightarrow> string \<Rightarrow> vc \<Rightarrow> vc" where
  "cam_device_encoded t dev s =
     s\<lparr>v_cam_device := Some (case device_of s t of None \<Rightarrow> dev | Some d \<Rightarrow> d)\<rparr>"

section \<open>Screen sharing\<close>

definition publish_screen :: "screen_profile \<Rightarrow> vc \<Rightarrow> vc" where
  "publish_screen p s =
     (if v_pc s = None then v_throw NotConnected s
      else if v_screen_video s \<noteq> None then s
      else v_await (KScreenMedia p) s)"

definition screen_media :: "v_result \<Rightarrow> vc \<Rightarrow> vc" where
  "screen_media r s =
     (case r of
        RMedia ks \<Rightarrow>
          (case new_tracks ks s of (s1, ts) \<Rightarrow>
             (case filter (is_kind s1 VideoTrack) ts of
                [] \<Rightarrow> v_throw NoTrack s1
              | t # _ \<Rightarrow>
                  (let a = (case filter (is_kind s1 AudioTrack) ts of [] \<Rightarrow> None | x # _ \<Rightarrow> Some x);
                       s2 = v_send (FPublish ScreenSource VideoTrack t)
                              (s1\<lparr>v_screen_video := Some t, v_screen_audio := a\<rparr>);
                       s3 = (case a of None \<Rightarrow> s2
                             | Some x \<Rightarrow> v_send (FPublish ScreenSource AudioTrack x) s2)
                   in if v_pc s3 = None then v_throw NullPc s3
                      else v_await (KScreenParams t a)
                             ((add_sender t s3)\<lparr>v_screen_vsender := Some (v_next s3)\<rparr>))))
      | _ \<Rightarrow> v_throw MediaError s)"

text \<open>The parameters are best effort; then the audio track, the ended handlers and the offer.\<close>

definition screen_params :: "nat \<Rightarrow> nat option \<Rightarrow> vc \<Rightarrow> vc" where
  "screen_params t a s =
     (case a of
        Some x \<Rightarrow>
          if v_pc s = None then v_throw NullPc s
          else v_await KScreenCreated
            ((add_sender x s)\<lparr>v_screen_asender := Some (v_next s),
               v_ended := (v_ended s)(t \<mapsto> EndScreenVideo, x \<mapsto> EndScreenAudio)\<rparr>)
      | None \<Rightarrow>
          (let s1 = s\<lparr>v_ended := (v_ended s)(t \<mapsto> EndScreenVideo)\<rparr>
           in if v_pc s1 = None then v_throw NullPc s1 else v_await KScreenCreated s1))"

definition screen_created :: "v_result \<Rightarrow> vc \<Rightarrow> vc" where
  "screen_created r s =
     (if r = RErr then v_throw SdpError s
      else if v_pc s = None then v_throw NullPc s
      else v_await (KScreenLocal (sdp_of r)) s)"

definition screen_local :: "string \<Rightarrow> v_result \<Rightarrow> vc \<Rightarrow> vc" where
  "screen_local sdp r s = (if r = RErr then v_throw SdpError s else v_send (FOffer sdp) s)"

definition unpublish_screen :: "vc \<Rightarrow> vc" where
  "unpublish_screen s =
     (case (v_pc s, v_screen_video s) of
        (Some pc, Some t) \<Rightarrow>
          (let s1 = (case v_screen_vsender s of None \<Rightarrow> s
                     | Some x \<Rightarrow> (replace_track x None s)\<lparr>v_screen_vsender := None\<rparr>);
               s2 = (case v_screen_asender s1 of None \<Rightarrow> s1
                     | Some x \<Rightarrow> (replace_track x None s1)\<lparr>v_screen_asender := None\<rparr>);
               s3 = stop_track t s2;
               s4 = (case v_screen_audio s3 of None \<Rightarrow> s3 | Some x \<Rightarrow> stop_track x s3)
           in v_await KUnpubCreated (s4\<lparr>v_screen_video := None, v_screen_audio := None\<rparr>))
      | _ \<Rightarrow> s)"

definition unpub_created :: "v_result \<Rightarrow> vc \<Rightarrow> vc" where
  "unpub_created r s =
     (if r = RErr then v_throw SdpError s
      else if v_pc s = None then v_throw NullPc s
      else v_await (KUnpubLocal (sdp_of r)) s)"

text \<open>A track that ended by itself: it is no longer live, and its handler runs.\<close>

definition track_ended :: "nat \<Rightarrow> vc \<Rightarrow> vc" where
  "track_ended t s =
     (let s1 = stop_track t s in
      case v_ended s1 t of
        None \<Rightarrow> s1
      | Some (EndRemoteScreen r) \<Rightarrow>
          v_emit (VScreenStopped (case v_heap s1 r of None \<Rightarrow> [] | Some p \<Rightarrow> p_id p))
            (set_part (\<lambda>p. p\<lparr>p_screen_video := None\<rparr>) r s1)
      | Some EndScreenVideo \<Rightarrow> unpublish_screen s1
      | Some EndScreenAudio \<Rightarrow> s1\<lparr>v_screen_audio := None\<rparr>)"

section \<open>Disconnect\<close>

definition opt_list :: "'a option \<Rightarrow> 'a list" where
  "opt_list x = (case x of None \<Rightarrow> [] | Some a \<Rightarrow> [a])"

definition v_disconnect :: "vc \<Rightarrow> vc" where
  "v_disconnect s =
     (let s1 = s\<lparr>v_polling := False, v_analysers := [], v_silence := (\<lambda>_. None)\<rparr>;
          s2 = (case v_ws s1 of
                  None \<Rightarrow> s1
                | Some i \<Rightarrow>
                    if v_socks s1 i = Some OPEN
                    then v_log [VSend i FLeave, VClose i] (s1\<lparr>v_socks := (v_socks s1)(i \<mapsto> CLOSING)\<rparr>)
                    else s1);
          s3 = fold stop_track (case v_local s2 of None \<Rightarrow> [] | Some ts \<Rightarrow> ts)
                 (s2\<lparr>v_ws := None\<rparr>);
          s4 = fold stop_track (opt_list (v_screen_video s3) @ opt_list (v_screen_audio s3))
                 (s3\<lparr>v_local := None,
                     v_closed := (case v_pc s3 of None \<Rightarrow> v_closed s3
                                  | Some pc \<Rightarrow> insert pc (v_closed s3)),
                     v_pc := None, v_video_sender := None, v_audio_sender := None,
                     v_mic_device := None, v_cam_device := None\<rparr>)
      in s4\<lparr>v_screen_video := None, v_screen_audio := None, v_screen_vsender := None,
            v_screen_asender := None, v_meta := (\<lambda>_. None), v_chain := v_next s4,
            v_next := Suc (v_next s4), v_parts := []\<rparr>)"

section \<open>The machine\<close>

datatype v_input =
    VConnect
  | VDisconnect
  | VEnableMic
  | VDisableMic
  | VToggleMic
  | VEnableCamera
  | VDisableCamera
  | VToggleCamera
  | VSetMicDevice string
  | VSetCameraDevice string
  | VSetDeafened bool
  | VPublishScreen screen_profile
  | VUnpublishScreen
  | VSockOpened nat
  | VSockMessage nat server_msg
  | VSockClosed nat
  | VSockError nat
  | VPump nat
  | VIceCandidate candidate
  | VOnTrack track_kind "string list"
  | VConnectionState string
  | VPoll "string \<Rightarrow> nat list"
  | VTrackEnds nat
  | VResume nat v_result

fun v_resume :: "cont \<Rightarrow> v_result \<Rightarrow> vc \<Rightarrow> vc" where
  "v_resume (KJoinMedia pc) r s = join_media pc r s"
| "v_resume (KJoinCreated pc) r s = join_created pc r s"
| "v_resume (KJoinLocal pc sdp) r s = join_local pc sdp r s"
| "v_resume (KAnswerSet g pid) r s = answer_set g pid r s"
| "v_resume (KOfferSet g) r s = offer_set g r s"
| "v_resume (KOfferAnswer g) r s = offer_answer g r s"
| "v_resume (KOfferLocal g sdp) r s = offer_local g sdp r s"
| "v_resume (KIce g) r s = handler_done g s"
| "v_resume KMicMedia r s = mic_media r s"
| "v_resume (KMicReplaced t x) r s = mic_replaced t x r s"
| "v_resume (KCamConstrained t) r s = cam_constrained t s"
| "v_resume (KCamSwapped t x) r s = cam_swapped t x r s"
| "v_resume KCamMedia r s = cam_media r s"
| "v_resume (KCamReplaced t x) r s = cam_replaced t x r s"
| "v_resume (KCamEncoded reneg) r s = finish_cam reneg s"
| "v_resume KRenegCreated r s = reneg_created r s"
| "v_resume (KRenegLocal sdp) r s = reneg_local sdp r s"
| "v_resume (KMicDevice dev) r s = mic_device_media dev r s"
| "v_resume (KMicDeviceSet t x dev) r s = mic_device_set t x dev r s"
| "v_resume (KCamDevice dev) r s = cam_device_media dev r s"
| "v_resume (KCamDeviceSet t x b dev) r s = cam_device_set t x b dev r s"
| "v_resume (KCamDeviceEncoded t dev) r s = cam_device_encoded t dev s"
| "v_resume (KScreenMedia p) r s = screen_media r s"
| "v_resume (KScreenParams t a) r s = screen_params t a s"
| "v_resume KScreenCreated r s = screen_created r s"
| "v_resume (KScreenLocal sdp) r s = screen_local sdp r s"
| "v_resume KUnpubCreated r s = unpub_created r s"
| "v_resume (KUnpubLocal sdp) r s = screen_local sdp r s"

fun v_step :: "v_input \<Rightarrow> vc \<Rightarrow> vc" where
  "v_step VConnect s = v_connect s"
| "v_step VDisconnect s = v_disconnect s"
| "v_step VEnableMic s = enable_mic s"
| "v_step VDisableMic s = disable_mic s"
| "v_step VToggleMic s = toggle_mic s"
| "v_step VEnableCamera s = enable_camera s"
| "v_step VDisableCamera s = disable_camera s"
| "v_step VToggleCamera s = toggle_camera s"
| "v_step (VSetMicDevice d) s = set_mic_device d s"
| "v_step (VSetCameraDevice d) s = set_camera_device d s"
| "v_step (VSetDeafened d) s = set_deafened d s"
| "v_step (VPublishScreen p) s = publish_screen p s"
| "v_step VUnpublishScreen s = unpublish_screen s"
| "v_step (VSockOpened i) s =
     (if v_socks s i = Some CONNECTING
      then create_and_send_offer (s\<lparr>v_socks := (v_socks s)(i \<mapsto> OPEN)\<rparr>) else s)"
| "v_step (VSockMessage i m) s = (if v_socks s i = Some OPEN then enqueue_msg m s else s)"
| "v_step (VSockClosed i) s =
     (if v_socks s i \<in> {None, Some CLOSED} then s
      else v_emit (VDisconnected ''websocket closed'') (s\<lparr>v_socks := (v_socks s)(i \<mapsto> CLOSED)\<rparr>))"
| "v_step (VSockError i) s =
     (if v_socks s i \<in> {None, Some CLOSED} then s else v_emit (VErrorEvent ''WebSocket error'') s)"
| "v_step (VPump g) s = pump g s"
| "v_step (VIceCandidate c) s = on_ice_candidate c s"
| "v_step (VOnTrack k streams) s =
     on_track (v_next s) k streams
       (s\<lparr>v_tracks := (v_tracks s)(v_next s \<mapsto>
            \<lparr>t_kind = k, t_enabled = True, t_live = True, t_device = None\<rparr>),
          v_next := Suc (v_next s)\<rparr>)"
| "v_step (VConnectionState st) s = on_connection_failed st s"
| "v_step (VPoll spectrum) s = check_speaking_levels spectrum s"
| "v_step (VTrackEnds t) s = (if track_live s t then track_ended t s else s)"
| "v_step (VResume n r) s =
     (case v_calls s n of
        None \<Rightarrow> s | Some k \<Rightarrow> v_resume k r (s\<lparr>v_calls := (v_calls s)(n := None)\<rparr>))"

end
