(* ===== verification/VideoLemmas.thy ===== *)
theory VideoLemmas
  imports VideoMedia
begin

text \<open>
  The lemmas of the video client: the fields the small steps leave alone, the trickle of ICE
  candidates as a simulation of the list of candidates found, and the invariant that a muted
  microphone is not sent.
\<close>

section \<open>Frames of the small steps\<close>

lemma v_log_frame [simp]:
  "v_pc (v_log es s) = v_pc s" "v_closed (v_log es s) = v_closed s" "v_ws (v_log es s) = v_ws s"
  "v_socks (v_log es s) = v_socks s" "v_local (v_log es s) = v_local s"
  "v_tracks (v_log es s) = v_tracks s" "v_senders (v_log es s) = v_senders s"
  "v_audio_sender (v_log es s) = v_audio_sender s" "v_mic (v_log es s) = v_mic s"
  "v_calls (v_log es s) = v_calls s" "v_next (v_log es s) = v_next s"
  "v_joined (v_log es s) = v_joined s" "v_pending (v_log es s) = v_pending s"
  "v_parts (v_log es s) = v_parts s" "v_heap (v_log es s) = v_heap s" "v_meta (v_log es s) = v_meta s"
  "v_chains (v_log es s) = v_chains s" "v_chain (v_log es s) = v_chain s"
  "v_silence (v_log es s) = v_silence s" "v_ended (v_log es s) = v_ended s"
  "v_screen_video (v_log es s) = v_screen_video s" "v_screen_audio (v_log es s) = v_screen_audio s"
  "v_video_sender (v_log es s) = v_video_sender s"
  "v_out (v_log es s) = v_out s @ es"
  by (simp_all add: v_log_def)

lemma v_send_frame [simp]:
  "v_pc (v_send f s) = v_pc s" "v_closed (v_send f s) = v_closed s" "v_ws (v_send f s) = v_ws s"
  "v_socks (v_send f s) = v_socks s" "v_local (v_send f s) = v_local s"
  "v_tracks (v_send f s) = v_tracks s" "v_senders (v_send f s) = v_senders s"
  "v_audio_sender (v_send f s) = v_audio_sender s" "v_mic (v_send f s) = v_mic s"
  "v_calls (v_send f s) = v_calls s" "v_next (v_send f s) = v_next s"
  "v_joined (v_send f s) = v_joined s" "v_pending (v_send f s) = v_pending s"
  "v_parts (v_send f s) = v_parts s" "v_heap (v_send f s) = v_heap s"
  "v_screen_video (v_send f s) = v_screen_video s" "v_screen_audio (v_send f s) = v_screen_audio s"
  "v_video_sender (v_send f s) = v_video_sender s"
  by (simp_all add: v_send_def split: option.split)

lemma v_await_frame [simp]:
  "v_pc (v_await k s) = v_pc s" "v_closed (v_await k s) = v_closed s" "v_ws (v_await k s) = v_ws s"
  "v_socks (v_await k s) = v_socks s" "v_local (v_await k s) = v_local s"
  "v_tracks (v_await k s) = v_tracks s" "v_senders (v_await k s) = v_senders s"
  "v_audio_sender (v_await k s) = v_audio_sender s" "v_mic (v_await k s) = v_mic s"
  "v_joined (v_await k s) = v_joined s" "v_pending (v_await k s) = v_pending s"
  "v_out (v_await k s) = v_out s" "v_screen_video (v_await k s) = v_screen_video s"
  "v_screen_audio (v_await k s) = v_screen_audio s" "v_video_sender (v_await k s) = v_video_sender s"
  "v_calls (v_await k s) = (v_calls s)(v_next s \<mapsto> k)" "v_next (v_await k s) = Suc (v_next s)"
  by (simp_all add: v_await_def)

lemma set_track_frame [simp]:
  "v_pc (set_track f t s) = v_pc s" "v_closed (set_track f t s) = v_closed s"
  "v_ws (set_track f t s) = v_ws s" "v_socks (set_track f t s) = v_socks s"
  "v_local (set_track f t s) = v_local s" "v_senders (set_track f t s) = v_senders s"
  "v_audio_sender (set_track f t s) = v_audio_sender s" "v_mic (set_track f t s) = v_mic s"
  "v_calls (set_track f t s) = v_calls s" "v_next (set_track f t s) = v_next s"
  "v_joined (set_track f t s) = v_joined s" "v_pending (set_track f t s) = v_pending s"
  "v_out (set_track f t s) = v_out s" "v_ended (set_track f t s) = v_ended s"
  "v_screen_video (set_track f t s) = v_screen_video s"
  "v_screen_audio (set_track f t s) = v_screen_audio s" "v_heap (set_track f t s) = v_heap s"
  "v_tracks (set_track f t s) = (v_tracks s)(t := map_option f (v_tracks s t))"
  by (simp_all add: set_track_def)

lemma stop_fold_frame [simp]:
  "v_pc (fold stop_track ts s) = v_pc s" "v_closed (fold stop_track ts s) = v_closed s"
  "v_ws (fold stop_track ts s) = v_ws s" "v_socks (fold stop_track ts s) = v_socks s"
  "v_local (fold stop_track ts s) = v_local s" "v_senders (fold stop_track ts s) = v_senders s"
  "v_audio_sender (fold stop_track ts s) = v_audio_sender s"
  "v_mic (fold stop_track ts s) = v_mic s" "v_calls (fold stop_track ts s) = v_calls s"
  "v_next (fold stop_track ts s) = v_next s" "v_joined (fold stop_track ts s) = v_joined s"
  "v_pending (fold stop_track ts s) = v_pending s" "v_out (fold stop_track ts s) = v_out s"
  "v_screen_video (fold stop_track ts s) = v_screen_video s"
  "v_screen_audio (fold stop_track ts s) = v_screen_audio s"
  by (induction ts arbitrary: s) (simp_all add: stop_track_def)

lemma stop_fold_tracks:
  "v_tracks (fold stop_track ts s) t =
     (if t \<in> set ts then map_option (\<lambda>tr. tr\<lparr>t_live := False\<rparr>) (v_tracks s t) else v_tracks s t)"
  by (induction ts arbitrary: s) (auto simp: stop_track_def option.map_comp o_def)

lemma new_tracks_frame:
  assumes "new_tracks ks s = (s', ts)"
  shows "v_pc s' = v_pc s" "v_closed s' = v_closed s" "v_ws s' = v_ws s" "v_socks s' = v_socks s"
    "v_local s' = v_local s" "v_senders s' = v_senders s" "v_audio_sender s' = v_audio_sender s"
    "v_mic s' = v_mic s" "v_calls s' = v_calls s" "v_joined s' = v_joined s"
    "v_pending s' = v_pending s" "v_out s' = v_out s" "v_screen_video s' = v_screen_video s"
    "v_video_sender s' = v_video_sender s" "v_screen_audio s' = v_screen_audio s"
  using assms
  by (induction ks arbitrary: s ts; auto simp: Let_def split: prod.splits; fastforce)+

lemma new_tracks_ids:
  assumes "new_tracks ks s = (s', ts)"
  shows "ts = [v_next s ..< v_next s + length ks]" "v_next s' = v_next s + length ks"
    "v_tracks s' t = (if v_next s \<le> t \<and> t < v_next s + length ks
       then Some \<lparr>t_kind = fst (ks ! (t - v_next s)), t_enabled = True, t_live = True,
                  t_device = snd (ks ! (t - v_next s))\<rparr>
       else v_tracks s t)"
proof -
  have "ts = [v_next s ..< v_next s + length ks] \<and> v_next s' = v_next s + length ks \<and>
    (\<forall>t. v_tracks s' t = (if v_next s \<le> t \<and> t < v_next s + length ks
       then Some \<lparr>t_kind = fst (ks ! (t - v_next s)), t_enabled = True, t_live = True,
                  t_device = snd (ks ! (t - v_next s))\<rparr>
       else v_tracks s t))"
    using assms
  proof (induction ks arbitrary: s ts)
    case (Cons x ks)
    obtain k d where x: "x = (k, d)" by force
    let ?s = "s\<lparr>v_tracks := (v_tracks s)
        (v_next s \<mapsto> \<lparr>t_kind = k, t_enabled = True, t_live = True, t_device = d\<rparr>),
      v_next := Suc (v_next s)\<rparr>"
    from Cons.prems x obtain us where us: "new_tracks ks ?s = (s', us)" "ts = v_next s # us"
      by (auto simp: Let_def split: prod.splits)
    note i = Cons.IH [OF us(1)]
    have "ts = [v_next s ..< v_next s + length (x # ks)]"
      using i us(2) upt_conv_Cons [of "v_next s" "v_next s + length (x # ks)"] by simp
    moreover have "v_next s' = v_next s + length (x # ks)" using i by simp
    moreover have "v_tracks s' t = (if v_next s \<le> t \<and> t < v_next s + length (x # ks)
       then Some \<lparr>t_kind = fst ((x # ks) ! (t - v_next s)), t_enabled = True, t_live = True,
                  t_device = snd ((x # ks) ! (t - v_next s))\<rparr>
       else v_tracks s t)" for t
      using i x by (auto simp: nth_Cons')
    ultimately show ?case by blast
  qed auto
  then show "ts = [v_next s ..< v_next s + length ks]" "v_next s' = v_next s + length ks"
    "v_tracks s' t = (if v_next s \<le> t \<and> t < v_next s + length ks
       then Some \<lparr>t_kind = fst (ks ! (t - v_next s)), t_enabled = True, t_live = True,
                  t_device = snd (ks ! (t - v_next s))\<rparr>
       else v_tracks s t)" by auto
qed

section \<open>Trickle ICE\<close>

definition link_up :: "vc \<Rightarrow> bool" where
  "link_up s \<longleftrightarrow> (\<exists>i. v_ws s = Some i \<and> v_socks s i = Some OPEN)"

fun ice_of :: "v_effect \<Rightarrow> candidate list" where
  "ice_of (VSend _ (FIce c)) = [c]"
| "ice_of _ = []"

definition ice_sent :: "v_effect list \<Rightarrow> candidate list" where
  "ice_sent es = concat (map ice_of es)"

lemma ice_sent_append [simp]: "ice_sent (es @ fs) = ice_sent es @ ice_sent fs"
  by (simp add: ice_sent_def)

lemma ice_sent_simps [simp]:
  "ice_sent [] = []" "ice_sent (VEmit e # es) = ice_sent es" "ice_sent (VClose i # es) = ice_sent es"
  "ice_sent (VRejects x # es) = ice_sent es" "ice_sent (VSend i (FIce c) # es) = c # ice_sent es"
  "ice_sent (VSend i (FJoin a) # es) = ice_sent es" "ice_sent (VSend i (FOffer a) # es) = ice_sent es"
  "ice_sent (VSend i (FAnswer a) # es) = ice_sent es" "ice_sent (VSend i (FMute k b) # es) = ice_sent es"
  "ice_sent (VSend i (FDeafen b) # es) = ice_sent es"
  "ice_sent (VSend i (FPublish src k t) # es) = ice_sent es" "ice_sent (VSend i FLeave # es) = ice_sent es"
  by (simp_all add: ice_sent_def)

lemma out_v_send:
  "v_out (v_send f s) = v_out s @
     (case v_ws s of None \<Rightarrow> [] | Some i \<Rightarrow> if v_socks s i = Some OPEN then [VSend i f] else [])"
  by (simp add: v_send_def split: option.split)

lemma ice_v_send [simp]:
  "\<forall>c. f \<noteq> FIce c \<Longrightarrow> ice_sent (v_out (v_send f s)) = ice_sent (v_out s)"
  by (cases f) (simp_all add: out_v_send split: option.split)

definition ice_same :: "vc \<Rightarrow> vc \<Rightarrow> bool" where
  "ice_same s t \<longleftrightarrow> ice_sent (v_out t) = ice_sent (v_out s) \<and> v_pending t = v_pending s \<and>
     v_joined t = v_joined s"

lemma ice_same_refl: "ice_same s s"
  by (simp add: ice_same_def)

lemma ice_same_trans: "ice_same s t \<Longrightarrow> ice_same t u \<Longrightarrow> ice_same s u"
  by (simp add: ice_same_def)

lemma ice_same_fold: "(\<And>x t. ice_same t (f x t)) \<Longrightarrow> ice_same s (fold f xs s)"
  by (rule fold_rel) (auto intro: ice_same_refl ice_same_trans)

lemma ice_same_small [simp]:
  "ice_same s (v_await k t) = ice_same s t" "ice_same s (v_throw e t) = ice_same s t"
  "ice_same s (v_emit ev t) = ice_same s t" "ice_same s (set_track h i t) = ice_same s t"
  "ice_same s (add_local i t) = ice_same s t" "ice_same s (add_sender i t) = ice_same s t"
  "ice_same s (replace_track i x t) = ice_same s t" "ice_same s (chain_upd g h' t) = ice_same s t"
  "ice_same s (set_part h2 r t) = ice_same s t" "ice_same s (fold stop_track ts t) = ice_same s t"
  by (simp_all add: ice_same_def v_throw_def v_emit_def add_local_def add_sender_def
      replace_track_def chain_upd_def set_part_def)

lemma ice_same_stop [simp]: "ice_same s (stop_track i t) = ice_same s t"
  by (simp add: stop_track_def)

lemma ice_same_send [simp]: "\<forall>c. f \<noteq> FIce c \<Longrightarrow> ice_same s (v_send f t) = ice_same s t"
  by (simp add: ice_same_def)

lemma ice_same_upd [simp]:
  "ice_same s (t\<lparr>v_mic := b\<rparr>) = ice_same s t" "ice_same s (t\<lparr>v_cam := b\<rparr>) = ice_same s t"
  "ice_same s (t\<lparr>v_mic_device := d\<rparr>) = ice_same s t" "ice_same s (t\<lparr>v_cam_device := d\<rparr>) = ice_same s t"
  "ice_same s (t\<lparr>v_audio_sender := x\<rparr>) = ice_same s t" "ice_same s (t\<lparr>v_video_sender := x\<rparr>) = ice_same s t"
  "ice_same s (t\<lparr>v_screen_video := x\<rparr>) = ice_same s t" "ice_same s (t\<lparr>v_screen_audio := x\<rparr>) = ice_same s t"
  "ice_same s (t\<lparr>v_screen_vsender := x\<rparr>) = ice_same s t"
  "ice_same s (t\<lparr>v_screen_asender := x\<rparr>) = ice_same s t" "ice_same s (t\<lparr>v_ended := y\<rparr>) = ice_same s t"
  "ice_same s (t\<lparr>v_local := l\<rparr>) = ice_same s t" "ice_same s (t\<lparr>v_parts := p\<rparr>) = ice_same s t"
  "ice_same s (t\<lparr>v_meta := m\<rparr>) = ice_same s t" "ice_same s (t\<lparr>v_silence := z\<rparr>) = ice_same s t"
  "ice_same s (t\<lparr>v_calls := c\<rparr>) = ice_same s t" "ice_same s (t\<lparr>v_socks := w\<rparr>) = ice_same s t"
  by (simp_all add: ice_same_def)

lemma ice_same_new_tracks: "new_tracks ks t = (t', ts) \<Longrightarrow> ice_same s t' = ice_same s t"
  using new_tracks_frame [of ks t t' ts] by (simp add: ice_same_def)

lemma ice_same_add_muted: "ice_same s (fold add_muted ts t) = ice_same s t"
proof -
  have "ice_same u (add_muted x u)" for x u
    by (simp add: add_muted_def Let_def enable_track_def ice_same_refl)
  then have "ice_same t (fold add_muted ts t)" by (rule ice_same_fold)
  then show ?thesis by (auto simp: ice_same_def)
qed

lemmas ice_same_simps = ice_same_refl renegotiate_def finish_mic_def finish_cam_def encode_cam_def
  handler_done_def handler_rejects_def enable_track_def Let_def

lemma ice_same_join:
  "ice_same s (create_and_send_offer s)" "ice_same s (join_media pc r s)"
  "ice_same s (join_created pc r s)" "ice_same s (join_local pc sdp r s)"
  by (auto simp: ice_same_simps create_and_send_offer_def join_media_def join_created_def
      join_local_def ice_same_add_muted ice_same_new_tracks split: option.split v_result.split prod.split)

lemma ice_same_mic:
  "ice_same s (enable_mic s)" "ice_same s (mic_media r s)" "ice_same s (mic_replaced t x r s)"
  "ice_same s (disable_mic s)" "ice_same s (set_mic_device d s)" "ice_same s (mic_device_set t x d r s)"
  "ice_same s (reneg_created r s)" "ice_same s (reneg_local sdp r s)"
  by (auto simp: ice_same_simps enable_mic_def mic_media_def mic_replaced_def disable_mic_def
      set_mic_device_def mic_device_set_def reneg_created_def reneg_local_def ice_same_new_tracks
      split: option.split v_result.split prod.split list.split)

lemma ice_same_swap: "ice_same s (swap_local k t u) = ice_same s u"
  by (simp add: swap_local_def Let_def)

lemma ice_same_devices: "ice_same s (mic_device_media d r s)" "ice_same s (cam_device_media d r s)"
  by (auto simp: ice_same_simps mic_device_media_def cam_device_media_def ice_same_new_tracks
      cam_device_encode_def ice_same_swap split: option.split v_result.split prod.split list.split)

lemma ice_same_cam:
  "ice_same s (enable_camera s)" "ice_same s (cam_constrained t s)" "ice_same s (cam_swapped t x r s)"
  "ice_same s (cam_media r s)" "ice_same s (cam_replaced t x r s)" "ice_same s (disable_camera s)"
  "ice_same s (finish_cam b s)" "ice_same s (set_camera_device d s)"
  "ice_same s (cam_device_set t x b d r s)" "ice_same s (cam_device_encoded t d s)"
  by (auto simp: ice_same_simps enable_camera_def cam_constrained_def cam_swapped_def cam_media_def
      cam_replaced_def disable_camera_def set_camera_device_def cam_device_set_def
      cam_device_encode_def cam_device_encoded_def ice_same_new_tracks
      split: option.split v_result.split prod.split list.split)

lemma ice_same_screen:
  "ice_same s (publish_screen p s)" "ice_same s (screen_media r s)" "ice_same s (screen_params t a s)"
  "ice_same s (screen_created r s)" "ice_same s (screen_local sdp r s)" "ice_same s (unpublish_screen s)"
  "ice_same s (unpub_created r s)" "ice_same s (track_ended t s)"
proof -
  have u: "ice_same s (unpublish_screen t) = ice_same s t" for t
    by (auto simp: ice_same_simps unpublish_screen_def split: option.split)
  show "ice_same s (publish_screen p s)" "ice_same s (screen_media r s)"
    "ice_same s (screen_params t a s)" "ice_same s (screen_created r s)"
    "ice_same s (screen_local sdp r s)" "ice_same s (unpub_created r s)" "ice_same s (track_ended t s)"
    "ice_same s (unpublish_screen s)"
    by (auto simp: ice_same_simps publish_screen_def screen_media_def screen_params_def u
        screen_created_def screen_local_def unpub_created_def track_ended_def ice_same_new_tracks
        split: option.split v_result.split prod.split list.split ended_job.split)
qed

lemma ice_same_messages:
  "ice_same s (handle_server_message g m s)" "ice_same s (offer_set g r s)"
  "ice_same s (offer_answer g r s)" "ice_same s (offer_local g sdp r s)"
proof -
  have "ice_same u (register_stream x u)" for x u
    by (simp add: register_stream_def Let_def ice_same_refl split: option.split)
  then have r: "ice_same t (fold register_stream ts t)" for ts t by (rule ice_same_fold)
  show "ice_same s (handle_server_message g m s)"
    by (auto simp: handle_server_message_def r ice_same_simps participant_joined_def
        participant_left_def participant_muted_def participant_deafened_def force_disconnected_def
        split: option.split server_msg.split) (simp_all add: ice_same_def v_emit_def)
  show "ice_same s (offer_set g r s)" "ice_same s (offer_answer g r s)"
    "ice_same s (offer_local g sdp r s)" for r sdp
    by (auto simp: offer_set_def offer_answer_def offer_local_def offer_stage_def ice_same_simps
        split: option.split)
qed

lemma ice_same_events:
  "ice_same s (on_track t k streams s)" "ice_same s (on_connection_failed st s)"
  "ice_same s (check_speaking_levels spectrum s)" "ice_same s (enqueue_msg m s)"
  "ice_same s (v_connect s)" "ice_same s (v_disconnect s)"
proof -
  show "ice_same s (on_track t k streams s)"
    by (auto simp: on_track_def Let_def ice_same_refl setup_level_detection_def
        split: option.split prod.split track_kind.split track_source.split) (simp_all add: ice_same_def set_part_def)
  have "ice_same u (check_level spectrum p u)" for p u
    by (auto simp: check_level_def Let_def ice_same_refl split: option.split prod.split)
  then have "ice_same s (fold (check_level spectrum) ps s)" for ps by (rule ice_same_fold)
  then show "ice_same s (check_speaking_levels spectrum s)"
    by (simp add: check_speaking_levels_def ice_same_refl)
  show "ice_same s (on_connection_failed st s)" "ice_same s (enqueue_msg m s)" "ice_same s (v_connect s)"
    by (simp_all add: on_connection_failed_def enqueue_msg_def v_connect_def Let_def ice_same_refl)
      (simp add: ice_same_def)
  show "ice_same s (v_disconnect s)"
    by (simp add: v_disconnect_def Let_def ice_same_def split: option.split)
qed

text \<open>Candidates are found at any time; the answer comes, and candidates are sent, on an open link.\<close>

fun ice_ok :: "v_input \<Rightarrow> vc \<Rightarrow> bool" where
  "ice_ok (VIceCandidate c) s = (v_joined s \<longrightarrow> link_up s)"
| "ice_ok (VResume n r) s =
     (case v_calls s n of Some (KAnswerSet g pid) \<Rightarrow> link_up s | _ \<Rightarrow> True)"
| "ice_ok _ s = True"

definition ice_inv :: "vc \<Rightarrow> bool" where
  "ice_inv s \<longleftrightarrow> (v_joined s \<longrightarrow> v_pending s = [])"

fun ice_found :: "v_input \<Rightarrow> candidate list \<Rightarrow> candidate list" where
  "ice_found (VIceCandidate c) l = l @ [c]"
| "ice_found _ l = l"

lemma send_ice:
  "link_up s \<Longrightarrow> ice_sent (v_out (v_send (FIce c) s)) = ice_sent (v_out s) @ [c]"
  by (auto simp: link_up_def out_v_send)

lemma flush_ice:
  "link_up s \<Longrightarrow> ice_sent (v_out (fold (\<lambda>c. v_send (FIce c)) cs s)) = ice_sent (v_out s) @ cs
     \<and> v_joined (fold (\<lambda>c. v_send (FIce c)) cs s) = v_joined s"
  by (induction cs arbitrary: s) (simp_all add: send_ice link_up_def)

lemma answer_ice:
  assumes "link_up s"
  shows "ice_sent (v_out (answer_set g pid r s)) @ v_pending (answer_set g pid r s)
      = ice_sent (v_out s) @ v_pending s" "ice_inv s \<Longrightarrow> ice_inv (answer_set g pid r s)"
proof -
  let ?t = "s\<lparr>v_pid := Some pid, v_joined := True\<rparr>"
  have "link_up ?t" using assms by (simp add: link_up_def)
  note f = flush_ice [OF this, of "v_pending s"]
  show "ice_sent (v_out (answer_set g pid r s)) @ v_pending (answer_set g pid r s)
      = ice_sent (v_out s) @ v_pending s"
    using f by (cases r) (simp_all add: answer_set_def handler_rejects_def handler_done_def
        chain_upd_def v_throw_def v_emit_def)
  show "ice_inv s \<Longrightarrow> ice_inv (answer_set g pid r s)"
    by (cases r) (simp_all add: answer_set_def ice_inv_def handler_rejects_def handler_done_def
        chain_upd_def v_throw_def v_emit_def)
qed

lemma ice_step_same:
  assumes "\<forall>c. e \<noteq> VIceCandidate c"
    and "\<forall>n r g pid. e = VResume n r \<longrightarrow> v_calls s n \<noteq> Some (KAnswerSet g pid)"
  shows "ice_same s (v_step e s)"
proof (cases e)
  case (VResume n r)
  show ?thesis
  proof (cases "v_calls s n")
    case (Some k)
    let ?s = "s\<lparr>v_calls := (v_calls s)(n := None)\<rparr>"
    have "ice_same ?s (v_resume k r ?s)"
      using assms(2) Some VResume
      by (cases k) (simp_all add: ice_same_join ice_same_mic ice_same_cam ice_same_screen
          ice_same_messages ice_same_devices handler_done_def ice_same_refl)
    with Some VResume show ?thesis by (simp add: ice_same_def)
  qed (use VResume in \<open>simp add: ice_same_refl\<close>)
next
  case (VPump g)
  have "ice_same s (handle_server_message g m (chain_upd g f s))" for m f
    using ice_same_messages(1) [of "chain_upd g f s" g m] by (simp add: ice_same_def chain_upd_def)
  with VPump show ?thesis by (auto simp: pump_def Let_def ice_same_refl split: list.split)
next
  case (VSockOpened i)
  have "ice_same s (create_and_send_offer (s\<lparr>v_socks := w\<rparr>))" for w
    using ice_same_join(1) [of "s\<lparr>v_socks := w\<rparr>"] by (simp add: ice_same_def)
  with VSockOpened show ?thesis by (simp add: ice_same_refl)
next
  case (VOnTrack k streams)
  then show ?thesis
    using ice_same_events(1) [of "s\<lparr>v_tracks := (v_tracks s)(v_next s \<mapsto>
            \<lparr>t_kind = k, t_enabled = True, t_live = True, t_device = None\<rparr>),
          v_next := Suc (v_next s)\<rparr>" "v_next s" k streams] by (simp add: ice_same_def)
qed (use assms(1) in \<open>simp_all add: ice_same_events ice_same_mic ice_same_cam ice_same_screen
    ice_same_refl toggle_mic_def toggle_camera_def set_deafened_def\<close>)

lemma ice_step:
  assumes i: "ice_inv s" and ok: "ice_ok e s"
  shows "ice_inv (v_step e s)"
    and "ice_sent (v_out (v_step e s)) @ v_pending (v_step e s)
      = ice_found e (ice_sent (v_out s) @ v_pending s)"
proof -
  have "ice_inv (v_step e s) \<and> ice_sent (v_out (v_step e s)) @ v_pending (v_step e s)
      = ice_found e (ice_sent (v_out s) @ v_pending s)"
  proof (cases "(\<forall>c. e \<noteq> VIceCandidate c) \<and>
      (\<forall>n r g pid. e = VResume n r \<longrightarrow> v_calls s n \<noteq> Some (KAnswerSet g pid))")
    case True
    then have "ice_same s (v_step e s)" by (intro ice_step_same) auto
    moreover have "ice_found e l = l" for l using True by (cases e) auto
    ultimately show ?thesis using i by (simp add: ice_same_def ice_inv_def)
  next
    case False
    then consider (cand) c where "e = VIceCandidate c"
      | (answer) n r g pid where "e = VResume n r" "v_calls s n = Some (KAnswerSet g pid)" by auto
    then show ?thesis
    proof cases
      case cand
      with i ok show ?thesis by (auto simp: on_ice_candidate_def ice_inv_def send_ice)
    next
      case answer
      let ?s = "s\<lparr>v_calls := (v_calls s)(n := None)\<rparr>"
      from answer ok have "link_up ?s" by (simp add: link_up_def)
      from answer_ice [OF this, of g pid r] answer i show ?thesis by (simp add: ice_inv_def)
    qed
  qed
  then show "ice_inv (v_step e s)"
    "ice_sent (v_out (v_step e s)) @ v_pending (v_step e s)
      = ice_found e (ice_sent (v_out s) @ v_pending s)" by blast+
qed

interpretation ice: simulation v_step ice_ok ice_inv ice_found
  "\<lambda>s. ice_sent (v_out s) @ v_pending s"
  by unfold_locales (auto dest: ice_step)

end
