(* ===== verification/VideoMic.thy ===== *)
theory VideoMic
  imports VideoLemmas
begin

text \<open>
  Muted means silent: the invariant behind it. \<open>mic_inv\<close> ties the flag of the microphone to the
  track its sender carries, through the awaits of the operations that change either. It holds
  under \<open>mic_ok\<close>: the microphone operations do not overlap each other or the first permission
  prompt, a capture returns one audio track, the captured microphone does not end by itself, and
  the camera and the screen, which have senders and tracks of their own, are left alone.
\<close>

section \<open>The invariant\<close>

fun mic_call :: "cont \<Rightarrow> bool" where
  "mic_call (KJoinMedia _) = True"
| "mic_call KMicMedia = True"
| "mic_call (KMicReplaced _ _) = True"
| "mic_call (KMicDevice _) = True"
| "mic_call (KMicDeviceSet _ _ _) = True"
| "mic_call _ = False"

fun side_call :: "cont \<Rightarrow> bool" where
  "side_call (KCamConstrained _) = True"
| "side_call (KCamSwapped _ _) = True"
| "side_call KCamMedia = True"
| "side_call (KCamReplaced _ _) = True"
| "side_call (KCamEncoded _) = True"
| "side_call (KCamDevice _) = True"
| "side_call (KCamDeviceSet _ _ _ _) = True"
| "side_call (KCamDeviceEncoded _ _) = True"
| "side_call (KScreenMedia _) = True"
| "side_call (KScreenParams _ _) = True"
| "side_call KScreenCreated = True"
| "side_call (KScreenLocal _) = True"
| "side_call KUnpubCreated = True"
| "side_call (KUnpubLocal _) = True"
| "side_call _ = False"

text \<open>A track that is captured and let through.\<close>

definition hot :: "vc \<Rightarrow> nat \<Rightarrow> bool" where
  "hot s t = (case v_tracks s t of None \<Rightarrow> False | Some tr \<Rightarrow> t_live tr \<and> t_enabled tr)"

text \<open>The track the microphone's sender carries.\<close>

definition mic_sends :: "vc \<Rightarrow> nat \<Rightarrow> bool" where
  "mic_sends s t \<longleftrightarrow> (\<exists>x. v_audio_sender s = Some x \<and> v_senders s x = Some (Some t))"

definition mic_links :: "vc \<Rightarrow> bool" where
  "mic_links s \<longleftrightarrow>
     (v_pc s = None \<longrightarrow> v_audio_sender s = None) \<and>
     (\<forall>n pc. v_calls s n = Some (KJoinMedia pc) \<longrightarrow>
        pc \<in> v_closed s \<or> v_pc s = Some pc \<and> v_local s = None) \<and>
     (\<forall>x. v_audio_sender s = Some x \<longrightarrow> x < v_next s) \<and> (\<forall>t. mic_sends s t \<longrightarrow> t < v_next s) \<and>
     (\<forall>t \<ge> v_next s. v_tracks s t = None) \<and>
     (\<forall>ts. v_local s = Some ts \<longrightarrow> (\<forall>t \<in> set ts. t < v_next s)) \<and>
     v_screen_video s = None"

definition mic_calls :: "vc \<Rightarrow> bool" where
  "mic_calls s \<longleftrightarrow>
     (\<forall>n \<ge> v_next s. v_calls s n = None) \<and>
     (\<forall>n k. v_calls s n = Some k \<longrightarrow> \<not> side_call k) \<and>
     (\<forall>n m k l. v_calls s n = Some k \<longrightarrow> v_calls s m = Some l \<longrightarrow> mic_call k \<longrightarrow> mic_call l \<longrightarrow> n = m) \<and>
     (\<forall>n t x. v_calls s n = Some (KMicReplaced t x) \<longrightarrow> x < v_next s \<and> t < v_next s) \<and>
     (\<forall>n t x d. v_calls s n = Some (KMicDeviceSet t x d) \<longrightarrow> x < v_next s \<and> t < v_next s)"

definition mic_tracks :: "vc \<Rightarrow> bool" where
  "mic_tracks s \<longleftrightarrow>
     length (local_tracks s AudioTrack) \<le> 1 \<and> (\<forall>t \<in> set (local_tracks s AudioTrack). track_live s t) \<and>
     (\<forall>n. v_calls s n = Some KMicMedia \<longrightarrow> local_tracks s AudioTrack = []) \<and>
     (\<forall>t. mic_sends s t \<longrightarrow> track_live s t \<longrightarrow> t \<in> set (local_tracks s AudioTrack)) \<and>
     (\<forall>n t x. v_calls s n = Some (KMicReplaced t x) \<longrightarrow> v_audio_sender s = Some x \<longrightarrow>
        track_live s t \<longrightarrow> t \<in> set (local_tracks s AudioTrack)) \<and>
     (\<forall>n t x d. v_calls s n = Some (KMicDeviceSet t x d) \<longrightarrow> v_audio_sender s = Some x \<longrightarrow>
        track_live s t \<longrightarrow> t \<in> set (local_tracks s AudioTrack))"

definition mic_muted :: "vc \<Rightarrow> bool" where
  "mic_muted s \<longleftrightarrow>
     (\<not> v_mic s \<longrightarrow>
        (\<forall>t. mic_sends s t \<longrightarrow> \<not> hot s t) \<and>
        (\<forall>n t x d. v_calls s n = Some (KMicDeviceSet t x d) \<longrightarrow> v_audio_sender s = Some x \<longrightarrow> \<not> hot s t))"

definition mic_inv :: "vc \<Rightarrow> bool" where
  "mic_inv s \<longleftrightarrow> mic_links s \<and> mic_calls s \<and> mic_tracks s \<and> mic_muted s"

definition mic_busy :: "vc \<Rightarrow> bool" where
  "mic_busy s \<longleftrightarrow> (\<exists>n k. v_calls s n = Some k \<and> mic_call k)"

fun mic_ok :: "v_input \<Rightarrow> vc \<Rightarrow> bool" where
  "mic_ok VEnableMic s = (\<not> mic_busy s)"
| "mic_ok VToggleMic s = (\<not> mic_busy s)"
| "mic_ok (VSetMicDevice d) s = (\<not> mic_busy s)"
| "mic_ok (VSockOpened i) s = (\<not> mic_busy s \<and> v_local s = None)"
| "mic_ok (VTrackEnds t) s = (t \<notin> set (local_tracks s AudioTrack))"
| "mic_ok (VResume n (RMedia ks)) s = (length (filter (\<lambda>k. fst k = AudioTrack) ks) \<le> 1)"
| "mic_ok VEnableCamera s = False"
| "mic_ok VDisableCamera s = False"
| "mic_ok VToggleCamera s = False"
| "mic_ok (VSetCameraDevice d) s = False"
| "mic_ok (VPublishScreen p) s = False"
| "mic_ok VUnpublishScreen s = False"
| "mic_ok e s = True"

section \<open>Operations that leave the microphone alone\<close>

definition mic_same :: "vc \<Rightarrow> vc \<Rightarrow> bool" where
  "mic_same s t \<longleftrightarrow>
     v_pc t = v_pc s \<and> v_closed t = v_closed s \<and> v_local t = v_local s \<and>
     v_senders t = v_senders s \<and> v_audio_sender t = v_audio_sender s \<and> v_mic t = v_mic s \<and>
     v_screen_video t = v_screen_video s \<and> v_next s \<le> v_next t \<and>
     (\<forall>u < v_next s. v_tracks t u = v_tracks s u) \<and> (\<forall>u \<ge> v_next t. v_tracks t u = None) \<and>
     (\<forall>n < v_next s. v_calls t n = v_calls s n \<or> v_calls t n = None) \<and>
     (\<forall>n \<ge> v_next t. v_calls t n = None) \<and>
     (\<forall>n k. v_next s \<le> n \<longrightarrow> v_calls t n = Some k \<longrightarrow> \<not> mic_call k \<and> \<not> side_call k)"

lemma mic_same_call:
  "mic_same s t \<Longrightarrow> v_calls t n = Some k \<Longrightarrow>
   v_calls s n = Some k \<or> (\<not> mic_call k \<and> \<not> side_call k)"
  unfolding mic_same_def by (metis not_le option.distinct(1))

lemma mic_same_local:
  assumes i: "mic_inv s" and m: "mic_same s t"
  shows "local_tracks t k = local_tracks s k"
proof (cases "v_local s")
  case None
  with m show ?thesis by (simp add: local_tracks_def mic_same_def)
next
  case (Some ts)
  with i have "\<forall>u \<in> set ts. u < v_next s" by (simp add: mic_inv_def mic_links_def)
  with m have "filter (is_kind t k) ts = filter (is_kind s k) ts"
    by (intro filter_cong) (auto simp: is_kind_def mic_same_def)
  with m Some show ?thesis by (simp add: local_tracks_def mic_same_def)
qed

lemma mic_same_track:
  "mic_same s t \<Longrightarrow> u < v_next s \<Longrightarrow> track_live t u = track_live s u \<and> hot t u = hot s u"
  by (simp add: mic_same_def track_live_def hot_def)

lemma mic_inv_same:
  assumes i: "mic_inv s" and m: "mic_same s t"
  shows "mic_inv t"
proof -
  note c = mic_same_call [OF m]
  note l = mic_same_local [OF i m]
  note tr = mic_same_track [OF m]
  have f: "v_pc t = v_pc s" "v_closed t = v_closed s" "v_local t = v_local s"
    "v_audio_sender t = v_audio_sender s" "v_mic t = v_mic s" "v_screen_video t = v_screen_video s"
    "v_next s \<le> v_next t" "\<forall>u \<ge> v_next t. v_tracks t u = None" "\<forall>n \<ge> v_next t. v_calls t n = None"
    using m by (simp_all add: mic_same_def)
  have ms: "mic_sends t u = mic_sends s u" for u using m by (simp add: mic_sends_def mic_same_def)
  have old: "mic_call k \<Longrightarrow> v_calls t n = Some k \<Longrightarrow> v_calls s n = Some k" for n k using c by blast
  have fresh: "mic_sends s u \<Longrightarrow> u < v_next s" for u using i by (simp add: mic_inv_def mic_links_def)
  have none: "v_next s \<le> u \<Longrightarrow> v_tracks s u = None" for u
    using i by (simp add: mic_inv_def mic_links_def)
  have lt: "u < v_next s" if "u \<in> set (local_tracks s k)" for u k
  proof (rule ccontr)
    assume "\<not> u < v_next s"
    with none [of u] that show False by (simp add: local_tracks_def is_kind_def split: option.splits)
  qed
  have "mic_links t"
  proof -
    have L: "mic_links s" using i by (simp add: mic_inv_def)
    have "v_audio_sender s = Some x \<Longrightarrow> x < v_next t" for x
      using L f(7) unfolding mic_links_def by (meson less_le_trans)
    moreover have "mic_sends s u \<Longrightarrow> u < v_next t" for u using fresh f(7) less_le_trans by blast
    moreover have "v_local s = Some ts \<Longrightarrow> u \<in> set ts \<Longrightarrow> u < v_next t" for ts u
      using L f(7) unfolding mic_links_def by (meson less_le_trans)
    moreover have "v_calls t n = Some (KJoinMedia pc) \<Longrightarrow>
        pc \<in> v_closed s \<or> v_pc s = Some pc \<and> v_local s = None" for n pc
      using L old [of "KJoinMedia pc" n] unfolding mic_links_def by auto
    ultimately show ?thesis using L f unfolding mic_links_def by (auto simp: ms)
  qed
  moreover have "mic_calls t"
  proof -
    have "\<not> side_call k" if "v_calls t n = Some k" for n k
      using c [OF that] i by (auto simp: mic_inv_def mic_calls_def)
    moreover have "n = n'" if "v_calls t n = Some k" "v_calls t n' = Some k'" "mic_call k" "mic_call k'"
      for n n' k k'
      using old [OF that(3,1)] old [OF that(4,2)] that(3,4) i unfolding mic_inv_def mic_calls_def by metis
    moreover have "x < v_next t \<and> u < v_next t" if "v_calls t n = Some (KMicReplaced u x)" for n u x
      using old [OF _ that] i f(7) unfolding mic_inv_def mic_calls_def
      by (metis mic_call.simps(3) less_le_trans)
    moreover have "x < v_next t \<and> u < v_next t" if "v_calls t n = Some (KMicDeviceSet u x d)" for n u x d
      using old [OF _ that] i f(7) unfolding mic_inv_def mic_calls_def
      by (metis mic_call.simps(5) less_le_trans)
    ultimately show ?thesis using f(9) unfolding mic_calls_def by blast
  qed
  moreover have rep: "v_calls s n = Some (KMicReplaced u x) \<and> u < v_next s"
    if "v_calls t n = Some (KMicReplaced u x)" for n u x
    using old [OF _ that] i unfolding mic_inv_def mic_calls_def by (metis mic_call.simps(3))
  moreover have dev: "v_calls s n = Some (KMicDeviceSet u x d) \<and> u < v_next s"
    if "v_calls t n = Some (KMicDeviceSet u x d)" for n u x d
    using old [OF _ that] i unfolding mic_inv_def mic_calls_def by (metis mic_call.simps(5))
  moreover have "mic_tracks t"
  proof -
    have T: "mic_tracks s" using i by (simp add: mic_inv_def)
    have "track_live t u" if "u \<in> set (local_tracks s AudioTrack)" for u
      using that T tr [OF lt [OF that]] by (simp add: mic_tracks_def)
    moreover have "local_tracks s AudioTrack = []" if "v_calls t n = Some KMicMedia" for n
      using old [OF _ that] T unfolding mic_tracks_def by auto
    moreover have "u \<in> set (local_tracks s AudioTrack)" if "mic_sends s u" "track_live t u" for u
      using that T tr [OF fresh [OF that(1)]] by (simp add: mic_tracks_def)
    moreover have "u \<in> set (local_tracks s AudioTrack)"
      if "v_calls t n = Some (KMicReplaced u x)" "v_audio_sender s = Some x" "track_live t u" for n u x
      using rep [OF that(1)] that(2,3) T tr [of u] unfolding mic_tracks_def by blast
    moreover have "u \<in> set (local_tracks s AudioTrack)"
      if "v_calls t n = Some (KMicDeviceSet u x d)" "v_audio_sender s = Some x" "track_live t u" for n u x d
      using dev [OF that(1)] that(2,3) T tr [of u] unfolding mic_tracks_def by blast
    ultimately show ?thesis using T unfolding mic_tracks_def l f(4) ms by blast
  qed
  moreover have "mic_muted t"
  proof -
    have M: "mic_muted s" using i by (simp add: mic_inv_def)
    have "\<not> hot t u" if "\<not> v_mic s" "mic_sends s u" for u
      using that M tr [OF fresh [OF that(2)]] by (simp add: mic_muted_def)
    moreover have "\<not> hot t u"
      if "\<not> v_mic s" "v_calls t n = Some (KMicDeviceSet u x d)" "v_audio_sender s = Some x" for n u x d
      using dev [OF that(2)] that(1,3) M tr [of u] unfolding mic_muted_def by blast
    ultimately show ?thesis unfolding mic_muted_def f(4,5) ms by blast
  qed
  ultimately show ?thesis by (simp add: mic_inv_def)
qed

lemma mic_same_refl: "mic_inv s \<Longrightarrow> mic_same s s"
  by (auto simp: mic_same_def mic_inv_def mic_links_def mic_calls_def)

lemma mic_same_fields:
  assumes "mic_inv s"
    and "v_pc t = v_pc s" "v_closed t = v_closed s" "v_local t = v_local s"
    "v_senders t = v_senders s" "v_audio_sender t = v_audio_sender s" "v_mic t = v_mic s"
    "v_screen_video t = v_screen_video s" "v_tracks t = v_tracks s" "v_calls t = v_calls s"
    "v_next s \<le> v_next t"
  shows "mic_same s t"
  using assms by (auto simp: mic_same_def mic_inv_def mic_links_def mic_calls_def)

lemma mic_same_await:
  "mic_same s t \<Longrightarrow> \<not> mic_call k \<Longrightarrow> \<not> side_call k \<Longrightarrow> mic_same s (v_await k t)"
  unfolding mic_same_def by (auto simp: less_Suc_eq_le)

lemma mic_same_upd:
  "mic_same s t \<Longrightarrow> mic_same s (v_log es t)" "mic_same s t \<Longrightarrow> mic_same s (v_send f t)"
  "mic_same s t \<Longrightarrow> mic_same s (v_throw e t)" "mic_same s t \<Longrightarrow> mic_same s (v_emit ev t)"
  "mic_same s t \<Longrightarrow> mic_same s (chain_upd g h t)" "mic_same s t \<Longrightarrow> mic_same s (set_part p r t)"
  "mic_same s t \<Longrightarrow> mic_same s (handler_done g t)" "mic_same s t \<Longrightarrow> mic_same s (handler_rejects g e t)"
  by (simp_all add: mic_same_def v_throw_def v_emit_def chain_upd_def set_part_def handler_done_def
      handler_rejects_def)

lemma mic_same_puts [simp]:
  "mic_same s (t\<lparr>v_joined := b\<rparr>) = mic_same s t" "mic_same s (t\<lparr>v_pending := cs\<rparr>) = mic_same s t"
  "mic_same s (t\<lparr>v_pid := i\<rparr>) = mic_same s t" "mic_same s (t\<lparr>v_parts := ps\<rparr>) = mic_same s t"
  "mic_same s (t\<lparr>v_meta := m\<rparr>) = mic_same s t" "mic_same s (t\<lparr>v_heap := h\<rparr>) = mic_same s t"
  "mic_same s (t\<lparr>v_socks := w\<rparr>) = mic_same s t" "mic_same s (t\<lparr>v_silence := z\<rparr>) = mic_same s t"
  "mic_same s (t\<lparr>v_ended := en\<rparr>) = mic_same s t" "mic_same s (t\<lparr>v_analysers := an\<rparr>) = mic_same s t"
  "mic_same s (t\<lparr>v_polling := b\<rparr>) = mic_same s t"
  by (simp_all add: mic_same_def)

lemma mic_same_fold: "(\<And>x t. mic_same s t \<Longrightarrow> mic_same s (f x t)) \<Longrightarrow> mic_same s t \<Longrightarrow> mic_same s (fold f xs t)"
  by (induction xs arbitrary: t) auto

lemma mic_same_next:
  "mic_same s t \<Longrightarrow> mic_same s (t\<lparr>v_next := Suc (v_next t)\<rparr>)"
  by (auto simp: mic_same_def)

lemmas mic_same_intros = mic_same_await mic_same_upd mic_same_fold mic_same_next

lemma mic_same_register: "mic_same s t \<Longrightarrow> mic_same s (register_stream x t)"
  by (simp add: register_stream_def Let_def split: option.split)

lemma mic_same_participants:
  "mic_same s t \<Longrightarrow> mic_same s (participant_left pid u t)"
  "mic_same s t \<Longrightarrow> mic_same s (participant_muted pid k b t)"
  "mic_same s t \<Longrightarrow> mic_same s (participant_deafened pid b t)"
  "mic_same s t \<Longrightarrow> mic_same s (force_disconnected reason t)"
  by (auto simp: participant_left_def participant_muted_def participant_deafened_def
      force_disconnected_def Let_def intro!: mic_same_upd split: option.split)

lemma mic_same_joined: "mic_same s t \<Longrightarrow> mic_same s (participant_joined pid u t)"
proof -
  assume m: "mic_same s t"
  from mic_same_next [OF m] have "mic_same s (t\<lparr>v_heap := h, v_parts := p, v_next := Suc (v_next t)\<rparr>)" for h p
    by (simp add: mic_same_def)
  then show ?thesis by (simp add: participant_joined_def Let_def mic_same_upd)
qed

lemma mic_same_message: "mic_same s t \<Longrightarrow> mic_same s (handle_server_message g m t)"
  by (auto simp: handle_server_message_def intro!: mic_same_await mic_same_upd mic_same_fold
      mic_same_register mic_same_participants mic_same_joined split: server_msg.split)

lemma mic_same_signaling:
  "mic_same s t \<Longrightarrow> mic_same s (pump g t)" "mic_same s t \<Longrightarrow> mic_same s (enqueue_msg m t)"
  "mic_same s t \<Longrightarrow> mic_same s (answer_set g pid r t)" "mic_same s t \<Longrightarrow> mic_same s (offer_set g r t)"
  "mic_same s t \<Longrightarrow> mic_same s (offer_answer g r t)" "mic_same s t \<Longrightarrow> mic_same s (offer_local g sdp r t)"
  "mic_same s t \<Longrightarrow> mic_same s (join_created pc r t)" "mic_same s t \<Longrightarrow> mic_same s (join_local pc sdp r t)"
  "mic_same s t \<Longrightarrow> mic_same s (reneg_created r t)" "mic_same s t \<Longrightarrow> mic_same s (reneg_local sdp r t)"
  "mic_same s t \<Longrightarrow> mic_same s (on_ice_candidate c t)" "mic_same s t \<Longrightarrow> mic_same s (on_connection_failed st t)"
  "mic_same s t \<Longrightarrow> mic_same s (check_level spectrum p t)"
  "mic_same s t \<Longrightarrow> mic_same s (on_track u k streams t)" "mic_same s t \<Longrightarrow> mic_same s (renegotiate t)"
  by (auto simp: pump_def enqueue_msg_def answer_set_def offer_set_def offer_answer_def offer_local_def
      offer_stage_def join_created_def join_local_def reneg_created_def reneg_local_def
      on_ice_candidate_def on_connection_failed_def check_level_def on_track_def renegotiate_def
      setup_level_detection_def Let_def
      intro!: mic_same_message mic_same_await mic_same_upd mic_same_fold
      split: option.split v_result.split list.split prod.split track_kind.split track_source.split)

lemma mic_same_poll: "mic_same s t \<Longrightarrow> mic_same s (check_speaking_levels spectrum t)"
  by (auto simp: check_speaking_levels_def intro!: mic_same_fold mic_same_signaling)

section \<open>Asking and answering\<close>

definition mic_idle :: "vc \<Rightarrow> bool" where
  "mic_idle s \<longleftrightarrow>
     \<not> mic_busy s \<and> (\<forall>n \<ge> v_next s. v_calls s n = None) \<and>
     (\<forall>n k. v_calls s n = Some k \<longrightarrow> \<not> side_call k) \<and>
     (v_pc s = None \<longrightarrow> v_audio_sender s = None) \<and>
     (\<forall>x. v_audio_sender s = Some x \<longrightarrow> x < v_next s) \<and> (\<forall>t. mic_sends s t \<longrightarrow> t < v_next s) \<and>
     (\<forall>t \<ge> v_next s. v_tracks s t = None) \<and>
     (\<forall>ts. v_local s = Some ts \<longrightarrow> (\<forall>t \<in> set ts. t < v_next s)) \<and> v_screen_video s = None \<and>
     length (local_tracks s AudioTrack) \<le> 1 \<and> (\<forall>t \<in> set (local_tracks s AudioTrack). track_live s t) \<and>
     (\<forall>t. mic_sends s t \<longrightarrow> track_live s t \<longrightarrow> t \<in> set (local_tracks s AudioTrack)) \<and>
     (\<not> v_mic s \<longrightarrow> (\<forall>t. mic_sends s t \<longrightarrow> \<not> hot s t))"

lemma busyI: "v_calls s n = Some k \<Longrightarrow> mic_call k \<Longrightarrow> mic_busy s"
  by (auto simp: mic_busy_def)

lemma mic_idle_inv: "mic_idle s \<Longrightarrow> mic_inv s"
  unfolding mic_idle_def mic_inv_def mic_links_def mic_calls_def mic_tracks_def mic_muted_def mic_busy_def
  by (intro conjI; (blast | fastforce))

lemma mic_inv_idle: "mic_inv s \<Longrightarrow> \<not> mic_busy s \<Longrightarrow> mic_idle s"
  unfolding mic_idle_def mic_inv_def mic_links_def mic_calls_def mic_tracks_def mic_muted_def
  by (elim conjE, intro conjI; (assumption | simp))

fun ask_ok :: "cont \<Rightarrow> vc \<Rightarrow> bool" where
  "ask_ok (KJoinMedia pc) s = (v_pc s = Some pc \<and> v_local s = None)"
| "ask_ok KMicMedia s = (local_tracks s AudioTrack = [])"
| "ask_ok (KMicReplaced t x) s =
     (x < v_next s \<and> t < v_next s \<and> t \<in> set (local_tracks s AudioTrack))"
| "ask_ok (KMicDevice d) s = True"
| "ask_ok (KMicDeviceSet t x d) s =
     (x < v_next s \<and> t < v_next s \<and> t \<in> set (local_tracks s AudioTrack) \<and> (v_mic s \<or> \<not> hot s t))"
| "ask_ok _ s = False"

lemma is_kind_await [simp]: "is_kind (v_await k s) = is_kind s"
  by (simp add: is_kind_def [abs_def])

lemma await_same [simp]:
  "local_tracks (v_await k s) l = local_tracks s l" "track_live (v_await k s) t = track_live s t"
  "hot (v_await k s) t = hot s t" "mic_sends (v_await k s) t = mic_sends s t"
  by (simp_all add: local_tracks_def track_live_def hot_def mic_sends_def split: option.split)

lemma mic_inv_ask:
  assumes i: "mic_idle s" and k: "ask_ok k s"
  shows "mic_inv (v_await k s)"
proof -
  have mc: "mic_call k" and sc: "\<not> side_call k" using k by (cases k; simp)+
  have nb: "v_calls s n = Some l \<Longrightarrow> \<not> mic_call l" for n l
    using i by (auto simp: mic_idle_def mic_busy_def)
  have only: "v_calls (v_await k s) n = Some l \<Longrightarrow> mic_call l \<Longrightarrow> n = v_next s \<and> l = k" for n l
    using nb by (auto split: if_splits)
  have I: "\<forall>n \<ge> v_next s. v_calls s n = None" "\<forall>n k. v_calls s n = Some k \<longrightarrow> \<not> side_call k"
    using i by (simp_all add: mic_idle_def)
  have "mic_links (v_await k s)"
    unfolding mic_links_def
  proof (intro conjI allI impI)
    fix n pc assume "v_calls (v_await k s) n = Some (KJoinMedia pc)"
    from only [OF this] k
    show "pc \<in> v_closed (v_await k s) \<or> v_pc (v_await k s) = Some pc \<and> v_local (v_await k s) = None"
      by auto
  qed (use i in \<open>auto simp: mic_idle_def less_Suc_eq\<close>)
  moreover have "mic_calls (v_await k s)"
    unfolding mic_calls_def
  proof (intro conjI allI impI)
    fix n m l l'
    assume "v_calls (v_await k s) n = Some l" "v_calls (v_await k s) m = Some l'" "mic_call l" "mic_call l'"
    then show "n = m" using only by metis
  next
    fix n t x
    assume "v_calls (v_await k s) n = Some (KMicReplaced t x)"
    from only [OF this] k show "x < v_next (v_await k s)" "t < v_next (v_await k s)" by auto
  next
    fix n t x d
    assume "v_calls (v_await k s) n = Some (KMicDeviceSet t x d)"
    from only [OF this] k show "x < v_next (v_await k s)" "t < v_next (v_await k s)" by auto
  next
    fix n assume "v_next (v_await k s) \<le> n"
    then show "v_calls (v_await k s) n = None" using I(1) by simp
  next
    fix n l assume "v_calls (v_await k s) n = Some l"
    then show "\<not> side_call l" using I(2) sc by (simp split: if_splits)
  qed
  moreover have "mic_tracks (v_await k s)"
    unfolding mic_tracks_def
  proof (intro conjI allI impI)
    fix n assume "v_calls (v_await k s) n = Some KMicMedia"
    from only [OF this] k show "local_tracks (v_await k s) AudioTrack = []" by auto
  next
    fix n t x
    assume "v_calls (v_await k s) n = Some (KMicReplaced t x)"
    from only [OF this] k show "t \<in> set (local_tracks (v_await k s) AudioTrack)" by auto
  next
    fix n t x d
    assume "v_calls (v_await k s) n = Some (KMicDeviceSet t x d)"
    from only [OF this] k show "t \<in> set (local_tracks (v_await k s) AudioTrack)" by auto
  qed (use i in \<open>auto simp: mic_idle_def\<close>)
  moreover have "mic_muted (v_await k s)"
    unfolding mic_muted_def
  proof (intro conjI allI impI)
    fix n t x d
    assume "\<not> v_mic (v_await k s)" "v_calls (v_await k s) n = Some (KMicDeviceSet t x d)"
    with only [OF this(2)] k show "\<not> hot (v_await k s) t" by auto
  qed (use i in \<open>auto simp: mic_idle_def\<close>)
  ultimately show ?thesis by (simp add: mic_inv_def)
qed

lemma mic_inv_answered:
  assumes i: "mic_inv s" and c: "v_calls s n = Some k"
  defines "s' \<equiv> s\<lparr>v_calls := (v_calls s)(n := None)\<rparr>"
  shows "mic_inv s'" "mic_call k \<Longrightarrow> mic_idle s'"
proof -
  have "mic_same s s'"
    using i by (auto simp: s'_def mic_same_def mic_inv_def mic_links_def mic_calls_def)
  with i show j: "mic_inv s'" by (rule mic_inv_same)
  assume "mic_call k"
  have "n = m" if "v_calls s m = Some l" "mic_call l" for m l
    using i c \<open>mic_call k\<close> that unfolding mic_inv_def mic_calls_def by metis
  then have "\<not> mic_busy s'" by (auto simp: mic_busy_def s'_def split: if_splits)
  with j show "mic_idle s'" by (rule mic_inv_idle)
qed

section \<open>The operations of the microphone\<close>

lemma mic_idle_same: "mic_idle s \<Longrightarrow> mic_same s t \<Longrightarrow> mic_idle t"
proof (rule mic_inv_idle)
  assume i: "mic_idle s" and m: "mic_same s t"
  from mic_inv_same [OF mic_idle_inv [OF i] m] show "mic_inv t" .
  have "\<not> mic_call k" if "v_calls t n = Some k" for n k
    using mic_same_call [OF m that] i by (auto simp: mic_idle_def mic_busy_def)
  then show "\<not> mic_busy t" by (auto simp: mic_busy_def)
qed

lemma mic_idle_refl: "mic_idle s \<Longrightarrow> mic_same s s"
  by (rule mic_same_refl) (rule mic_idle_inv)

lemma finish_mic_inv:
  assumes "mic_idle (s\<lparr>v_mic := True\<rparr>)"
  shows "mic_inv (finish_mic b s)"
proof -
  have "mic_same (s\<lparr>v_mic := True\<rparr>) (finish_mic b s)"
    using mic_idle_refl [OF assms]
    by (auto simp: finish_mic_def Let_def intro!: mic_same_signaling mic_same_upd)
  with mic_idle_inv [OF assms] show ?thesis by (rule mic_inv_same)
qed

lemma enable_track_kind [simp]: "is_kind (enable_track b t s) = is_kind s"
  by (auto simp: enable_track_def is_kind_def fun_eq_iff split: option.split)

lemma enable_track_same [simp]:
  "track_live (enable_track b t s) = track_live s"
  "local_tracks (enable_track b t s) = local_tracks s" "mic_sends (enable_track b t s) = mic_sends s"
  "hot (enable_track b t s) u = (if u = t then track_live s t \<and> b else hot s u)"
proof -
  show "local_tracks (enable_track b t s) = local_tracks s"
    by (simp add: local_tracks_def fun_eq_iff split: option.split) (simp add: enable_track_def)
qed (auto simp: enable_track_def track_live_def mic_sends_def hot_def fun_eq_iff split: option.splits)

lemma enable_track_frame [simp]:
  "v_pc (enable_track b t s) = v_pc s" "v_closed (enable_track b t s) = v_closed s"
  "v_local (enable_track b t s) = v_local s" "v_senders (enable_track b t s) = v_senders s"
  "v_audio_sender (enable_track b t s) = v_audio_sender s" "v_mic (enable_track b t s) = v_mic s"
  "v_calls (enable_track b t s) = v_calls s" "v_next (enable_track b t s) = v_next s"
  "v_screen_video (enable_track b t s) = v_screen_video s"
  "v_tracks (enable_track b t s) u = None \<longleftrightarrow> v_tracks s u = None"
  by (simp_all add: enable_track_def)

lemma mic_put_kind [simp]: "is_kind (s\<lparr>v_mic := b\<rparr>) = is_kind s"
  by (simp add: is_kind_def fun_eq_iff)

lemma mic_put_same [simp]:
  "track_live (s\<lparr>v_mic := b\<rparr>) = track_live s"
  "local_tracks (s\<lparr>v_mic := b\<rparr>) = local_tracks s" "mic_sends (s\<lparr>v_mic := b\<rparr>) = mic_sends s"
  "hot (s\<lparr>v_mic := b\<rparr>) = hot s" "mic_busy (s\<lparr>v_mic := b\<rparr>) = mic_busy s"
  by (auto simp: track_live_def local_tracks_def mic_sends_def hot_def mic_busy_def fun_eq_iff
      split: option.splits)

lemma enable_track_busy [simp]: "mic_busy (enable_track b t s) = mic_busy s"
  by (simp add: mic_busy_def)

lemma mic_idle_enable: "mic_idle s \<Longrightarrow> mic_idle ((enable_track b t s)\<lparr>v_mic := True\<rparr>)"
  by (simp add: mic_idle_def)

lemma first_live_local: "first_live s k = Some t \<Longrightarrow> t \<in> set (local_tracks s k)"
  by (auto simp: first_live_def split: list.splits if_splits)

lemma mic_inv_enable_mic:
  assumes "mic_idle s"
  shows "mic_inv (enable_mic s)"
proof (cases "v_mic s")
  case True
  with assms show ?thesis by (simp add: enable_mic_def mic_idle_inv)
next
  case False
  show ?thesis
  proof (cases "first_live s AudioTrack")
    case (Some t)
    with False show ?thesis
      using finish_mic_inv [OF mic_idle_enable [OF assms]] by (simp add: enable_mic_def)
  next
    case None
    have "local_tracks s AudioTrack = []"
      using None assms by (auto simp: first_live_def mic_idle_def split: list.splits if_splits)
    with None False show ?thesis by (simp add: enable_mic_def mic_inv_ask [OF assms])
  qed
qed

lemma hot_live: "hot s t \<Longrightarrow> track_live s t"
  by (simp add: hot_def track_live_def split: option.splits)

text \<open>Whatever the sender carries, or is about to, is a local track or over.\<close>

lemma muted_offI:
  assumes i: "mic_inv s" and h: "\<And>u. u \<in> set (local_tracks s AudioTrack) \<Longrightarrow> \<not> hot t u"
    and t: "\<And>u. hot t u \<Longrightarrow> hot s u" "v_calls t = v_calls s" "v_audio_sender t = v_audio_sender s"
      "v_senders t = v_senders s"
  shows "mic_muted t"
proof -
  have T: "mic_tracks s" using i by (simp add: mic_inv_def)
  have "\<not> hot t u" if "mic_sends t u" for u
  proof
    assume "hot t u"
    with t have "track_live s u" by (auto intro: hot_live)
    moreover have "mic_sends s u" using that t by (simp add: mic_sends_def)
    ultimately have "u \<in> set (local_tracks s AudioTrack)" using T by (simp add: mic_tracks_def)
    with h \<open>hot t u\<close> show False by blast
  qed
  moreover have "\<not> hot t u" if "v_calls s n = Some (KMicDeviceSet u x d)" "v_audio_sender s = Some x" for n u x d
  proof
    assume "hot t u"
    with t have "track_live s u" by (auto intro: hot_live)
    with that T have "u \<in> set (local_tracks s AudioTrack)" unfolding mic_tracks_def by blast
    with h \<open>hot t u\<close> show False by blast
  qed
  ultimately show ?thesis unfolding mic_muted_def t(2,3) by blast
qed

lemma mic_inv_off:
  assumes i: "mic_inv s" and t: "t \<in> set (local_tracks s AudioTrack)"
  shows "mic_inv ((enable_track False t s)\<lparr>v_mic := False\<rparr>)"
proof -
  have only: "u \<in> set (local_tracks s AudioTrack) \<Longrightarrow> u = t" for u
    using i t by (cases "local_tracks s AudioTrack") (auto simp: mic_inv_def mic_tracks_def)
  have "mic_muted ((enable_track False t s)\<lparr>v_mic := False\<rparr>)"
    using only by (intro muted_offI [OF i]) (auto split: if_splits)
  with i show ?thesis
    unfolding mic_inv_def mic_links_def mic_calls_def mic_tracks_def by simp
qed

lemma mic_inv_off_none:
  assumes i: "mic_inv s" and t: "local_tracks s AudioTrack = []"
  shows "mic_inv (s\<lparr>v_mic := False\<rparr>)"
proof -
  have "mic_muted (s\<lparr>v_mic := False\<rparr>)"
    using t by (intro muted_offI [OF i]) auto
  with i show ?thesis
    unfolding mic_inv_def mic_links_def mic_calls_def mic_tracks_def by simp
qed

lemma mic_inv_send: "mic_inv s \<Longrightarrow> mic_inv (v_send f s)"
  using mic_inv_same [of s "v_send f s"] mic_same_upd(2) [of s s f] mic_same_refl [of s] by blast

lemma mic_inv_disable_mic:
  assumes "mic_inv s"
  shows "mic_inv (disable_mic s)"
proof (cases "local_tracks s AudioTrack")
  case Nil
  with assms show ?thesis by (simp add: disable_mic_def mic_inv_send mic_inv_off_none)
next
  case (Cons t ts)
  then have "t \<in> set (local_tracks s AudioTrack)" by simp
  from mic_inv_off [OF assms this] Cons show ?thesis
    by (simp add: disable_mic_def Let_def mic_inv_send)
qed

text \<open>Capturing: the new tracks are not local yet, and their ids are new.\<close>

lemma new_tracks_same:
  assumes n: "new_tracks ks s = (s', ts)" and i: "mic_inv s"
  shows "mic_same s s'"
proof -
  have "\<forall>t \<ge> v_next s. v_tracks s t = None" "\<forall>n \<ge> v_next s. v_calls s n = None"
    using i by (simp_all add: mic_inv_def mic_links_def mic_calls_def)
  with new_tracks_frame [OF n] new_tracks_ids [OF n] show ?thesis
    by (auto simp: mic_same_def)
qed

lemma new_tracks_kind:
  assumes n: "new_tracks ks s = (s', ts)"
  shows "length (filter (is_kind s' k) ts) = length (filter (\<lambda>x. fst x = k) ks)"
    "t \<in> set ts \<Longrightarrow> track_live s' t" "t \<in> set ts \<Longrightarrow> v_next s \<le> t \<and> t < v_next s'"
proof -
  have ts: "ts = map (\<lambda>i. v_next s + i) [0 ..< length ks]"
    using new_tracks_ids(1) [OF n] map_add_upt [of "v_next s" "length ks"] by (simp add: add.commute)
  have "filter (is_kind s' k) ts = map (\<lambda>i. v_next s + i) (filter (\<lambda>i. fst (ks ! i) = k) [0 ..< length ks])"
    unfolding ts filter_map o_def
    by (intro arg_cong [where f = "map _"] filter_cong) (auto simp: is_kind_def new_tracks_ids(3) [OF n])
  moreover have "map (\<lambda>i. ks ! i) (filter (\<lambda>i. fst (ks ! i) = k) [0 ..< length ks]) = filter (\<lambda>x. fst x = k) ks"
    using filter_map [of "\<lambda>x. fst x = k" "\<lambda>i. ks ! i" "[0 ..< length ks]"] by (simp add: map_nth o_def)
  ultimately show "length (filter (is_kind s' k) ts) = length (filter (\<lambda>x. fst x = k) ks)"
    by (metis length_map)
  show "t \<in> set ts \<Longrightarrow> track_live s' t" "t \<in> set ts \<Longrightarrow> v_next s \<le> t \<and> t < v_next s'"
    using new_tracks_ids [OF n] by (auto simp: track_live_def)
qed

text \<open>A first local microphone track, and a sender for it.\<close>

lemma local_add_local:
  "local_tracks (add_local t s) k = local_tracks s k @ (if is_kind s k t then [t] else [])"
proof -
  have "is_kind (add_local t s) = is_kind s" by (simp add: is_kind_def add_local_def fun_eq_iff)
  then show ?thesis by (auto simp: local_tracks_def add_local_def split: option.split)
qed

lemma add_local_frame [simp]:
  "v_pc (add_local t s) = v_pc s" "v_closed (add_local t s) = v_closed s"
  "v_senders (add_local t s) = v_senders s" "v_audio_sender (add_local t s) = v_audio_sender s"
  "v_mic (add_local t s) = v_mic s" "v_calls (add_local t s) = v_calls s"
  "v_next (add_local t s) = v_next s" "v_screen_video (add_local t s) = v_screen_video s"
  "v_tracks (add_local t s) = v_tracks s" "track_live (add_local t s) = track_live s"
  "hot (add_local t s) = hot s" "mic_sends (add_local t s) = mic_sends s"
  "mic_busy (add_local t s) = mic_busy s"
  by (auto simp: add_local_def track_live_def hot_def mic_sends_def mic_busy_def fun_eq_iff)

lemma mic_idle_add_local:
  assumes "mic_idle s" "local_tracks s AudioTrack = []" "is_kind s AudioTrack t" "track_live s t"
    "t < v_next s"
  shows "mic_idle (add_local t s)"
proof -
  have "\<forall>u \<in> set ts. u < v_next s" if "v_local (add_local t s) = Some ts" for ts
    using that assms(1,5) by (auto simp: add_local_def mic_idle_def split: option.splits)
  moreover have "local_tracks (add_local t s) AudioTrack = [t]"
    using assms by (simp add: local_add_local)
  ultimately show ?thesis using assms unfolding mic_idle_def by auto
qed

lemma mic_idle_send:
  assumes i: "mic_idle s" and x: "x < v_next s'" and t: "t < v_next s'" "t \<in> set (local_tracks s AudioTrack)"
    and m: "v_mic s' \<or> \<not> hot s t" and pc: "v_pc s \<noteq> None"
    and f: "v_pc s' = v_pc s" "v_local s' = v_local s" "v_tracks s' = v_tracks s" "v_calls s' = v_calls s"
      "v_screen_video s' = v_screen_video s" "v_next s \<le> v_next s'" "v_audio_sender s' = Some x"
      "v_senders s' x = Some (Some t)"
  shows "mic_idle s'"
proof -
  have k: "is_kind s' = is_kind s" "track_live s' = track_live s" "hot s' = hot s"
    by (auto simp: is_kind_def track_live_def hot_def f fun_eq_iff)
  have l: "local_tracks s' = local_tracks s"
    by (simp add: local_tracks_def k f fun_eq_iff split: option.split)
  have s: "mic_sends s' u \<longleftrightarrow> u = t" for u by (auto simp: mic_sends_def f)
  have b: "mic_busy s' = mic_busy s" by (simp add: mic_busy_def f)
  have lo: "\<forall>u \<in> set ts. u < v_next s'" if "v_local s = Some ts" for ts
    using that i f(6) unfolding mic_idle_def by (meson less_le_trans)
  show ?thesis
    using i x t m pc f(6) lo unfolding mic_idle_def k l s b f(1,2,3,4,5,7) by auto
qed

text \<open>The continuations.\<close>

lemma mic_media_inv:
  assumes i: "mic_idle s" and l: "local_tracks s AudioTrack = []"
  shows "mic_inv (mic_media r s)"
proof (cases r)
  case (RMedia ks)
  obtain s1 ts where n: "new_tracks ks s = (s1, ts)" by force
  have m1: "mic_same s s1" by (rule new_tracks_same [OF n mic_idle_inv [OF i]])
  have i1: "mic_idle s1" by (rule mic_idle_same [OF i m1])
  have l1: "local_tracks s1 AudioTrack = []" using mic_same_local [OF mic_idle_inv [OF i] m1] l by simp
  have on: "mic_idle u \<Longrightarrow> mic_idle (u\<lparr>v_mic := True\<rparr>)" for u
    by (simp add: mic_idle_def)
  show ?thesis
  proof (cases "filter (is_kind s1 AudioTrack) ts")
    case Nil
    with n RMedia show ?thesis by (simp add: mic_media_def finish_mic_inv [OF on [OF i1]])
  next
    case (Cons t us)
    then have "t \<in> set (filter (is_kind s1 AudioTrack) ts)" by simp
    then have t: "t \<in> set ts" "is_kind s1 AudioTrack t" by auto
    note tl = new_tracks_kind(2,3) [OF n t(1)]
    show ?thesis
    proof (cases "v_pc s1")
      case None
      with Cons n RMedia show ?thesis by (simp add: mic_media_def finish_mic_inv [OF on [OF i1]])
    next
      case (Some pc)
      let ?s2 = "add_local t s1"
      have i2: "mic_idle ?s2" using mic_idle_add_local [OF i1 l1 t(2)] tl by simp
      have l2: "t \<in> set (local_tracks ?s2 AudioTrack)" using l1 t(2) by (simp add: local_add_local)
      show ?thesis
      proof (cases "v_audio_sender s1")
        case (Some x)
        then have "x < v_next s1" using i1 by (simp add: mic_idle_def)
        then have "mic_inv (v_await (KMicReplaced t x) ?s2)"
          using tl l2 by (intro mic_inv_ask [OF i2]) simp
        with Some \<open>v_pc s1 = Some pc\<close> Cons n RMedia show ?thesis by (simp add: mic_media_def Let_def)
      next
        case None
        let ?s3 = "(add_sender t ?s2)\<lparr>v_audio_sender := Some (v_next ?s2), v_mic_device := device_of ?s2 t\<rparr>"
        have "mic_idle (?s3\<lparr>v_mic := True\<rparr>)"
          using Some tl by (intro mic_idle_send [where x = "v_next s1", OF i2 _ _ l2]) (simp_all add: add_sender_def)
        from finish_mic_inv [OF this] None \<open>v_pc s1 = Some pc\<close> Cons n RMedia
        show ?thesis by (simp add: mic_media_def Let_def)
      qed
    qed
  qed
qed (use i in \<open>auto simp: mic_media_def intro!: mic_idle_inv mic_idle_same [OF i]
      mic_same_upd mic_idle_refl\<close>)

text \<open>A sender's track is replaced by one that is local or over, and muted unless the mic is on.\<close>

lemma mic_idle_replace:
  assumes i: "mic_idle s" and t: "t < v_next s"
    and l: "v_audio_sender s = Some x \<Longrightarrow> track_live s t \<Longrightarrow> t \<in> set (local_tracks s AudioTrack)"
    and m: "v_audio_sender s = Some x \<Longrightarrow> v_mic s' \<or> \<not> hot s t" and b: "v_mic s \<Longrightarrow> v_mic s'"
    and f: "v_pc s' = v_pc s" "v_local s' = v_local s" "v_tracks s' = v_tracks s" "v_calls s' = v_calls s"
      "v_screen_video s' = v_screen_video s" "v_next s' = v_next s" "v_audio_sender s' = v_audio_sender s"
      "v_senders s' = (v_senders s)(x \<mapsto> Some t)"
  shows "mic_idle s'"
proof -
  have k: "is_kind s' = is_kind s" "track_live s' = track_live s" "hot s' = hot s"
    by (auto simp: is_kind_def track_live_def hot_def f fun_eq_iff)
  have lt: "local_tracks s' = local_tracks s"
    by (simp add: local_tracks_def k f fun_eq_iff split: option.split)
  have s: "mic_sends s' u \<longleftrightarrow> (if v_audio_sender s = Some x then u = t else mic_sends s u)" for u
    by (auto simp: mic_sends_def f)
  have bu: "mic_busy s' = mic_busy s" by (simp add: mic_busy_def f)
  show ?thesis
    using i t l m b unfolding mic_idle_def k lt s bu f(1,2,3,4,5,6,7) by auto
qed

lemma mic_replaced_inv:
  assumes i: "mic_idle s" and t: "t < v_next s"
    and l: "v_audio_sender s = Some x \<Longrightarrow> track_live s t \<Longrightarrow> t \<in> set (local_tracks s AudioTrack)"
  shows "mic_inv (mic_replaced t x r s)"
proof -
  let ?s1 = "(replace_track x (Some t) s)\<lparr>v_mic_device := device_of s t\<rparr>"
  have "mic_inv (v_throw e s)" for e
    by (rule mic_idle_inv [OF mic_idle_same [OF i mic_same_upd(3) [OF mic_idle_refl [OF i]]]])
  moreover have "mic_inv (finish_mic False ?s1)"
    by (rule finish_mic_inv, rule mic_idle_replace [OF i t l]) (simp_all add: replace_track_def)
  moreover have "mic_inv (v_throw e ?s1)" if pc: "v_pc s = None" for e
  proof -
    have "v_audio_sender s = None" using pc i by (simp add: mic_idle_def)
    then have j: "mic_idle ?s1"
      by (intro mic_idle_replace [OF i t l]) (simp_all add: replace_track_def)
    show ?thesis by (rule mic_idle_inv [OF mic_idle_same [OF j mic_same_upd(3) [OF mic_idle_refl [OF j]]]])
  qed
  ultimately show ?thesis by (simp add: mic_replaced_def Let_def replace_track_def)
qed

section \<open>Switching the device\<close>

lemma is_kind_local [simp]: "is_kind (s\<lparr>v_local := l\<rparr>) = is_kind s"
  by (simp add: is_kind_def fun_eq_iff)

lemma stop_fold_facts:
  "is_kind (fold stop_track ts s) = is_kind s"
  "track_live (fold stop_track ts s) u \<longleftrightarrow> track_live s u \<and> u \<notin> set ts"
  "hot (fold stop_track ts s) u \<longleftrightarrow> hot s u \<and> u \<notin> set ts"
  "mic_sends (fold stop_track ts s) = mic_sends s" "mic_busy (fold stop_track ts s) = mic_busy s"
  by (auto simp: is_kind_def track_live_def hot_def mic_sends_def mic_busy_def stop_fold_tracks fun_eq_iff
      split: option.splits)

lemma swap_local_facts:
  fixes s t
  defines "s' \<equiv> swap_local AudioTrack t s"
  assumes "is_kind s AudioTrack t"
  shows "local_tracks s' AudioTrack = [t]"
    "track_live s' u \<longleftrightarrow> track_live s u \<and> u \<notin> set (local_tracks s AudioTrack)"
    "hot s' u \<longleftrightarrow> hot s u \<and> u \<notin> set (local_tracks s AudioTrack)"
    "v_tracks s' u = None \<longleftrightarrow> v_tracks s u = None" "mic_sends s' = mic_sends s" "mic_busy s' = mic_busy s"
    "v_local s' = Some ts \<Longrightarrow> set ts \<subseteq> insert t (case v_local s of None \<Rightarrow> {} | Some us \<Rightarrow> set us)"
proof -
  let ?old = "local_tracks s AudioTrack"
  let ?u = "(fold stop_track ?old s)\<lparr>v_local := Some (filter (\<lambda>x. x \<notin> set ?old)
      (case v_local s of None \<Rightarrow> [] | Some ts \<Rightarrow> ts))\<rparr>"
  have s': "s' = add_local t ?u" by (simp add: s'_def swap_local_def Let_def)
  note k = is_kind_local stop_fold_facts(1)
  have "local_tracks ?u AudioTrack = filter (is_kind s AudioTrack)
      (filter (\<lambda>x. x \<notin> set ?old) (case v_local s of None \<Rightarrow> [] | Some ts \<Rightarrow> ts))"
    unfolding local_tracks_def [of ?u] k by simp
  also have "\<dots> = []"
    by (cases "v_local s") (auto simp: local_tracks_def filter_empty_conv)
  finally have "local_tracks ?u AudioTrack = []" .
  with assms(2) show "local_tracks s' AudioTrack = [t]" by (simp add: s' local_add_local k)
  show "track_live s' u \<longleftrightarrow> track_live s u \<and> u \<notin> set ?old" "hot s' u \<longleftrightarrow> hot s u \<and> u \<notin> set ?old"
    using stop_fold_facts(2,3) [of ?old s u] by (simp_all add: s' track_live_def hot_def)
  show "v_tracks s' u = None \<longleftrightarrow> v_tracks s u = None" by (simp add: s' stop_fold_tracks)
  show "mic_sends s' = mic_sends s" "mic_busy s' = mic_busy s"
    by (auto simp: s' mic_sends_def mic_busy_def fun_eq_iff)
  show "v_local s' = Some ts \<Longrightarrow> set ts \<subseteq> insert t (case v_local s of None \<Rightarrow> {} | Some us \<Rightarrow> set us)"
    by (auto simp: s' add_local_def split: option.splits)
qed

lemma swap_local_frame [simp]:
  "v_pc (swap_local k t s) = v_pc s" "v_audio_sender (swap_local k t s) = v_audio_sender s"
  "v_mic (swap_local k t s) = v_mic s" "v_calls (swap_local k t s) = v_calls s"
  "v_next (swap_local k t s) = v_next s" "v_senders (swap_local k t s) = v_senders s"
  by (simp_all add: swap_local_def Let_def)

lemma swap_local_screen [simp]: "v_screen_video (swap_local k t s) = v_screen_video s"
  by (simp add: swap_local_def Let_def)

lemma mic_idle_swap:
  assumes i: "mic_idle s" and t: "is_kind s AudioTrack t" "track_live s t" "t < v_next s"
    "t \<notin> set (local_tracks s AudioTrack)" "\<not> mic_sends s t"
  shows "mic_idle (swap_local AudioTrack t s)"
proof -
  let ?s = "swap_local AudioTrack t s"
  note f = swap_local_facts [OF t(1)]
  have I: "\<And>u. mic_sends s u \<Longrightarrow> track_live s u \<Longrightarrow> u \<in> set (local_tracks s AudioTrack)"
    "\<And>u. \<not> v_mic s \<Longrightarrow> mic_sends s u \<Longrightarrow> \<not> hot s u"
    "\<And>ts u. v_local s = Some ts \<Longrightarrow> u \<in> set ts \<Longrightarrow> u < v_next s"
    using i by (simp_all add: mic_idle_def)
  have lo: "\<forall>u \<in> set ts. u < v_next s" if "v_local ?s = Some ts" for ts
    using f(7) [OF that] I(3) t(3) by (cases "v_local s") auto
  have se: "mic_sends s u \<Longrightarrow> track_live ?s u \<Longrightarrow> u \<in> set (local_tracks ?s AudioTrack)" for u
    using I(1) [of u] unfolding f(2) by blast
  have mu: "\<not> v_mic s \<Longrightarrow> mic_sends s u \<Longrightarrow> \<not> hot ?s u" for u
    using I(2) by (simp add: f(3))
  have li: "\<forall>u \<in> set (local_tracks ?s AudioTrack). track_live ?s u"
    using t(2,4) by (simp add: f(1,2))
  have "length (local_tracks ?s AudioTrack) \<le> 1" by (simp add: f(1))
  then show ?thesis
    using i lo se mu li unfolding mic_idle_def by (simp add: f(4,5,6))
qed

lemma mic_device_media_inv:
  assumes i: "mic_idle s"
  shows "mic_inv (mic_device_media dev r s)"
proof (cases r)
  case (RMedia ks)
  obtain s1 ts where n: "new_tracks ks s = (s1, ts)" by force
  have m1: "mic_same s s1" by (rule new_tracks_same [OF n mic_idle_inv [OF i]])
  have i1: "mic_idle s1" by (rule mic_idle_same [OF i m1])
  have thr: "mic_idle u \<Longrightarrow> mic_inv (v_throw e u)" for e u
    by (rule mic_idle_inv [OF mic_idle_same [OF _ mic_same_upd(3) [OF mic_idle_refl]]])
  show ?thesis
  proof (cases "filter (is_kind s1 AudioTrack) ts")
    case Nil
    with n RMedia thr [OF i1] show ?thesis by (simp add: mic_device_media_def)
  next
    case (Cons t us)
    then have "t \<in> set (filter (is_kind s1 AudioTrack) ts)" by simp
    then have t: "t \<in> set ts" "is_kind s1 AudioTrack t" by auto
    note tl = new_tracks_kind(2,3) [OF n t(1)]
    have ns: "\<not> mic_sends s1 t"
      using i m1 tl unfolding mic_idle_def mic_same_def mic_sends_def by auto
    have nl: "t \<notin> set (local_tracks s1 AudioTrack)"
    proof
      assume "t \<in> set (local_tracks s1 AudioTrack)"
      then obtain l where "v_local s1 = Some l" "t \<in> set l"
        by (cases "v_local s1") (auto simp: local_tracks_def)
      moreover have "v_local s1 = v_local s" using m1 by (simp add: mic_same_def)
      ultimately have "t < v_next s" using i by (simp add: mic_idle_def)
      with tl show False by simp
    qed
    let ?e = "enable_track (v_mic s1) t s1"
    have ie: "mic_idle ?e" using i1 ns unfolding mic_idle_def by auto
    let ?s2 = "swap_local AudioTrack t ?e"
    have i2: "mic_idle ?s2" using ns nl t tl by (intro mic_idle_swap [OF ie]) auto
    have t2: "t \<in> set (local_tracks ?s2 AudioTrack)" "v_mic ?s2 \<or> \<not> hot ?s2 t" "t < v_next ?s2"
      using swap_local_facts [of ?e t] t tl by auto
    show ?thesis
    proof (cases "v_audio_sender s1")
      case (Some x)
      then have "x < v_next s1" using i1 by (simp add: mic_idle_def)
      then have "mic_inv (v_await (KMicDeviceSet t x dev) ?s2)"
        using t2 by (intro mic_inv_ask [OF i2]) simp
      with Some Cons n RMedia show ?thesis by (simp add: mic_device_media_def Let_def)
    next
      case None
      let ?s3 = "(add_sender t ?s2)\<lparr>v_audio_sender := Some (v_next ?s2),
        v_mic_device := Some (case device_of ?s2 t of None \<Rightarrow> dev | Some d \<Rightarrow> d)\<rparr>"
      have "mic_idle ?s3" if "v_pc s1 \<noteq> None"
        using that t2
        by (intro mic_idle_send [where x = "v_next s1", OF i2 _ _ t2(1)]) (simp_all add: add_sender_def)
      with None Cons n RMedia thr [OF i2] show ?thesis
        by (auto simp: mic_device_media_def Let_def dest: mic_idle_inv)
    qed
  qed
qed (use i in \<open>auto simp: mic_device_media_def intro!: mic_idle_inv mic_idle_same [OF i]
      mic_same_upd mic_idle_refl\<close>)

lemma mic_device_set_inv:
  assumes i: "mic_idle s" and t: "t < v_next s"
    and l: "v_audio_sender s = Some x \<Longrightarrow> track_live s t \<Longrightarrow> t \<in> set (local_tracks s AudioTrack)"
    and m: "v_audio_sender s = Some x \<Longrightarrow> v_mic s \<or> \<not> hot s t"
  shows "mic_inv (mic_device_set t x dev r s)"
proof (cases "r = RErr")
  case True
  then show ?thesis
    using mic_idle_inv [OF mic_idle_same [OF i mic_same_upd(3) [OF mic_idle_refl [OF i]]]]
    by (simp add: mic_device_set_def)
next
  case False
  have "mic_idle ((replace_track x (Some t) s)
      \<lparr>v_mic_device := Some (case device_of s t of None \<Rightarrow> dev | Some d \<Rightarrow> d)\<rparr>)"
    by (rule mic_idle_replace [OF i t l]) (use m in \<open>simp_all add: replace_track_def\<close>)
  with False show ?thesis by (simp add: mic_device_set_def mic_idle_inv)
qed

end
