(* ===== verification/VideoMuted.thy ===== *)
theory VideoMuted
  imports VideoMic
begin

text \<open>
  The invariant of the microphone over whole runs: joining, switching the device, connecting and
  disconnecting keep it, so every step that \<open>mic_ok\<close> admits does, and the machine is an
  \<open>invariant_machine\<close>.
\<close>

section \<open>Joining\<close>

lemma same_tracks:
  assumes "v_tracks t = v_tracks s"
  shows "is_kind t = is_kind s" "hot t = hot s" "track_live t = track_live s"
  using assms by (simp_all add: is_kind_def hot_def track_live_def fun_eq_iff)

lemma add_muted_tracks: "v_tracks (add_muted t u) = v_tracks (enable_track False t u)"
  by (simp add: add_muted_def Let_def add_sender_def replace_track_def)

lemma add_muted_frame [simp]:
  "v_pc (add_muted t u) = v_pc u" "v_closed (add_muted t u) = v_closed u"
  "v_local (add_muted t u) = v_local u" "v_next (add_muted t u) = Suc (v_next u)"
  "v_calls (add_muted t u) = v_calls u" "v_screen_video (add_muted t u) = v_screen_video u"
  "is_kind (add_muted t u) = is_kind u"
proof -
  show "is_kind (add_muted t u) = is_kind u" by (simp add: same_tracks(1) [OF add_muted_tracks])
qed (simp_all add: add_muted_def Let_def add_sender_def replace_track_def)

lemma add_muted_local [simp]: "local_tracks (add_muted t u) k = local_tracks u k"
  by (simp add: local_tracks_def split: option.split)

lemma add_muted_mic: "add_muted t (u\<lparr>v_mic := b\<rparr>) = (add_muted t u)\<lparr>v_mic := b\<rparr>"
  by (simp add: add_muted_def Let_def add_sender_def replace_track_def enable_track_def set_track_def
      device_of_def is_kind_def)

lemma fold_add_muted_mic: "fold add_muted ts (u\<lparr>v_mic := b\<rparr>) = (fold add_muted ts u)\<lparr>v_mic := b\<rparr>"
  by (induction ts arbitrary: u) (simp_all add: add_muted_mic)

lemma mic_idle_add_video:
  assumes i: "mic_idle u" and k: "is_kind u VideoTrack t"
  shows "mic_idle (add_muted t u)"
proof -
  let ?v = "enable_track False t u"
  have j: "mic_idle ?v" using i by (simp add: mic_idle_def)
  have v: "add_muted t u = ?v\<lparr>v_senders := (v_senders u)(v_next u \<mapsto> None), v_next := Suc (v_next u),
      v_video_sender := Some (v_next u), v_cam_device := device_of ?v t\<rparr>"
    using k by (simp add: add_muted_def Let_def add_sender_def replace_track_def device_of_def)
  have x: "v_audio_sender u = Some x \<Longrightarrow> x < v_next u" for x using i by (simp add: mic_idle_def)
  have s: "mic_sends (add_muted t u) = mic_sends ?v"
    using x by (force simp: v mic_sends_def fun_eq_iff)
  have f: "v_tracks (add_muted t u) = v_tracks ?v" "v_audio_sender (add_muted t u) = v_audio_sender ?v"
    "v_mic (add_muted t u) = v_mic ?v"
    by (simp_all add: v)
  have h: "hot (add_muted t u) = hot ?v" "track_live (add_muted t u) = track_live ?v"
    by (rule same_tracks [OF f(1)])+
  have b: "mic_busy (add_muted t u) = mic_busy ?v" by (simp add: mic_busy_def)
  show ?thesis
    using j x unfolding mic_idle_def s h b f by (auto intro: less_SucI)
qed

lemma mic_idle_add_audio:
  assumes i: "mic_idle u" and pc: "v_pc u \<noteq> None" and k: "\<not> is_kind u VideoTrack t"
    and t: "t < v_next u" "t \<in> set (local_tracks u AudioTrack)"
  shows "mic_idle (add_muted t u)"
proof -
  let ?v = "enable_track False t u"
  have j: "mic_idle ?v" using i by (simp add: mic_idle_def)
  show ?thesis
    using k t pc
    by (intro mic_idle_send [where x = "v_next u" and t = t, OF j])
      (simp_all add: add_muted_def Let_def add_sender_def)
qed

lemma mic_idle_join:
  assumes "mic_idle u" "v_pc u \<noteq> None"
    and "\<forall>t \<in> set ts. t < v_next u \<and>
      (\<not> is_kind u VideoTrack t \<longrightarrow> t \<in> set (local_tracks u AudioTrack))"
  shows "mic_idle (fold add_muted ts u)"
  using assms
proof (induction ts arbitrary: u)
  case (Cons t ts)
  have "mic_idle (add_muted t u)"
    using mic_idle_add_video mic_idle_add_audio Cons.prems by (cases "is_kind u VideoTrack t") auto
  moreover have "\<forall>x \<in> set ts. x < v_next (add_muted t u) \<and>
      (\<not> is_kind (add_muted t u) VideoTrack x \<longrightarrow> x \<in> set (local_tracks (add_muted t u) AudioTrack))"
    using Cons.prems(3) by auto
  ultimately show ?case using Cons.IH [of "add_muted t u"] Cons.prems(2) by simp
qed simp

lemma mic_idle_first_local:
  assumes i: "mic_idle s" and l: "v_local s = None"
    and ts: "\<forall>t \<in> set ts. t < v_next s \<and> track_live s t" "length (filter (is_kind s AudioTrack) ts) \<le> 1"
  shows "mic_idle (s\<lparr>v_local := Some ts, v_mic := False\<rparr>)"
proof -
  let ?u = "s\<lparr>v_local := Some ts, v_mic := False\<rparr>"
  have k: "is_kind ?u = is_kind s" by (simp add: is_kind_def fun_eq_iff)
  have lt: "local_tracks ?u AudioTrack = filter (is_kind s AudioTrack) ts"
    by (simp add: local_tracks_def k)
  have old: "local_tracks s AudioTrack = []" using l by (simp add: local_tracks_def)
  have dead: "mic_sends s t \<Longrightarrow> \<not> track_live s t" for t
    using i old by (auto simp: mic_idle_def)
  have f: "track_live ?u = track_live s" "hot ?u = hot s" "mic_sends ?u = mic_sends s" "mic_busy ?u = mic_busy s"
    by (auto simp: track_live_def hot_def mic_sends_def mic_busy_def fun_eq_iff)
  show ?thesis
    using i ts dead hot_live [of s] unfolding mic_idle_def f lt by auto
qed

lemma mic_same_cam [simp]: "mic_same s (t\<lparr>v_cam := b\<rparr>) = mic_same s t"
  by (simp add: mic_same_def)

lemma mic_same_stop_fresh:
  assumes n: "new_tracks ks s = (s1, ts)" and i: "mic_inv s"
  shows "mic_same s (fold stop_track ts s1)"
proof -
  have m: "mic_same s s1" by (rule new_tracks_same [OF n i])
  have "u < v_next s \<Longrightarrow> u \<notin> set ts" for u using new_tracks_kind(3) [OF n] by fastforce
  moreover have "v_next s1 \<le> u \<Longrightarrow> u \<notin> set ts" for u using new_tracks_kind(3) [OF n] by fastforce
  ultimately show ?thesis using m by (simp add: mic_same_def stop_fold_tracks)
qed

lemma join_media_inv:
  assumes i: "mic_idle s" and p: "pc \<in> v_closed s \<or> v_pc s = Some pc \<and> v_local s = None"
    and r: "\<And>ks. r = RMedia ks \<Longrightarrow> length (filter (\<lambda>k. fst k = AudioTrack) ks) \<le> 1"
  shows "mic_inv (join_media pc r s)"
proof (cases r)
  case (RMedia ks)
  obtain s1 ts where n: "new_tracks ks s = (s1, ts)" by force
  note m1 = new_tracks_same [OF n mic_idle_inv [OF i]] and fr = new_tracks_frame [OF n]
  show ?thesis
  proof (cases "pc \<in> v_closed s")
    case True
    then have "join_media pc r s = fold stop_track ts s1"
      using RMedia n fr by (simp add: join_media_def pc_closed_def)
    then show ?thesis using mic_inv_same [OF mic_idle_inv [OF i] mic_same_stop_fresh [OF n mic_idle_inv [OF i]]]
      by simp
  next
    case False
    let ?u = "s1\<lparr>v_local := Some ts, v_mic := False\<rparr>"
    have "mic_idle ?u"
      using False p fr new_tracks_kind [OF n] r [OF RMedia]
      by (intro mic_idle_first_local [OF mic_idle_same [OF i m1]]) auto
    moreover have "\<forall>t \<in> set ts. t < v_next ?u \<and>
        (\<not> is_kind ?u VideoTrack t \<longrightarrow> t \<in> set (local_tracks ?u AudioTrack))"
    proof
      fix t assume t: "t \<in> set ts"
      have "track_live s1 t" "t < v_next s1" using new_tracks_kind [OF n] t by auto
      then show "t < v_next ?u \<and> (\<not> is_kind ?u VideoTrack t \<longrightarrow> t \<in> set (local_tracks ?u AudioTrack))"
        using t by (auto simp: local_tracks_def is_kind_def track_live_def split: option.splits)
          (metis track_kind.exhaust)
    qed
    moreover have "v_pc ?u \<noteq> None" using False p fr by simp
    ultimately have j: "mic_idle (fold add_muted ts ?u)" by (intro mic_idle_join)
    have e: "join_media pc r s = v_await (KJoinCreated pc) ((fold add_muted ts ?u)\<lparr>v_cam := False\<rparr>)"
      using False RMedia n fr fold_add_muted_mic [of ts False "s1\<lparr>v_local := Some ts\<rparr>"]
      by (simp add: join_media_def pc_closed_def)
    show ?thesis
      unfolding e by (rule mic_inv_same [OF mic_idle_inv [OF j]])
        (use mic_idle_refl [OF j] in \<open>simp add: mic_same_await\<close>)
  qed
qed (use mic_idle_refl [OF i] in \<open>auto simp: join_media_def pc_closed_def mic_same_await
      intro!: mic_inv_same [OF mic_idle_inv [OF i]]\<close>)

section \<open>Connecting and disconnecting\<close>

lemma mic_inv_connect:
  assumes i: "mic_inv s"
  shows "mic_inv (v_connect s)"
proof (cases "v_ws s \<noteq> None \<or> v_pc s \<noteq> None")
  case True
  with i show ?thesis by (simp add: v_connect_def)
next
  case False
  let ?t = "v_connect s"
  have f: "v_local ?t = v_local s" "v_tracks ?t = v_tracks s" "v_senders ?t = v_senders s"
    "v_audio_sender ?t = v_audio_sender s" "v_mic ?t = v_mic s" "v_calls ?t = v_calls s"
    "v_closed ?t = v_closed s" "v_screen_video ?t = v_screen_video s" "v_next ?t = Suc (Suc (v_next s))"
    "v_pc ?t = Some (v_next s)"
    using False by (simp_all add: v_connect_def Let_def)
  have k: "is_kind ?t = is_kind s" "track_live ?t = track_live s" "hot ?t = hot s"
    "mic_sends ?t = mic_sends s"
    by (auto simp: is_kind_def track_live_def hot_def mic_sends_def f fun_eq_iff)
  have l: "local_tracks ?t = local_tracks s" by (simp add: local_tracks_def k f fun_eq_iff split: option.split)
  have c: "v_calls s n = Some (KJoinMedia pc) \<Longrightarrow> pc \<in> v_closed s" for n pc
    using i False unfolding mic_inv_def mic_links_def by fastforce
  have "mic_links ?t"
    using i c unfolding mic_inv_def mic_links_def f k by (auto simp: less_Suc_eq)
  moreover have "mic_calls ?t"
    using i unfolding mic_inv_def mic_calls_def f by (fastforce intro: less_SucI)
  moreover have "mic_tracks ?t" "mic_muted ?t"
    using i unfolding mic_inv_def mic_tracks_def mic_muted_def f k l by simp_all
  ultimately show ?thesis by (simp add: mic_inv_def)
qed

lemma disconnect_facts:
  "v_pc (v_disconnect s) = None" "v_local (v_disconnect s) = None" "v_audio_sender (v_disconnect s) = None"
  "v_calls (v_disconnect s) = v_calls s" "v_next (v_disconnect s) = Suc (v_next s)"
  "v_screen_video (v_disconnect s) = None" "v_mic (v_disconnect s) = v_mic s" "v_ws (v_disconnect s) = None"
  "v_closed (v_disconnect s) = v_closed s \<union> set_option (v_pc s)"
  "v_tracks (v_disconnect s) t = None \<longleftrightarrow> v_tracks s t = None"
  by (simp_all add: v_disconnect_def Let_def stop_fold_tracks split: option.split)

lemma mic_inv_disconnect:
  assumes i: "mic_inv s"
  shows "mic_inv (v_disconnect s)"
proof -
  let ?t = "v_disconnect s"
  note f = disconnect_facts [of s]
  have n: "\<not> mic_sends ?t u" for u by (simp add: mic_sends_def f)
  have l: "local_tracks ?t k = []" for k by (simp add: local_tracks_def f)
  have "v_calls s n = Some (KJoinMedia pc) \<Longrightarrow> pc \<in> v_closed ?t" for n pc
    using i unfolding mic_inv_def mic_links_def f by fastforce
  moreover have "v_next ?t \<le> t \<Longrightarrow> v_tracks ?t t = None" for t
    using i unfolding mic_inv_def mic_links_def f by simp
  ultimately have "mic_links ?t" using n by (simp add: mic_links_def f(1,2,3,4,6))
  moreover have "mic_calls ?t"
    using i unfolding mic_inv_def mic_calls_def f by (fastforce intro: less_SucI)
  moreover have "mic_tracks ?t" "mic_muted ?t"
    by (simp_all add: mic_tracks_def mic_muted_def n l f)
  ultimately show ?thesis by (simp add: mic_inv_def)
qed

section \<open>A track that ends\<close>

lemma mic_inv_stop:
  assumes i: "mic_inv s" and t: "t \<notin> set (local_tracks s AudioTrack)"
  shows "mic_inv (stop_track t s)"
proof -
  let ?t = "stop_track t s"
  have k: "is_kind ?t = is_kind s"
    using stop_fold_facts(1) [of "[t]" s] by simp
  have l: "local_tracks ?t = local_tracks s"
    by (simp add: local_tracks_def k fun_eq_iff stop_track_def split: option.split) (simp add: k [unfolded stop_track_def])
  have tl: "track_live ?t u \<longleftrightarrow> track_live s u \<and> u \<noteq> t" "hot ?t u \<longleftrightarrow> hot s u \<and> u \<noteq> t" for u
    using stop_fold_facts(2,3) [of "[t]" s u] by simp_all
  have ms: "mic_sends ?t = mic_sends s" using stop_fold_facts(4) [of "[t]" s] by simp
  have f: "v_pc ?t = v_pc s" "v_closed ?t = v_closed s" "v_local ?t = v_local s" "v_calls ?t = v_calls s"
    "v_audio_sender ?t = v_audio_sender s" "v_mic ?t = v_mic s" "v_next ?t = v_next s"
    "v_screen_video ?t = v_screen_video s" "v_tracks ?t u = None \<longleftrightarrow> v_tracks s u = None" for u
    by (simp_all add: stop_track_def)
  have "mic_links ?t" "mic_calls ?t" "mic_muted ?t"
    using i unfolding mic_inv_def mic_links_def mic_calls_def mic_muted_def f ms tl by simp_all
  moreover have "mic_tracks ?t"
    using i t unfolding mic_inv_def mic_tracks_def f ms l tl by blast
  ultimately show ?thesis by (simp add: mic_inv_def)
qed

lemma mic_inv_ended:
  assumes i: "mic_inv s" and t: "t \<notin> set (local_tracks s AudioTrack)"
  shows "mic_inv (track_ended t s)"
proof -
  let ?t = "stop_track t s"
  have j: "mic_inv ?t" by (rule mic_inv_stop [OF i t])
  then have "v_screen_video ?t = None" by (simp add: mic_inv_def mic_links_def)
  then have u: "unpublish_screen ?t = ?t" by (simp add: unpublish_screen_def split: option.split)
  have "mic_same ?t (v_emit e (set_part p r ?t))" "mic_same ?t (?t\<lparr>v_screen_audio := a\<rparr>)" for e p r a
    using mic_same_refl [OF j] by (simp_all add: mic_same_upd) (simp add: mic_same_def)
  then show ?thesis
    using j by (auto simp: track_ended_def Let_def u intro: mic_inv_same split: option.split ended_job.split)
qed

section \<open>Every step\<close>

lemma mic_inv_resume:
  assumes i: "mic_inv s" and n: "v_calls s n = Some k" and ok: "mic_ok (VResume n r) s"
  shows "mic_inv (v_resume k r (s\<lparr>v_calls := (v_calls s)(n := None)\<rparr>))"
proof -
  let ?s = "s\<lparr>v_calls := (v_calls s)(n := None)\<rparr>"
  have j: "mic_inv ?s" and d: "mic_call k \<Longrightarrow> mic_idle ?s" using mic_inv_answered [OF i n] by simp_all
  note m = mic_same_refl [OF j]
  have f: "is_kind ?s = is_kind s" "hot ?s = hot s" "track_live ?s = track_live s"
    by (rule same_tracks; simp)+
  have "local_tracks ?s AudioTrack = local_tracks s AudioTrack"
    by (simp add: local_tracks_def f split: option.split)
  note l = this f(2,3)
  have "\<not> side_call k" using i n by (simp add: mic_inv_def mic_calls_def)
  have join: "mic_inv (join_media pc r ?s)" if "k = KJoinMedia pc" for pc
    using d that ok i n by (intro join_media_inv) (auto simp: mic_inv_def mic_links_def)
  have mic: "mic_inv (mic_media r ?s)" if "k = KMicMedia"
    using d that i n by (intro mic_media_inv) (auto simp: mic_inv_def mic_tracks_def l)
  have rep: "mic_inv (mic_replaced t x r ?s)" if "k = KMicReplaced t x" for t x
  proof (rule mic_replaced_inv)
    show "mic_idle ?s" using d that by simp
    show "t < v_next ?s" using i n that unfolding mic_inv_def mic_calls_def by auto
    show "t \<in> set (local_tracks ?s AudioTrack)" if "v_audio_sender ?s = Some x" "track_live ?s t"
      using i n that \<open>k = KMicReplaced t x\<close> unfolding l mic_inv_def mic_tracks_def by auto
  qed
  have dev: "mic_inv (mic_device_set t x dv r ?s)" if "k = KMicDeviceSet t x dv" for t x dv
  proof (rule mic_device_set_inv)
    show "mic_idle ?s" using d that by simp
    show "t < v_next ?s" using i n that unfolding mic_inv_def mic_calls_def by simp blast
    show "t \<in> set (local_tracks ?s AudioTrack)" if "v_audio_sender ?s = Some x" "track_live ?s t"
      using i n that \<open>k = KMicDeviceSet t x dv\<close> unfolding l mic_inv_def mic_tracks_def by simp blast
    show "v_mic ?s \<or> \<not> hot ?s t" if "v_audio_sender ?s = Some x"
      using i n that \<open>k = KMicDeviceSet t x dv\<close> unfolding l mic_inv_def mic_muted_def by simp blast
  qed
  have "k = KMicDevice dv \<Longrightarrow> mic_inv (mic_device_media dv r ?s)" for dv
    using d by (simp add: mic_device_media_inv)
  moreover have "mic_inv (v_resume k r ?s)" if "\<not> mic_call k"
    using that \<open>\<not> side_call k\<close>
    by (cases k) (auto intro!: mic_inv_same [OF j] mic_same_signaling mic_same_upd m)
  ultimately show ?thesis using join mic rep dev by (cases "mic_call k") (cases k; simp)+
qed

lemma mic_inv_step:
  assumes i: "mic_inv s" and ok: "mic_ok e s"
  shows "mic_inv (v_step e s)"
proof -
  note m = mic_same_refl [OF i] and st = mic_inv_same [OF i]
  show ?thesis
  proof (cases e)
    case VEnableMic
    with ok show ?thesis by (simp add: mic_inv_enable_mic [OF mic_inv_idle [OF i]])
  next
    case VToggleMic
    with ok show ?thesis
      by (simp add: toggle_mic_def mic_inv_disable_mic [OF i] mic_inv_enable_mic [OF mic_inv_idle [OF i]])
  next
    case (VSetMicDevice d)
    with ok i show ?thesis by (simp add: set_mic_device_def mic_inv_ask [OF mic_inv_idle [OF i]])
  next
    case (VSockOpened w)
    let ?s = "s\<lparr>v_socks := (v_socks s)(w \<mapsto> OPEN)\<rparr>"
    have "mic_idle ?s"
      using mic_idle_same [OF mic_inv_idle [OF i]] ok VSockOpened m by simp
    from mic_inv_ask [OF this] mic_idle_inv [OF this] VSockOpened ok i show ?thesis
      by (auto simp: create_and_send_offer_def split: option.split)
  next
    case (VResume n r)
    show ?thesis
    proof (cases "v_calls s n")
      case (Some k)
      with mic_inv_resume [OF i Some] ok VResume show ?thesis by simp
    qed (use VResume i in simp)
  next
    case (VOnTrack k streams)
    have "mic_same s (s\<lparr>v_tracks := (v_tracks s)(v_next s \<mapsto> x), v_next := Suc (v_next s)\<rparr>)" for x
      using m by (auto simp: mic_same_def)
    with VOnTrack show ?thesis by (simp add: st mic_same_signaling)
  next
    case (VTrackEnds t)
    with ok i show ?thesis by (simp add: mic_inv_ended)
  next
    case (VPoll spectrum)
    then show ?thesis by (simp add: st mic_same_poll m)
  qed (use ok m in \<open>auto simp: i mic_inv_connect mic_inv_disconnect mic_inv_disable_mic set_deafened_def
      intro!: st mic_same_signaling mic_same_upd\<close>)
qed

interpretation micm: invariant_machine v_step mic_ok mic_inv
  by unfold_locales (rule mic_inv_step)

lemma mic_inv_new: "mic_inv (new_video user session)"
  by (simp add: mic_inv_def mic_links_def mic_calls_def mic_tracks_def mic_muted_def new_video_def
      local_tracks_def mic_sends_def)

end
