(* ===== verification/VideoKeeps.thy ===== *)
theory VideoKeeps
  imports VideoLemmas
begin

text \<open>
  What every operation but \<open>disconnect\<close> keeps for the rest of the session: its user and session
  id, closed connections stay
  closed, \<open>joined\<close> stays set, the chain of server messages stays the same and, once a handler
  has rejected, stays jammed. \<open>disconnect\<close> starts a new chain and keeps the rest.
\<close>

definition keeps :: "vc \<Rightarrow> vc \<Rightarrow> bool" where
  "keeps s t \<longleftrightarrow> v_closed s \<subseteq> v_closed t \<and> v_chain t = v_chain s \<and> (v_joined s \<longrightarrow> v_joined t) \<and>
     (\<forall>g. jammed (v_chains s g) \<longrightarrow> jammed (v_chains t g)) \<and>
     v_session t = v_session s \<and> v_user t = v_user s"

lemma keeps_refl [simp]: "keeps s s"
  by (simp add: keeps_def)

lemma keeps_trans: "keeps s t \<Longrightarrow> keeps t u \<Longrightarrow> keeps s u"
  by (auto simp: keeps_def)

lemma v_send_frame_chains [simp]:
  "v_chain (v_send f s) = v_chain s" "v_chains (v_send f s) = v_chains s"
  "v_session (v_send f s) = v_session s" "v_user (v_send f s) = v_user s"
  by (simp_all add: v_send_def v_log_def split: option.split)

lemma keeps_small [simp]:
  "keeps s (v_log es t) = keeps s t" "keeps s (v_send f t) = keeps s t" "keeps s (v_await k t) = keeps s t"
  "keeps s (v_throw e t) = keeps s t" "keeps s (v_emit ev t) = keeps s t" "keeps s (set_track h i t) = keeps s t"
  "keeps s (add_local i t) = keeps s t" "keeps s (add_sender i t) = keeps s t"
  "keeps s (replace_track i x t) = keeps s t" "keeps s (set_part h2 r t) = keeps s t"
  by (simp_all add: keeps_def v_throw_def v_emit_def v_log_def add_local_def add_sender_def v_await_def
      replace_track_def set_part_def set_track_def)

lemma keeps_stop [simp]: "keeps s (stop_track i t) = keeps s t" "keeps s (enable_track b i t) = keeps s t"
  by (simp_all add: stop_track_def enable_track_def)

lemma keeps_stop_fold [simp]: "keeps s (fold stop_track ts t) = keeps s t"
  by (induction ts arbitrary: t) simp_all

lemma keeps_upd [simp]:
  "keeps s (t\<lparr>v_mic := b\<rparr>) = keeps s t" "keeps s (t\<lparr>v_cam := b\<rparr>) = keeps s t"
  "keeps s (t\<lparr>v_mic_device := d\<rparr>) = keeps s t" "keeps s (t\<lparr>v_cam_device := d\<rparr>) = keeps s t"
  "keeps s (t\<lparr>v_audio_sender := x\<rparr>) = keeps s t" "keeps s (t\<lparr>v_video_sender := x\<rparr>) = keeps s t"
  "keeps s (t\<lparr>v_screen_video := x\<rparr>) = keeps s t" "keeps s (t\<lparr>v_screen_audio := x\<rparr>) = keeps s t"
  "keeps s (t\<lparr>v_screen_vsender := x\<rparr>) = keeps s t" "keeps s (t\<lparr>v_screen_asender := x\<rparr>) = keeps s t"
  "keeps s (t\<lparr>v_ended := y\<rparr>) = keeps s t" "keeps s (t\<lparr>v_local := l\<rparr>) = keeps s t"
  "keeps s (t\<lparr>v_parts := p\<rparr>) = keeps s t" "keeps s (t\<lparr>v_meta := m\<rparr>) = keeps s t"
  "keeps s (t\<lparr>v_silence := z\<rparr>) = keeps s t" "keeps s (t\<lparr>v_calls := c\<rparr>) = keeps s t"
  "keeps s (t\<lparr>v_socks := w\<rparr>) = keeps s t" "keeps s (t\<lparr>v_next := n\<rparr>) = keeps s t"
  "keeps s (t\<lparr>v_pending := cs\<rparr>) = keeps s t" "keeps s (t\<lparr>v_pid := i\<rparr>) = keeps s t"
  "keeps s (t\<lparr>v_heap := hp\<rparr>) = keeps s t" "keeps s (t\<lparr>v_tracks := tr\<rparr>) = keeps s t"
  "keeps s (t\<lparr>v_analysers := an\<rparr>) = keeps s t" "keeps s (t\<lparr>v_polling := b\<rparr>) = keeps s t"
  "keeps s (t\<lparr>v_pc := pc\<rparr>) = keeps s t" "keeps s (t\<lparr>v_ws := wo\<rparr>) = keeps s t"
  by (simp_all add: keeps_def)

lemma keeps_joins: "keeps s t \<Longrightarrow> keeps s (t\<lparr>v_joined := True\<rparr>)"
  by (simp add: keeps_def)

lemma keeps_chain: "keeps s t \<Longrightarrow> (\<And>c. jammed c \<Longrightarrow> jammed (f c)) \<Longrightarrow> keeps s (chain_upd g f t)"
  by (auto simp: keeps_def chain_upd_def)

lemma keeps_handler: "keeps s t \<Longrightarrow> keeps s (handler_done g t)" "keeps s t \<Longrightarrow> keeps s (handler_rejects g e t)"
  by (simp_all add: handler_done_def handler_rejects_def keeps_chain)

lemma keeps_new_tracks:
  assumes "new_tracks ks t = (t', ts)"
  shows "keeps s t' = keeps s t"
proof -
  have "v_chain t' = v_chain t \<and> v_chains t' = v_chains t \<and> v_session t' = v_session t \<and> v_user t' = v_user t"
    using assms
    by (induction ks t arbitrary: ts rule: new_tracks.induct) (auto simp: Let_def split: prod.splits)
  then show ?thesis using new_tracks_frame [OF assms] by (simp add: keeps_def)
qed

lemma keeps_fold: "(\<And>x t. keeps s t \<Longrightarrow> keeps s (f x t)) \<Longrightarrow> keeps s t \<Longrightarrow> keeps s (fold f xs t)"
  by (induction xs arbitrary: t) auto

lemma keeps_add_muted: "keeps s t \<Longrightarrow> keeps s (fold add_muted ts t)"
  by (rule keeps_fold) (simp_all add: add_muted_def Let_def)

lemmas keeps_simps = renegotiate_def finish_mic_def finish_cam_def encode_cam_def cam_device_encode_def Let_def

lemma keeps_swap [simp]: "keeps s (swap_local k i t) = keeps s t"
  by (simp add: swap_local_def Let_def)

lemma keeps_media:
  assumes k: "keeps s t"
  shows "keeps s (join_media pc r t)" "keeps s (mic_media r t)" "keeps s (cam_media r t)"
    "keeps s (mic_device_media d r t)" "keeps s (cam_device_media d r t)" "keeps s (screen_media r t)"
  using k by (auto simp: keeps_simps join_media_def mic_media_def cam_media_def mic_device_media_def
      cam_device_media_def screen_media_def keeps_new_tracks intro!: keeps_add_muted
      split: option.split v_result.split prod.split list.split)

lemma keeps_controls:
  assumes k: "keeps s t"
  shows "keeps s (enable_mic t)" "keeps s (disable_mic t)" "keeps s (mic_replaced i x r t)"
    "keeps s (enable_camera t)" "keeps s (cam_constrained i t)" "keeps s (cam_swapped i x r t)"
    "keeps s (cam_replaced i x r t)" "keeps s (disable_camera t)" "keeps s (finish_cam b t)"
    "keeps s (set_mic_device d t)" "keeps s (mic_device_set i x d r t)" "keeps s (set_camera_device d t)"
    "keeps s (cam_device_set i x b d r t)" "keeps s (cam_device_encoded i d t)"
    "keeps s (reneg_created r t)" "keeps s (reneg_local sdp r t)"
  using k by (auto simp: keeps_simps enable_mic_def disable_mic_def mic_replaced_def enable_camera_def
      cam_constrained_def cam_swapped_def cam_replaced_def disable_camera_def set_mic_device_def
      mic_device_set_def set_camera_device_def cam_device_set_def cam_device_encoded_def
      reneg_created_def reneg_local_def split: option.split list.split)

lemma keeps_screen:
  assumes k: "keeps s t"
  shows "keeps s (publish_screen p t)" "keeps s (screen_params i a t)" "keeps s (screen_created r t)"
    "keeps s (screen_local sdp r t)" "keeps s (unpublish_screen t)" "keeps s (unpub_created r t)"
    "keeps s (track_ended i t)"
proof -
  have u: "keeps s (unpublish_screen u) = keeps s u" for u
    by (auto simp: keeps_simps unpublish_screen_def split: option.split)
  show "keeps s (publish_screen p t)" "keeps s (screen_params i a t)" "keeps s (screen_created r t)"
    "keeps s (screen_local sdp r t)" "keeps s (unpublish_screen t)" "keeps s (unpub_created r t)"
    "keeps s (track_ended i t)"
    using k by (auto simp: keeps_simps publish_screen_def screen_params_def screen_created_def
        screen_local_def unpub_created_def track_ended_def u split: option.split ended_job.split)
qed

lemma keeps_message:
  assumes k: "keeps s t"
  shows "keeps s (handle_server_message g m t)"
proof -
  have "keeps s (register_stream x u) = keeps s u" for x u
    by (simp add: register_stream_def Let_def split: option.split)
  then have "keeps s (fold register_stream ts t)" for ts using k by (intro keeps_fold) simp_all
  with k show ?thesis
    by (auto simp: handle_server_message_def keeps_simps participant_joined_def participant_left_def
        participant_muted_def participant_deafened_def force_disconnected_def
        intro!: keeps_handler split: option.split server_msg.split)
qed

lemma keeps_signaling:
  assumes k: "keeps s t"
  shows "keeps s (pump g t)" "keeps s (enqueue_msg m t)" "keeps s (answer_set g pid r t)"
    "keeps s (offer_set g r t)" "keeps s (offer_answer g r t)" "keeps s (offer_local g sdp r t)"
    "keeps s (create_and_send_offer t)" "keeps s (join_created pc r t)" "keeps s (join_local pc sdp r t)"
    "keeps s (on_ice_candidate c t)" "keeps s (on_connection_failed st t)" "keeps s (v_connect t)"
    "keeps s (on_track i kd streams t)" "keeps s (check_speaking_levels spectrum t)"
proof -
  have lv: "keeps s u \<Longrightarrow> keeps s (check_level spectrum p u)" for p u
    by (auto simp: check_level_def Let_def split: option.split prod.split)
  have send: "keeps s u \<Longrightarrow> keeps s (fold (\<lambda>c. v_send (FIce c)) cs u)" for cs u
    by (rule keeps_fold) simp_all
  show "keeps s (pump g t)" "keeps s (enqueue_msg m t)" "keeps s (answer_set g pid r t)"
    "keeps s (offer_set g r t)" "keeps s (offer_answer g r t)" "keeps s (offer_local g sdp r t)"
    "keeps s (create_and_send_offer t)" "keeps s (join_created pc r t)" "keeps s (join_local pc sdp r t)"
    "keeps s (on_ice_candidate c t)" "keeps s (on_connection_failed st t)" "keeps s (v_connect t)"
    "keeps s (on_track i kd streams t)" "keeps s (check_speaking_levels spectrum t)"
    using k by (auto simp: pump_def enqueue_msg_def answer_set_def offer_set_def offer_answer_def
        offer_local_def offer_stage_def create_and_send_offer_def join_created_def join_local_def
        on_ice_candidate_def on_connection_failed_def v_connect_def on_track_def setup_level_detection_def
        check_speaking_levels_def Let_def
        intro!: keeps_message keeps_handler keeps_chain keeps_joins send keeps_fold lv
        split: option.split list.split v_result.split prod.split track_kind.split track_source.split)
qed

lemma keeps_resume: "keeps s t \<Longrightarrow> keeps s (v_resume k r t)"
  by (cases k) (simp_all add: keeps_signaling keeps_media keeps_controls keeps_screen keeps_handler)

lemma keeps_step: "e \<noteq> VDisconnect \<Longrightarrow> keeps s (v_step e s)"
  by (cases e) (auto simp: keeps_signaling keeps_controls keeps_screen keeps_resume toggle_mic_def
      toggle_camera_def set_deafened_def split: option.split)

lemma stop_fold_session [simp]:
  "v_session (fold stop_track ts s) = v_session s" "v_user (fold stop_track ts s) = v_user s"
  by (induction ts arbitrary: s) (simp_all add: stop_track_def set_track_def)

lemma disconnect_keeps:
  "v_closed s \<subseteq> v_closed (v_disconnect s)" "v_joined s \<Longrightarrow> v_joined (v_disconnect s)"
  "v_session (v_disconnect s) = v_session s" "v_user (v_disconnect s) = v_user s"
  by (auto simp: v_disconnect_def v_log_def Let_def split: option.split)

lemma session_step: "v_session (v_step e s) = v_session s" "v_user (v_step e s) = v_user s"
  using keeps_step [of e s] disconnect_keeps(3,4) [of s]
  by (cases "e = VDisconnect"; simp add: keeps_def)+

interpretation session: monotone_machine v_step "\<lambda>e _. e \<noteq> VDisconnect" "\<lambda>_. True" keeps
  by unfold_locales (auto intro: keeps_trans keeps_step)

interpretation closed: monotone_machine v_step "\<lambda>_ _. True" "\<lambda>_. True" "\<lambda>s t. v_closed s \<subseteq> v_closed t"
proof unfold_locales
  fix e s show "v_closed s \<subseteq> v_closed (v_step e s)"
    using keeps_step [of e s] disconnect_keeps(1) [of s] by (cases "e = VDisconnect") (auto simp: keeps_def)
qed auto

end
