(* ===== verification/VideoProps.thy ===== *)
theory VideoProps
  imports VideoMuted VideoKeeps
begin

text \<open>
  The properties of the video client: trickled candidates, the muted microphone, what
  \<open>disconnect\<close> releases, the routing of remote tracks, voice activity, and the ways in which the
  code falls short of what it means to do.
\<close>

section \<open>Trickle ICE\<close>

text \<open>The start of a session: connected, offer sent, without a permission prompt granted.\<close>

definition join_run :: "v_result \<Rightarrow> v_input list" where
  "join_run media =
     [VConnect, VSockOpened 2, VResume 3 media]"

lemmas v_eval = new_video_def empty_chain_def v_connect_def create_and_send_offer_def join_media_def
  join_created_def join_local_def pc_closed_def add_muted_def add_sender_def replace_track_def
  device_of_def is_kind_def local_tracks_def track_live_def hot_def mic_busy_def
  enable_track_def stop_track_def set_track_def v_await_def v_send_def v_log_def v_emit_def v_throw_def
  enqueue_msg_def pump_def chain_upd_def handle_server_message_def answer_set_def handler_done_def
  handler_rejects_def on_ice_candidate_def first_live_def enable_mic_def disable_mic_def finish_mic_def
  mic_media_def mic_replaced_def add_local_def v_disconnect_def opt_list_def track_ended_def Let_def

text \<open>C6. In every session whose link is open when the answer arrives and while candidates are found
  after it, the candidates sent to the media server followed by those still buffered are exactly the
  candidates the browser found, in order and once each; after the answer nothing is buffered.\<close>

theorem ice_candidates_sent_once:
  assumes "guarded v_step ice_ok es (new_video user session)"
  shows "ice_sent (v_out (run v_step es (new_video user session)))
      @ v_pending (run v_step es (new_video user session)) = run ice_found es [] \<and>
    (v_joined (run v_step es (new_video user session)) \<longrightarrow>
      v_pending (run v_step es (new_video user session)) = [])"
proof -
  let ?s = "run v_step es (new_video user session)"
  have i: "ice_inv (new_video user session)" by (simp add: ice_inv_def new_video_def)
  from ice.run_refines [OF i assms] ice.inv_run [OF i assms]
  show ?thesis by (simp add: ice_inv_def new_video_def)
qed

definition ice_run :: "v_input list" where
  "ice_run = join_run RErr @
     [VIceCandidate (''a'', None, None), VResume 4 (RSdp ''offer''), VResume 5 ROk,
      VIceCandidate (''b'', None, Some 0), VSockMessage 2 (MAnswer ''answer'' ''p1''), VPump 0,
      VResume 6 ROk, VIceCandidate (''c'', None, None)]"

theorem ice_candidates_sent_once_witness:
  "ice_sent (v_out (run v_step ice_run (new_video ''u'' ''s'')))
     = [(''a'', None, None), (''b'', None, Some 0), (''c'', None, None)]"
proof -
  have "guarded v_step ice_ok ice_run (new_video ''u'' ''s'')"
    by (simp add: ice_run_def join_run_def v_eval link_up_def)
  from ice_candidates_sent_once [OF this]
  have "ice_sent (v_out (run v_step ice_run (new_video ''u'' ''s'')))
      @ v_pending (run v_step ice_run (new_video ''u'' ''s'')) = run ice_found ice_run []"
    "v_joined (run v_step ice_run (new_video ''u'' ''s'')) \<longrightarrow>
      v_pending (run v_step ice_run (new_video ''u'' ''s'')) = []" by auto
  moreover have "v_joined (run v_step ice_run (new_video ''u'' ''s''))"
    by (simp add: ice_run_def join_run_def v_eval)
  ultimately show ?thesis by (simp add: ice_run_def join_run_def)
qed

section \<open>The muted microphone\<close>


definition mute_run :: "v_input list" where
  "mute_run = join_run (RMedia [(AudioTrack, Some ''mic'')]) @ [VEnableMic, VDisableMic]"


text \<open>
  The restriction to a microphone that does not end by itself is needed: when the captured track
  ends (the device is unplugged), enabling the microphone again adds a second local track, and
  disabling it only turns off the first, which is over.
\<close>

definition unplug_run :: "v_input list" where
  "unplug_run = join_run (RMedia [(AudioTrack, Some ''mic'')]) @
     [VEnableMic, VDisableMic, VTrackEnds 4, VEnableMic,
      VResume 7 (RMedia [(AudioTrack, Some ''other'')]), VResume 9 ROk, VDisableMic]"

lemma muted_but_sending:
  "\<not> v_mic (run v_step unplug_run (new_video ''u'' ''s'')) \<and>
   mic_sends (run v_step unplug_run (new_video ''u'' ''s'')) 8 \<and>
   hot (run v_step unplug_run (new_video ''u'' ''s'')) 8"
  by (simp add: unplug_run_def join_run_def v_eval mic_sends_def)

section \<open>Disconnecting\<close>

definition held_tracks :: "vc \<Rightarrow> nat set" where
  "held_tracks s = set (case v_local s of None \<Rightarrow> [] | Some ts \<Rightarrow> ts) \<union>
     set (opt_list (v_screen_video s)) \<union> set (opt_list (v_screen_audio s))"

lemma live_after_disconnect:
  "track_live (v_disconnect s) t \<longleftrightarrow> track_live s t \<and> t \<notin> held_tracks s"
proof -
  have "v_tracks (v_disconnect s) t =
      (if t \<in> held_tracks s then map_option (\<lambda>tr. tr\<lparr>t_live := False\<rparr>) (v_tracks s t) else v_tracks s t)"
    by (auto simp: v_disconnect_def Let_def stop_fold_tracks held_tracks_def option.map_comp o_def
        split: option.split)
  then show ?thesis by (auto simp: track_live_def split: option.splits)
qed



text \<open>\<open>disconnect\<close> lets go of everything: every local and screen track is stopped, nobody is left in
  the participant list, and a link that was open gets a leave frame and is closed.\<close>

theorem disconnect_releases_devices:
  "(\<forall>t \<in> held_tracks s. \<not> track_live (v_step VDisconnect s) t) \<and>
   get_participants (v_step VDisconnect s) = [] \<and> v_pc (v_step VDisconnect s) = None \<and>
   v_out (v_step VDisconnect s) = v_out s @
     (case v_ws s of Some i \<Rightarrow> if v_socks s i = Some OPEN then [VSend i FLeave, VClose i] else [] | None \<Rightarrow> [])"
proof -
  have "\<forall>t \<in> held_tracks s. \<not> track_live (v_disconnect s) t"
    by (simp add: live_after_disconnect)
  moreover have "get_participants (v_disconnect s) = []"
    by (simp add: get_participants_def v_disconnect_def Let_def List.map_filter_def)
  moreover have "v_out (v_disconnect s) = v_out s @
     (case v_ws s of Some i \<Rightarrow> if v_socks s i = Some OPEN then [VSend i FLeave, VClose i] else [] | None \<Rightarrow> [])"
    by (simp add: v_disconnect_def Let_def split: option.split)
  ultimately show ?thesis by (simp add: disconnect_facts)
qed

theorem disconnect_releases_devices_witness:
  "\<not> track_live (v_step VDisconnect (run v_step mute_run (new_video ''u'' ''s''))) 4"
  using disconnect_releases_devices [of "run v_step mute_run (new_video ''u'' ''s'')"]
  by (simp add: mute_run_def join_run_def v_eval)

text \<open>
  It does not reach what is under way. A socket that is still connecting is forgotten without
  being closed; a capture that \<open>enableMic\<close> asked for and that is granted afterwards stays live,
  held by nobody; and \<open>joined\<close> stays set, so that a client that connects again sends candidates
  to a server that has no answer for it yet.
\<close>

lemma connecting_socket_leaks:
  assumes "v_ws s = Some i" "v_socks s i = Some CONNECTING"
  shows "v_socks (run v_step [VDisconnect, VSockOpened i] s) i = Some OPEN \<and>
    v_ws (run v_step [VDisconnect, VSockOpened i] s) = None \<and>
    v_out (run v_step [VDisconnect, VSockOpened i] s) = v_out s"
proof -
  have "v_socks (v_disconnect s) = v_socks s" "v_out (v_disconnect s) = v_out s"
    using assms by (simp_all add: v_disconnect_def Let_def)
  then show ?thesis using assms by (simp add: create_and_send_offer_def disconnect_facts)
qed

lemma capture_outlives_disconnect:
  "let s = run v_step [VConnect, VEnableMic, VDisconnect, VResume 3 (RMedia [(AudioTrack, None)])]
             (new_video ''u'' ''s'')
   in hot s 5 \<and> v_local s = None \<and> v_pc s = None \<and> v_mic s"
  by (simp add: v_eval)

lemma joined_outlives_disconnect:
  "v_joined s \<Longrightarrow> v_joined (run v_step (VDisconnect # es) s)"
proof (induction es rule: rev_induct)
  case Nil
  then show ?case by (simp add: disconnect_keeps)
next
  case (snoc e es)
  then have "v_joined (run v_step (VDisconnect # es) s)" by simp
  then show ?case
    using keeps_step [of e] disconnect_keeps(2) by (cases "e = VDisconnect") (auto simp: keeps_def)
qed

section \<open>Remote tracks\<close>

text \<open>What an offer says about the streams of a participant is what \<open>ontrack\<close> looks up.\<close>

lemma register_stream_other:
  assumes "k \<noteq> si_stream x"
  shows "jget (v_parts (register_stream x s)) k = jget (v_parts s) k"
    "v_meta (register_stream x s) k = v_meta s k"
  using assms by (simp_all add: register_stream_def Let_def split: option.split)

lemma register_stream_frame:
  "v_heap (register_stream x s) = v_heap s" "v_joined (register_stream x s) = v_joined s"
  by (simp_all add: register_stream_def Let_def split: option.split)

lemma register_fold_frame:
  "v_heap (fold register_stream ts s) = v_heap s" "v_joined (fold register_stream ts s) = v_joined s"
  by (induction ts arbitrary: s) (simp_all add: register_stream_frame)

lemma register_fold_other:
  "k \<notin> si_stream ` set ts \<Longrightarrow> jget (v_parts (fold register_stream ts s)) k = jget (v_parts s) k \<and>
     v_meta (fold register_stream ts s) k = v_meta s k"
  by (induction ts arbitrary: s) (simp_all add: register_stream_other)

lemma offer_registers:
  assumes "distinct (map si_stream ts)" "i \<in> set ts" "\<forall>j \<in> set ts. jget (v_parts s) (si_stream j) = None"
    and "jget (v_parts s) (si_participant i) = Some r" "si_source i = Some src" "si_kind i = Some k"
  shows "jget (v_parts (fold register_stream ts s)) (si_stream i) = Some r"
    "v_meta (fold register_stream ts s) (si_stream i) = Some (src, k)"
proof -
  have "jget (v_parts (fold register_stream ts s)) (si_stream i) = Some r \<and>
    v_meta (fold register_stream ts s) (si_stream i) = Some (src, k)"
    using assms(1-4)
  proof (induction ts arbitrary: s)
    case (Cons x ts)
    have p: "si_participant i \<noteq> si_stream x" using Cons.prems(3,4) by auto
    show ?case
    proof (cases "i = x")
      case True
      with Cons.prems have "si_stream i \<notin> si_stream ` set ts" by auto
      moreover have "jget (v_parts (register_stream i s)) (si_stream i) = Some r"
        "v_meta (register_stream i s) (si_stream i) = Some (src, k)"
        using True Cons.prems assms(5,6) by (simp_all add: register_stream_def jhas_jget Let_def)
      ultimately show ?thesis using True register_fold_other [of "si_stream i" ts "register_stream i s"]
        by simp
    next
      case False
      have "\<forall>j \<in> set ts. jget (v_parts (register_stream x s)) (si_stream j) = None"
        using Cons.prems(1,3) by (auto simp: register_stream_other(1) image_iff)
      with False Cons p show ?thesis by (simp add: register_stream_other(1))
    qed
  qed simp
  then show "jget (v_parts (fold register_stream ts s)) (si_stream i) = Some r"
    "v_meta (fold register_stream ts s) (si_stream i) = Some (src, k)" by simp_all
qed

text \<open>The place of a track in its participant.\<close>

definition slot :: "track_source \<Rightarrow> track_kind \<Rightarrow> participant \<Rightarrow> nat option" where
  "slot src k p =
     (case (src, k) of
        (CameraSource, AudioTrack) \<Rightarrow> p_audio p
      | (CameraSource, VideoTrack) \<Rightarrow> p_video p
      | (ScreenSource, AudioTrack) \<Rightarrow> p_screen_audio p
      | (ScreenSource, VideoTrack) \<Rightarrow> p_screen_video p)"


definition joined_video :: vc where
  "joined_video = participant_joined ''p2'' ''bob''
     (participant_joined ''p1'' ''alice'' (run v_step ice_run (new_video ''u'' ''s'')))"


text \<open>
  \<open>participant_left\<close> deletes the key of the participant only. Under the keys of its streams it stays
  in the list that \<open>getParticipants\<close> returns.
\<close>

lemma departed_participant_listed:
  assumes "jget (v_parts s) stream = Some r" "stream \<noteq> pid" "v_heap s r = Some p"
  shows "p \<in> set (get_participants (participant_left pid user s))"
proof -
  have "jget (jdel pid (v_parts s)) stream = Some r" using assms by simp
  then have "(stream, r) \<in> set (jdel pid (v_parts s))" unfolding jget_def by (rule map_of_SomeD)
  with assms(3) show ?thesis
    unfolding get_participants_def participant_left_def List.map_filter_def
    by (force simp: v_emit_def)
qed

section \<open>Voice activity\<close>

text \<open>The ticks counted while speaking are the quiet levels at the end of the history.\<close>

definition quiet_end :: "real list \<Rightarrow> nat" where
  "quiet_end ls = length (takeWhile (\<lambda>l. l < 12) (rev ls))"

definition pause :: "real list \<Rightarrow> bool" where
  "pause ls \<longleftrightarrow> (\<exists>a b c. ls = a @ b @ c \<and> length b = 8 \<and> (\<forall>l \<in> set b. l < 12))"

definition speaks :: "real list \<Rightarrow> bool" where
  "speaks ls \<longleftrightarrow> (\<exists>before l after. ls = before @ l # after \<and> l > 22 \<and> \<not> pause after)"

lemma quiet_end_snoc: "quiet_end (ls @ [l]) = (if l < 12 then Suc (quiet_end ls) else 0)"
  by (simp add: quiet_end_def)

lemma quiet_end_loud: "\<not> l < 12 \<Longrightarrow> quiet_end (a @ l # b) = quiet_end b"
  by (simp add: quiet_end_def takeWhile_append) (metis length_rev nth_mem set_rev takeWhile_eq_all_conv)

lemma pause_Nil: "\<not> pause []"
  by (auto simp: pause_def)

lemma pause_snoc: "pause (ls @ [l]) \<longleftrightarrow> pause ls \<or> quiet_end (ls @ [l]) \<ge> 8"
proof
  assume "pause (ls @ [l])"
  then obtain a b c where s: "ls @ [l] = a @ b @ c" "length b = 8" "\<forall>x \<in> set b. x < 12"
    by (auto simp: pause_def)
  show "pause ls \<or> quiet_end (ls @ [l]) \<ge> 8"
  proof (cases c rule: rev_cases)
    case Nil
    have "quiet_end (a @ b) \<ge> length b"
      using s(3) by (simp add: quiet_end_def takeWhile_append)
    with Nil s show ?thesis by simp
  next
    case (snoc c' y)
    with s show ?thesis unfolding pause_def by (metis append_assoc butlast_snoc)
  qed
next
  assume "pause ls \<or> quiet_end (ls @ [l]) \<ge> 8"
  then show "pause (ls @ [l])"
  proof
    assume "pause ls"
    then show ?thesis unfolding pause_def by (metis append_assoc)
  next
    let ?m = "ls @ [l]" and ?P = "\<lambda>x :: real. x < 12"
    assume "quiet_end ?m \<ge> 8"
    then have w: "8 \<le> length (takeWhile ?P (rev ?m))" by (simp add: quiet_end_def)
    let ?q = "take 8 (takeWhile ?P (rev ?m))"
    have "rev ?m = ?q @ drop 8 (takeWhile ?P (rev ?m)) @ dropWhile ?P (rev ?m)"
      by (metis append_assoc append_take_drop_id takeWhile_dropWhile_id)
    then have "?m = rev (drop 8 (takeWhile ?P (rev ?m)) @ dropWhile ?P (rev ?m)) @ rev ?q @ []"
      by (metis append_Nil2 rev_append rev_rev_ident)
    moreover have "length (rev ?q) = 8" using w by simp
    moreover have "\<forall>x \<in> set (rev ?q). x < 12"
    proof
      fix x assume "x \<in> set (rev ?q)"
      then have "x \<in> set ?q" by (simp only: set_rev)
      then have "x \<in> set (takeWhile ?P (rev ?m))" by (rule in_set_takeD)
      then show "x < 12" by (rule set_takeWhileD [THEN conjunct2])
    qed
    ultimately show ?thesis unfolding pause_def by blast
  qed
qed

lemma speaks_snoc:
  "speaks (ls @ [l]) \<longleftrightarrow> l > 22 \<or>
     (\<exists>before x after. ls = before @ x # after \<and> x > 22 \<and> \<not> pause (after @ [l]))"
proof
  assume "speaks (ls @ [l])"
  then obtain b x a where s: "ls @ [l] = b @ x # a" "x > 22" "\<not> pause a" by (auto simp: speaks_def)
  show "l > 22 \<or> (\<exists>before x after. ls = before @ x # after \<and> x > 22 \<and> \<not> pause (after @ [l]))"
  proof (cases a rule: rev_cases)
    case (snoc a' y)
    then have "ls = b @ x # a'" "y = l" using s(1) by simp_all
    with s snoc show ?thesis by blast
  qed (use s in simp)
next
  assume "l > 22 \<or> (\<exists>before x after. ls = before @ x # after \<and> x > 22 \<and> \<not> pause (after @ [l]))"
  then show "speaks (ls @ [l])"
  proof
    assume "l > 22"
    then show ?thesis unfolding speaks_def using pause_Nil by blast
  next
    assume "\<exists>before x after. ls = before @ x # after \<and> x > 22 \<and> \<not> pause (after @ [l])"
    then obtain b x a where "ls = b @ x # a" "x > 22" "\<not> pause (a @ [l])" by blast
    moreover from this have "ls @ [l] = b @ x # (a @ [l])" by simp
    ultimately show ?thesis unfolding speaks_def by blast
  qed
qed

lemma vad_counts:
  "(case fold vad_step ls (False, 0) of (speaking, ticks) \<Rightarrow>
      speaking = speaks ls \<and> ticks = (if speaking then quiet_end ls else 0))"
proof (induction ls rule: rev_induct)
  case Nil
  show ?case by (simp add: speaks_def)
next
  case (snoc l ls)
  have q: "pause (a @ [l]) \<longleftrightarrow> pause a \<or> quiet_end (ls @ [l]) \<ge> 8" if "ls = b @ x # a" "x > 22" for a b x
    using that quiet_end_loud [of x b "a @ [l]"] by (simp add: pause_snoc)
  have s: "speaks (ls @ [l]) \<longleftrightarrow> l > 22 \<or> (speaks ls \<and> \<not> quiet_end (ls @ [l]) \<ge> 8)"
    unfolding speaks_snoc speaks_def [of ls] using q by blast
  show ?case
    using snoc by (auto simp: vad_step_def s quiet_end_snoc split: prod.splits)
qed

text \<open>C27. Whatever levels a participant is polled at, the indicator is on exactly if some level was
  above the upper threshold and was not followed by eight quiet levels in a row.\<close>

theorem speaking_matches_levels:
  "fst (fold vad_step ls (False, 0)) \<longleftrightarrow>
     (\<exists>before l after. ls = before @ l # after \<and> l > 22 \<and>
        \<not> (\<exists>a b c. after = a @ b @ c \<and> length b = 8 \<and> (\<forall>x \<in> set b. x < 12)))"
  using vad_counts [of ls] by (auto simp: speaks_def pause_def split: prod.splits)

theorem speaking_matches_levels_witness:
  "fst (fold vad_step [30, 5, 5, 15, 5] (False, 0))"
  unfolding speaking_matches_levels
  by (rule exI [of _ "[]"]) (auto dest!: arg_cong [where f = length])

section \<open>The queue of server messages\<close>

text \<open>When setting a remote description fails, the rejected handler stops the queue for good: in the
  rest of the session, whatever messages arrive, none of them is handled any more.\<close>

theorem rejected_handler_stops_messages:
  assumes "v_calls s n = Some (KAnswerSet (v_chain s) pid)"
    and "VDisconnect \<notin> set es"
  shows "v_chain (run v_step (VResume n RErr # es) s) = v_chain s \<and>
    v_step (VPump (v_chain s)) (run v_step (VResume n RErr # es) s) = run v_step (VResume n RErr # es) s"
proof -
  let ?a = "v_step (VResume n RErr) s"
  have "v_chain ?a = v_chain s" "jammed (v_chains ?a (v_chain s))"
    using assms(1) by (simp_all add: answer_set_def handler_rejects_def chain_upd_def v_throw_def)
  moreover have "keeps ?a (run v_step es ?a)"
  proof -
    have "guarded v_step (\<lambda>e _. e \<noteq> VDisconnect) es ?a" using assms(2) by (auto simp del: v_step.simps)
    then show ?thesis using session.le_run [where es = es and s = ?a] by simp
  qed
  ultimately show ?thesis by (simp add: keeps_def pump_def Let_def)
qed

theorem rejected_handler_stops_messages_witness:
  "let s = run v_step (butlast (butlast ice_run)) (new_video ''u'' ''s'');
       t = run v_step [VResume 6 RErr, VSockMessage 2 (MJoined ''p2'' ''bob'')] s
   in v_step (VPump 0) t = t \<and> todo (v_chains t 0) \<noteq> []"
proof -
  let ?s = "run v_step (butlast (butlast ice_run)) (new_video ''u'' ''s'')"
  have "v_calls ?s 6 = Some (KAnswerSet (v_chain ?s) ''p1'')" and c: "v_chain ?s = 0"
    by (simp_all add: ice_run_def join_run_def v_eval)
  from rejected_handler_stops_messages [OF this(1), of "[VSockMessage 2 (MJoined ''p2'' ''bob'')]"] c
  have "v_step (VPump 0) (run v_step [VResume 6 RErr, VSockMessage 2 (MJoined ''p2'' ''bob'')] ?s)
      = run v_step [VResume 6 RErr, VSockMessage 2 (MJoined ''p2'' ''bob'')] ?s" by simp
  moreover have "todo (v_chains (run v_step [VResume 6 RErr, VSockMessage 2 (MJoined ''p2'' ''bob'')] ?s) 0) \<noteq> []"
    by (simp add: ice_run_def join_run_def v_eval)
  ultimately show ?thesis unfolding Let_def by (rule conjI)
qed

end
