(* ===== verification/VideoEncoding.thy ===== *)
theory VideoEncoding
  imports VideoClient
begin

text \<open>
  The encoder settings of \<open>VideoClient\<close> (\<open>packages/sdk-video/src/client.ts\<close>): the screen-share
  profiles with their two simulcast layers, and the caps of the camera's sender.
\<close>

datatype content_hint = MotionHint | DetailHint
datatype degradation = MaintainFramerate | MaintainResolution

record profile_config =
  pf_width :: int
  pf_height :: int
  pf_fps :: int
  pf_bitrate :: int
  pf_hint :: content_hint

fun PROFILE_CONFIG :: "screen_profile \<Rightarrow> profile_config" where
  "PROFILE_CONFIG Gaming =
     \<lparr>pf_width = 1920, pf_height = 1080, pf_fps = 60, pf_bitrate = 6000000, pf_hint = MotionHint\<rparr>"
| "PROFILE_CONFIG Standard =
     \<lparr>pf_width = 1280, pf_height = 720, pf_fps = 24, pf_bitrate = 2000000, pf_hint = MotionHint\<rparr>"
| "PROFILE_CONFIG Detail =
     \<lparr>pf_width = 2560, pf_height = 1440, pf_fps = 5, pf_bitrate = 1000000, pf_hint = DetailHint\<rparr>"

text \<open>An encoding of a sender; the fields the code does not set stay as the browser has them.\<close>

record encoding =
  en_rid :: "string option"
  en_bitrate :: "int option"
  en_framerate :: "int option"
  en_scale :: "real option"

definition screen_encodings :: "screen_profile \<Rightarrow> encoding list" where
  "screen_encodings p =
     (let c = PROFILE_CONFIG p in
      [\<lparr>en_rid = Some ''h'', en_bitrate = Some (pf_bitrate c), en_framerate = Some (pf_fps c),
        en_scale = None\<rparr>,
       \<lparr>en_rid = Some ''l'', en_bitrate = Some 400000, en_framerate = Some 15,
        en_scale = Some (max 1 (of_int (pf_width c) / 720))\<rparr>])"

definition screen_degradation :: "screen_profile \<Rightarrow> degradation" where
  "screen_degradation p =
     (if pf_hint (PROFILE_CONFIG p) = DetailHint then MaintainResolution else MaintainFramerate)"

definition CAMERA_TARGET_BITRATE :: int where
  "CAMERA_TARGET_BITRATE = 2500000"

definition CAMERA_TARGET_FPS :: int where
  "CAMERA_TARGET_FPS = 30"

record send_params =
  sp_encodings :: "encoding list option"
  sp_degradation :: "degradation option"

text \<open>The parameters that \<open>setParameters\<close> is called with.\<close>

definition camera_params :: "send_params \<Rightarrow> send_params" where
  "camera_params p =
     (let es = (case sp_encodings p of
                  None \<Rightarrow> [\<lparr>en_rid = None, en_bitrate = None, en_framerate = None, en_scale = None\<rparr>]
                | Some [] \<Rightarrow> [\<lparr>en_rid = None, en_bitrate = None, en_framerate = None, en_scale = None\<rparr>]
                | Some (x # xs) \<Rightarrow> x # xs);
          p1 = p\<lparr>sp_encodings := Some es, sp_degradation := Some MaintainFramerate\<rparr>
      in if length es \<noteq> 1 then p1
         else p1\<lparr>sp_encodings := Some [(hd es)\<lparr>en_bitrate := Some CAMERA_TARGET_BITRATE,
                                               en_framerate := Some CAMERA_TARGET_FPS\<rparr>]\<rparr>)"

text \<open>The caps of the camera reach a sender of one layer (or of none, which gets one), and leave the
  layers of a simulcast sender as they are; applied again they change nothing. Of a screen share the
  low layer is never enlarged, is at most 720 pixels wide, and gets less than half the bitrate of the
  high layer.\<close>

theorem encoder_caps_bounded:
  "camera_params (camera_params p) = camera_params p \<and>
   (\<forall>es. sp_encodings (camera_params p) = Some es \<longrightarrow>
      (if length es = 1
       then en_bitrate (hd es) = Some 2500000 \<and> en_framerate (hd es) = Some 30
       else sp_encodings p = Some es)) \<and>
   (\<exists>h l. screen_encodings q = [h, l] \<and> 1 \<le> the (en_scale l) \<and>
      real_of_int (pf_width (PROFILE_CONFIG q)) / the (en_scale l) \<le> 720 \<and>
      2 * the (en_bitrate l) < the (en_bitrate h))"
proof -
  have "camera_params (camera_params p) = camera_params p"
    by (cases "sp_encodings p")
      (auto simp: camera_params_def Let_def CAMERA_TARGET_BITRATE_def CAMERA_TARGET_FPS_def split: list.split)
  moreover have "\<forall>es. sp_encodings (camera_params p) = Some es \<longrightarrow>
      (if length es = 1
       then en_bitrate (hd es) = Some 2500000 \<and> en_framerate (hd es) = Some 30
       else sp_encodings p = Some es)"
    by (cases "sp_encodings p")
      (auto simp: camera_params_def Let_def CAMERA_TARGET_BITRATE_def CAMERA_TARGET_FPS_def split: list.split)
  moreover have "\<exists>h l. screen_encodings q = [h, l] \<and> 1 \<le> the (en_scale l) \<and>
      real_of_int (pf_width (PROFILE_CONFIG q)) / the (en_scale l) \<le> 720 \<and>
      2 * the (en_bitrate l) < the (en_bitrate h)"
    by (cases q) (simp_all add: screen_encodings_def Let_def)
  ultimately show ?thesis by blast
qed

theorem encoder_caps_bounded_witness:
  "sp_encodings (camera_params \<lparr>sp_encodings = None, sp_degradation = None\<rparr>)
     = Some [\<lparr>en_rid = None, en_bitrate = Some 2500000, en_framerate = Some 30, en_scale = None\<rparr>]"
  using encoder_caps_bounded [of "\<lparr>sp_encodings = None, sp_degradation = None\<rparr>" Gaming]
  by (simp add: camera_params_def CAMERA_TARGET_BITRATE_def CAMERA_TARGET_FPS_def)

end
