(* ===== verification/VideoHook.thy ===== *)
theory VideoHook
  imports VideoMedia
begin

text \<open>
  The hook \<open>useVideoClient\<close> of \<open>frontend/hooks/use-video-client.ts\<close>, composed with the client it
  drives. The clients it has created are known by number, \<open>h_ref\<close> is \<open>clientRef\<close>; an input of the
  browser runs a step of one client, and the events that step emits are handled in order, as
  \<open>emit\<close> calls the handler the hook registered. The hook's own \<open>async\<close> callbacks wait in
  \<open>h_waits\<close> for the promise of the client to settle. The identity of the \<open>MediaStream\<close> wrappers is
  not modelled: \<open>h_local\<close> is the list of tracks inside.
\<close>

section \<open>State\<close>

record tile = participant +
  tl_stream :: "string option"

definition to_tile :: "participant \<Rightarrow> tile" where
  "to_tile p =
     \<lparr>p_id = p_id p, p_user = p_user p, p_audio = p_audio p, p_video = p_video p,
      p_screen_video = p_screen_video p, p_screen_audio = p_screen_audio p,
      p_speaking = p_speaking p, p_mic_muted = p_mic_muted p, p_deafened = p_deafened p,
      tl_stream = None\<rparr>"

text \<open>What a callback waits for, with the client it captured.\<close>

datatype hook_wait =
    WMicToggled nat bool
  | WMicDevices nat string
  | WMicApplied nat
  | WCamToggled nat bool
  | WCamDevices nat string
  | WCamApplied nat
  | WPublished nat
  | WUnpublished nat
  | WDevices
  | WMicSet nat
  | WCamSet nat

datatype hook_result = HDone | HEnabled bool | HDevices "string list" "string list" | HFailed

record hook =
  h_ref :: "nat option"
  h_clients :: "nat \<rightharpoonup> vc"
  h_shown :: "nat option"
  h_tiles :: "tile list"
  h_local :: "nat list option"
  h_connected :: bool
  h_mic :: bool
  h_cam :: bool
  h_sharing :: bool
  h_screen :: "nat option"
  h_error :: "string option"
  h_audio_inputs :: "string list"
  h_video_inputs :: "string list"
  h_mic_dev :: "string option"
  h_cam_dev :: "string option"
  h_camera_on :: "string set"
  h_video_track :: "string \<rightharpoonup> nat"
  h_armed :: bool
  h_storage :: "string \<rightharpoonup> string"
  h_storage_ok :: bool
  h_ended :: "(nat \<times> nat) list"
  h_waits :: "nat \<rightharpoonup> hook_wait"
  h_next :: nat
  h_sounds :: "string list"
  h_forced :: "string list"

definition new_hook :: "(string \<rightharpoonup> string) \<Rightarrow> bool \<Rightarrow> hook" where
  "new_hook storage storage_ok =
     \<lparr>h_ref = None, h_clients = (\<lambda>_. None), h_shown = None, h_tiles = [], h_local = None,
      h_connected = False, h_mic = False, h_cam = False, h_sharing = False, h_screen = None,
      h_error = None, h_audio_inputs = [], h_video_inputs = [], h_mic_dev = None, h_cam_dev = None,
      h_camera_on = {}, h_video_track = (\<lambda>_. None), h_armed = False, h_storage = storage,
      h_storage_ok = storage_ok, h_ended = [], h_waits = (\<lambda>_. None), h_next = 0, h_sounds = [],
      h_forced = []\<rparr>"

section \<open>Small steps\<close>

definition MIC_DEVICE_STORAGE_KEY :: string where
  "MIC_DEVICE_STORAGE_KEY = ''matehub.videoCall.micDeviceId''"

definition CAMERA_DEVICE_STORAGE_KEY :: string where
  "CAMERA_DEVICE_STORAGE_KEY = ''matehub.videoCall.cameraDeviceId''"

definition read_persisted_device :: "string \<Rightarrow> hook \<Rightarrow> string option" where
  "read_persisted_device key s = (if h_storage_ok s then h_storage s key else None)"

definition write_persisted_device :: "string \<Rightarrow> string \<Rightarrow> hook \<Rightarrow> hook" where
  "write_persisted_device key d s =
     (if h_storage_ok s then s\<lparr>h_storage := (h_storage s)(key \<mapsto> d)\<rparr> else s)"

definition play_sound :: "string \<Rightarrow> hook \<Rightarrow> hook" where
  "play_sound name s = s\<lparr>h_sounds := h_sounds s @ [name]\<rparr>"

definition hook_await :: "hook_wait \<Rightarrow> hook \<Rightarrow> hook" where
  "hook_await w s = s\<lparr>h_waits := (h_waits s)(h_next s \<mapsto> w), h_next := Suc (h_next s)\<rparr>"

definition client_of :: "nat \<Rightarrow> hook \<Rightarrow> vc" where
  "client_of i s = (case h_clients s i of None \<Rightarrow> new_video [] [] | Some c \<Rightarrow> c)"

definition refresh_local_stream :: "hook \<Rightarrow> hook" where
  "refresh_local_stream s =
     s\<lparr>h_local := (case h_ref s of None \<Rightarrow> None | Some i \<Rightarrow> v_local (client_of i s))\<rparr>"

definition map_tile :: "string \<Rightarrow> (tile \<Rightarrow> tile) \<Rightarrow> hook \<Rightarrow> hook" where
  "map_tile pid f s = s\<lparr>h_tiles := map (\<lambda>p. if p_id p \<noteq> pid then p else f p) (h_tiles s)\<rparr>"

section \<open>Events of a client\<close>

definition on_connected :: "nat \<Rightarrow> hook \<Rightarrow> hook" where
  "on_connected i s =
     (let c = client_of i s in
      s\<lparr>h_connected := True, h_error := None, h_mic := v_mic c, h_cam := v_cam c,
        h_local := v_local c, h_mic_dev := v_mic_device c, h_cam_dev := v_cam_device c,
        h_armed := True\<rparr>)"

definition on_participant_joined :: "participant \<Rightarrow> hook \<Rightarrow> hook" where
  "on_participant_joined p s =
     (let s1 = (if h_armed s then play_sound ''join_call'' s else s)
      in s1\<lparr>h_tiles := h_tiles s1 @ [to_tile p]\<rparr>)"

definition on_participant_left :: "string \<Rightarrow> hook \<Rightarrow> hook" where
  "on_participant_left pid s =
     (let s1 = (if h_armed s then play_sound ''leave_call'' s else s)
      in s1\<lparr>h_camera_on := h_camera_on s1 - {pid}, h_video_track := (h_video_track s1)(pid := None),
            h_tiles := filter (\<lambda>p. p_id p \<noteq> pid) (h_tiles s1)\<rparr>)"

definition tile_track_added ::
  "bool \<Rightarrow> nat \<Rightarrow> string \<Rightarrow> track_source \<Rightarrow> track_kind \<Rightarrow> tile \<Rightarrow> tile" where
  "tile_track_added cam_on t stream src k p =
     (let q = p\<lparr>tl_stream := Some stream\<rparr> in
      case (src, k) of
        (CameraSource, AudioTrack) \<Rightarrow> q\<lparr>p_audio := Some t\<rparr>
      | (CameraSource, VideoTrack) \<Rightarrow> q\<lparr>p_video := (if cam_on then Some t else None)\<rparr>
      | (ScreenSource, VideoTrack) \<Rightarrow> q\<lparr>p_screen_video := Some t\<rparr>
      | (ScreenSource, AudioTrack) \<Rightarrow> q\<lparr>p_screen_audio := Some t\<rparr>)"

definition on_track_added ::
  "string \<Rightarrow> nat \<Rightarrow> string \<Rightarrow> track_source \<Rightarrow> track_kind \<Rightarrow> hook \<Rightarrow> hook" where
  "on_track_added pid t stream src k s =
     (let s1 = (if src = ScreenSource \<and> k = VideoTrack then play_sound ''show_desktop'' s else s);
          s2 = (if src = CameraSource \<and> k = VideoTrack
                then s1\<lparr>h_video_track := (h_video_track s1)(pid \<mapsto> t)\<rparr> else s1)
      in map_tile pid (tile_track_added (pid \<in> h_camera_on s2) t stream src k) s2)"

definition tile_track_removed :: "track_source \<Rightarrow> track_kind \<Rightarrow> tile \<Rightarrow> tile" where
  "tile_track_removed src k p =
     (case (src, k) of
        (CameraSource, AudioTrack) \<Rightarrow> p\<lparr>p_audio := None\<rparr>
      | (CameraSource, VideoTrack) \<Rightarrow> p\<lparr>p_video := None\<rparr>
      | (ScreenSource, VideoTrack) \<Rightarrow> p\<lparr>p_screen_video := None\<rparr>
      | (ScreenSource, AudioTrack) \<Rightarrow> p\<lparr>p_screen_audio := None\<rparr>)"

definition on_track_removed :: "string \<Rightarrow> track_source \<Rightarrow> track_kind \<Rightarrow> hook \<Rightarrow> hook" where
  "on_track_removed pid src k s =
     map_tile pid (tile_track_removed src k)
       (if src = ScreenSource \<and> k = VideoTrack then play_sound ''disable_desktop'' s else s)"

definition on_track_muted :: "string \<Rightarrow> string \<Rightarrow> bool \<Rightarrow> hook \<Rightarrow> hook" where
  "on_track_muted pid kind muted s =
     (let s1 = (if kind = ''video''
                then s\<lparr>h_camera_on := (if muted then h_camera_on s - {pid} else insert pid (h_camera_on s))\<rparr>
                else s)
      in map_tile pid
           (\<lambda>p. if kind = ''video'' then p\<lparr>p_video := (if muted then None else h_video_track s1 pid)\<rparr>
                else if kind = ''audio'' then p\<lparr>p_mic_muted := muted\<rparr> else p) s1)"

fun hook_event :: "nat \<Rightarrow> v_event \<Rightarrow> hook \<Rightarrow> hook" where
  "hook_event i (VConnected pid) s = on_connected i s"
| "hook_event i (VJoined r) s =
     (case v_heap (client_of i s) r of None \<Rightarrow> s | Some p \<Rightarrow> on_participant_joined p s)"
| "hook_event i (VLeft pid user) s = on_participant_left pid s"
| "hook_event i (VTrackAdded pid t stream src k) s = on_track_added pid t stream src k s"
| "hook_event i (VTrackRemoved pid src k) s = on_track_removed pid src k s"
| "hook_event i (VScreenStarted pid) s = s"
| "hook_event i (VScreenStopped pid) s = s"
| "hook_event i (VTrackMuted pid kind muted) s = on_track_muted pid kind muted s"
| "hook_event i (VDeafened pid d) s = map_tile pid (\<lambda>p. p\<lparr>p_deafened := d\<rparr>) s"
| "hook_event i (VSpeaking pid b) s = map_tile pid (\<lambda>p. p\<lparr>p_speaking := b\<rparr>) s"
| "hook_event i (VDisconnected reason) s = s\<lparr>h_connected := False, h_armed := False\<rparr>"
| "hook_event i (VForced reason) s =
     s\<lparr>h_connected := False, h_armed := False, h_forced := h_forced s @ [reason]\<rparr>"
| "hook_event i (VErrorEvent msg) s = s\<lparr>h_error := Some msg\<rparr>"

text \<open>A step of client \<open>i\<close>, and the handling of the events it emits.\<close>

fun hook_effect :: "nat \<Rightarrow> v_effect \<Rightarrow> hook \<Rightarrow> hook" where
  "hook_effect i (VEmit e) s = hook_event i e s"
| "hook_effect i (VSend w f) s = s"
| "hook_effect i (VClose w) s = s"
| "hook_effect i (VRejects e) s = s"

definition client_step :: "nat \<Rightarrow> v_input \<Rightarrow> hook \<Rightarrow> hook" where
  "client_step i inp s =
     (case h_clients s i of
        None \<Rightarrow> s
      | Some c \<Rightarrow>
          (let c1 = v_step inp c in
           fold (hook_effect i) (drop (length (v_out c)) (v_out c1))
             (s\<lparr>h_clients := (h_clients s)(i \<mapsto> c1)\<rparr>)))"

section \<open>Connecting\<close>

definition hook_connect :: "(string \<times> string) option \<Rightarrow> hook \<Rightarrow> hook" where
  "hook_connect opts s =
     (case (opts, h_ref s) of
        (Some (user, session), None) \<Rightarrow>
          (let i = h_next s in
           client_step i VConnect
             (s\<lparr>h_clients := (h_clients s)(i \<mapsto> new_video user session), h_ref := Some i,
                h_shown := Some i, h_next := Suc i\<rparr>))
      | _ \<Rightarrow> s)"

definition hook_disconnect :: "hook \<Rightarrow> hook" where
  "hook_disconnect s =
     (let s1 = (case h_ref s of None \<Rightarrow> s | Some i \<Rightarrow> client_step i VDisconnect s) in
      s1\<lparr>h_ref := None, h_shown := None, h_connected := False, h_tiles := [], h_local := None,
         h_mic := False, h_cam := False, h_sharing := False, h_screen := None, h_error := None,
         h_camera_on := {}, h_video_track := (\<lambda>_. None), h_armed := False\<rparr>)"

definition hook_unmount :: "hook \<Rightarrow> hook" where
  "hook_unmount s =
     (case h_ref s of None \<Rightarrow> s | Some i \<Rightarrow> (client_step i VDisconnect s)\<lparr>h_ref := None\<rparr>)"

section \<open>Toggles and persisted devices\<close>

definition with_client :: "v_input \<Rightarrow> (nat \<Rightarrow> hook_wait) \<Rightarrow> hook \<Rightarrow> hook" where
  "with_client inp w s =
     (case h_ref s of None \<Rightarrow> s | Some i \<Rightarrow> hook_await (w i) (client_step i inp s))"

definition apply_persisted_mic :: "nat \<Rightarrow> hook \<Rightarrow> hook" where
  "apply_persisted_mic i s =
     (case read_persisted_device MIC_DEVICE_STORAGE_KEY s of
        None \<Rightarrow> s
      | Some saved \<Rightarrow>
          if saved = [] \<or> v_mic_device (client_of i s) = Some saved then s
          else hook_await (WMicDevices i saved) s)"

definition mic_devices :: "nat \<Rightarrow> string \<Rightarrow> hook_result \<Rightarrow> hook \<Rightarrow> hook" where
  "mic_devices i saved r s =
     (case r of
        HDevices audio video \<Rightarrow>
          if saved \<in> set audio then hook_await (WMicApplied i) (client_step i (VSetMicDevice saved) s) else s
      | _ \<Rightarrow> s)"

definition mic_applied :: "nat \<Rightarrow> hook_result \<Rightarrow> hook \<Rightarrow> hook" where
  "mic_applied i r s = (if r = HDone then s\<lparr>h_mic_dev := v_mic_device (client_of i s)\<rparr> else s)"

definition hook_toggle_mic :: "bool \<Rightarrow> hook \<Rightarrow> hook" where
  "hook_toggle_mic silent = with_client VToggleMic (\<lambda>i. WMicToggled i silent)"

definition mic_toggled :: "nat \<Rightarrow> bool \<Rightarrow> hook_result \<Rightarrow> hook \<Rightarrow> hook" where
  "mic_toggled i silent r s =
     (case r of
        HEnabled b \<Rightarrow>
          (let s1 = s\<lparr>h_mic := b\<rparr>;
               s2 = (if silent then s1 else play_sound (if b then ''enable'' else ''disable'') s1)
           in if b then apply_persisted_mic i s2 else s2)
      | _ \<Rightarrow> s)"

definition apply_persisted_camera :: "nat \<Rightarrow> hook \<Rightarrow> hook" where
  "apply_persisted_camera i s =
     (case read_persisted_device CAMERA_DEVICE_STORAGE_KEY s of
        None \<Rightarrow> refresh_local_stream s
      | Some saved \<Rightarrow>
          if saved = [] \<or> v_cam_device (client_of i s) = Some saved then refresh_local_stream s
          else hook_await (WCamDevices i saved) s)"

text \<open>Each way out of \<open>applyPersistedCamera\<close> is followed by the last refresh of \<open>toggleCamera\<close>.\<close>

definition cam_devices :: "nat \<Rightarrow> string \<Rightarrow> hook_result \<Rightarrow> hook \<Rightarrow> hook" where
  "cam_devices i saved r s =
     (case r of
        HDevices audio video \<Rightarrow>
          if saved \<in> set video then hook_await (WCamApplied i) (client_step i (VSetCameraDevice saved) s)
          else refresh_local_stream s
      | _ \<Rightarrow> refresh_local_stream s)"

definition cam_applied :: "nat \<Rightarrow> hook_result \<Rightarrow> hook \<Rightarrow> hook" where
  "cam_applied i r s =
     refresh_local_stream (if r = HDone then s\<lparr>h_cam_dev := v_cam_device (client_of i s)\<rparr> else s)"

definition hook_toggle_camera :: "bool \<Rightarrow> hook \<Rightarrow> hook" where
  "hook_toggle_camera silent = with_client VToggleCamera (\<lambda>i. WCamToggled i silent)"

definition cam_toggled :: "nat \<Rightarrow> bool \<Rightarrow> hook_result \<Rightarrow> hook \<Rightarrow> hook" where
  "cam_toggled i silent r s =
     (case r of
        HEnabled b \<Rightarrow>
          (let s1 = refresh_local_stream (s\<lparr>h_cam := b\<rparr>);
               s2 = (if silent then s1 else play_sound (if b then ''enable'' else ''disable'') s1)
           in if b then apply_persisted_camera i s2 else s2)
      | _ \<Rightarrow> s)"

section \<open>Screen sharing\<close>

definition hook_publish :: "screen_profile \<Rightarrow> hook \<Rightarrow> hook" where
  "hook_publish p = with_client (VPublishScreen p) WPublished"

definition published :: "nat \<Rightarrow> hook_result \<Rightarrow> hook \<Rightarrow> hook" where
  "published i r s =
     (if r \<noteq> HDone then s
      else
        (let t = v_screen_video (client_of i s);
             s1 = s\<lparr>h_sharing := t \<noteq> None, h_screen := t\<rparr>
         in case t of
              None \<Rightarrow> s1
            | Some x \<Rightarrow> (play_sound ''show_desktop'' s1)\<lparr>h_ended := h_ended s1 @ [(i, x)]\<rparr>))"

definition hook_unpublish :: "hook \<Rightarrow> hook" where
  "hook_unpublish = with_client VUnpublishScreen WUnpublished"

definition unpublished :: "nat \<Rightarrow> hook_result \<Rightarrow> hook \<Rightarrow> hook" where
  "unpublished i r s =
     (if r \<noteq> HDone then s
      else s\<lparr>h_sharing := v_screen_video (client_of i s) \<noteq> None, h_screen := None\<rparr>)"

text \<open>The listeners (\<open>once\<close>) on a screen track that ends by itself.\<close>

definition screen_track_ended :: "nat \<times> nat \<Rightarrow> hook \<Rightarrow> hook" where
  "screen_track_ended x s =
     (fold (\<lambda>_ s. play_sound ''disable_desktop'' (s\<lparr>h_screen := None\<rparr>)) (filter (\<lambda>y. y = x) (h_ended s)) s)
       \<lparr>h_ended := filter (\<lambda>y. y \<noteq> x) (h_ended s)\<rparr>"

section \<open>Devices\<close>

definition refresh_devices :: "hook \<Rightarrow> hook" where
  "refresh_devices s = (if h_ref s = None then s else hook_await WDevices s)"

definition device_change :: "hook \<Rightarrow> hook" where
  "device_change s = (if h_connected s then refresh_devices s else s)"

definition devices_listed :: "hook_result \<Rightarrow> hook \<Rightarrow> hook" where
  "devices_listed r s =
     (case r of
        HDevices audio video \<Rightarrow> s\<lparr>h_audio_inputs := audio, h_video_inputs := video\<rparr>
      | _ \<Rightarrow> s)"

definition hook_set_mic_device :: "string \<Rightarrow> hook \<Rightarrow> hook" where
  "hook_set_mic_device d = with_client (VSetMicDevice d) WMicSet"

definition persist_settled :: "string \<Rightarrow> string option \<Rightarrow> hook \<Rightarrow> hook" where
  "persist_settled key d s =
     (case d of None \<Rightarrow> s | Some x \<Rightarrow> if x = [] then s else write_persisted_device key x s)"

definition mic_set :: "nat \<Rightarrow> hook_result \<Rightarrow> hook \<Rightarrow> hook" where
  "mic_set i r s =
     (if r \<noteq> HDone then s
      else
        (let d = v_mic_device (client_of i s) in
         (persist_settled MIC_DEVICE_STORAGE_KEY d (s\<lparr>h_mic_dev := d\<rparr>))
           \<lparr>h_local := v_local (client_of i s)\<rparr>))"

definition hook_set_camera_device :: "string \<Rightarrow> hook \<Rightarrow> hook" where
  "hook_set_camera_device d = with_client (VSetCameraDevice d) WCamSet"

definition cam_set :: "nat \<Rightarrow> hook_result \<Rightarrow> hook \<Rightarrow> hook" where
  "cam_set i r s =
     (if r \<noteq> HDone then s
      else
        (let d = v_cam_device (client_of i s) in
         (persist_settled CAMERA_DEVICE_STORAGE_KEY d (s\<lparr>h_cam_dev := d\<rparr>))
           \<lparr>h_local := v_local (client_of i s)\<rparr>))"

section \<open>The machine\<close>

datatype hook_input =
    HConnect "(string \<times> string) option"
  | HDisconnect
  | HUnmount
  | HToggleMic bool
  | HToggleCamera bool
  | HPublish screen_profile
  | HUnpublish
  | HDeviceChange
  | HSetMicDevice string
  | HSetCameraDevice string
  | HClient nat v_input
  | HSettled nat hook_result

fun hook_resume :: "hook_wait \<Rightarrow> hook_result \<Rightarrow> hook \<Rightarrow> hook" where
  "hook_resume (WMicToggled i silent) r s = mic_toggled i silent r s"
| "hook_resume (WMicDevices i saved) r s = mic_devices i saved r s"
| "hook_resume (WMicApplied i) r s = mic_applied i r s"
| "hook_resume (WCamToggled i silent) r s = cam_toggled i silent r s"
| "hook_resume (WCamDevices i saved) r s = cam_devices i saved r s"
| "hook_resume (WCamApplied i) r s = cam_applied i r s"
| "hook_resume (WPublished i) r s = published i r s"
| "hook_resume (WUnpublished i) r s = unpublished i r s"
| "hook_resume WDevices r s = devices_listed r s"
| "hook_resume (WMicSet i) r s = mic_set i r s"
| "hook_resume (WCamSet i) r s = cam_set i r s"

fun hook_step :: "hook_input \<Rightarrow> hook \<Rightarrow> hook" where
  "hook_step (HConnect opts) s = hook_connect opts s"
| "hook_step HDisconnect s = hook_disconnect s"
| "hook_step HUnmount s = hook_unmount s"
| "hook_step (HToggleMic silent) s = hook_toggle_mic silent s"
| "hook_step (HToggleCamera silent) s = hook_toggle_camera silent s"
| "hook_step (HPublish p) s = hook_publish p s"
| "hook_step HUnpublish s = hook_unpublish s"
| "hook_step HDeviceChange s = device_change s"
| "hook_step (HSetMicDevice d) s = hook_set_mic_device d s"
| "hook_step (HSetCameraDevice d) s = hook_set_camera_device d s"
| "hook_step (HClient i inp) s =
     (case inp of
        VTrackEnds t \<Rightarrow>
          if track_live (client_of i s) t then screen_track_ended (i, t) (client_step i inp s) else s
      | _ \<Rightarrow> client_step i inp s)"
| "hook_step (HSettled n r) s =
     (case h_waits s n of
        None \<Rightarrow> s | Some w \<Rightarrow> hook_resume w r (s\<lparr>h_waits := (h_waits s)(n := None)\<rparr>))"

end
