(* ===== verification/VideoHookProps.thy ===== *)
theory VideoHookProps
  imports VideoHook
begin

text \<open>
  The properties of \<open>useVideoClient\<close>: the camera tile under every order of mute signals and tracks,
  the persisted microphone, and four ways in which the view and the session come apart.
\<close>

section \<open>The mute race\<close>

text \<open>What the signals of one participant add up to: is the camera on, and its last track.\<close>

fun cam_signal :: "string \<Rightarrow> v_event \<Rightarrow> bool \<times> nat option \<Rightarrow> bool \<times> nat option" where
  "cam_signal pid (VTrackMuted p kind muted) st =
     (if p = pid \<and> kind = ''video'' then (\<not> muted, snd st) else st)"
| "cam_signal pid (VTrackAdded p t stream src k) st =
     (if p = pid \<and> src = CameraSource \<and> k = VideoTrack then (fst st, Some t) else st)"
| "cam_signal pid (VLeft p user) st = (if p = pid then (False, None) else st)"
| "cam_signal pid _ st = st"

definition cam_state :: "string \<Rightarrow> hook \<Rightarrow> bool \<times> nat option" where
  "cam_state pid s = (pid \<in> h_camera_on s, h_video_track s pid)"

definition cam_shows :: "bool \<times> nat option \<Rightarrow> nat option" where
  "cam_shows st = (if fst st then snd st else None)"

definition cam_tiles :: "hook \<Rightarrow> bool" where
  "cam_tiles s \<longleftrightarrow> (\<forall>p \<in> set (h_tiles s). p_video p = cam_shows (cam_state (p_id p) s))"

text \<open>
  A participant joins without a video track and without a camera session of its id, as the client
  announces it, and no camera track is removed, which the client never announces.
\<close>

fun cam_event_ok :: "nat \<Rightarrow> v_event \<Rightarrow> hook \<Rightarrow> bool" where
  "cam_event_ok i (VJoined r) s =
     (case v_heap (client_of i s) r of
        None \<Rightarrow> True | Some p \<Rightarrow> p_video p = None \<and> cam_shows (cam_state (p_id p) s) = None)"
| "cam_event_ok i (VTrackRemoved pid src k) s = (src \<noteq> CameraSource \<or> k \<noteq> VideoTrack)"
| "cam_event_ok i e s = True"

lemma play_sound_frame [simp]:
  "h_tiles (play_sound x s) = h_tiles s" "h_camera_on (play_sound x s) = h_camera_on s"
  "h_video_track (play_sound x s) = h_video_track s" "h_clients (play_sound x s) = h_clients s"
  by (simp_all add: play_sound_def)

lemma map_tile_frame [simp]:
  "h_camera_on (map_tile pid f s) = h_camera_on s" "h_video_track (map_tile pid f s) = h_video_track s"
  "h_tiles (map_tile pid f s) = map (\<lambda>p. if p_id p \<noteq> pid then p else f p) (h_tiles s)"
  by (simp_all add: map_tile_def)

lemma cam_signals: "cam_state pid (hook_event i e s) = cam_signal pid e (cam_state pid s)"
  by (cases e) (auto simp: cam_state_def on_connected_def on_participant_joined_def on_participant_left_def
      on_track_added_def on_track_removed_def on_track_muted_def Let_def split: option.split)

lemma tile_added_id [simp]: "p_id (tile_track_added b t stream src k p) = p_id p"
  by (cases src; cases k) (simp_all add: tile_track_added_def)

lemma tile_removed_id [simp]: "p_id (tile_track_removed src k p) = p_id p"
  by (cases src; cases k) (simp_all add: tile_track_removed_def)

lemma cam_tiles_step:
  assumes i: "cam_tiles s" and ok: "cam_event_ok c e s"
  shows "cam_tiles (hook_event c e s)"
proof (cases e)
  case (VTrackAdded pid t stream src k)
  with i show ?thesis
    by (cases src; cases k)
      (auto simp: cam_tiles_def cam_state_def cam_shows_def on_track_added_def tile_track_added_def Let_def)
next
  case (VTrackRemoved pid src k)
  with i ok show ?thesis
    by (cases src; cases k)
      (auto simp: cam_tiles_def cam_state_def cam_shows_def on_track_removed_def tile_track_removed_def)
qed (use i ok in \<open>auto simp: cam_tiles_def cam_state_def cam_shows_def on_connected_def map_tile_def
    on_participant_joined_def on_participant_left_def on_track_muted_def to_tile_def Let_def
    split: option.splits if_splits\<close>)

interpretation camera: invariant_machine "hook_event c" "cam_event_ok c" cam_tiles for c
  by unfold_locales (rule cam_tiles_step)

lemma cam_signals_run: "cam_state pid (run (hook_event c) es s) = fold (cam_signal pid) es (cam_state pid s)"
  by (induction es arbitrary: s) (simp_all add: cam_signals)

text \<open>C7. In whatever order mute signals, tracks and departures reach the hook, every tile shows the last
  camera track of its participant exactly if the last signal said that the camera is on.\<close>

theorem camera_tile_matches_signals:
  assumes "guarded (hook_event c) (cam_event_ok c) es ((new_hook storage ok)\<lparr>h_clients := clients\<rparr>)"
    and "p \<in> set (h_tiles (run (hook_event c) es ((new_hook storage ok)\<lparr>h_clients := clients\<rparr>)))"
  shows "p_video p = (case fold (cam_signal (p_id p)) es (False, None) of
      (on, track) \<Rightarrow> if on then track else None)"
proof -
  let ?s = "(new_hook storage ok)\<lparr>h_clients := clients\<rparr>"
  have "cam_tiles ?s" by (simp add: cam_tiles_def new_hook_def)
  from camera.inv_run [OF this assms(1)] assms(2)
  have "p_video p = cam_shows (fold (cam_signal (p_id p)) es (cam_state (p_id p) ?s))"
    by (simp add: cam_tiles_def cam_signals_run)
  moreover have "cam_state (p_id p) ?s = (False, None)" by (simp add: cam_state_def new_hook_def)
  ultimately show ?thesis by (simp add: cam_shows_def split: prod.split)
qed

definition race_events :: "v_event list" where
  "race_events = [VTrackMuted ''p'' ''video'' False, VJoined 1,
     VTrackAdded ''p'' 7 ''s'' CameraSource VideoTrack, VTrackMuted ''q'' ''video'' True]"

definition race_clients :: "nat \<rightharpoonup> vc" where
  "race_clients = [0 \<mapsto> participant_joined ''p'' ''u'' (new_video ''me'' ''s'')]"

theorem camera_tile_matches_signals_witness:
  "\<exists>p. h_tiles (run (hook_event 0) race_events ((new_hook (\<lambda>_. None) True)\<lparr>h_clients := race_clients\<rparr>)) = [p]
     \<and> p_video p = Some 7"
proof -
  let ?s = "(new_hook (\<lambda>_. None) True)\<lparr>h_clients := race_clients\<rparr>"
  have c: "v_heap (client_of 0 t) (Suc 0) = Some (new_participant ''p'' ''u'')"
    if "h_clients t = race_clients" for t
    using that by (simp add: client_of_def race_clients_def participant_joined_def new_video_def Let_def
        v_emit_def v_log_def)
  have g: "guarded (hook_event 0) (cam_event_ok 0) race_events ?s"
    by (simp add: race_events_def on_track_muted_def map_tile_def new_hook_def c cam_shows_def
        cam_state_def new_participant_def Let_def)
  obtain p where p: "h_tiles (run (hook_event 0) race_events ?s) = [p]" "p_id p = ''p''"
    by (simp add: race_events_def on_track_muted_def map_tile_def new_hook_def c new_participant_def
        on_participant_joined_def to_tile_def on_track_added_def tile_track_added_def Let_def)
  with camera_tile_matches_signals [OF g] have "p_video p = Some 7"
    by (simp add: race_events_def)
  with p show ?thesis by blast
qed

section \<open>The persisted microphone\<close>

lemma hook_effects_clients [simp]:
  "h_clients (hook_event i e s) = h_clients s"
  by (cases e) (auto simp: on_connected_def on_participant_joined_def on_participant_left_def
      on_track_added_def on_track_removed_def on_track_muted_def map_tile_def Let_def split: option.split)

lemma fold_effects_clients [simp]: "h_clients (fold (hook_effect i) es s) = h_clients s"
proof (induction es arbitrary: s)
  case (Cons e es)
  then show ?case by (cases e) simp_all
qed simp

lemma client_step_client:
  "h_clients s i = Some c \<Longrightarrow> client_of i (client_step i inp s) = v_step inp c"
  by (simp add: client_of_def client_step_def Let_def)

text \<open>The microphone that was chosen in one call is asked for in the next: when the microphone comes on
  and the saved device is plugged in but not the one in use, the client is told to switch to it; a
  saved device that is gone, or already in use, changes nothing.\<close>

theorem saved_device_restored:
  assumes "h_storage_ok s" "v_mic_device (client_of i s) = Some d" "d \<noteq> []"
    and "h_storage t = h_storage (mic_set i HDone s)" "h_storage_ok t"
    and "h_clients t j = Some c" "v_pc c \<noteq> None"
  shows "if v_mic_device c = Some d
    then h_waits (mic_toggled j silent (HEnabled True) t) = h_waits t
    else h_waits (mic_toggled j silent (HEnabled True) t) = (h_waits t)(h_next t \<mapsto> WMicDevices j d) \<and>
      (\<forall>u audio video. h_clients u j = Some c \<longrightarrow>
        client_of j (mic_devices j d (HDevices audio video) u)
          = (if d \<in> set audio then v_await (KMicDevice d) c else c))"
proof -
  have st: "h_storage t MIC_DEVICE_STORAGE_KEY = Some d"
    using assms(1-4) by (simp add: mic_set_def Let_def persist_settled_def write_persisted_device_def)
  let ?u = "if silent then t\<lparr>h_mic := True\<rparr> else play_sound ''enable'' (t\<lparr>h_mic := True\<rparr>)"
  have u: "h_storage ?u = h_storage t" "h_storage_ok ?u" "h_waits ?u = h_waits t" "h_next ?u = h_next t"
    "client_of j ?u = c"
    using assms(5,6) by (simp_all add: play_sound_def client_of_def)
  have m: "mic_toggled j silent (HEnabled True) t = apply_persisted_mic j ?u"
    by (simp add: mic_toggled_def)
  have r: "read_persisted_device MIC_DEVICE_STORAGE_KEY ?u = Some d"
    using u(1,2) st by (simp add: read_persisted_device_def)
  show ?thesis
  proof (cases "v_mic_device c = Some d")
    case True
    then have "apply_persisted_mic j ?u = ?u" unfolding apply_persisted_mic_def r u(5) by simp
    with True u(3) show ?thesis unfolding m by simp
  next
    case False
    then have "apply_persisted_mic j ?u = hook_await (WMicDevices j d) ?u"
      unfolding apply_persisted_mic_def r u(5) using assms(3) by simp
    then have "h_waits (mic_toggled j silent (HEnabled True) t) = (h_waits t)(h_next t \<mapsto> WMicDevices j d)"
      unfolding m using u(3,4) by (simp add: hook_await_def)
    moreover have "client_of j (mic_devices j d (HDevices audio video) v)
        = (if d \<in> set audio then v_await (KMicDevice d) c else c)" if "h_clients v j = Some c" for v audio video
      using client_step_client [OF that, of "VSetMicDevice d"] False assms(7) that
      by (simp add: mic_devices_def hook_await_def client_of_def set_mic_device_def)
    ultimately show ?thesis using False by simp
  qed
qed

theorem saved_device_restored_witness:
  "let s = (new_hook (\<lambda>_. None) True)\<lparr>h_clients := [0 \<mapsto> (new_video ''u'' ''a'')\<lparr>v_mic_device := Some ''usb''\<rparr>]\<rparr>;
       t = (mic_set 0 HDone s)\<lparr>h_clients := [1 \<mapsto> v_connect (new_video ''u'' ''b'')]\<rparr>
   in h_waits (mic_toggled 1 False (HEnabled True) t) 0 = Some (WMicDevices 1 ''usb'')"
proof -
  let ?s = "(new_hook (\<lambda>_. None) True)\<lparr>h_clients := [0 \<mapsto> (new_video ''u'' ''a'')\<lparr>v_mic_device := Some ''usb''\<rparr>]\<rparr>"
  let ?t = "(mic_set 0 HDone ?s)\<lparr>h_clients := [1 \<mapsto> v_connect (new_video ''u'' ''b'')]\<rparr>"
  have "h_storage_ok ?s" "v_mic_device (client_of 0 ?s) = Some ''usb''" "''usb'' \<noteq> ([] :: string)"
    "h_storage ?t = h_storage (mic_set 0 HDone ?s)" "h_storage_ok ?t"
    "h_clients ?t 1 = Some (v_connect (new_video ''u'' ''b''))"
    "v_pc (v_connect (new_video ''u'' ''b'')) \<noteq> None"
    by (simp_all add: new_hook_def client_of_def mic_set_def persist_settled_def
        write_persisted_device_def Let_def v_connect_def new_video_def)
  note r = saved_device_restored [OF this, of False]
  have "v_mic_device (v_connect (new_video ''u'' ''b'')) \<noteq> Some ''usb''" "h_next ?t = 0"
    by (simp_all add: v_connect_def new_video_def new_hook_def mic_set_def persist_settled_def
        write_persisted_device_def client_of_def Let_def)
  with r show ?thesis by (simp add: Let_def)
qed

section \<open>Where the view and the session come apart\<close>

text \<open>
  The client announces the end of a remote screen share with \<open>screen_share_stopped\<close>, which the
  hook ignores; it never emits the \<open>track_removed\<close> that the hook waits for. The tile keeps the
  dead track although the client's own participant has dropped it.
\<close>

lemma remote_screen_tile_stays:
  assumes "h_clients s i = Some c" "v_ended c t = Some (EndRemoteScreen r)" "v_heap c r = Some p"
  shows "h_tiles (client_step i (VTrackEnds t) s) = h_tiles s"
    and "track_live c t \<Longrightarrow>
      v_heap (client_of i (client_step i (VTrackEnds t) s)) r = Some (p\<lparr>p_screen_video := None\<rparr>)"
  using assms
  by (simp_all add: client_step_def Let_def client_of_def track_ended_def stop_track_def set_part_def
      v_emit_def v_log_def set_track_def)

text \<open>Stopping the share from the browser's bar leaves the hook's sharing flag set.\<close>

lemma sharing_flag_stays:
  assumes "h_sharing s"
  shows "h_sharing (screen_track_ended x s)"
proof -
  have "h_sharing (fold (\<lambda>_ s. play_sound ''disable_desktop'' (s\<lparr>h_screen := None\<rparr>)) ys s)" for ys
    using assms by (induction ys arbitrary: s) (simp_all add: play_sound_def)
  then show ?thesis by (simp add: screen_track_ended_def)
qed

text \<open>The close event of an earlier client's socket marks the session of the current one disconnected.\<close>

lemma stale_client_disconnects:
  assumes "h_clients s i = Some c" "v_socks c w = Some CLOSING" "h_ref s = Some j" "i \<noteq> j"
  shows "\<not> h_connected (hook_step (HClient i (VSockClosed w)) s)"
    and "h_ref (hook_step (HClient i (VSockClosed w)) s) = Some j"
  using assms by (simp_all add: client_step_def Let_def v_emit_def v_log_def)

text \<open>Ending the share in the app plays no sound: stopping a track does not fire its \<open>ended\<close> event.\<close>

lemma unpublish_is_silent: "h_sounds (unpublished i r s) = h_sounds s"
  by (simp add: unpublished_def)

end
