(* ===== verification/VideoCall.thy ===== *)
theory VideoCall
  imports VideoHook VideoKeeps VolumeStore
begin

text \<open>
  \<open>VideoCallProvider\<close> of \<open>frontend/contexts/video-call-context.tsx\<close>: the voice channel the user is
  in, on top of the hook \<open>useVideoClient\<close>. Every callback works on the state of the last render;
  the effects (connect when the session id lands, react to being kicked) run after the step that
  changed what they depend on. \<open>joinVoice\<close> waits for the media server's session id.
\<close>

section \<open>State and operations\<close>

record call =
  c_user :: "(string \<times> string) option" \<comment> \<open>the session: user id, hub id\<close>
  c_active :: "string option"
  c_sid :: "string option"
  c_debug :: bool
  c_kick :: "string option"
  c_deafened :: bool
  c_volumes :: vol_store
  c_hook :: hook
  c_joins :: "nat \<rightharpoonup> string"
  c_next :: nat
  c_requests :: "(string \<times> string) list" \<comment> \<open>channel, hub\<close>
  c_toasts :: "string list"

definition new_call :: "(string \<times> string) option \<Rightarrow> hook \<Rightarrow> call" where
  "new_call user h =
     \<lparr>c_user = user, c_active = None, c_sid = None, c_debug = False, c_kick = None,
      c_deafened = False, c_volumes = vol_empty, c_hook = h, c_joins = (\<lambda>_. None), c_next = 0,
      c_requests = [], c_toasts = []\<rparr>"

definition call_sound :: "string \<Rightarrow> call \<Rightarrow> call" where
  "call_sound x s = s\<lparr>c_hook := play_sound x (c_hook s)\<rparr>"

text \<open>\<open>videoOpts\<close>: the user and the session id, once there is one.\<close>

definition video_opts :: "call \<Rightarrow> (string \<times> string) option" where
  "video_opts s =
     (case (c_sid s, c_user s) of
        (Some sid, Some (user, hub)) \<Rightarrow> if sid = [] then None else Some (user, sid) | _ \<Rightarrow> None)"

definition auto_connect :: "call \<Rightarrow> call" where
  "auto_connect s =
     (case (c_sid s, c_active s) of
        (Some sid, Some ch) \<Rightarrow>
          if sid = [] \<or> ch = [] then s else s\<lparr>c_hook := hook_connect (video_opts s) (c_hook s)\<rparr>
      | _ \<Rightarrow> s)"

definition join_voice :: "string \<Rightarrow> call \<Rightarrow> call" where
  "join_voice ch s =
     (if c_active s = Some ch then s
      else
        (let s1 = (if c_active s \<notin> {None, Some []}
                   then s\<lparr>c_hook := hook_disconnect (c_hook s), c_sid := None\<rparr> else s)
         in case c_user s1 of
              None \<Rightarrow> s1
            | Some (user, hub) \<Rightarrow>
                s1\<lparr>c_requests := c_requests s1 @ [(ch, hub)],
                   c_joins := (c_joins s1)(c_next s1 \<mapsto> ch), c_next := Suc (c_next s1)\<rparr>))"

text \<open>The reply: a session id and the debug flag, or \<open>None\<close> for an error status or no network.\<close>

definition join_reply :: "nat \<Rightarrow> (string \<times> bool) option \<Rightarrow> call \<Rightarrow> call" where
  "join_reply n r s =
     (case c_joins s n of
        None \<Rightarrow> s
      | Some ch \<Rightarrow>
          (let s1 = s\<lparr>c_joins := (c_joins s)(n := None)\<rparr> in
           case r of
             None \<Rightarrow> s1
           | Some (sid, debug) \<Rightarrow>
               auto_connect (call_sound ''join_call''
                 (s1\<lparr>c_sid := Some sid, c_debug := debug, c_active := Some ch\<rparr>))))"

definition leave_voice :: "call \<Rightarrow> call" where
  "leave_voice s =
     (if c_active s \<in> {None, Some []} then s
      else
        (let s1 = call_sound ''leave_call'' s in
         s1\<lparr>c_hook := hook_disconnect (c_hook s1), c_sid := None, c_debug := False, c_active := None,
            c_deafened := False, c_volumes := fst (vol_reset (c_volumes s1))\<rparr>))"

definition toggle_deafen :: "call \<Rightarrow> call" where
  "toggle_deafen s =
     (let now = \<not> c_deafened s;
          s1 = call_sound (if now then ''disable'' else ''enable'') (s\<lparr>c_deafened := now\<rparr>);
          s2 = (case h_shown (c_hook s1) of
                  None \<Rightarrow> s1
                | Some i \<Rightarrow> s1\<lparr>c_hook := client_step i (VSetDeafened now) (c_hook s1)\<rparr>)
      in if now \<and> h_mic (c_hook s) then s2\<lparr>c_hook := hook_toggle_mic True (c_hook s2)\<rparr> else s2)"

definition set_participant_volume :: "string \<Rightarrow> real \<Rightarrow> call \<Rightarrow> call" where
  "set_participant_volume user v s = s\<lparr>c_volumes := fst (vol_set user v (c_volumes s))\<rparr>"

text \<open>
  \<open>onForceDisconnected\<close> is the setter of \<open>forceKickReason\<close>; the effect shows a toast, then leaves
  and clears the reason.
\<close>

definition kick_effect :: "call \<Rightarrow> call" where
  "kick_effect s =
     (case c_kick s of
        None \<Rightarrow> s
      | Some reason \<Rightarrow>
          (leave_voice (s\<lparr>c_toasts := c_toasts s @
             [if reason = ''joined_elsewhere''
              then ''You joined this call from another window. Only one tab can be active at a time.''
              else reason]\<rparr>))\<lparr>c_kick := None\<rparr>)"

definition on_hook_input :: "hook_input \<Rightarrow> call \<Rightarrow> call" where
  "on_hook_input e s =
     (let h = hook_step e (c_hook s);
          kicks = drop (length (h_forced (c_hook s))) (h_forced h)
      in kick_effect (s\<lparr>c_hook := h, c_kick := (if kicks = [] then c_kick s else Some (last kicks))\<rparr>))"

datatype call_input =
    CJoin string
  | CReply nat "(string \<times> bool) option"
  | CLeave
  | CDeafen
  | CVolume string real
  | CHook hook_input

fun call_step :: "call_input \<Rightarrow> call \<Rightarrow> call" where
  "call_step (CJoin ch) s = join_voice ch s"
| "call_step (CReply n r) s = join_reply n r s"
| "call_step CLeave s = leave_voice s"
| "call_step CDeafen s = toggle_deafen s"
| "call_step (CVolume u v) s = set_participant_volume u v s"
| "call_step (CHook e) s = on_hook_input e s"

section \<open>What the hook keeps\<close>

text \<open>Only connecting and disconnecting change which client is in use; a client keeps its session.\<close>

lemma play_sound_ref [simp]:
  "h_ref (play_sound x h) = h_ref h" "h_clients (play_sound x h) = h_clients h"
  "h_shown (play_sound x h) = h_shown h" "h_next (play_sound x h) = h_next h"
  by (simp_all add: play_sound_def)

lemma hook_event_ref [simp]:
  "h_ref (hook_event i e s) = h_ref s" "h_clients (hook_event i e s) = h_clients s"
  "h_next (hook_event i e s) = h_next s" "h_shown (hook_event i e s) = h_shown s"
  by (cases e; auto simp: on_connected_def on_participant_joined_def on_participant_left_def
      on_track_added_def on_track_removed_def on_track_muted_def map_tile_def Let_def split: option.split)+

lemma hook_effects_ref [simp]:
  "h_ref (fold (hook_effect i) es s) = h_ref s" "h_clients (fold (hook_effect i) es s) = h_clients s"
  "h_next (fold (hook_effect i) es s) = h_next s" "h_shown (fold (hook_effect i) es s) = h_shown s"
proof -
  have "hook_effect i e t = t \<or> (\<exists>v. hook_effect i e t = hook_event i v t)" for e t by (cases e) auto
  then have "h_ref (hook_effect i e t) = h_ref t \<and> h_clients (hook_effect i e t) = h_clients t \<and>
      h_next (hook_effect i e t) = h_next t \<and> h_shown (hook_effect i e t) = h_shown t" for e t
    by (metis hook_event_ref)
  then show "h_ref (fold (hook_effect i) es s) = h_ref s" "h_clients (fold (hook_effect i) es s) = h_clients s"
    "h_next (fold (hook_effect i) es s) = h_next s" "h_shown (fold (hook_effect i) es s) = h_shown s"
    by (induction es arbitrary: s) simp_all
qed

lemma client_step_ref [simp]:
  "h_ref (client_step i inp h) = h_ref h" "h_next (client_step i inp h) = h_next h"
  "h_shown (client_step i inp h) = h_shown h"
  "h_clients (client_step i inp h) j =
     (if j = i then map_option (v_step inp) (h_clients h i) else h_clients h j)"
  by (simp_all add: client_step_def Let_def split: option.split)

definition serves :: "hook \<Rightarrow> nat \<Rightarrow> string option" where
  "serves h i = map_option v_session (h_clients h i)"

definition hook_wf :: "hook \<Rightarrow> bool" where
  "hook_wf h \<longleftrightarrow> (\<forall>i. h_ref h = Some i \<longrightarrow> h_clients h i \<noteq> None)"

lemma serves_client_step [simp]: "serves (client_step i inp h) j = serves h j"
  by (simp add: serves_def option.map_comp o_def session_step)

text \<open>Frames of the other hook operations.\<close>

definition hook_same :: "hook \<Rightarrow> hook \<Rightarrow> bool" where
  "hook_same h k \<longleftrightarrow> h_ref k = h_ref h \<and> (\<forall>i. serves k i = serves h i)"

lemma hook_same_refl: "hook_same h h"
  by (simp add: hook_same_def)

lemma hook_same_simps [simp]:
  "hook_same h (client_step i inp k) = hook_same h k" "hook_same h (play_sound x k) = hook_same h k"
  "hook_same h (hook_await w k) = hook_same h k" "hook_same h (refresh_local_stream k) = hook_same h k"
  "hook_same h (k\<lparr>h_mic := b\<rparr>) = hook_same h k" "hook_same h (k\<lparr>h_cam := b\<rparr>) = hook_same h k"
  "hook_same h (k\<lparr>h_mic_dev := d\<rparr>) = hook_same h k" "hook_same h (k\<lparr>h_cam_dev := d\<rparr>) = hook_same h k"
  "hook_same h (k\<lparr>h_sharing := b\<rparr>) = hook_same h k" "hook_same h (k\<lparr>h_screen := t\<rparr>) = hook_same h k"
  "hook_same h (k\<lparr>h_ended := en\<rparr>) = hook_same h k" "hook_same h (k\<lparr>h_local := l\<rparr>) = hook_same h k"
  "hook_same h (k\<lparr>h_audio_inputs := ai\<rparr>) = hook_same h k" "hook_same h (k\<lparr>h_waits := w2\<rparr>) = hook_same h k"
  "hook_same h (k\<lparr>h_video_inputs := ai\<rparr>) = hook_same h k"
  "hook_same h (write_persisted_device key x k) = hook_same h k"
  by (simp_all add: hook_same_def)
    (simp_all add: serves_def play_sound_def hook_await_def refresh_local_stream_def write_persisted_device_def)

lemma hook_same_with: "hook_same h (with_client inp w h)"
  by (simp add: with_client_def hook_same_refl split: option.split)

lemma hook_same_ended: "hook_same h k \<Longrightarrow> hook_same h (screen_track_ended x k)"
proof -
  have "hook_same h k \<Longrightarrow>
      hook_same h (fold (\<lambda>_ s. play_sound ''disable_desktop'' (s\<lparr>h_screen := None\<rparr>)) ys k)" for ys
    by (induction ys arbitrary: k) simp_all
  then show "hook_same h k \<Longrightarrow> hook_same h (screen_track_ended x k)"
    by (simp add: screen_track_ended_def)
qed

lemma hook_same_resume: "hook_same h k \<Longrightarrow> hook_same h (hook_resume w r k)"
  by (cases w) (auto simp: mic_toggled_def apply_persisted_mic_def mic_devices_def mic_applied_def
      cam_toggled_def apply_persisted_camera_def cam_devices_def cam_applied_def published_def
      unpublished_def devices_listed_def mic_set_def cam_set_def persist_settled_def Let_def
      split: option.split hook_result.split)

lemma hook_same_step:
  assumes "\<forall>opts. e \<noteq> HConnect opts" "e \<noteq> HDisconnect" "e \<noteq> HUnmount"
  shows "hook_same h (hook_step e h)"
proof (cases e)
  case (HClient i inp)
  then show ?thesis by (cases inp) (simp_all add: hook_same_refl hook_same_ended)
next
  case (HSettled n r)
  then show ?thesis by (auto simp: hook_same_refl intro!: hook_same_resume split: option.split)
qed (use assms in \<open>simp_all add: hook_same_refl hook_same_with hook_toggle_mic_def hook_toggle_camera_def
    hook_publish_def hook_unpublish_def device_change_def refresh_devices_def hook_set_mic_device_def
    hook_set_camera_device_def\<close>)

lemma hook_disconnect_ref [simp]: "h_ref (hook_disconnect h) = None"
  by (simp add: hook_disconnect_def Let_def)

lemma hook_connect_serves:
  assumes "h_ref h = None"
  shows "\<exists>i. h_ref (hook_connect (Some (user, sid)) h) = Some i \<and>
    serves (hook_connect (Some (user, sid)) h) i = Some sid"
  using assms
  by (simp add: hook_connect_def Let_def serves_client_step) (simp add: serves_def new_video_def)

end
