(* ===== verification/VideoCallProps.thy ===== *)
theory VideoCallProps
  imports VideoCall
begin

text \<open>
  The properties of the call provider: whoever is connected is connected to the channel that is
  shown, as long as one join waits for its reply at a time; deafening; and what happens when joins
  fail or overlap.
\<close>

section \<open>Connected to the channel that is shown\<close>

text \<open>\<open>server ch sid\<close>: the media server answers a request for channel \<open>ch\<close> with session \<open>sid\<close>.\<close>

fun call_ok :: "(string \<Rightarrow> string \<Rightarrow> bool) \<Rightarrow> call_input \<Rightarrow> call \<Rightarrow> bool" where
  "call_ok server (CJoin ch) s = (ch \<noteq> [] \<and> (\<forall>n. c_joins s n = None))"
| "call_ok server (CReply n (Some (sid, d))) s =
     (case c_joins s n of None \<Rightarrow> True | Some ch \<Rightarrow> server ch sid)"
| "call_ok server (CHook e) s = ((\<forall>opts. e \<noteq> HConnect opts) \<and> e \<noteq> HDisconnect \<and> e \<noteq> HUnmount)"
| "call_ok server e s = True"

definition call_inv :: "(string \<Rightarrow> string \<Rightarrow> bool) \<Rightarrow> call \<Rightarrow> bool" where
  "call_inv server s \<longleftrightarrow>
     (\<forall>i. h_ref (c_hook s) = Some i \<longrightarrow> c_sid s \<noteq> None \<and> serves (c_hook s) i = c_sid s) \<and>
     (\<forall>sid. c_sid s = Some sid \<longrightarrow> (\<exists>ch. c_active s = Some ch \<and> server ch sid)) \<and>
     (\<forall>n m. c_joins s n \<noteq> None \<longrightarrow> c_joins s m \<noteq> None \<longrightarrow> n = m) \<and>
     (\<forall>n ch. c_joins s n = Some ch \<longrightarrow>
        ch \<noteq> [] \<and> h_ref (c_hook s) = None \<and> c_sid s = None \<and> c_user s \<noteq> None) \<and>
     c_active s \<noteq> Some []"

lemma call_sound_frame [simp]:
  "c_joins (call_sound x s) = c_joins s" "c_user (call_sound x s) = c_user s"
  "c_active (call_sound x s) = c_active s" "c_sid (call_sound x s) = c_sid s"
  "c_hook (call_sound x s) = play_sound x (c_hook s)"
  by (simp_all add: call_sound_def)

lemma call_inv_hook:
  "call_inv server s \<Longrightarrow> hook_same (c_hook s) h \<Longrightarrow> call_inv server (s\<lparr>c_hook := h\<rparr>)"
  by (simp add: call_inv_def hook_same_def)

lemma call_inv_leave:
  assumes "call_inv server s"
  shows "call_inv server (leave_voice s)"
  using assms by (auto simp: call_inv_def leave_voice_def Let_def)

lemma call_inv_sound: "call_inv server s \<Longrightarrow> call_inv server (call_sound x s)"
  using call_inv_hook [of server s "play_sound x (c_hook s)"] by (simp add: call_sound_def hook_same_refl)

lemma call_inv_join:
  assumes i: "call_inv server s" and ok: "ch \<noteq> []" "\<forall>n. c_joins s n = None"
  shows "call_inv server (join_voice ch s)"
proof (cases "c_active s = None")
  case True
  with i have "c_sid s = None" by (auto simp: call_inv_def)
  with i True ok show ?thesis by (auto simp: call_inv_def join_voice_def Let_def split: option.split)
next
  case False
  with i ok show ?thesis by (auto simp: call_inv_def join_voice_def Let_def split: option.split)
qed

lemma call_inv_reply:
  assumes i: "call_inv server s" and ok: "call_ok server (CReply n r) s"
  shows "call_inv server (join_reply n r s)"
proof (cases "c_joins s n")
  case (Some ch)
  have no: "(c_joins s)(n := None) = (\<lambda>_. None)"
  proof
    fix m show "((c_joins s)(n := None)) m = None"
      using i Some by (cases "c_joins s m") (auto simp: call_inv_def)
  qed
  have f: "ch \<noteq> []" "h_ref (c_hook s) = None" "c_sid s = None" "c_user s \<noteq> None"
    using i Some by (auto simp: call_inv_def)
  show ?thesis
  proof (cases r)
    case None
    with i Some f show ?thesis by (simp add: join_reply_def no) (simp add: call_inv_def)
  next
    case (Some x)
    obtain sid d where x: "x = (sid, d)" by force
    have sv: "server ch sid" using ok Some x \<open>c_joins s n = Some ch\<close> by simp
    obtain user hub where u: "c_user s = Some (user, hub)" using f(4) by auto
    let ?s = "call_sound ''join_call'' (s\<lparr>c_joins := \<lambda>_. None, c_sid := Some sid, c_debug := d, c_active := Some ch\<rparr>)"
    have e: "join_reply n r s = auto_connect ?s"
      using Some x \<open>c_joins s n = Some ch\<close> by (simp add: join_reply_def no)
    have j: "call_inv server ?s"
      using f sv by (simp add: call_inv_def call_sound_def)
    show ?thesis
    proof (cases "sid = []")
      case True
      with j show ?thesis unfolding e by (simp add: auto_connect_def call_sound_def)
    next
      case False
      let ?h = "hook_connect (Some (user, sid)) (c_hook ?s)"
      have "auto_connect ?s = ?s\<lparr>c_hook := ?h\<rparr>"
        using False f(1) u by (simp add: auto_connect_def call_sound_def video_opts_def)
      moreover obtain k where "h_ref ?h = Some k" "serves ?h k = Some sid"
        using hook_connect_serves [of "c_hook ?s" user sid] f(2) by (auto simp: call_sound_def)
      ultimately show ?thesis
        unfolding e using f sv by (simp add: call_inv_def call_sound_def)
    qed
  qed
qed (use i in \<open>simp add: join_reply_def\<close>)

lemma call_inv_step:
  assumes i: "call_inv server s" and ok: "call_ok server e s"
  shows "call_inv server (call_step e s)"
proof (cases e)
  case (CHook x)
  have "hook_same (c_hook s) (hook_step x (c_hook s))"
    using ok CHook by (intro hook_same_step) auto
  from call_inv_hook [OF i this]
  have a: "call_inv server (s\<lparr>c_hook := hook_step x (c_hook s), c_kick := k\<rparr>)" for k
    by (simp add: call_inv_def)
  have "call_inv server (kick_effect u)" if "call_inv server u" for u
    using that call_inv_leave [of server "u\<lparr>c_toasts := ts\<rparr>" for ts]
    by (auto simp: kick_effect_def call_inv_def split: option.split)
  with a CHook show ?thesis by (simp add: on_hook_input_def Let_def)
next
  case CDeafen
  have w: "hook_same h k \<Longrightarrow> hook_same h (with_client inp f k)" for h k inp f
    by (simp add: with_client_def split: option.split)
  have "\<exists>b h. toggle_deafen s = s\<lparr>c_deafened := b, c_hook := h\<rparr> \<and> hook_same (c_hook s) h"
    by (cases "h_shown (c_hook s)"; cases "c_deafened s"; cases "h_mic (c_hook s)")
      (auto simp: toggle_deafen_def Let_def call_sound_def hook_toggle_mic_def hook_same_refl
        intro!: w exI [of _ "\<not> c_deafened s"])
  then obtain b h where "toggle_deafen s = s\<lparr>c_deafened := b, c_hook := h\<rparr>" "hook_same (c_hook s) h"
    by blast
  moreover from call_inv_hook [OF i this(2)] have "call_inv server (s\<lparr>c_deafened := b, c_hook := h\<rparr>)"
    by (simp add: call_inv_def)
  ultimately show ?thesis using CDeafen by simp
next
  case (CVolume u v)
  with i show ?thesis by (simp add: set_participant_volume_def call_inv_def)
next
  case (CJoin ch)
  with i ok show ?thesis by (simp add: call_inv_join)
next
  case (CReply n r)
  with call_inv_reply [OF i] ok show ?thesis by simp
next
  case CLeave
  with call_inv_leave [OF i] show ?thesis by simp
qed

interpretation voice: invariant_machine call_step "call_ok server" "call_inv server" for server
  by unfold_locales (rule call_inv_step)

text \<open>C4. If a join starts only when no other waits for its reply, then after any sequence of joins,
  replies, leaves, kicks, toggles and events the client in use belongs to the channel that is shown:
  its session is the one the server gave for that channel.\<close>

theorem voice_client_serves_shown_channel:
  assumes "guarded call_step (call_ok server) es (new_call user (new_hook storage ok))"
    and "h_ref (c_hook (run call_step es (new_call user (new_hook storage ok)))) = Some i"
  shows "\<exists>ch sid. c_active (run call_step es (new_call user (new_hook storage ok))) = Some ch \<and>
    server ch sid \<and> serves (c_hook (run call_step es (new_call user (new_hook storage ok)))) i = Some sid"
proof -
  have "call_inv server (new_call user (new_hook storage ok))"
    by (simp add: call_inv_def new_call_def new_hook_def)
  from voice.inv_run [OF this assms(1)] assms(2) show ?thesis
    by (auto simp: call_inv_def)
qed

definition switch_run :: "call_input list" where
  "switch_run = [CJoin ''a'', CReply 0 (Some (''sa'', False)), CJoin ''b'', CReply 1 (Some (''sb'', False))]"

lemmas call_eval = new_call_def new_hook_def join_voice_def join_reply_def auto_connect_def video_opts_def
  call_sound_def play_sound_def hook_connect_def hook_disconnect_def client_step_def Let_def
  v_connect_def v_disconnect_def new_video_def serves_def opt_list_def

theorem voice_client_serves_shown_channel_witness:
  "serves (c_hook (run call_step switch_run (new_call (Some (''u'', ''h'')) (new_hook (\<lambda>_. None) True)))) 1
     = Some ''sb''"
proof -
  let ?s = "new_call (Some (''u'', ''h'')) (new_hook (\<lambda>_. None) True)"
  have "guarded call_step (call_ok (\<lambda>ch sid. sid = CHR ''s'' # ch)) switch_run ?s"
    by (simp add: switch_run_def call_eval)
  moreover have "h_ref (c_hook (run call_step switch_run ?s)) = Some 1"
    by (simp add: switch_run_def call_eval)
  ultimately have "\<exists>ch sid. c_active (run call_step switch_run ?s) = Some ch \<and> sid = CHR ''s'' # ch \<and>
      serves (c_hook (run call_step switch_run ?s)) 1 = Some sid"
    by (rule voice_client_serves_shown_channel)
  moreover have "c_active (run call_step switch_run ?s) = Some ''b''"
    by (simp add: switch_run_def call_eval)
  ultimately show ?thesis by simp
qed

text \<open>
  The condition is needed: of two joins that overlap, the second reply moves the view to its
  channel while the client stays with the session of the first, because \<open>connect\<close> returns at
  once when there is a client.
\<close>

lemma overlapping_joins_diverge:
  "let s = run call_step [CJoin ''a'', CJoin ''b'', CReply 0 (Some (''sa'', False)), CReply 1 (Some (''sb'', False))]
             (new_call (Some (''u'', ''h'')) (new_hook (\<lambda>_. None) True))
   in c_active s = Some ''b'' \<and> h_ref (c_hook s) = Some 0 \<and> serves (c_hook s) 0 = Some ''sa''"
  by (simp add: call_eval)

text \<open>
  When the session of the new channel cannot be created, the user is left in the old one without a
  connection, and joining it again does nothing.
\<close>

lemma failed_switch_strands:
  assumes "c_active s = Some a" "a \<noteq> []" "b \<noteq> a" "c_user s = Some u"
  shows "let t = run call_step [CJoin b, CReply (c_next s) None] s in
    c_active t = Some a \<and> h_ref (c_hook t) = None \<and> c_sid t = None \<and> call_step (CJoin a) t = t"
  using assms by (cases u) (simp add: join_voice_def join_reply_def Let_def)

section \<open>Deafening\<close>

text \<open>Deafening with the microphone on turns it off, tells the others both things on an open link, and
  plays one sound; hearing again leaves the microphone as it is.\<close>

theorem deafen_mutes:
  assumes "h_ref (c_hook s) = Some i" "h_shown (c_hook s) = Some i" "h_clients (c_hook s) i = Some c"
    and "v_ws c = Some w" "v_socks c w = Some OPEN" "v_mic c" "h_mic (c_hook s)"
  shows "let t = call_step CDeafen s; d = client_of i (c_hook t) in
    c_deafened t = (\<not> c_deafened s) \<and>
    (if c_deafened s then v_mic d \<and> v_out d = v_out c @ [VSend w (FDeafen False)]
     else \<not> v_mic d \<and> v_out d = v_out c @ [VSend w (FDeafen True), VSend w (FMute AudioTrack True)]) \<and>
    h_sounds (c_hook t) = h_sounds (c_hook s) @ [if c_deafened s then ''enable'' else ''disable'']"
proof -
  let ?c = "\<lambda>b. v_log [VSend w (FDeafen b)] c"
  have d: "v_step (VSetDeafened b) c = ?c b" for b
    using assms by (simp add: set_deafened_def v_send_def)
  have m: "v_out (disable_mic (?c b)) = v_out (?c b) @ [VSend w (FMute AudioTrack True)]"
    "\<not> v_mic (disable_mic (?c b))" for b
    using assms by (auto simp: disable_mic_def Let_def enable_track_def v_send_def split: list.split)
  show ?thesis
    using assms d m
    by (simp add: toggle_deafen_def Let_def call_sound_def play_sound_def client_step_def client_of_def
        hook_toggle_mic_def with_client_def hook_await_def toggle_mic_def)
qed

definition deaf_call :: call where
  "deaf_call = (new_call (Some (''u'', ''h'')) ((new_hook (\<lambda>_. None) True)
     \<lparr>h_ref := Some 0, h_shown := Some 0, h_mic := True,
      h_clients := [0 \<mapsto> (new_video ''u'' ''s'')\<lparr>v_ws := Some 2, v_socks := [2 \<mapsto> OPEN], v_mic := True\<rparr>]\<rparr>))"

theorem deafen_mutes_witness:
  "\<not> v_mic (client_of 0 (c_hook (call_step CDeafen deaf_call)))"
proof -
  let ?c = "(new_video ''u'' ''s'')\<lparr>v_ws := Some 2, v_socks := [2 \<mapsto> OPEN], v_mic := True\<rparr>"
  have "h_ref (c_hook deaf_call) = Some 0" "h_shown (c_hook deaf_call) = Some 0"
    "h_clients (c_hook deaf_call) 0 = Some ?c" "v_ws ?c = Some 2" "v_socks ?c 2 = Some OPEN" "v_mic ?c"
    "h_mic (c_hook deaf_call)" "\<not> c_deafened deaf_call"
    by (simp_all add: deaf_call_def new_call_def)
  with deafen_mutes [OF this(1-7)] show ?thesis by (simp add: Let_def)
qed

end
