(* ===== verification/IncomingCall.thy ===== *)
theory IncomingCall
  imports VideoCallProps
begin

text \<open>
  \<open>IncomingCallProvider\<close> of \<open>frontend/contexts/incoming-call-context.tsx\<close>: direct calls, on top of
  the voice call. Its two effects run after every step: the inviter's call is stamped when the peer
  appears, and a call whose channel is not the active one is over, with a goodbye to the backend.
  Requests are the log \<open>i_posts\<close>; a failed request is only logged by the code.
\<close>

section \<open>State\<close>

datatype dm_role = Inviter | Recipient

record dm_call =
  dm_channel :: string
  dm_role :: dm_role
  dm_started :: "int option"

datatype dm_post = PStart string | PEnd string int | PCancel string | PDecline string string

record dms =
  i_me :: string
  i_incoming :: "(string \<times> string) option" \<comment> \<open>from user, channel\<close>
  i_dm :: "dm_call option"
  i_call :: call
  i_channels :: "(string \<times> string list option) list"
  i_now :: int
  i_posts :: "dm_post list"

definition new_dms :: "string \<Rightarrow> call \<Rightarrow> dms" where
  "new_dms me c =
     \<lparr>i_me = me, i_incoming = None, i_dm = None, i_call = c, i_channels = [], i_now = 0, i_posts = []\<rparr>"

section \<open>Effects\<close>

text \<open>The first participant of the channel who is not me.\<close>

definition dm_peer :: "string \<Rightarrow> dms \<Rightarrow> string option" where
  "dm_peer ch s =
     (case find (\<lambda>c. fst c = ch) (i_channels s) of
        Some (_, Some ids) \<Rightarrow> find (\<lambda>u. u \<noteq> i_me s) ids | _ \<Rightarrow> None)"

definition stamp_effect :: "dms \<Rightarrow> dm_call option \<Rightarrow> dm_call option" where
  "stamp_effect s dm =
     (case dm of
        None \<Rightarrow> None
      | Some d \<Rightarrow>
          if dm_role d \<noteq> Inviter \<or> dm_started d \<noteq> None then Some d
          else case dm_peer (dm_channel d) s of
            None \<Rightarrow> Some d
          | Some peer \<Rightarrow>
              if peer \<noteq> [] \<and> (\<exists>p \<in> set (h_tiles (c_hook (i_call s))). p_user p = peer)
              then Some (d\<lparr>dm_started := Some (i_now s)\<rparr>) else Some d)"

definition goodbye :: "int \<Rightarrow> dm_call \<Rightarrow> dm_post" where
  "goodbye now d =
     (case dm_started d of
        Some t \<Rightarrow> PEnd (dm_channel d) (max 0 ((now - t) div 1000)) | None \<Rightarrow> PCancel (dm_channel d))"

text \<open>Both effects see the call of the render; what they schedule is applied after them.\<close>

definition run_effects :: "dms \<Rightarrow> dms" where
  "run_effects s =
     (case i_dm s of
        None \<Rightarrow> s
      | Some d \<Rightarrow>
          if c_active (i_call s) = Some (dm_channel d) then s\<lparr>i_dm := stamp_effect s (i_dm s)\<rparr>
          else s\<lparr>i_dm := None, i_posts := i_posts s @ [goodbye (i_now s) d]\<rparr>)"

section \<open>Operations\<close>

definition start_call :: "string \<Rightarrow> dms \<Rightarrow> dms" where
  "start_call ch s =
     run_effects (s\<lparr>i_dm := Some \<lparr>dm_channel = ch, dm_role = Inviter, dm_started = None\<rparr>,
       i_posts := i_posts s @ [PStart ch], i_call := join_voice ch (i_call s)\<rparr>)"

definition accept_call :: "dms \<Rightarrow> dms" where
  "accept_call s =
     (case i_incoming s of
        None \<Rightarrow> s
      | Some (from, ch) \<Rightarrow>
          run_effects (s\<lparr>i_incoming := None,
            i_dm := Some \<lparr>dm_channel = ch, dm_role = Recipient, dm_started = Some (i_now s)\<rparr>,
            i_call := join_voice ch (i_call s)\<rparr>))"

definition decline_call :: "string \<Rightarrow> dms \<Rightarrow> dms" where
  "decline_call reason s =
     (case i_incoming s of
        None \<Rightarrow> s
      | Some (from, ch) \<Rightarrow> s\<lparr>i_incoming := None, i_posts := i_posts s @ [PDecline ch reason]\<rparr>)"

definition on_invite :: "string \<Rightarrow> string \<Rightarrow> dms \<Rightarrow> dms" where
  "on_invite from ch s = (if from = i_me s then s else s\<lparr>i_incoming := Some (from, ch)\<rparr>)"

text \<open>\<open>dm.call.decline\<close> and \<open>dm.call.ended\<close>: the call is dropped without a goodbye of ours.\<close>

definition on_peer_gone :: "string \<Rightarrow> string \<Rightarrow> dms \<Rightarrow> dms" where
  "on_peer_gone from ch s =
     (if from = i_me s then s
      else
        (let s1 = (case i_dm s of
                     None \<Rightarrow> s | Some d \<Rightarrow> if dm_channel d = ch then s\<lparr>i_dm := None\<rparr> else s);
             s2 = (if c_active (i_call s1) = Some ch then s1\<lparr>i_call := leave_voice (i_call s1)\<rparr> else s1)
         in run_effects s2))"

definition on_cancel :: "string \<Rightarrow> dms \<Rightarrow> dms" where
  "on_cancel ch s =
     (case i_incoming s of
        None \<Rightarrow> s | Some (from, c) \<Rightarrow> if c = ch then s\<lparr>i_incoming := None\<rparr> else s)"

definition outgoing_channel :: "dms \<Rightarrow> string option" where
  "outgoing_channel s =
     (case i_dm s of
        None \<Rightarrow> None
      | Some d \<Rightarrow> if dm_role d = Inviter \<and> dm_started d = None then Some (dm_channel d) else None)"

datatype dm_input =
    IStart string
  | IAccept
  | IDecline string
  | IInvite string string
  | IDeclined string string
  | ICancel string
  | IEnded string string
  | IChannels "(string \<times> string list option) list"
  | ICall call_input
  | ITime int

fun dm_step :: "dm_input \<Rightarrow> dms \<Rightarrow> dms" where
  "dm_step (IStart ch) s = start_call ch s"
| "dm_step IAccept s = accept_call s"
| "dm_step (IDecline reason) s = decline_call reason s"
| "dm_step (IInvite from ch) s = on_invite from ch s"
| "dm_step (IDeclined from ch) s = on_peer_gone from ch s"
| "dm_step (ICancel ch) s = on_cancel ch s"
| "dm_step (IEnded from ch) s = on_peer_gone from ch s"
| "dm_step (IChannels cs) s = run_effects (s\<lparr>i_channels := cs\<rparr>)"
| "dm_step (ICall e) s = run_effects (s\<lparr>i_call := call_step e (i_call s)\<rparr>)"
| "dm_step (ITime t) s = s\<lparr>i_now := t\<rparr>"

section \<open>Goodbyes\<close>

fun is_goodbye :: "dm_post \<Rightarrow> bool" where
  "is_goodbye (PEnd _ _) = True"
| "is_goodbye (PCancel _) = True"
| "is_goodbye _ = False"

definition goodbyes :: "dms \<Rightarrow> nat" where
  "goodbyes s = length (filter is_goodbye (i_posts s)) + (if i_dm s = None then 0 else 1)"

fun begins :: "dm_input \<Rightarrow> nat" where
  "begins (IStart _) = 1"
| "begins IAccept = 1"
| "begins _ = 0"

lemma goodbye_is: "is_goodbye (goodbye now d)"
  by (simp add: goodbye_def split: option.split)

lemma goodbyes_effects: "goodbyes (run_effects s) = goodbyes s"
  by (auto simp: goodbyes_def run_effects_def stamp_effect_def goodbye_is split: option.split)

lemma goodbyes_step: "goodbyes (dm_step e s) \<le> goodbyes s + begins e"
proof (cases e)
  case (IStart ch)
  then show ?thesis by (simp add: start_call_def goodbyes_effects) (simp add: goodbyes_def)
next
  case IAccept
  then show ?thesis
    by (auto simp: accept_call_def goodbyes_effects split: option.split) (simp add: goodbyes_def)
next
  case (IDeclined u ch)
  have "goodbyes (on_peer_gone u ch s) \<le> goodbyes s"
    by (auto simp: on_peer_gone_def Let_def goodbyes_effects split: option.split) (simp_all add: goodbyes_def)
  with IDeclined show ?thesis by simp
next
  case (IEnded u ch)
  have "goodbyes (on_peer_gone u ch s) \<le> goodbyes s"
    by (auto simp: on_peer_gone_def Let_def goodbyes_effects split: option.split) (simp_all add: goodbyes_def)
  with IEnded show ?thesis by simp
qed (auto simp: decline_call_def on_invite_def on_cancel_def goodbyes_effects split: option.split;
    simp add: goodbyes_def)+

text \<open>C13. However calls are started, accepted, declined, cancelled, left and ended, the backend gets at
  most one goodbye (cancel or end) for each call that was started or accepted.\<close>

theorem one_goodbye_per_call:
  "length (filter is_goodbye (i_posts (run dm_step es (new_dms me c)))) \<le> sum_list (map begins es)"
proof -
  have "goodbyes (run dm_step es s) \<le> goodbyes s + sum_list (map begins es)" for s
  proof (induction es arbitrary: s)
    case (Cons e es)
    from Cons [of "dm_step e s"] goodbyes_step [of e s] show ?case by simp
  qed simp
  from this [of "new_dms me c"] show ?thesis by (simp add: goodbyes_def new_dms_def split: if_splits)
qed

text \<open>Leaving the channel of a call that is under way posts exactly one goodbye: a cancel while it still
  rings, an end with the whole seconds since it was picked up after that. When the peer declines or
  ends it, the voice channel is left and no goodbye is posted.\<close>

theorem leaving_says_goodbye_once:
  assumes "i_dm s = Some d" "c_active (i_call s) = Some (dm_channel d)" "dm_channel d \<noteq> []"
    and "from \<noteq> i_me s"
  shows "i_posts (dm_step (ICall CLeave) s) = i_posts s @
      [case dm_started d of None \<Rightarrow> PCancel (dm_channel d)
       | Some t \<Rightarrow> PEnd (dm_channel d) (max 0 ((i_now s - t) div 1000))] \<and>
    i_dm (dm_step (ICall CLeave) s) = None \<and>
    i_posts (dm_step (IEnded from (dm_channel d)) s) = i_posts s \<and>
    i_dm (dm_step (IEnded from (dm_channel d)) s) = None \<and>
    c_active (i_call (dm_step (IEnded from (dm_channel d)) s)) = None"
proof -
  have "c_active (leave_voice (i_call s)) = None"
    using assms by (simp add: leave_voice_def Let_def)
  then show ?thesis
    using assms by (simp add: run_effects_def goodbye_def on_peer_gone_def Let_def split: option.split)
qed

definition ringing :: dms where
  "ringing = (new_dms ''me'' ((new_call None (new_hook (\<lambda>_. None) True))\<lparr>c_active := Some ''d''\<rparr>))
     \<lparr>i_dm := Some \<lparr>dm_channel = ''d'', dm_role = Inviter, dm_started = Some 1000\<rparr>, i_now := 4500\<rparr>"

theorem leaving_says_goodbye_once_witness:
  "i_posts (dm_step (ICall CLeave) ringing) = [PEnd ''d'' 3]"
proof -
  let ?d = "\<lparr>dm_channel = ''d'', dm_role = Inviter, dm_started = Some 1000\<rparr>"
  have "i_dm ringing = Some ?d" "c_active (i_call ringing) = Some (dm_channel ?d)" "dm_channel ?d \<noteq> []"
    "''bob'' \<noteq> i_me ringing"
    by (simp_all add: ringing_def new_dms_def)
  from leaving_says_goodbye_once [OF this] show ?thesis
    by (simp add: ringing_def new_dms_def)
qed

section \<open>Calls that end as they begin\<close>

text \<open>Starting a call to a channel that is not yet the active one posts the start and, in the same
  step, its cancel: the watcher sees the new call before \<open>joinVoice\<close> has its reply. Accepting one
  posts its end with a duration of zero. Either way no call is left.\<close>

theorem new_call_is_dropped:
  assumes "c_active (i_call s) \<noteq> Some ch"
  shows "i_posts (dm_step (IStart ch) s) = i_posts s @ [PStart ch, PCancel ch] \<and>
    i_dm (dm_step (IStart ch) s) = None \<and>
    (i_incoming s = Some (from, ch) \<longrightarrow>
      i_posts (dm_step IAccept s) = i_posts s @ [PEnd ch 0] \<and> i_dm (dm_step IAccept s) = None)"
proof -
  have "c_active (join_voice ch (i_call s)) = c_active (i_call s)"
    by (simp add: join_voice_def Let_def split: option.split)
  with assms show ?thesis
    by (simp add: start_call_def accept_call_def run_effects_def goodbye_def)
qed

theorem new_call_is_dropped_witness:
  "i_posts (dm_step (IStart ''d'') (new_dms ''me'' (new_call (Some (''me'', ''h'')) (new_hook (\<lambda>_. None) True))))
     = [PStart ''d'', PCancel ''d'']"
  using new_call_is_dropped [of "new_dms ''me'' (new_call (Some (''me'', ''h'')) (new_hook (\<lambda>_. None) True))" "''d''"]
  by (simp add: new_dms_def new_call_def)

end
