(* ===== verification/Auth.thy ===== *)
theory Auth
  imports Prelude "HOL-Library.Word"
begin

text \<open>
  \<open>AuthProvider\<close> of \<open>frontend/lib/auth.tsx\<close>: the session, its copy in \<open>localStorage\<close>, the timer
  that refreshes the access token, and the expiry of a guest's link. Times are in milliseconds
  except \<open>exp\<close>, which is in seconds as in a JWT. The decoding of a token
  (\<open>JSON.parse(atob(token.split(".")[1]))\<close>) is the parameter \<open>exp_of\<close>: \<open>None\<close> when it throws,
  \<open>Some None\<close> when the payload has no \<open>exp\<close>. A timer's delay is a 32-bit \<open>long\<close>, as the
  browser takes it.
\<close>

type_synonym exp_of = "string \<Rightarrow> int option option"

section \<open>Sessions and tokens\<close>

record auth_session =
  as_temp :: bool
  as_user :: string
  as_hub :: string
  as_token :: string
  as_refresh :: "string option"
  as_expires :: "int option" \<comment> \<open>\<open>expiresAt\<close>, in milliseconds\<close>
  as_name :: string
  as_avatar :: "string option"

definition jwt_expired :: "exp_of \<Rightarrow> int \<Rightarrow> string \<Rightarrow> bool" where
  "jwt_expired exp_of now tok =
     (case exp_of tok of
        None \<Rightarrow> True
      | Some None \<Rightarrow> False
      | Some (Some e) \<Rightarrow> e \<noteq> 0 \<and> 1000 * e < now)"

definition jwt_seconds_left :: "exp_of \<Rightarrow> int \<Rightarrow> string \<Rightarrow> int" where
  "jwt_seconds_left exp_of now tok =
     (case exp_of tok of
        None \<Rightarrow> 0
      | Some e \<Rightarrow> max 0 ((1000 * (case e of None \<Rightarrow> 0 | Some x \<Rightarrow> x) - now) div 1000))"

text \<open>The delay a timer waits: the argument as a signed 32-bit number, and none if that is negative.\<close>

definition timer_delay :: "int \<Rightarrow> int" where
  "timer_delay ms = max 0 (sint (word_of_int ms :: 32 word))"

definition refresh_in :: "int \<Rightarrow> int" where
  "refresh_in secs = max 30 (secs * 8 div 10) * 1000"

section \<open>State\<close>

datatype stored = NoEntry | BadEntry | Stored auth_session

text \<open>A refresh under way: from the timer, from restoring, from a 401.\<close>

datatype refresh_from = FromTimer | FromRestore | From401

record auth =
  a_session :: "auth_session option"
  a_loading :: bool
  a_expired :: bool
  a_timer :: "(int \<times> auth_session) option" \<comment> \<open>when it is due\<close>
  a_guest_timer :: "int option"
  a_storage :: stored
  a_now :: int
  a_refreshes :: "nat \<rightharpoonup> refresh_from \<times> auth_session"
  a_next :: nat
  a_requests :: "(string \<times> string) list" \<comment> \<open>path, refresh token\<close>
  a_to_login :: nat

definition new_auth :: "stored \<Rightarrow> int \<Rightarrow> auth" where
  "new_auth st now =
     \<lparr>a_session = None, a_loading = True, a_expired = False, a_timer = None, a_guest_timer = None,
      a_storage = st, a_now = now, a_refreshes = (\<lambda>_. None), a_next = 0, a_requests = [],
      a_to_login = 0\<rparr>"

section \<open>Operations\<close>

text \<open>The effect on \<open>session\<close> re-arms the guest's expiry timer whenever the session changes.\<close>

definition set_session :: "exp_of \<Rightarrow> auth_session option \<Rightarrow> auth \<Rightarrow> auth" where
  "set_session exp_of x s =
     s\<lparr>a_session := x,
       a_guest_timer :=
         (case x of
            None \<Rightarrow> None
          | Some y \<Rightarrow>
              if as_temp y
              then Some (a_now s + timer_delay (max 0 (jwt_seconds_left exp_of (a_now s) (as_token y) * 1000)))
              else None)\<rparr>"

definition schedule_refresh :: "exp_of \<Rightarrow> auth_session \<Rightarrow> auth \<Rightarrow> auth" where
  "schedule_refresh exp_of x s =
     s\<lparr>a_timer :=
         (if as_refresh x \<in> {None, Some []} then None
          else Some (a_now s + timer_delay (refresh_in (jwt_seconds_left exp_of (a_now s) (as_token x))), x))\<rparr>"

text \<open>\<open>tryRefresh\<close>: without a refresh token it fails at once, which the callers handle inline.\<close>

definition ask_refresh :: "refresh_from \<Rightarrow> auth_session \<Rightarrow> string \<Rightarrow> auth \<Rightarrow> auth" where
  "ask_refresh from x tok s =
     s\<lparr>a_refreshes := (a_refreshes s)(a_next s \<mapsto> (from, x)), a_next := Suc (a_next s),
       a_requests := a_requests s @ [(''/v1/auth/refresh'', tok)]\<rparr>"

definition refreshed :: "string \<Rightarrow> string option \<Rightarrow> auth_session \<Rightarrow> auth_session" where
  "refreshed tok ref x = x\<lparr>as_token := tok, as_refresh := ref\<rparr>"

definition force_login :: "exp_of \<Rightarrow> auth \<Rightarrow> auth" where
  "force_login exp_of s =
     (set_session exp_of None s)\<lparr>a_storage := NoEntry, a_to_login := Suc (a_to_login s)\<rparr>"

text \<open>The timer fires: a call with no refresh token fails, the others ask the server.\<close>

definition timer_fires :: "exp_of \<Rightarrow> auth \<Rightarrow> auth" where
  "timer_fires exp_of s =
     (case a_timer s of
        None \<Rightarrow> s
      | Some (due, x) \<Rightarrow>
          if a_now s < due then s
          else
            (let s1 = s\<lparr>a_timer := None\<rparr> in
             case as_refresh x of
               None \<Rightarrow> force_login exp_of s1
             | Some tok \<Rightarrow>
                 if tok = [] then force_login exp_of s1 else ask_refresh FromTimer x tok s1))"

definition guest_timer_fires :: "auth \<Rightarrow> auth" where
  "guest_timer_fires s =
     (case a_guest_timer s of
        None \<Rightarrow> s
      | Some due \<Rightarrow> if a_now s < due then s else s\<lparr>a_guest_timer := None, a_expired := True\<rparr>)"

definition restore :: "exp_of \<Rightarrow> auth \<Rightarrow> auth" where
  "restore exp_of s =
     (case a_storage s of
        NoEntry \<Rightarrow> s\<lparr>a_loading := False\<rparr>
      | BadEntry \<Rightarrow> s\<lparr>a_storage := NoEntry, a_loading := False\<rparr>
      | Stored x \<Rightarrow>
          if (case as_expires x of None \<Rightarrow> False | Some e \<Rightarrow> e < a_now s)
          then s\<lparr>a_storage := NoEntry, a_loading := False\<rparr>
          else if \<not> jwt_expired exp_of (a_now s) (as_token x)
          then (schedule_refresh exp_of x (set_session exp_of (Some x) s))\<lparr>a_loading := False\<rparr>
          else case as_refresh x of
            None \<Rightarrow> s\<lparr>a_storage := NoEntry, a_loading := False\<rparr>
          | Some tok \<Rightarrow>
              if tok = [] then s\<lparr>a_storage := NoEntry, a_loading := False\<rparr>
              else ask_refresh FromRestore x tok s)"

definition login :: "exp_of \<Rightarrow> auth_session \<Rightarrow> auth \<Rightarrow> auth" where
  "login exp_of x s =
     schedule_refresh exp_of x ((set_session exp_of (Some x) s)\<lparr>a_storage := Stored x\<rparr>)"

definition revoke :: "auth \<Rightarrow> auth" where
  "revoke s =
     (case a_session s of
        None \<Rightarrow> s
      | Some x \<Rightarrow>
          (case as_refresh x of
             None \<Rightarrow> s
           | Some tok \<Rightarrow>
               if tok = [] then s else s\<lparr>a_requests := a_requests s @ [(''/v1/auth/logout'', tok)]\<rparr>))"

definition logout :: "exp_of \<Rightarrow> auth \<Rightarrow> auth" where
  "logout exp_of s =
     (set_session exp_of None ((revoke s)\<lparr>a_timer := None\<rparr>))\<lparr>a_storage := NoEntry\<rparr>"

text \<open>What \<open>handleUnauthorized\<close> does when there is no refresh, given the session it captured.\<close>

definition give_up :: "exp_of \<Rightarrow> auth_session option \<Rightarrow> auth \<Rightarrow> auth" where
  "give_up exp_of x s =
     (if (case x of None \<Rightarrow> False | Some y \<Rightarrow> as_temp y) then s\<lparr>a_expired := True\<rparr>
      else force_login exp_of (s\<lparr>a_timer := None\<rparr>))"

definition handle_unauthorized :: "exp_of \<Rightarrow> auth \<Rightarrow> auth" where
  "handle_unauthorized exp_of s =
     (case a_session s of
        None \<Rightarrow> give_up exp_of None s
      | Some x \<Rightarrow>
          (case as_refresh x of
             None \<Rightarrow> give_up exp_of (Some x) s
           | Some tok \<Rightarrow>
               if tok = [] then give_up exp_of (Some x) s else ask_refresh From401 x tok s))"

text \<open>The reply to a refresh: new tokens, or a failure.\<close>

definition refresh_reply ::
  "exp_of \<Rightarrow> nat \<Rightarrow> (string \<times> string option) option \<Rightarrow> auth \<Rightarrow> auth" where
  "refresh_reply exp_of n r s =
     (case a_refreshes s n of
        None \<Rightarrow> s
      | Some (from, x) \<Rightarrow>
          (let s1 = s\<lparr>a_refreshes := (a_refreshes s)(n := None)\<rparr> in
           case r of
             Some (tok, ref) \<Rightarrow>
               (let y = refreshed tok ref x;
                    s2 = schedule_refresh exp_of y (set_session exp_of (Some y) (s1\<lparr>a_storage := Stored y\<rparr>))
                in if from = FromRestore then s2\<lparr>a_loading := False\<rparr> else s2)
           | None \<Rightarrow>
               (case from of
                  FromTimer \<Rightarrow> force_login exp_of s1
                | FromRestore \<Rightarrow> s1\<lparr>a_storage := NoEntry, a_loading := False\<rparr>
                | From401 \<Rightarrow> give_up exp_of (Some x) s1)))"

definition acknowledge_expired :: "exp_of \<Rightarrow> auth \<Rightarrow> auth" where
  "acknowledge_expired exp_of s =
     force_login exp_of (s\<lparr>a_timer := None, a_expired := False\<rparr>)"

datatype auth_input =
    ARestore
  | ALogin auth_session
  | ALogout
  | A401
  | AReply nat "(string \<times> string option) option"
  | AAcknowledge
  | ATime nat
  | ATimer
  | AGuestTimer

fun auth_step :: "exp_of \<Rightarrow> auth_input \<Rightarrow> auth \<Rightarrow> auth" where
  "auth_step x ARestore s = restore x s"
| "auth_step x (ALogin y) s = login x y s"
| "auth_step x ALogout s = logout x s"
| "auth_step x A401 s = handle_unauthorized x s"
| "auth_step x (AReply n r) s = refresh_reply x n r s"
| "auth_step x AAcknowledge s = acknowledge_expired x s"
| "auth_step x (ATime d) s = s\<lparr>a_now := a_now s + int d\<rparr>"
| "auth_step x ATimer s = timer_fires x s"
| "auth_step x AGuestTimer s = guest_timer_fires s"

section \<open>Refreshing\<close>

lemma timer_delay_small: "0 \<le> ms \<Longrightarrow> ms < 2147483648 \<Longrightarrow> timer_delay ms = ms"
  by (simp add: timer_delay_def int_word_sint)

text \<open>A refresh is due thirty seconds or four fifths of the token's remaining whole seconds ahead,
  whichever is later; for a token that lasts at least 31 seconds and at most 31 days it is due before
  the token expires, and such a delay does not overflow the timer.\<close>

theorem refresh_is_due_in_time:
  assumes "exp_of (as_token x) = Some (Some e)" "as_refresh x = Some tok" "tok \<noteq> []"
    and "a_now s + 31000 \<le> 1000 * e" "1000 * e \<le> a_now s + 2678400000"
  shows "\<exists>due. a_timer (schedule_refresh exp_of x s) = Some (due, x) \<and>
    a_now s + 30000 \<le> due \<and> due < 1000 * e \<and>
    (due = a_now s + 30000 \<or> 5 * (due - a_now s) \<le> 4 * (1000 * e - a_now s))"
proof -
  define l where "l = 1000 * e - a_now s"
  define k where "k = l div 1000"
  define q where "q = k * 8 div 10"
  define m where "m = max 30 q * 1000"
  have l: "31000 \<le> l" "l \<le> 2678400000" using assms(4,5) by (simp_all add: l_def)
  have k: "1000 * k \<le> l" "l < 1000 * k + 1000" unfolding k_def by presburger+
  have q: "10 * q \<le> 8 * k" unfolding q_def by presburger
  have k0: "31 \<le> k" using l k by linarith
  have m: "m = 30000 \<or> m = 1000 * q" "30000 \<le> m" by (auto simp: m_def max_def)
  have m1: "m < l" using m(1) q k k0 l by linarith
  have m2: "m = 30000 \<or> 5 * m \<le> 4 * l" using m(1) q k by linarith
  have "jwt_seconds_left exp_of (a_now s) (as_token x) = k"
    using assms(1) k0 by (simp add: jwt_seconds_left_def l_def k_def)
  then have "refresh_in (jwt_seconds_left exp_of (a_now s) (as_token x)) = m"
    by (simp add: refresh_in_def q_def m_def)
  moreover have "timer_delay m = m" using m2 m(2) l(2) by (intro timer_delay_small) linarith+
  ultimately have "a_timer (schedule_refresh exp_of x s) = Some (a_now s + m, x)"
    using assms(2,3) by (simp add: schedule_refresh_def)
  then show ?thesis using m(2) m1 m2 by (intro exI [of _ "a_now s + m"]) (auto simp: l_def)
qed

theorem refresh_is_due_in_time_witness:
  "\<exists>due. a_timer (schedule_refresh (\<lambda>_. Some (Some 1800))
      \<lparr>as_temp = False, as_user = ''u'', as_hub = ''h'', as_token = ''t'', as_refresh = Some ''r1'',
       as_expires = None, as_name = ''n'', as_avatar = None\<rparr> (new_auth NoEntry 0)) = Some (due, \<lparr>as_temp = False, as_user = ''u'',
       as_hub = ''h'', as_token = ''t'', as_refresh = Some ''r1'', as_expires = None, as_name = ''n'', as_avatar = None\<rparr>) \<and> due < 1800000"
  using refresh_is_due_in_time [of "\<lambda>_. Some (Some 1800)"
      "\<lparr>as_temp = False, as_user = ''u'', as_hub = ''h'', as_token = ''t'', as_refresh = Some ''r1'',
       as_expires = None, as_name = ''n'', as_avatar = None\<rparr>" 1800 "''r1''" "new_auth NoEntry 0"]
  by (auto simp: new_auth_def)

text \<open>
  The delay does overflow for a guest whose link lasts longer: at 30 days the timer is due at once
  and the guest is told that the session has expired.
\<close>

lemma long_guest_link_expires_at_once:
  assumes "as_temp x" "exp_of (as_token x) = Some (Some 2592000)" "a_now s = 0"
  shows "a_expired (auth_step exp_of AGuestTimer (auth_step exp_of (ALogin x) s))"
  using assms
  by (simp add: login_def set_session_def schedule_refresh_def jwt_seconds_left_def guest_timer_fires_def
      timer_delay_def int_word_sint)

section \<open>The session in use and the session that is stored\<close>

definition renewable :: "auth_session option \<Rightarrow> bool" where
  "renewable x = (case x of None \<Rightarrow> False | Some y \<Rightarrow> as_refresh y \<notin> {None, Some []})"

definition auth_inv :: "auth \<Rightarrow> bool" where
  "auth_inv s \<longleftrightarrow>
     (a_loading s \<longrightarrow> a_session s = None \<and> a_timer s = None) \<and>
     (\<not> a_loading s \<longrightarrow> a_storage s = (case a_session s of None \<Rightarrow> NoEntry | Some x \<Rightarrow> Stored x)) \<and>
     (\<forall>n f x. a_refreshes s n = Some (f, x) \<longrightarrow> (f = FromRestore) = a_loading s) \<and>
     (\<forall>n m. a_loading s \<longrightarrow> a_refreshes s n \<noteq> None \<longrightarrow> a_refreshes s m \<noteq> None \<longrightarrow> n = m) \<and>
     (\<forall>n \<ge> a_next s. a_refreshes s n = None) \<and>
     (\<forall>due x. a_timer s = Some (due, x) \<longrightarrow> renewable (Some x)) \<and>
     (renewable (a_session s) \<longrightarrow>
        a_timer s \<noteq> None \<or> (\<exists>n x. a_refreshes s n = Some (FromTimer, x)))"

text \<open>The provider restores once and first; the rest of the app waits for it.\<close>

fun auth_ok :: "auth_input \<Rightarrow> auth \<Rightarrow> bool" where
  "auth_ok ARestore s = (a_loading s \<and> (\<forall>n. a_refreshes s n = None))"
| "auth_ok (ALogin x) s = (\<not> a_loading s)"
| "auth_ok ALogout s = (\<not> a_loading s)"
| "auth_ok A401 s = (\<not> a_loading s)"
| "auth_ok AAcknowledge s = (\<not> a_loading s)"
| "auth_ok e s = True"

lemma set_session_frame [simp]:
  "a_session (set_session x y s) = y" "a_loading (set_session x y s) = a_loading s"
  "a_storage (set_session x y s) = a_storage s" "a_refreshes (set_session x y s) = a_refreshes s"
  "a_next (set_session x y s) = a_next s" "a_timer (set_session x y s) = a_timer s"
  "a_now (set_session x y s) = a_now s" "a_expired (set_session x y s) = a_expired s"
  "a_to_login (set_session x y s) = a_to_login s" "a_requests (set_session x y s) = a_requests s"
  by (simp_all add: set_session_def)

lemma schedule_frame [simp]:
  "a_session (schedule_refresh x y s) = a_session s" "a_loading (schedule_refresh x y s) = a_loading s"
  "a_storage (schedule_refresh x y s) = a_storage s" "a_refreshes (schedule_refresh x y s) = a_refreshes s"
  "a_next (schedule_refresh x y s) = a_next s" "a_requests (schedule_refresh x y s) = a_requests s"
  "a_expired (schedule_refresh x y s) = a_expired s" "a_to_login (schedule_refresh x y s) = a_to_login s"
  by (simp_all add: schedule_refresh_def)

lemma schedule_timer:
  "a_timer (schedule_refresh f y s) = Some (due, x) \<Longrightarrow> x = y \<and> as_refresh y \<notin> {None, Some []}"
  by (auto simp: schedule_refresh_def split: if_splits)

lemma revoke_frame [simp]:
  "a_loading (revoke s) = a_loading s" "a_refreshes (revoke s) = a_refreshes s"
  "a_next (revoke s) = a_next s" "a_session (revoke s) = a_session s"
  by (simp_all add: revoke_def split: option.split)

lemma schedule_some: "renewable (Some y) \<Longrightarrow> a_timer (schedule_refresh f y s) \<noteq> None"
  by (simp add: renewable_def schedule_refresh_def)

lemma schedule_timer_renewable: "a_timer (schedule_refresh f y s) = Some (due, x) \<Longrightarrow> renewable (Some x)"
  using schedule_timer [of f y s due x] by (simp add: renewable_def)

text \<open>A session that comes with its schedule and its stored copy.\<close>

lemma auth_inv_set:
  assumes "\<not> a_loading t" "a_storage t = Stored y" "\<forall>n \<ge> a_next t. a_refreshes t n = None" "\<And>n f x. a_refreshes t n = Some (f, x) \<Longrightarrow> f \<noteq> FromRestore"
  shows "auth_inv (schedule_refresh f y (set_session g (Some y) t))"
  using assms schedule_some [of y f] schedule_timer_renewable [of f y] by (auto simp: auth_inv_def)

lemma auth_inv_clear:
  assumes "a_session t = None" "\<not> a_loading t" "a_storage t = NoEntry"
    "\<And>n f x. a_refreshes t n = Some (f, x) \<Longrightarrow> f \<noteq> FromRestore"
    "\<And>due x. a_timer t = Some (due, x) \<Longrightarrow> renewable (Some x)" "\<forall>n \<ge> a_next t. a_refreshes t n = None"
  shows "auth_inv t"
  using assms by (auto simp: auth_inv_def renewable_def)

lemma auth_inv_force:
  assumes "auth_inv s" "\<not> a_loading s"
  shows "auth_inv (force_login f s)"
  using assms by (intro auth_inv_clear) (auto simp: force_login_def auth_inv_def)

lemma auth_inv_give_up:
  assumes i: "auth_inv s" and l: "\<not> a_loading s"
  shows "auth_inv (give_up f x s)"
proof -
  have "auth_inv (s\<lparr>a_expired := True\<rparr>)" using i by (simp add: auth_inv_def)
  moreover have "auth_inv (force_login f (s\<lparr>a_timer := None\<rparr>))"
    using i l by (intro auth_inv_clear) (auto simp: force_login_def auth_inv_def)
  ultimately show ?thesis by (simp add: give_up_def split: option.split)
qed

lemma auth_inv_ask:
  assumes i: "auth_inv s" and l: "\<not> a_loading s" "from \<noteq> FromRestore"
  shows "auth_inv (ask_refresh from x tok s)"
proof -
  have "a_refreshes s n = Some (FromTimer, y) \<Longrightarrow> n \<noteq> a_next s" for n y
    using i by (auto simp: auth_inv_def)
  with i l show ?thesis by (simp add: auth_inv_def ask_refresh_def) metis
qed

lemma auth_inv_ask_timer:
  assumes i: "auth_inv s" and l: "\<not> a_loading s"
  shows "auth_inv (ask_refresh FromTimer x tok (s\<lparr>a_timer := None\<rparr>))"
  using i l by (auto simp: auth_inv_def ask_refresh_def)

lemma auth_inv_restore:
  assumes i: "auth_inv s" and l: "a_loading s" "\<forall>n. a_refreshes s n = None"
  shows "auth_inv (restore f s)"
proof -
  have none: "auth_inv (s\<lparr>a_storage := NoEntry, a_loading := False\<rparr>)"
    using i l by (intro auth_inv_clear) (auto simp: auth_inv_def)
  show ?thesis
  proof (cases "a_storage s")
    case NoEntry
    then have "s\<lparr>a_storage := NoEntry, a_loading := False\<rparr> = s\<lparr>a_loading := False\<rparr>" by simp
    with none NoEntry show ?thesis by (simp add: restore_def)
  next
    case (Stored x)
    have "(schedule_refresh f x (set_session f (Some x) s))\<lparr>a_loading := False\<rparr>
        = schedule_refresh f x (set_session f (Some x) (s\<lparr>a_loading := False\<rparr>))"
      by (simp add: schedule_refresh_def set_session_def)
    also have "auth_inv \<dots>" using l Stored by (intro auth_inv_set) auto
    finally have a: "auth_inv ((schedule_refresh f x (set_session f (Some x) s))\<lparr>a_loading := False\<rparr>)" .
    have "auth_inv (ask_refresh FromRestore x tok s)" for tok
      using i l by (auto simp: auth_inv_def ask_refresh_def renewable_def)
    with a none Stored show ?thesis by (simp add: restore_def split: option.split)
  qed (use none in \<open>simp add: restore_def\<close>)
qed

lemma auth_inv_reply:
  assumes i: "auth_inv s"
  shows "auth_inv (refresh_reply f n r s)"
proof (cases "a_refreshes s n")
  case (Some p)
  obtain src x where p: "p = (src, x)" by force
  let ?s = "s\<lparr>a_refreshes := (a_refreshes s)(n := None)\<rparr>"
  have l: "(src = FromRestore) = a_loading s" using i Some p unfolding auth_inv_def by blast
  show ?thesis
  proof (cases r)
    case (Some q)
    obtain tok ref where q: "q = (tok, ref)" by force
    let ?y = "refreshed tok ref x"
    let ?t = "?s\<lparr>a_storage := Stored ?y, a_loading := False\<rparr>"
    have "a_refreshes ?t m = Some (g, z) \<Longrightarrow> g \<noteq> FromRestore" for m g z
      using i p \<open>a_refreshes s n = Some p\<close> by (auto simp: auth_inv_def split: if_splits)
    then have "auth_inv (schedule_refresh f ?y (set_session f (Some ?y) ?t))"
      using i by (intro auth_inv_set) (auto simp: auth_inv_def)
    moreover have "refresh_reply f n r s = schedule_refresh f ?y (set_session f (Some ?y) ?t)"
      using Some q p l \<open>a_refreshes s n = Some p\<close>
      by (simp add: refresh_reply_def Let_def schedule_refresh_def set_session_def)
    ultimately show ?thesis by simp
  next
    case None
    have t: "auth_inv (force_login f ?s)" if "\<not> a_loading s"
      using i that by (intro auth_inv_clear) (auto simp: force_login_def auth_inv_def split: if_splits)
    have u: "auth_inv ?s" if "src = From401"
      using i that p l \<open>a_refreshes s n = Some p\<close> by (auto simp: auth_inv_def) (metis option.inject prod.inject refresh_from.distinct(3))
    have v: "auth_inv (?s\<lparr>a_storage := NoEntry, a_loading := False\<rparr>)" if "a_loading s"
      using i that \<open>a_refreshes s n = Some p\<close>
      by (intro auth_inv_clear) (auto simp: auth_inv_def split: if_splits)
    show ?thesis
      using None p l \<open>a_refreshes s n = Some p\<close> t u v auth_inv_give_up [of ?s f "Some x"]
      by (cases src) (simp_all add: refresh_reply_def)
  qed
qed (use i in \<open>simp add: refresh_reply_def\<close>)

lemma auth_inv_step:
  assumes i: "auth_inv s" and ok: "auth_ok e s"
  shows "auth_inv (auth_step f e s)"
proof (cases e)
  case ARestore
  with i ok show ?thesis by (simp add: auth_inv_restore)
next
  case (ALogin x)
  have "auth_inv (schedule_refresh f x (set_session f (Some x) (s\<lparr>a_storage := Stored x\<rparr>)))"
    using i ok ALogin by (intro auth_inv_set) (auto simp: auth_inv_def)
  moreover have "(set_session f (Some x) s)\<lparr>a_storage := Stored x\<rparr>
      = set_session f (Some x) (s\<lparr>a_storage := Stored x\<rparr>)"
    by (simp add: set_session_def)
  ultimately show ?thesis using ALogin by (simp add: login_def)
next
  case ALogout
  have "auth_inv (logout f s)"
    using i ok ALogout by (intro auth_inv_clear) (auto simp: logout_def auth_inv_def)
  with ALogout show ?thesis by simp
next
  case A401
  with i ok show ?thesis
    by (auto simp: handle_unauthorized_def auth_inv_give_up auth_inv_ask split: option.split)
next
  case (AReply n r)
  with auth_inv_reply [OF i] show ?thesis by simp
next
  case AAcknowledge
  have "auth_inv (force_login f (s\<lparr>a_timer := None, a_expired := False\<rparr>))"
    using i ok AAcknowledge by (intro auth_inv_clear) (auto simp: force_login_def auth_inv_def)
  with AAcknowledge show ?thesis by (simp add: acknowledge_expired_def)
next
  case ATimer
  show ?thesis
  proof (cases "a_timer s")
    case (Some d)
    obtain due x where d: "d = (due, x)" by force
    have l: "\<not> a_loading s" using i Some by (auto simp: auth_inv_def)
    have "renewable (Some x)" using i Some d by (simp add: auth_inv_def)
    then obtain tok where "as_refresh x = Some tok" "tok \<noteq> []" by (auto simp: renewable_def)
    with ATimer Some d i l show ?thesis by (simp add: timer_fires_def auth_inv_ask_timer)
  qed (use ATimer i in \<open>simp add: timer_fires_def\<close>)
next
  case AGuestTimer
  with i show ?thesis by (auto simp: guest_timer_fires_def auth_inv_def split: option.split)
qed (use i in \<open>simp add: auth_inv_def\<close>)

interpretation auth: invariant_machine "auth_step f" auth_ok auth_inv for f
  by unfold_locales (rule auth_inv_step)

text \<open>C8. Once the provider has restored, whatever logins, logouts, refused requests, refreshes and timers
  follow, the stored session is the one in use, and a session that can be refreshed has its refresh
  scheduled or under way.\<close>

theorem session_stored_and_kept_fresh:
  assumes "guarded (auth_step f) auth_ok es (new_auth st now)"
    and "\<not> a_loading (run (auth_step f) es (new_auth st now))"
  shows "a_storage (run (auth_step f) es (new_auth st now)) =
      (case a_session (run (auth_step f) es (new_auth st now)) of None \<Rightarrow> NoEntry | Some x \<Rightarrow> Stored x) \<and>
    (renewable (a_session (run (auth_step f) es (new_auth st now))) \<longrightarrow>
      a_timer (run (auth_step f) es (new_auth st now)) \<noteq> None \<or>
      (\<exists>n x. a_refreshes (run (auth_step f) es (new_auth st now)) n = Some (FromTimer, x)))"
proof -
  have "auth_inv (new_auth st now)" by (simp add: auth_inv_def new_auth_def renewable_def)
  from auth.inv_run [OF this assms(1)] assms(2) show ?thesis by (simp add: auth_inv_def)
qed

definition member_session :: auth_session where
  "member_session = \<lparr>as_temp = False, as_user = ''u'', as_hub = ''h'', as_token = ''t'',
     as_refresh = Some ''r1'', as_expires = None, as_name = ''n'', as_avatar = None\<rparr>"

theorem session_stored_and_kept_fresh_witness:
  "a_storage (run (auth_step (\<lambda>_. Some (Some 0))) [ARestore, ALogin member_session, ATime 1800000, ATimer]
      (new_auth NoEntry 0)) = Stored member_session"
proof -
  let ?es = "[ARestore, ALogin member_session, ATime 1800000, ATimer]"
  let ?s = "run (auth_step (\<lambda>_. Some (Some 0))) ?es (new_auth NoEntry 0)"
  have e: "a_session ?s = Some member_session" "\<not> a_loading ?s"
    by (simp_all add: new_auth_def restore_def login_def timer_fires_def schedule_refresh_def member_session_def
        set_session_def ask_refresh_def jwt_seconds_left_def refresh_in_def timer_delay_def int_word_sint)
  have "guarded (auth_step (\<lambda>_. Some (Some 0))) auth_ok ?es (new_auth NoEntry 0)"
    by (simp add: new_auth_def restore_def)
  from session_stored_and_kept_fresh [OF this e(2)] e(1) show ?thesis by simp
qed

text \<open>
  A refresh that is under way survives a logout: its reply logs the user in again. And of two
  refused requests each starts a refresh with the same token; a server that accepts a refresh token
  once refuses the second, and the user is sent to the login page with a session that is fresh.
\<close>

lemma refresh_undoes_logout:
  assumes "a_session s = Some x" "as_refresh x = Some tok" "tok \<noteq> []"
  shows "a_session (run (auth_step f) [A401, ALogout, AReply (a_next s) (Some (tok2, ref))] s)
     = Some (refreshed tok2 ref x)"
  using assms
  by (simp add: handle_unauthorized_def ask_refresh_def logout_def refresh_reply_def Let_def revoke_def)

lemma second_401_logs_out:
  assumes "a_session s = Some x" "as_refresh x = Some tok" "tok \<noteq> []" "\<not> as_temp x"
  shows "a_session (run (auth_step f)
      [A401, A401, AReply (a_next s) (Some (tok2, ref)), AReply (Suc (a_next s)) None] s) = None"
  using assms
  by (simp add: handle_unauthorized_def ask_refresh_def refresh_reply_def Let_def give_up_def force_login_def)

end
