(* ===== verification/Presence.thy ===== *)
theory Presence
  imports VoiceStores ChatGateway
begin

text \<open>
  \<open>frontend/hooks/use-members.ts\<close>: the roster that seeds the voice stores, and the presence
  socket of \<open>usePresence\<close> with its reconnects, which keeps the stores current. Each run of the
  effect is an instance with its own \<open>stopped\<close> flag; the socket ref and the retry delay are
  shared by all of them. Keys passed to \<open>globalMutate\<close> are logged.
\<close>

section \<open>The roster\<close>

text \<open>\<open>expires_at\<close> is a date in milliseconds, \<open>Some None\<close> when it does not parse.\<close>

record member =
  m_user :: string
  m_deleted :: "string option"
  m_expires :: "int option option"
  m_channel :: "string option"
  m_audio_muted :: bool
  m_video_muted :: bool

definition is_member_active :: "int \<Rightarrow> 'a member_scheme \<Rightarrow> bool" where
  "is_member_active now m =
     (if m_deleted m \<notin> {None, Some []} then False
      else case m_expires m of
        Some (Some e) \<Rightarrow> \<not> e \<le> now
      | _ \<Rightarrow> True)"

text \<open>\<open>onSuccess\<close>: the operations on the two stores.\<close>

definition seed_occupancy_op :: "member list \<Rightarrow> occ_op" where
  "seed_occupancy_op ms = OccSeed (map (\<lambda>m. (m_user m, m_channel m)) ms)"

definition seed_mute_op :: "member list \<Rightarrow> mute_op" where
  "seed_mute_op ms =
     MuteSeed (map (\<lambda>m. (m_user m, \<lparr>audio_muted = m_audio_muted m, video_muted = m_video_muted m\<rparr>))
       (filter (\<lambda>m. m_channel m \<noteq> None) ms))"

section \<open>The socket\<close>

record presence_sock =
  ps_inst :: nat
  ps_state :: ready_state
  ps_onclose :: bool

record presence =
  pr_session :: "(string \<times> string) option" \<comment> \<open>hub, token\<close>
  pr_inst :: "nat option"
  pr_stopped :: "nat set"
  pr_ws :: "nat option"
  pr_socks :: "nat \<rightharpoonup> presence_sock"
  pr_delay :: int
  pr_timers :: "nat \<rightharpoonup> nat"
  pr_next :: nat
  pr_occ :: "string store"
  pr_mute :: "mute_state store"
  pr_mutations :: "string list"

definition MAX_RETRY_DELAY :: int where
  "MAX_RETRY_DELAY = 120000"

definition new_presence :: "string store \<Rightarrow> mute_state store \<Rightarrow> presence" where
  "new_presence occ mute =
     \<lparr>pr_session = None, pr_inst = None, pr_stopped = {}, pr_ws = None, pr_socks = (\<lambda>_. None),
      pr_delay = 5000, pr_timers = (\<lambda>_. None), pr_next = 0, pr_occ = occ, pr_mute = mute,
      pr_mutations = []\<rparr>"

definition presence_connect :: "nat \<Rightarrow> presence \<Rightarrow> presence" where
  "presence_connect e s =
     (if e \<in> pr_stopped s then s
      else s\<lparr>pr_socks := (pr_socks s)(pr_next s \<mapsto> \<lparr>ps_inst = e, ps_state = CONNECTING, ps_onclose = True\<rparr>),
             pr_ws := Some (pr_next s), pr_next := Suc (pr_next s)\<rparr>)"

definition presence_cleanup :: "nat \<Rightarrow> presence \<Rightarrow> presence" where
  "presence_cleanup e s =
     (let s1 = s\<lparr>pr_stopped := insert e (pr_stopped s)\<rparr> in
      case pr_ws s1 of
        None \<Rightarrow> s1
      | Some i \<Rightarrow>
          s1\<lparr>pr_socks := (pr_socks s1)(i := map_option
                (\<lambda>k. k\<lparr>ps_onclose := False,
                       ps_state := (if ps_state k = CLOSED then CLOSED else CLOSING)\<rparr>) (pr_socks s1 i)),
             pr_ws := None\<rparr>)"

text \<open>The effect depends on the session: its cleanup runs, then the effect.\<close>

definition session_change :: "(string \<times> string) option \<Rightarrow> presence \<Rightarrow> presence" where
  "session_change x s =
     (let s1 = (case pr_inst s of None \<Rightarrow> s | Some e \<Rightarrow> presence_cleanup e s) in
      case x of
        None \<Rightarrow> s1\<lparr>pr_session := None, pr_inst := None\<rparr>
      | Some (hub, tok) \<Rightarrow>
          if tok = [] then s1\<lparr>pr_session := x, pr_inst := None\<rparr>
          else presence_connect (pr_next s1)
                 (s1\<lparr>pr_session := x, pr_inst := Some (pr_next s1), pr_next := Suc (pr_next s1)\<rparr>))"

definition presence_open :: "nat \<Rightarrow> presence \<Rightarrow> presence" where
  "presence_open i s =
     (case pr_socks s i of
        None \<Rightarrow> s
      | Some k \<Rightarrow>
          if ps_state k \<noteq> CONNECTING then s
          else s\<lparr>pr_socks := (pr_socks s)(i \<mapsto> k\<lparr>ps_state := OPEN\<rparr>), pr_delay := 5000,
                 pr_mutations := pr_mutations s @ [''members'']\<rparr>)"

definition presence_close :: "nat \<Rightarrow> presence \<Rightarrow> presence" where
  "presence_close i s =
     (case pr_socks s i of
        None \<Rightarrow> s
      | Some k \<Rightarrow>
          if ps_state k = CLOSED then s
          else
            (let s1 = s\<lparr>pr_socks := (pr_socks s)(i \<mapsto> k\<lparr>ps_state := CLOSED\<rparr>)\<rparr> in
             if \<not> ps_onclose k \<or> ps_inst k \<in> pr_stopped s1 then s1
             else s1\<lparr>pr_timers := (pr_timers s1)(pr_next s1 \<mapsto> ps_inst k), pr_next := Suc (pr_next s1),
                     pr_delay := min (pr_delay s1 * 2) MAX_RETRY_DELAY\<rparr>))"

definition presence_error :: "nat \<Rightarrow> presence \<Rightarrow> presence" where
  "presence_error i s =
     (case pr_socks s i of
        None \<Rightarrow> s
      | Some k \<Rightarrow>
          if ps_state k = CLOSED then s else s\<lparr>pr_socks := (pr_socks s)(i \<mapsto> k\<lparr>ps_state := CLOSING\<rparr>)\<rparr>)"

definition presence_timer :: "nat \<Rightarrow> presence \<Rightarrow> presence" where
  "presence_timer n s =
     (case pr_timers s n of
        None \<Rightarrow> s | Some e \<Rightarrow> presence_connect e (s\<lparr>pr_timers := (pr_timers s)(n := None)\<rparr>))"

section \<open>Messages\<close>

text \<open>The changes a frame makes to the stores. Frames with other types, or fields of other types, are ignored.\<close>

definition fld_of :: "json \<Rightarrow> string \<Rightarrow> json" where
  "fld_of v name = (case field v name of Inl _ \<Rightarrow> JUndef | Inr w \<Rightarrow> w)"

definition frame_ops :: "json \<Rightarrow> occ_op list \<times> mute_op list" where
  "frame_ops v =
     (if fld_of v ''type'' = JStr ''voice_occupancy'' then
        (case (fld_of v ''user_id'', fld_of v ''channel_id'') of
           (JStr u, JStr c) \<Rightarrow> ([OccSet u (Some c)], [])
         | (JStr u, JUndef) \<Rightarrow> ([OccSet u None], [MuteClear u])
         | (JStr u, JNull) \<Rightarrow> ([OccSet u None], [MuteClear u])
         | _ \<Rightarrow> ([], []))
      else if fld_of v ''type'' = JStr ''voice_mute'' then
        (case (fld_of v ''user_id'', fld_of v ''kind'', fld_of v ''muted'') of
           (JStr u, JStr kind, JBool m) \<Rightarrow>
             if kind = ''audio'' then ([], [MuteSet u AudioKind m])
             else if kind = ''video'' then ([], [MuteSet u VideoKind m]) else ([], [])
         | _ \<Rightarrow> ([], []))
      else ([], []))"

definition frame_mutations :: "json \<Rightarrow> string list" where
  "frame_mutations v =
     (case fld_of v ''type'' of
        JStr t \<Rightarrow>
          if t = ''member_joined'' then [''members'', ''pending-invites'']
          else if t = ''member_left'' \<or> t = ''member_groups_changed'' then [''members''] else []
      | _ \<Rightarrow> [])"

definition apply_frame :: "json \<Rightarrow> presence \<Rightarrow> presence" where
  "apply_frame v s =
     (case frame_ops v of (os, ms) \<Rightarrow>
        s\<lparr>pr_occ := fold (\<lambda>x t. fst (occ_upd x t)) os (pr_occ s),
          pr_mute := fold (\<lambda>x t. fst (mute_upd x t)) ms (pr_mute s),
          pr_mutations := pr_mutations s @ frame_mutations v\<rparr>)"

text \<open>A frame that is not text or not JSON is \<open>None\<close>.\<close>

definition presence_message :: "nat \<Rightarrow> json option \<Rightarrow> presence \<Rightarrow> presence" where
  "presence_message i v s =
     (case (pr_socks s i, v) of
        (Some k, Some x) \<Rightarrow> if ps_state k = OPEN then apply_frame x s else s
      | _ \<Rightarrow> s)"

definition members_loaded :: "member list \<Rightarrow> presence \<Rightarrow> presence" where
  "members_loaded ms s =
     s\<lparr>pr_occ := fst (occ_upd (seed_occupancy_op ms) (pr_occ s)),
       pr_mute := fst (mute_upd (seed_mute_op ms) (pr_mute s))\<rparr>"

datatype presence_input =
    PSession "(string \<times> string) option"
  | POpen nat
  | PMessage nat "json option"
  | PClose nat
  | PError nat
  | PTimer nat
  | PMembers "member list"

fun presence_step :: "presence_input \<Rightarrow> presence \<Rightarrow> presence" where
  "presence_step (PSession x) s = session_change x s"
| "presence_step (POpen i) s = presence_open i s"
| "presence_step (PMessage i v) s = presence_message i v s"
| "presence_step (PClose i) s = presence_close i s"
| "presence_step (PError i) s = presence_error i s"
| "presence_step (PTimer n) s = presence_timer n s"
| "presence_step (PMembers ms) s = members_loaded ms s"

section \<open>Always one link or one retry\<close>

text \<open>What the instance \<open>e\<close> has under way: sockets that are not closed, and timers.\<close>

definition links :: "nat \<Rightarrow> presence \<Rightarrow> nat set" where
  "links e s = {i. \<exists>k. pr_socks s i = Some k \<and> ps_inst k = e \<and> ps_state k \<noteq> CLOSED}"

definition retries :: "nat \<Rightarrow> presence \<Rightarrow> nat set" where
  "retries e s = {n. pr_timers s n = Some e}"

definition one_attempt :: "nat \<Rightarrow> presence \<Rightarrow> bool" where
  "one_attempt e s \<longleftrightarrow>
     (\<exists>i. links e s = {i} \<and> retries e s = {} \<and> pr_ws s = Some i) \<or>
     (\<exists>n. links e s = {} \<and> retries e s = {n})"

definition presence_inv :: "presence \<Rightarrow> bool" where
  "presence_inv s \<longleftrightarrow>
     (\<forall>n \<ge> pr_next s. pr_socks s n = None \<and> pr_timers s n = None) \<and>
     (\<forall>i k. pr_socks s i = Some k \<longrightarrow> ps_inst k < pr_next s \<and>
        (ps_inst k \<in> pr_stopped s \<or> pr_inst s = Some (ps_inst k))) \<and>
     (\<forall>n e. pr_timers s n = Some e \<longrightarrow> e < pr_next s \<and> (e \<in> pr_stopped s \<or> pr_inst s = Some e)) \<and>
     (\<forall>e \<in> pr_stopped s. e < pr_next s) \<and>
     (\<forall>e. pr_inst s = Some e \<longrightarrow> e \<notin> pr_stopped s \<and> e < pr_next s \<and> one_attempt e s \<and>
        (\<forall>i k. pr_socks s i = Some k \<longrightarrow> ps_inst k = e \<longrightarrow> ps_onclose k)) \<and>
     5000 \<le> pr_delay s \<and> pr_delay s \<le> MAX_RETRY_DELAY"

lemma presence_stores [simp]:
  "presence_inv (s\<lparr>pr_occ := o1, pr_mute := m1\<rparr>) = presence_inv s"
  "presence_inv (s\<lparr>pr_occ := o1, pr_mute := m1, pr_mutations := l\<rparr>) = presence_inv s"
  by (simp_all add: presence_inv_def one_attempt_def links_def retries_def)

lemma links_simps [simp]:
  "links e (s\<lparr>pr_socks := (pr_socks s)(i \<mapsto> k)\<rparr>) =
     (if ps_inst k = e \<and> ps_state k \<noteq> CLOSED then insert i (links e s) else links e s - {i})"
  "links e (s\<lparr>pr_stopped := st\<rparr>) = links e s" "links e (s\<lparr>pr_ws := w\<rparr>) = links e s"
  "links e (s\<lparr>pr_next := n\<rparr>) = links e s" "links e (s\<lparr>pr_delay := d\<rparr>) = links e s"
  "links e (s\<lparr>pr_timers := t\<rparr>) = links e s" "links e (s\<lparr>pr_inst := x\<rparr>) = links e s"
  "links e (s\<lparr>pr_session := y\<rparr>) = links e s" "links e (s\<lparr>pr_mutations := l\<rparr>) = links e s"
  by (auto simp: links_def)

lemma retries_simps [simp]:
  "retries e (s\<lparr>pr_timers := (pr_timers s)(n := x)\<rparr>) =
     (if x = Some e then insert n (retries e s) else retries e s - {n})"
  "retries e (s\<lparr>pr_stopped := st\<rparr>) = retries e s" "retries e (s\<lparr>pr_ws := w\<rparr>) = retries e s"
  "retries e (s\<lparr>pr_next := m\<rparr>) = retries e s" "retries e (s\<lparr>pr_delay := d\<rparr>) = retries e s"
  "retries e (s\<lparr>pr_socks := t\<rparr>) = retries e s" "retries e (s\<lparr>pr_inst := z\<rparr>) = retries e s"
  "retries e (s\<lparr>pr_session := y\<rparr>) = retries e s" "retries e (s\<lparr>pr_mutations := l\<rparr>) = retries e s"
  by (auto simp: retries_def)

lemma presence_put [simp]:
  "presence_inv (s\<lparr>pr_session := y\<rparr>) = presence_inv s" "presence_inv (s\<lparr>pr_mutations := l\<rparr>) = presence_inv s"
  by (simp_all add: presence_inv_def one_attempt_def)

text \<open>A new attempt of an instance that has none.\<close>

lemma presence_inv_connect:
  assumes w: "\<forall>n \<ge> pr_next s. pr_socks s n = None \<and> pr_timers s n = None"
      "\<forall>i k. pr_socks s i = Some k \<longrightarrow> ps_inst k < pr_next s \<and> (ps_inst k \<in> pr_stopped s \<or> ps_inst k = e)"
      "\<forall>n f. pr_timers s n = Some f \<longrightarrow> f < pr_next s \<and> (f \<in> pr_stopped s \<or> f = e)"
      "\<forall>f \<in> pr_stopped s. f < pr_next s" "5000 \<le> pr_delay s" "pr_delay s \<le> MAX_RETRY_DELAY"
    and e: "pr_inst s = Some e" "e \<notin> pr_stopped s" "e < pr_next s" "links e s = {}" "retries e s = {}"
      "\<forall>i k. pr_socks s i = Some k \<longrightarrow> ps_inst k = e \<longrightarrow> ps_onclose k"
  shows "presence_inv (presence_connect e s)"
proof -
  let ?t = "presence_connect e s"
  have t: "?t = s\<lparr>pr_socks := (pr_socks s)(pr_next s \<mapsto> \<lparr>ps_inst = e, ps_state = CONNECTING, ps_onclose = True\<rparr>),
      pr_ws := Some (pr_next s), pr_next := Suc (pr_next s)\<rparr>"
    using e(2) by (simp add: presence_connect_def)
  have "links e ?t = {pr_next s}" "retries e ?t = {}" using e(4,5) by (simp_all add: t)
  then have "one_attempt e ?t" by (simp add: one_attempt_def t)
  then show ?thesis using w e(1,2,3,6) unfolding presence_inv_def by (auto simp: t less_Suc_eq)
qed

lemma presence_inv_session:
  assumes i: "presence_inv s"
  shows "presence_inv (session_change x s)"
proof -
  define c where "c = (case pr_inst s of None \<Rightarrow> s | Some e \<Rightarrow> presence_cleanup e s)"
  let ?fresh = "\<forall>n \<ge> pr_next c. pr_socks c n = None \<and> pr_timers c n = None"
  let ?socks = "\<forall>i k. pr_socks c i = Some k \<longrightarrow> ps_inst k < pr_next c \<and> ps_inst k \<in> pr_stopped c"
  let ?timers = "\<forall>n f. pr_timers c n = Some f \<longrightarrow> f < pr_next c \<and> f \<in> pr_stopped c"
  have f: "pr_next c = pr_next s" "pr_timers c = pr_timers s" "pr_delay c = pr_delay s"
      "pr_stopped c = pr_stopped s \<union> set_option (pr_inst s)" "pr_socks c n = None \<longleftrightarrow> pr_socks s n = None" for n
    by (auto simp: c_def presence_cleanup_def Let_def split: option.split)
  have k: "\<exists>q. pr_socks s n = Some q \<and> ps_inst q = ps_inst p" if "pr_socks c n = Some p" for n p
    using that by (auto simp: c_def presence_cleanup_def Let_def split: option.splits if_splits)
  have c: "?fresh" "\<forall>f \<in> pr_stopped c. f < pr_next c" "5000 \<le> pr_delay c" "pr_delay c \<le> MAX_RETRY_DELAY"
    using i by (auto simp: presence_inv_def f)
  have cs: "?socks"
  proof (intro allI impI)
    fix n p assume "pr_socks c n = Some p"
    from k [OF this] obtain q where q: "pr_socks s n = Some q" "ps_inst q = ps_inst p" by blast
    from q(1) i have "ps_inst q < pr_next s \<and> (ps_inst q \<in> pr_stopped s \<or> pr_inst s = Some (ps_inst q))"
      unfolding presence_inv_def by blast
    with q(2) show "ps_inst p < pr_next c \<and> ps_inst p \<in> pr_stopped c" by (auto simp: f)
  qed
  have "\<forall>n e. pr_timers s n = Some e \<longrightarrow> e < pr_next s \<and> (e \<in> pr_stopped s \<or> pr_inst s = Some e)"
    using i unfolding presence_inv_def by blast
  then have ct: "?timers" by (fastforce simp: f)
  have none: "presence_inv (c\<lparr>pr_inst := None\<rparr>)"
    using c cs ct unfolding presence_inv_def by auto
  have "presence_inv (presence_connect (pr_next c)
      (c\<lparr>pr_session := x, pr_inst := Some (pr_next c), pr_next := Suc (pr_next c)\<rparr>))"
  proof (rule presence_inv_connect)
    show "links (pr_next c) (c\<lparr>pr_session := x, pr_inst := Some (pr_next c), pr_next := Suc (pr_next c)\<rparr>) = {}"
      using cs unfolding links_def by fastforce
    show "retries (pr_next c) (c\<lparr>pr_session := x, pr_inst := Some (pr_next c), pr_next := Suc (pr_next c)\<rparr>) = {}"
      using ct unfolding retries_def by fastforce
  qed (use c cs ct in \<open>fastforce simp: less_Suc_eq\<close>)+
  moreover have "presence_inv (c\<lparr>pr_session := y, pr_inst := None\<rparr>)" for y
    using none by (simp add: presence_inv_def one_attempt_def)
  ultimately show ?thesis
    by (auto simp: session_change_def Let_def simp flip: c_def split: option.split)
qed

lemma presence_inv_close:
  assumes i: "presence_inv s"
  shows "presence_inv (presence_close j s)"
proof (cases "pr_socks s j")
  case (Some k)
  show ?thesis
  proof (cases "ps_state k = CLOSED")
    case False
    let ?s1 = "s\<lparr>pr_socks := (pr_socks s)(j \<mapsto> k\<lparr>ps_state := CLOSED\<rparr>)\<rparr>"
    show ?thesis
    proof (cases "\<not> ps_onclose k \<or> ps_inst k \<in> pr_stopped s")
      case True
      then have n: "pr_inst s \<noteq> Some (ps_inst k)" using i Some by (auto simp: presence_inv_def)
      have "one_attempt e ?s1 = one_attempt e s" if "pr_inst s = Some e" for e
      proof -
        have "j \<notin> links e s" using n that Some by (auto simp: links_def)
        then show ?thesis by (simp add: one_attempt_def)
      qed
      then have "presence_inv ?s1" using i Some n unfolding presence_inv_def by auto
      with True False Some show ?thesis by (simp add: presence_close_def)
    next
      case act: False
      then have e: "pr_inst s = Some (ps_inst k)" using i Some by (auto simp: presence_inv_def)
      let ?t = "?s1\<lparr>pr_timers := (pr_timers s)(pr_next s \<mapsto> ps_inst k), pr_next := Suc (pr_next s),
          pr_delay := min (pr_delay s * 2) MAX_RETRY_DELAY\<rparr>"
      have "one_attempt (ps_inst k) s" using i e by (simp add: presence_inv_def)
      moreover have "j \<in> links (ps_inst k) s" using Some False by (simp add: links_def)
      ultimately have "links (ps_inst k) s = {j}" "retries (ps_inst k) s = {}"
        by (auto simp: one_attempt_def)
      moreover have "retries (ps_inst k) ?t = insert (pr_next s) (retries (ps_inst k) s)"
        by (auto simp: retries_def)
      ultimately have "links (ps_inst k) ?t = {}" "retries (ps_inst k) ?t = {pr_next s}" by simp_all
      then have "one_attempt (ps_inst k) ?t" by (simp add: one_attempt_def)
      then have "presence_inv ?t"
        using i Some e act unfolding presence_inv_def by (auto simp: less_Suc_eq MAX_RETRY_DELAY_def)
      with act False Some show ?thesis by (simp add: presence_close_def Let_def)
    qed
  qed (use Some i in \<open>simp add: presence_close_def\<close>)
qed (use i in \<open>simp add: presence_close_def\<close>)

lemma presence_inv_state:
  assumes i: "presence_inv s" and k: "pr_socks s j = Some k" "ps_state k \<noteq> CLOSED" "st \<noteq> CLOSED"
  shows "presence_inv (s\<lparr>pr_socks := (pr_socks s)(j \<mapsto> k\<lparr>ps_state := st\<rparr>)\<rparr>)"
proof -
  have "j \<in> links (ps_inst k) s" using k by (simp add: links_def)
  then have "links e (s\<lparr>pr_socks := (pr_socks s)(j \<mapsto> k\<lparr>ps_state := st\<rparr>)\<rparr>) = links e s" for e
    using k by (auto simp: links_def)
  then have "one_attempt e (s\<lparr>pr_socks := (pr_socks s)(j \<mapsto> k\<lparr>ps_state := st\<rparr>)\<rparr>) = one_attempt e s" for e
    by (simp add: one_attempt_def)
  with i k show ?thesis unfolding presence_inv_def by auto
qed

lemma presence_inv_timer:
  assumes i: "presence_inv s"
  shows "presence_inv (presence_timer n s)"
proof (cases "pr_timers s n")
  case (Some e)
  let ?s = "s\<lparr>pr_timers := (pr_timers s)(n := None)\<rparr>"
  show ?thesis
  proof (cases "e \<in> pr_stopped s")
    case True
    then have "pr_inst s \<noteq> Some e" using i by (auto simp: presence_inv_def)
    moreover have "one_attempt f ?s = one_attempt f s" if "f \<noteq> e" for f
    proof -
      have "n \<notin> retries f s" using that Some by (simp add: retries_def)
      then show ?thesis by (simp add: one_attempt_def)
    qed
    ultimately have "presence_inv ?s" using i unfolding presence_inv_def by auto
    with True Some show ?thesis by (simp add: presence_timer_def presence_connect_def)
  next
    case False
    then have e: "pr_inst s = Some e" using i Some by (auto simp: presence_inv_def)
    then have "one_attempt e s" using i by (simp add: presence_inv_def)
    moreover have "n \<in> retries e s" using Some by (simp add: retries_def)
    ultimately have "links e s = {}" "retries e s = {n}" by (auto simp: one_attempt_def)
    then have "presence_inv (presence_connect e ?s)"
      using i e by (intro presence_inv_connect) (auto simp: presence_inv_def)
    with Some show ?thesis by (simp add: presence_timer_def)
  qed
qed (use i in \<open>simp add: presence_timer_def\<close>)

lemma presence_inv_step:
  assumes i: "presence_inv s"
  shows "presence_inv (presence_step e s)"
proof (cases e)
  case (POpen j)
  have d: "presence_inv t \<Longrightarrow> presence_inv (t\<lparr>pr_delay := 5000\<rparr>)" for t
    by (simp add: presence_inv_def one_attempt_def MAX_RETRY_DELAY_def)
  have "presence_inv (s\<lparr>pr_socks := (pr_socks s)(j \<mapsto> k\<lparr>ps_state := OPEN\<rparr>), pr_delay := 5000\<rparr>)"
    if "pr_socks s j = Some k" "ps_state k = CONNECTING" for k
    using d [OF presence_inv_state [OF i that(1), of OPEN]] that by simp
  with POpen i show ?thesis by (auto simp: presence_open_def split: option.split)
next
  case (PMessage j v)
  then show ?thesis using i by (auto simp: presence_message_def apply_frame_def split: option.split prod.split)
qed (use i in \<open>auto simp: presence_inv_session presence_inv_close presence_inv_timer members_loaded_def
    presence_error_def presence_inv_state split: option.split\<close>)

interpretation presence: invariant_machine presence_step "\<lambda>_ _. True" presence_inv
  by unfold_locales (rule presence_inv_step)

text \<open>C12. While a session is there the user is either being connected or about to be: after any events
  the current run of the effect has exactly one socket that is not closed and no retry pending, or no
  such socket and exactly one retry, and the retry delay is between five seconds and two minutes.\<close>

theorem presence_never_stuck:
  assumes "pr_inst (run presence_step es (new_presence occ mute)) = Some e"
  shows "card (links e (run presence_step es (new_presence occ mute)))
      + card (retries e (run presence_step es (new_presence occ mute))) = 1 \<and>
    5000 \<le> pr_delay (run presence_step es (new_presence occ mute)) \<and>
    pr_delay (run presence_step es (new_presence occ mute)) \<le> 120000"
proof -
  have "presence_inv (new_presence occ mute)"
    by (simp add: presence_inv_def new_presence_def MAX_RETRY_DELAY_def)
  from presence.inv_run [OF this, of es] assms
  have "one_attempt e (run presence_step es (new_presence occ mute))"
    "5000 \<le> pr_delay (run presence_step es (new_presence occ mute))"
    "pr_delay (run presence_step es (new_presence occ mute)) \<le> 120000"
    by (simp_all add: presence_inv_def MAX_RETRY_DELAY_def)
  then show ?thesis by (auto simp: one_attempt_def)
qed

theorem presence_never_stuck_witness:
  "let s = run presence_step [PSession (Some (''h'', ''t'')), PClose 1, PTimer 2, POpen 3, PError 3, PClose 3]
      (new_presence empty_store empty_store) in card (links 0 s) + card (retries 0 s) = 1"
proof -
  let ?s = "run presence_step [PSession (Some (''h'', ''t'')), PClose 1, PTimer 2, POpen 3, PError 3, PClose 3]
      (new_presence empty_store empty_store)"
  have "pr_inst ?s = Some 0"
    by (simp add: new_presence_def session_change_def presence_connect_def presence_close_def
        presence_timer_def presence_open_def presence_error_def Let_def)
  from presence_never_stuck [OF this] show ?thesis by (simp only: Let_def)
qed


definition left_voice :: json where
  "left_voice = JObj [(''type'', JStr ''voice_occupancy''), (''user_id'', JStr ''bob''), (''channel_id'', JNull)]"


end
