(* ===== verification/Permissions.thy ===== *)
theory Permissions
  imports Prelude "HOL-Library.Word"
begin

text \<open>
  \<open>frontend/hooks/use-permissions.ts\<close>: the permission bits of the hub, the test for a bit as
  JavaScript computes it (\<open>&\<close> converts both numbers to signed 32-bit integers), and the hook that
  loads the bits of the session and drops the reply of an earlier session.
\<close>

section \<open>Bits\<close>

record user_permissions =
  hub_bits :: int
  top_position :: int
  is_admin :: bool
  is_creator :: bool

unbundle bit_operations_syntax

definition js_and :: "int \<Rightarrow> int \<Rightarrow> int" where
  "js_and a b = sint ((word_of_int a :: 32 word) AND word_of_int b)"

definition P_READ :: int where "P_READ = 1"
definition P_WRITE :: int where "P_WRITE = 2"
definition P_CONNECT :: int where "P_CONNECT = 4"
definition P_SPEAK :: int where "P_SPEAK = 8"
definition P_VIDEO :: int where "P_VIDEO = 16"
definition P_MANAGE_CHANNEL :: int where "P_MANAGE_CHANNEL = 32"
definition P_ADMIN_CHANNEL :: int where "P_ADMIN_CHANNEL = 64"
definition P_CREATE_TEXT_CHANNELS :: int where "P_CREATE_TEXT_CHANNELS = 128"
definition P_CREATE_VOICE_CHANNELS :: int where "P_CREATE_VOICE_CHANNELS = 256"
definition P_EDIT_OTHER_CHANNELS :: int where "P_EDIT_OTHER_CHANNELS = 512"
definition P_MANAGE_MEMBERS :: int where "P_MANAGE_MEMBERS = 1024"
definition P_INVITE_PERMANENT :: int where "P_INVITE_PERMANENT = 2048"
definition P_CREATE_TEMP_LINKS :: int where "P_CREATE_TEMP_LINKS = 4096"
definition P_MANAGE_ROLES :: int where "P_MANAGE_ROLES = 8192"
definition P_ALL :: int where "P_ALL = 16383"

text \<open>All bits but \<open>ALL\<close>, in the order of the table.\<close>

definition P_bits :: "int list" where
  "P_bits = [P_READ, P_WRITE, P_CONNECT, P_SPEAK, P_VIDEO, P_MANAGE_CHANNEL, P_ADMIN_CHANNEL,
     P_CREATE_TEXT_CHANNELS, P_CREATE_VOICE_CHANNELS, P_EDIT_OTHER_CHANNELS, P_MANAGE_MEMBERS,
     P_INVITE_PERMANENT, P_CREATE_TEMP_LINKS, P_MANAGE_ROLES]"

definition HUB_PERMISSION_LABELS :: "(int \<times> string \<times> string) list" where
  "HUB_PERMISSION_LABELS =
     [(P_CREATE_TEXT_CHANNELS, ''create_text'', ''Create text channels''),
      (P_CREATE_VOICE_CHANNELS, ''create_voice'', ''Create voice channels''),
      (P_EDIT_OTHER_CHANNELS, ''edit_channels'', ''Edit other channels''),
      (P_MANAGE_MEMBERS, ''manage_members'', ''Manage members''),
      (P_INVITE_PERMANENT, ''invite_permanent'', ''Invite permanent users''),
      (P_CREATE_TEMP_LINKS, ''create_temp_links'', ''Create temp links''),
      (P_MANAGE_ROLES, ''manage_roles'', ''Manage roles'')]"

definition has_bit :: "int \<Rightarrow> int \<Rightarrow> bool" where
  "has_bit bits b \<longleftrightarrow> js_and bits b = b"

definition perms_has :: "user_permissions option \<Rightarrow> int \<Rightarrow> bool" where
  "perms_has p b =
     (case p of None \<Rightarrow> False | Some x \<Rightarrow> is_admin x \<or> js_and (hub_bits x) b = b)"

section \<open>Loading\<close>

record perms_state =
  pm_perms :: "user_permissions option"
  pm_current :: "nat option" \<comment> \<open>the request of the current session\<close>
  pm_requests :: "nat \<rightharpoonup> string \<times> string" \<comment> \<open>hub, token\<close>
  pm_next :: nat

definition new_perms :: perms_state where
  "new_perms = \<lparr>pm_perms = None, pm_current = None, pm_requests = (\<lambda>_. None), pm_next = 0\<rparr>"

text \<open>The effect runs again when hub or token change: the earlier request is cancelled.\<close>

definition perms_session :: "(string \<times> string) option \<Rightarrow> perms_state \<Rightarrow> perms_state" where
  "perms_session x s =
     (case x of
        Some (hub, tok) \<Rightarrow>
          if hub = [] \<or> tok = [] then s\<lparr>pm_current := None\<rparr>
          else s\<lparr>pm_current := Some (pm_next s), pm_requests := (pm_requests s)(pm_next s \<mapsto> (hub, tok)),
                 pm_next := Suc (pm_next s)\<rparr>
      | None \<Rightarrow> s\<lparr>pm_current := None\<rparr>)"

text \<open>The reply: \<open>None\<close> for an error status, no network or no JSON.\<close>

definition perms_reply :: "nat \<Rightarrow> user_permissions option \<Rightarrow> perms_state \<Rightarrow> perms_state" where
  "perms_reply n r s =
     (if pm_requests s n = None then s
      else
        (let s1 = s\<lparr>pm_requests := (pm_requests s)(n := None)\<rparr> in
         if pm_current s \<noteq> Some n then s1
         else case r of None \<Rightarrow> s1 | Some p \<Rightarrow> s1\<lparr>pm_perms := Some p\<rparr>))"

section \<open>Properties\<close>

lemma word_bit: "n < 32 \<Longrightarrow> bit (word_of_int a :: 32 word) n = bit a n"
  by (simp add: bit_word_of_int_iff)

lemma small_bits:
  assumes "0 \<le> (b :: int)" "b < 2147483648" "31 \<le> n"
  shows "\<not> bit b n"
proof -
  have "b < 2 ^ n" using assms(2) power_increasing [OF assms(3), of "2 :: int"] by simp
  then have "take_bit n b = b" using assms(1) by (simp add: take_bit_int_eq_self)
  then show ?thesis by (metis bit_take_bit_iff less_irrefl)
qed

lemma sint_small_word:
  assumes "0 \<le> b" "b < 2147483648"
  shows "sint (word_of_int b :: 32 word) = b"
  using assms by (simp add: int_word_sint)

lemma has_bit_word:
  assumes "0 \<le> b" "b < 2147483648"
  shows "has_bit bits b \<longleftrightarrow> (word_of_int bits :: 32 word) AND word_of_int b = word_of_int b"
proof
  assume "has_bit bits b"
  then have "sint ((word_of_int bits :: 32 word) AND word_of_int b) = sint (word_of_int b :: 32 word)"
    by (simp add: has_bit_def js_and_def sint_small_word assms)
  then show "(word_of_int bits :: 32 word) AND word_of_int b = word_of_int b" by (simp only: signed_word_eqI)
next
  assume "(word_of_int bits :: 32 word) AND word_of_int b = word_of_int b"
  then show "has_bit bits b" by (simp add: has_bit_def js_and_def sint_small_word assms)
qed

text \<open>For a permission below \<open>2^31\<close>, of one bit or of several, the test of the code is that every bit
  of the permission is among the lower 32 bits of the user's number, whatever its size or sign.\<close>

theorem has_bit_is_inclusion:
  assumes "0 \<le> b" "b < 2147483648"
  shows "has_bit bits b \<longleftrightarrow> (\<forall>n < 31. bit b n \<longrightarrow> bit bits n)"
proof -
  have "has_bit bits b \<longleftrightarrow> (\<forall>n < 32. bit b n \<longrightarrow> bit bits n)"
    unfolding has_bit_word [OF assms] bit_eq_iff
    by (auto simp: bit_and_iff bit_word_of_int_iff)
  moreover have "\<not> bit b 31" using small_bits [OF assms, of 31] by simp
  ultimately show ?thesis by (auto simp: less_Suc_eq numeral_eq_Suc)
qed

theorem has_bit_is_inclusion_witness: "has_bit P_ALL P_SPEAK \<and> bit P_ALL 3"
proof -
  have b: "0 \<le> P_SPEAK" "P_SPEAK < 2147483648" by (simp_all add: P_SPEAK_def)
  have h: "has_bit P_ALL P_SPEAK" by (simp add: has_bit_def js_and_def P_SPEAK_def P_ALL_def int_word_sint)
  then have "bit P_SPEAK 3 \<longrightarrow> bit P_ALL 3" using has_bit_is_inclusion [OF b, of P_ALL] by simp
  with h show ?thesis by (simp add: P_SPEAK_def)
qed

text \<open>The fourteen permissions are distinct single bits and \<open>ALL\<close> is their union: a user has
  \<open>ALL\<close> exactly if he has each of them, and an administrator has every bit.\<close>

theorem all_is_every_permission:
  "P_bits = map (\<lambda>n. 2 ^ n) [0 ..< 14] \<and>
   (has_bit bits P_ALL \<longleftrightarrow> (\<forall>b \<in> set P_bits. has_bit bits b)) \<and>
   (\<forall>p b. is_admin p \<longrightarrow> perms_has (Some p) b)"
proof -
  have e: "P_bits = map (\<lambda>n. 2 ^ n) [0 ..< 14]"
    by (simp add: P_bits_def P_READ_def P_WRITE_def P_CONNECT_def P_SPEAK_def P_VIDEO_def P_MANAGE_CHANNEL_def
        P_ADMIN_CHANNEL_def P_CREATE_TEXT_CHANNELS_def P_CREATE_VOICE_CHANNELS_def P_EDIT_OTHER_CHANNELS_def
        P_MANAGE_MEMBERS_def P_INVITE_PERMANENT_def P_CREATE_TEMP_LINKS_def P_MANAGE_ROLES_def upt_rec)
  have one: "has_bit bits (2 ^ n) \<longleftrightarrow> bit bits n" if "n < 14" for n
  proof -
    have "(2 :: int) ^ n < 2 ^ 14" using that by (intro power_strict_increasing) simp_all
    then have "0 \<le> (2 :: int) ^ n" "(2 :: int) ^ n < 2147483648" by simp_all
    from has_bit_is_inclusion [OF this, of bits] that show ?thesis by (auto simp: bit_2_iff bit_exp_iff)
  qed
  have all: "bit P_ALL n \<longleftrightarrow> n < 14" for n
  proof -
    have "P_ALL = mask 14" by (simp add: P_ALL_def mask_eq_exp_minus_1)
    moreover have "bit (mask 14 :: int) n \<longleftrightarrow> n < 14" by (simp add: bit_mask_iff possible_bit_def)
    ultimately show ?thesis by presburger
  qed
  have "has_bit bits P_ALL \<longleftrightarrow> (\<forall>n < 14. bit bits n)"
    using has_bit_is_inclusion [of P_ALL bits] all by (auto simp: P_ALL_def)
  also have "\<dots> \<longleftrightarrow> (\<forall>b \<in> set P_bits. has_bit bits b)" using one by (auto simp: e)
  finally show ?thesis using e by (simp add: perms_has_def)
qed

theorem all_is_every_permission_witness:
  "has_bit 16383 P_ALL \<and> (\<forall>b \<in> set P_bits. has_bit 16383 b)"
proof -
  have "has_bit 16383 P_ALL" by (simp add: has_bit_def js_and_def P_ALL_def int_word_sint)
  with all_is_every_permission [of 16383] show ?thesis by simp
qed

text \<open>The top bit is never held: the conjunction is a negative number.\<close>

lemma top_bit_never: "\<not> has_bit bits 2147483648"
proof -
  have "js_and bits 2147483648 < 2147483648"
    using sint_less [of "(word_of_int bits :: 32 word) AND word_of_int 2147483648"] by (simp add: js_and_def)
  then show ?thesis by (simp add: has_bit_def)
qed

text \<open>
  A reply of an earlier session changes nothing; but the permissions it had loaded stay in force
  until the reply of the new session arrives, and for good if that fails.
\<close>

lemma stale_permissions_ignored:
  "pm_current s \<noteq> Some n \<Longrightarrow> pm_perms (perms_reply n r s) = pm_perms s"
  by (simp add: perms_reply_def Let_def)

lemma permissions_outlive_session:
  "pm_perms (perms_reply (pm_next s) None (perms_session (Some (hub, tok)) s)) = pm_perms s"
  by (simp add: perms_reply_def perms_session_def Let_def)

end
