(* ===== verification/Rx.thy ===== *)
theory Rx
  imports Snowflake "HOL-Library.Sublist"
begin

text \<open>
  The regular expressions the frontend's text functions use, with JavaScript's backtracking order
  and its \<open>String.replace\<close> with the \<open>g\<close> flag. A pattern is a list of items; the text before the
  position is kept, reversed, for the lookbehinds. Characters are the code units up to 255.
\<close>

section \<open>Matching\<close>

datatype rx_item =
    Lit string
  | One "char \<Rightarrow> bool"
  | Opt "char \<Rightarrow> bool"
  | Many "char \<Rightarrow> bool" nat bool bool \<comment> \<open>class, least number, greedy, captured\<close>
  | NotBehind "string list"
  | NotAhead "string list"

fun first_some :: "'a option list \<Rightarrow> 'a option" where
  "first_some [] = None"
| "first_some (None # xs) = first_some xs"
| "first_some (Some x # xs) = Some x"

definition tries :: "bool \<Rightarrow> nat \<Rightarrow> nat \<Rightarrow> nat list" where
  "tries greedy lo hi = (if greedy then rev [lo ..< Suc hi] else [lo ..< Suc hi])"

text \<open>The captures, the text before and the text after the match.\<close>

fun rx_match ::
  "rx_item list \<Rightarrow> string \<Rightarrow> string \<Rightarrow> string list \<Rightarrow> (string list \<times> string \<times> string) option" where
  "rx_match [] b r cs = Some (cs, b, r)"
| "rx_match (Lit w # xs) b r cs =
     (if take (length w) r = w then rx_match xs (rev w @ b) (drop (length w) r) cs else None)"
| "rx_match (One p # xs) b r cs =
     (case r of [] \<Rightarrow> None | c # r' \<Rightarrow> if p c then rx_match xs (c # b) r' cs else None)"
| "rx_match (Opt p # xs) b r cs =
     (case r of
        [] \<Rightarrow> rx_match xs b r cs
      | c # r' \<Rightarrow>
          if p c then first_some [rx_match xs (c # b) r' cs, rx_match xs b r cs]
          else rx_match xs b r cs)"
| "rx_match (Many p lo greedy capt # xs) b r cs =
     first_some
       (map (\<lambda>n. rx_match xs (rev (take n r) @ b) (drop n r) (if capt then cs @ [take n r] else cs))
         (tries greedy lo (length (takeWhile p r))))"
| "rx_match (NotBehind ws # xs) b r cs =
     (if \<exists>w \<in> set ws. prefix (rev w) b then None else rx_match xs b r cs)"
| "rx_match (NotAhead ws # xs) b r cs =
     (if \<exists>w \<in> set ws. prefix w r then None else rx_match xs b r cs)"

text \<open>The text of a match: what it took from the rest.\<close>

definition taken :: "string \<Rightarrow> string \<Rightarrow> string" where
  "taken r r' = take (length r - length r') r"

text \<open>
  \<open>s.replace(/\<dots>/g, \<dots>)\<close>: the replacement may use the match and its captures. After an empty match
  the search goes on one character later.
\<close>

function rx_replace ::
  "rx_item list \<Rightarrow> (string \<Rightarrow> string list \<Rightarrow> string) \<Rightarrow> string \<Rightarrow> string \<Rightarrow> string" where
  "rx_replace xs f b r =
     (case rx_match xs b r [] of
        Some (cs, b', r') \<Rightarrow>
          if length r' < length r then f (taken r r') cs @ rx_replace xs f b' r'
          else f [] cs @ (case r of [] \<Rightarrow> [] | c # r1 \<Rightarrow> c # rx_replace xs f (c # b) r1)
      | None \<Rightarrow> (case r of [] \<Rightarrow> [] | c # r1 \<Rightarrow> c # rx_replace xs f (c # b) r1))"
  by pat_completeness auto

termination by (relation "measure (\<lambda>(xs, f, b, r). length r)") auto

declare rx_replace.simps [simp del]

definition replace_all :: "rx_item list \<Rightarrow> (string \<Rightarrow> string list \<Rightarrow> string) \<Rightarrow> string \<Rightarrow> string" where
  "replace_all xs f s = rx_replace xs f [] s"

definition rx_first :: "rx_item list \<Rightarrow> string \<Rightarrow> string list option" where
  "rx_first xs s = map_option fst (rx_match xs [] s [])"

definition re_dot :: "char \<Rightarrow> bool" where
  "re_dot c \<longleftrightarrow> (of_char c :: nat) \<noteq> 10 \<and> (of_char c :: nat) \<noteq> 13"

definition re_space :: "char \<Rightarrow> bool" where
  "re_space c \<longleftrightarrow> js_space c \<or> (of_char c :: nat) = 160"

definition re_digit :: "char \<Rightarrow> bool" where
  "re_digit c \<longleftrightarrow> 48 \<le> (of_char c :: nat) \<and> (of_char c :: nat) \<le> 57"

section \<open>The shape of a match\<close>

lemma first_some_in: "first_some xs = Some y \<Longrightarrow> Some y \<in> set xs"
  by (induction xs rule: first_some.induct) auto

fun rx_shape :: "rx_item list \<Rightarrow> string \<Rightarrow> string list \<Rightarrow> bool" where
  "rx_shape [] m cs \<longleftrightarrow> m = [] \<and> cs = []"
| "rx_shape (Lit w # xs) m cs \<longleftrightarrow> (\<exists>m'. m = w @ m' \<and> rx_shape xs m' cs)"
| "rx_shape (One p # xs) m cs \<longleftrightarrow> (\<exists>c m'. m = c # m' \<and> p c \<and> rx_shape xs m' cs)"
| "rx_shape (Opt p # xs) m cs \<longleftrightarrow> rx_shape xs m cs \<or> (\<exists>c m'. m = c # m' \<and> p c \<and> rx_shape xs m' cs)"
| "rx_shape (Many p lo greedy capt # xs) m cs \<longleftrightarrow>
     (\<exists>u m' cs'. m = u @ m' \<and> lo \<le> length u \<and> (\<forall>c \<in> set u. p c) \<and>
        cs = (if capt then u # cs' else cs') \<and> rx_shape xs m' cs')"
| "rx_shape (NotBehind ws # xs) m cs \<longleftrightarrow> rx_shape xs m cs"
| "rx_shape (NotAhead ws # xs) m cs \<longleftrightarrow> rx_shape xs m cs"

lemma take_takeWhile: "n \<le> length (takeWhile p r) \<Longrightarrow> c \<in> set (take n r) \<Longrightarrow> p c"
  by (metis in_set_takeD set_takeWhileD takeWhile_eq_take take_take min.absorb1)

lemma rx_match_shape:
  "rx_match xs b r cs = Some (cs', b', r') \<Longrightarrow>
     \<exists>m c. r = m @ r' \<and> b' = rev m @ b \<and> cs' = cs @ c \<and> rx_shape xs m c"
proof (induction xs b r cs arbitrary: cs' b' r' rule: rx_match.induct)
  case (2 w xs b r cs)
  then obtain m c where "drop (length w) r = m @ r'" "b' = rev m @ rev w @ b" "cs' = cs @ c"
    "rx_shape xs m c" "take (length w) r = w" by (fastforce split: if_splits)
  moreover from this have "r = (w @ m) @ r'" by (metis append_assoc append_take_drop_id)
  ultimately show ?case by (intro exI [of _ "w @ m"] exI [of _ c]) simp
next
  case (3 p xs b r cs)
  then obtain d q where r: "r = d # q" "p d" by (auto split: list.splits if_splits)
  with 3 obtain m c where "q = m @ r'" "b' = rev m @ d # b" "cs' = cs @ c" "rx_shape xs m c" by fastforce
  with r show ?case by (intro exI [of _ "d # m"] exI [of _ c]) simp
next
  case (4 p xs b r cs)
  show ?case
  proof (cases "rx_match xs b r cs = Some (cs', b', r')")
    case True
    show ?thesis
    proof (cases r)
      case Nil
      from 4(1) [OF this True] show ?thesis by auto
    next
      case (Cons d q)
      show ?thesis using 4(3) [OF Cons _ True] 4(4) [OF Cons _ True] by (cases "p d") auto
    qed
  next
    case False
    with 4(5) obtain d q where r: "r = d # q" "p d" by (auto split: list.splits if_splits)
    with 4(5) False have "rx_match xs (d # b) q cs = Some (cs', b', r')"
      using first_some_in [of "[rx_match xs (d # b) q cs, rx_match xs b r cs]"] by force
    from 4(2) [OF r this] obtain m c where "q = m @ r'" "b' = rev m @ d # b" "cs' = cs @ c" "rx_shape xs m c"
      by blast
    with r show ?thesis by (intro exI [of _ "d # m"] exI [of _ c]) simp
  qed
next
  case (5 p lo greedy capt xs b r cs)
  let ?att = "\<lambda>n. rx_match xs (rev (take n r) @ b) (drop n r) (if capt then cs @ [take n r] else cs)"
  from first_some_in [OF 5(2) [unfolded rx_match.simps]] obtain n
    where n: "n \<in> set (tries greedy lo (length (takeWhile p r)))" "?att n = Some (cs', b', r')" by auto
  then have l: "lo \<le> n" "n \<le> length (takeWhile p r)" by (auto simp: tries_def split: if_splits)
  then have n2: "n \<le> length r" using length_takeWhile_le [of p r] by linarith
  from 5(1) [OF n] obtain m c where m: "drop n r = m @ r'" "b' = rev m @ rev (take n r) @ b"
    "cs' = (if capt then cs @ [take n r] else cs) @ c" "rx_shape xs m c" by blast
  have "r = (take n r @ m) @ r'" using m(1) by (metis append_assoc append_take_drop_id)
  moreover have "b' = rev (take n r @ m) @ b" using m(2) by simp
  moreover have "cs' = cs @ (if capt then take n r # c else c)" using m(3) by simp
  moreover have "rx_shape (Many p lo greedy capt # xs) (take n r @ m) (if capt then take n r # c else c)"
    using l n2 m(4) take_takeWhile [OF l(2)] unfolding rx_shape.simps
    by (intro exI [of _ "take n r"] exI [of _ m] exI [of _ c]) (auto simp: min_def)
  ultimately show ?case by blast
qed (auto split: if_splits)

section \<open>Replacing\<close>

text \<open>The four outcomes at a position, for the matches that take something.\<close>

lemma rx_replace_match:
  assumes "rx_match xs b (m @ r) [] = Some (cs, b', r)" "m \<noteq> []"
  shows "rx_replace xs f b (m @ r) = f m cs @ rx_replace xs f b' r"
  using assms by (subst rx_replace.simps) (simp add: taken_def)

lemma rx_replace_skip:
  assumes "rx_match xs b (c # r) [] = None"
  shows "rx_replace xs f b (c # r) = c # rx_replace xs f (c # b) r"
  using assms by (subst rx_replace.simps) simp

lemma rx_replace_Nil: "rx_match xs b [] [] = None \<Longrightarrow> rx_replace xs f b [] = []"
  by (subst rx_replace.simps) simp

text \<open>The patterns of the code never match the empty text.\<close>

definition consuming :: "rx_item list \<Rightarrow> bool" where
  "consuming xs \<longleftrightarrow> (\<forall>cs. \<not> rx_shape xs [] cs)"

lemma consumingD:
  assumes "consuming xs" "rx_match xs b r [] = Some (cs, b', r')"
  shows "\<exists>m. m \<noteq> [] \<and> r = m @ r' \<and> rx_shape xs m cs"
  using rx_match_shape [OF assms(2)] assms(1) by (auto simp: consuming_def)

text \<open>Induction over the text: end, a character that is kept, a match that is replaced.\<close>

lemma rx_replace_cases:
  assumes "consuming xs"
  obtains (Nil) "r = []" "rx_replace xs f b r = []"
  | (Skip) c q where "r = c # q" "rx_replace xs f b r = c # rx_replace xs f (c # b) q"
  | (Match) m q cs b' where "m \<noteq> []" "r = m @ q" "rx_shape xs m cs" "rx_match xs b r [] = Some (cs, b', q)"
      "rx_replace xs f b r = f m cs @ rx_replace xs f b' q"
proof (cases "rx_match xs b r []")
  case None
  then show thesis using rx_replace_skip rx_replace_Nil that(1,2) by (cases r) blast+
next
  case (Some x)
  obtain cs b' q where x: "x = (cs, b', q)" by (cases x)
  from consumingD [OF assms Some [unfolded x]] obtain m where "m \<noteq> []" "r = m @ q" "rx_shape xs m cs" by blast
  with Some x rx_replace_match that(3) show thesis by metis
qed

lemma rx_replace_induct [consumes 1, case_names Nil Skip Match]:
  assumes c: "consuming xs"
    and nil: "\<And>b. P [] []"
    and skip: "\<And>d q b. P q (rx_replace xs f (d # b) q) \<Longrightarrow> P (d # q) (d # rx_replace xs f (d # b) q)"
    and mat: "\<And>m q cs b'. m \<noteq> [] \<Longrightarrow> rx_shape xs m cs \<Longrightarrow> P q (rx_replace xs f b' q) \<Longrightarrow>
      P (m @ q) (f m cs @ rx_replace xs f b' q)"
  shows "P r (rx_replace xs f b r)"
proof (induction "length r" arbitrary: r b rule: less_induct)
  case less
  show ?case
  proof (rule rx_replace_cases [OF c, of r f b])
    assume "r = []" "rx_replace xs f b r = []"
    then show ?thesis using nil by simp
  next
    fix d q assume r: "r = d # q" "rx_replace xs f b r = d # rx_replace xs f (d # b) q"
    from less [of q] r(1) have "P q (rx_replace xs f (d # b) q)" by simp
    from skip [OF this] r show ?thesis by simp
  next
    fix m q cs b' assume r: "m \<noteq> []" "r = m @ q" "rx_shape xs m cs"
      "rx_replace xs f b r = f m cs @ rx_replace xs f b' q"
    from less [of q] r(1,2) have "P q (rx_replace xs f b' q)" by simp
    from mat [OF r(1,3) this] r show ?thesis by simp
  qed
qed

text \<open>A pattern that starts with a character the text lacks changes nothing.\<close>

lemma replace_absent:
  assumes "c \<notin> set s"
  shows "replace_all (Lit (c # w) # xs) f s = s"
proof -
  have k: "consuming (Lit (c # w) # xs)" by (simp add: consuming_def)
  have "c \<notin> set s \<longrightarrow> rx_replace (Lit (c # w) # xs) f b s = s" for b
    using k by (induction rule: rx_replace_induct) auto
  with assms show ?thesis by (simp add: replace_all_def)
qed

text \<open>Replacing a single character maps over the text.\<close>

lemma replace_char:
  "replace_all [Lit [c]] (\<lambda>_ _. w) s = concat (map (\<lambda>x. if x = c then w else [x]) s)"
proof -
  have "rx_replace [Lit [c]] (\<lambda>_ _. w) b s = concat (map (\<lambda>x. if x = c then w else [x]) s)" for b
  proof (induction s arbitrary: b)
    case Nil
    show ?case by (simp add: rx_replace_Nil)
  next
    case (Cons d s)
    show ?case
    proof (cases "d = c")
      case True
      have "rx_match [Lit [c]] b ([c] @ s) [] = Some ([], c # b, s)" by simp
      from rx_replace_match [OF this] Cons True show ?thesis by simp
    next
      case False
      have "rx_match [Lit [c]] b (d # s) [] = None" using False by simp
      from rx_replace_skip [OF this] Cons False show ?thesis by simp
    qed
  qed
  then show ?thesis by (simp add: replace_all_def)
qed

end
