(* ===== verification/Markdown.thy ===== *)
theory Markdown
  imports Rx
begin

text \<open>
  \<open>frontend/lib/markdown.ts\<close>: the toolbar actions on a selection, and the rendering of a message to
  HTML, stage by stage as the code has them. The sanitizer (the package \<open>dompurify\<close>) is a parameter.
\<close>

section \<open>Toolbar\<close>

record md_action =
  md_prefix :: string
  md_suffix :: string
  md_block :: bool
  md_placeholder :: string

definition md_actions :: "(string \<times> md_action) list" where
  "md_actions =
     [(''bold'', \<lparr>md_prefix = ''**'', md_suffix = ''**'', md_block = False, md_placeholder = ''bold text''\<rparr>),
      (''italic'', \<lparr>md_prefix = ''*'', md_suffix = ''*'', md_block = False, md_placeholder = ''italic text''\<rparr>),
      (''underline'', \<lparr>md_prefix = ''__'', md_suffix = ''__'', md_block = False, md_placeholder = ''underlined text''\<rparr>),
      (''link'', \<lparr>md_prefix = ''['', md_suffix = ''](url)'', md_block = False, md_placeholder = ''link text''\<rparr>),
      (''code'', \<lparr>md_prefix = ''`'', md_suffix = ''`'', md_block = False, md_placeholder = ''code''\<rparr>),
      (''orderedList'', \<lparr>md_prefix = ''1. '', md_suffix = '''', md_block = True, md_placeholder = ''list item''\<rparr>),
      (''unorderedList'', \<lparr>md_prefix = ''- '', md_suffix = '''', md_block = True, md_placeholder = ''list item''\<rparr>)]"

definition newline :: char where
  "newline = CHR 0x0A"

definition ends_line :: "string \<Rightarrow> bool" where
  "ends_line s \<longleftrightarrow> s \<noteq> [] \<and> last s = newline"

definition md_selected :: "nat \<Rightarrow> nat \<Rightarrow> string \<Rightarrow> string" where
  "md_selected from to v = drop from (take to v)"

definition md_insert :: "md_action \<Rightarrow> nat \<Rightarrow> nat \<Rightarrow> string \<Rightarrow> string" where
  "md_insert a from to v =
     (let sel = md_selected from to v;
          body = md_prefix a @ (if sel = [] then md_placeholder a else sel) @ md_suffix a
      in if md_block a \<and> take from v \<noteq> [] \<and> \<not> ends_line (take from v) then newline # body else body)"

definition apply_markdown :: "md_action \<Rightarrow> nat \<Rightarrow> nat \<Rightarrow> string \<Rightarrow> string" where
  "apply_markdown a from to v = take from v @ md_insert a from to v @ drop to v"

text \<open>The selection that is set after the next render.\<close>

definition md_cursor :: "md_action \<Rightarrow> nat \<Rightarrow> nat \<Rightarrow> string \<Rightarrow> nat \<times> nat" where
  "md_cursor a from to v =
     (if md_selected from to v \<noteq> []
      then (from + length (md_insert a from to v), from + length (md_insert a from to v))
      else
        (let p = from + (if md_block a \<and> v \<noteq> [] \<and> \<not> ends_line (take from v) then 1 else 0)
             + length (md_prefix a)
         in (p, p + length (md_placeholder a))))"

section \<open>Rendering\<close>

definition md_escape :: "string \<Rightarrow> string" where
  "md_escape s =
     replace_all [Lit ''>''] (\<lambda>_ _. ''&gt;'')
       (replace_all [Lit ''<''] (\<lambda>_ _. ''&lt;'') (replace_all [Lit ''&''] (\<lambda>_ _. ''&amp;'') s))"

definition pre_open :: string where
  "pre_open = ''<pre class=\"my-1 rounded bg-muted/50 px-2 py-1 text-xs font-mono overflow-x-auto\"><code>''"

definition code_open :: string where
  "code_open = ''<code class=\"rounded bg-muted/50 px-1 py-0.5 text-xs font-mono\">''"

definition link_close :: string where
  "link_close = ''\" data-external-link class=\"text-primary underline underline-offset-2 hover:text-primary/80 cursor-pointer\">''"

definition md_fences :: "string \<Rightarrow> string" where
  "md_fences = replace_all [Lit ''```'', Many (\<lambda>_. True) 0 False True, Lit ''```'']
     (\<lambda>_ cs. pre_open @ hd cs @ ''</code></pre>'')"

definition md_code :: "string \<Rightarrow> string" where
  "md_code = replace_all [Lit ''`'', Many (\<lambda>c. c \<noteq> CHR ''`'') 1 True True, Lit ''`'']
     (\<lambda>_ cs. code_open @ hd cs @ ''</code>'')"

definition md_bold :: "string \<Rightarrow> string" where
  "md_bold = replace_all [Lit ''**'', Many re_dot 1 False True, Lit ''**'']
     (\<lambda>_ cs. ''<strong>'' @ hd cs @ ''</strong>'')"

definition md_italic :: "string \<Rightarrow> string" where
  "md_italic = replace_all
     [NotBehind [''*''], Lit ''*'', NotAhead [''*''], Many re_dot 1 False True,
      NotBehind [''*''], Lit ''*'', NotAhead [''*'']]
     (\<lambda>_ cs. ''<em>'' @ hd cs @ ''</em>'')"

definition md_underline :: "string \<Rightarrow> string" where
  "md_underline = replace_all [Lit ''__'', Many re_dot 1 False True, Lit ''__'']
     (\<lambda>_ cs. ''<span class=\"underline\">'' @ hd cs @ ''</span>'')"

definition md_links :: "string \<Rightarrow> string" where
  "md_links = replace_all
     [Lit ''['', Many (\<lambda>c. c \<noteq> CHR '']'') 1 True True, Lit '']('', Many (\<lambda>c. c \<noteq> CHR '')'') 1 True True, Lit '')'']
     (\<lambda>_ cs. ''<a href=\"'' @ cs ! 1 @ link_close @ cs ! 0 @ ''</a>'')"

definition md_autolink :: "string \<Rightarrow> string" where
  "md_autolink = replace_all
     [NotBehind [''href=\"'', ''\">''], Lit ''http'', Opt (\<lambda>c. c = CHR ''s''), Lit ''://'',
      Many (\<lambda>c. \<not> re_space c \<and> c \<noteq> CHR ''<'') 1 True False]
     (\<lambda>m _. ''<a href=\"'' @ m @ link_close @ m @ ''</a>'')"

fun split_lines :: "string \<Rightarrow> string list" where
  "split_lines [] = [[]]"
| "split_lines (c # s) =
     (if c = newline then [] # split_lines s
      else case split_lines s of [] \<Rightarrow> [[c]] | l # ls \<Rightarrow> (c # l) # ls)"

fun join_lines :: "string list \<Rightarrow> string" where
  "join_lines [] = []"
| "join_lines [l] = l"
| "join_lines (l # ls) = l @ newline # join_lines ls"

record md_lists =
  in_ul :: bool
  in_ol :: bool
  processed :: "string list"

definition ul_open :: string where
  "ul_open = ''<ul class=\"list-disc pl-4 my-0.5\">''"

definition ol_open :: string where
  "ol_open = ''<ol class=\"list-decimal pl-4 my-0.5\">''"

definition ul_match :: "string \<Rightarrow> string list option" where
  "ul_match = rx_first [One (\<lambda>c. c = CHR ''-'' \<or> c = CHR ''*''), Many re_space 1 True False, Many re_dot 1 True True]"

definition ol_match :: "string \<Rightarrow> string list option" where
  "ol_match = rx_first [Many re_digit 1 True False, Lit ''.'', Many re_space 1 True False, Many re_dot 1 True True]"

definition md_item :: "string list \<Rightarrow> string" where
  "md_item cs = ''<li>'' @ hd cs @ ''</li>''"

definition md_line :: "string \<Rightarrow> md_lists \<Rightarrow> md_lists" where
  "md_line line s =
     (case ul_match line of
        Some cs \<Rightarrow>
          (let s1 = (if in_ul s then s else s\<lparr>processed := processed s @ [ul_open], in_ul := True\<rparr>)
           in s1\<lparr>processed := processed s1 @ [md_item cs]\<rparr>)
      | None \<Rightarrow>
          (case ol_match line of
             Some cs \<Rightarrow>
               (let s1 = (if in_ol s then s else s\<lparr>processed := processed s @ [ol_open], in_ol := True\<rparr>)
                in s1\<lparr>processed := processed s1 @ [md_item cs]\<rparr>)
           | None \<Rightarrow>
               (let s1 = (if in_ul s then s\<lparr>processed := processed s @ [''</ul>''], in_ul := False\<rparr> else s);
                    s2 = (if in_ol s1 then s1\<lparr>processed := processed s1 @ [''</ol>''], in_ol := False\<rparr> else s1)
                in s2\<lparr>processed := processed s2 @ [line]\<rparr>)))"

definition md_lines :: "string list \<Rightarrow> string list" where
  "md_lines ls =
     (let s = fold md_line ls \<lparr>in_ul = False, in_ol = False, processed = []\<rparr>
      in processed s @ (if in_ul s then [''</ul>''] else []) @ (if in_ol s then [''</ol>''] else []))"

definition md_breaks :: "string \<Rightarrow> string" where
  "md_breaks = replace_all [Lit [newline]] (\<lambda>_ _. ''<br>'')"

definition md_inline :: "string \<Rightarrow> string" where
  "md_inline s = md_autolink (md_links (md_underline (md_italic (md_bold (md_code (md_fences (md_escape s)))))))"

definition md_html :: "string \<Rightarrow> string" where
  "md_html s = md_breaks (join_lines (md_lines (split_lines (md_inline s))))"

definition render_markdown :: "(string \<Rightarrow> string) \<Rightarrow> string \<Rightarrow> string" where
  "render_markdown sanitize s = sanitize (md_html s)"

section \<open>Escaping\<close>

definition md_esc :: "char \<Rightarrow> string" where
  "md_esc c = (if c = CHR ''&'' then ''&amp;'' else if c = CHR ''<'' then ''&lt;''
     else if c = CHR ''>'' then ''&gt;'' else [c])"

lemma md_escape_map: "md_escape s = concat (map md_esc s)"
  unfolding md_escape_def replace_char by (induction s) (auto simp: md_esc_def)

lemma md_escape_simps [simp]:
  "md_escape [] = []" "md_escape (c # s) = md_esc c @ md_escape s"
  by (simp_all add: md_escape_map)

lemma md_escape_no_lt: "CHR ''<'' \<notin> set (md_escape s)" "CHR ''>'' \<notin> set (md_escape s)"
  by (induction s) (auto simp: md_esc_def)

text \<open>Reading the three entities back.\<close>

fun md_unescape :: "string \<Rightarrow> string" where
  "md_unescape [] = []"
| "md_unescape (c # s) =
     (if c = CHR ''&'' \<and> take 4 s = ''amp;'' then CHR ''&'' # md_unescape (drop 4 s)
      else if c = CHR ''&'' \<and> take 3 s = ''lt;'' then CHR ''<'' # md_unescape (drop 3 s)
      else if c = CHR ''&'' \<and> take 3 s = ''gt;'' then CHR ''>'' # md_unescape (drop 3 s)
      else c # md_unescape s)"

lemma md_unescape_escape: "md_unescape (md_escape s) = s"
  by (induction s) (auto simp: md_esc_def)

end
