(* ===== verification/MarkdownProps.thy ===== *)
theory MarkdownProps
  imports Markdown
begin

text \<open>
  What the HTML before the sanitizer looks like: the only tags in it are the renderer's own, the
  escape is the three-entity escape of each character, and list tags are paired.
\<close>

section \<open>Tags\<close>

text \<open>What stands after \<open><\<close> in the strings of the renderer.\<close>

definition md_words :: "string list" where
  "md_words = [''pre '', ''code>'', ''code '', ''/code>'', ''/pre>'', ''strong>'', ''/strong>'', ''em>'', ''/em>'',
     ''span '', ''/span>'', ''a href='', ''/a>'', ''ul '', ''/ul>'', ''ol '', ''/ol>'', ''li>'', ''/li>'', ''br>'']"

fun tags_ok :: "string \<Rightarrow> bool" where
  "tags_ok [] = True"
| "tags_ok (c # s) = ((c = CHR ''<'' \<longrightarrow> (\<exists>w \<in> set md_words. prefix w s)) \<and> tags_ok s)"

definition md_tails :: "string list" where
  "md_tails = concat (map suffixes md_words)"

definition md_char :: "char \<Rightarrow> bool" where
  "md_char c \<longleftrightarrow> c \<in> set (concat md_words)"

lemma md_words_tails: "w \<in> set md_words \<Longrightarrow> w \<in> set md_tails"
  by (auto simp: md_tails_def)

lemma md_tails_tl: "c # w \<in> set md_tails \<Longrightarrow> w \<in> set md_tails"
  by (auto simp: md_tails_def dest: suffix_ConsD2 intro: suffix_ConsD)

lemma md_tails_char: "w \<in> set md_tails \<Longrightarrow> c \<in> set w \<Longrightarrow> md_char c"
  by (fastforce simp: md_tails_def md_char_def dest: set_mono_suffix)

lemma md_tails_start: "w \<in> set md_tails \<Longrightarrow> prefix w (c # x) \<Longrightarrow> \<not> md_char c \<Longrightarrow> w = []"
  using md_tails_char [of w c] by (cases w) auto

lemma md_tails_http: "w \<in> set md_tails \<Longrightarrow> prefix w (CHR ''h'' # CHR ''t'' # x) \<Longrightarrow> w = []"
proof -
  have "list_all (\<lambda>w. w = [] \<or> hd w \<noteq> CHR ''h'' \<or> (tl w \<noteq> [] \<and> hd (tl w) \<noteq> CHR ''t'')) md_tails"
    unfolding md_tails_def md_words_def by simp
  moreover assume "w \<in> set md_tails" "prefix w (CHR ''h'' # CHR ''t'' # x)"
  ultimately show ?thesis by (auto simp: list_all_iff prefix_Cons)
qed

lemma prefix_cut: "prefix w (a @ d # b) \<Longrightarrow> d \<notin> set w \<Longrightarrow> prefix w a"
  by (auto simp: prefix_append prefix_Cons)

lemma md_word_cut: "w \<in> set md_words \<Longrightarrow> \<not> md_char d \<Longrightarrow> prefix w (a @ d # b) \<Longrightarrow> prefix w a"
  using prefix_cut [of w a d b] md_tails_char md_words_tails by blast

lemma tags_ok_append [intro]: "tags_ok a \<Longrightarrow> tags_ok b \<Longrightarrow> tags_ok (a @ b)"
  by (induction a) (auto intro: prefix_prefix)

lemma tags_ok_suffix: "tags_ok (a @ b) \<Longrightarrow> tags_ok b"
  by (induction a) auto

lemma tags_ok_cut: "tags_ok (a @ d # b) \<Longrightarrow> \<not> md_char d \<Longrightarrow> tags_ok a"
  by (induction a) (auto intro: md_word_cut)

lemma tags_ok_no_lt: "CHR ''<'' \<notin> set s \<Longrightarrow> tags_ok s"
  by (induction s) auto

section \<open>Every stage keeps it\<close>

lemma tags_replace:
  assumes k: "consuming xs"
    and start: "\<And>m cs w q. rx_shape xs m cs \<Longrightarrow> w \<in> set md_tails \<Longrightarrow> prefix w (m @ q) \<Longrightarrow> w = []"
    and body: "\<And>m cs q. rx_shape xs m cs \<Longrightarrow> tags_ok (m @ q) \<Longrightarrow> tags_ok (f m cs)"
    and s: "tags_ok s"
  shows "tags_ok (replace_all xs f s)"
proof -
  have "tags_ok s \<longrightarrow> tags_ok (rx_replace xs f b s) \<and>
      (\<forall>w \<in> set md_tails. prefix w s \<longrightarrow> prefix w (rx_replace xs f b s))" for b
    using k
  proof (induction rule: rx_replace_induct)
    case (Skip d q b)
    have "prefix w (d # rx_replace xs f (d # b) q)"
      if "tags_ok (d # q)" "w \<in> set md_tails" "prefix w (d # q)" for w
    proof (cases w)
      case (Cons e v)
      with that md_tails_tl have "e = d" "v \<in> set md_tails" "prefix v q" "tags_ok q" by auto
      with Skip Cons show ?thesis by simp
    qed simp
    moreover have "tags_ok (d # rx_replace xs f (d # b) q)" if "tags_ok (d # q)"
    proof -
      have "\<exists>w \<in> set md_words. prefix w (rx_replace xs f (d # b) q)" if "d = CHR ''<''"
        using \<open>tags_ok (d # q)\<close> that Skip md_words_tails by (simp del: set_concat) blast
      with Skip that show ?thesis by simp
    qed
    ultimately show ?case by blast
  next
    case (Match m q cs b')
    show ?case
    proof (intro impI conjI ballI)
      assume t: "tags_ok (m @ q)"
      then have "tags_ok (f m cs)" "tags_ok q" using body Match(2) tags_ok_suffix by blast+
      with Match(3) show "tags_ok (f m cs @ rx_replace xs f b' q)" by blast
      fix w assume "w \<in> set md_tails" "prefix w (m @ q)"
      then show "prefix w (f m cs @ rx_replace xs f b' q)" using start [OF Match(2), of w q] by simp
    qed
  qed simp
  with s show ?thesis by (simp add: replace_all_def)
qed

text \<open>A capture between delimiters that no tag contains.\<close>

lemma tags_capture: "tags_ok (a @ u @ d # b) \<Longrightarrow> \<not> md_char d \<Longrightarrow> tags_ok u"
  using tags_ok_suffix tags_ok_cut by blast

lemma md_delims [simp]:
  "\<not> md_char CHR ''`''" "\<not> md_char CHR ''*''" "\<not> md_char CHR ''_''" "\<not> md_char CHR ''[''"
  "\<not> md_char CHR '']''" "\<not> md_char CHR '')''" "\<not> md_char newline"
  by (simp_all add: md_char_def md_words_def newline_def)

lemma tags_literals:
  "list_all tags_ok [pre_open, ''</code></pre>'', code_open, ''</code>'', ''<strong>'', ''</strong>'', ''<em>'',
     ''</em>'', ''<span class=\"underline\">'', ''</span>'', ''<a href=\"'', link_close, ''</a>'', ul_open, ol_open,
     ''<li>'', ''</li>'', ''</ul>'', ''</ol>'', ''<br>'']"
  by code_simp

lemma tags_lits:
  "tags_ok pre_open"
  "tags_ok ''</code></pre>''"
  "tags_ok code_open"
  "tags_ok ''</code>''"
  "tags_ok ''<strong>''"
  "tags_ok ''</strong>''"
  "tags_ok ''<em>''"
  "tags_ok ''</em>''"
  "tags_ok ''<span class=\"underline\">''"
  "tags_ok ''</span>''"
  "tags_ok ''<a href=\"''"
  "tags_ok link_close"
  "tags_ok ''</a>''"
  "tags_ok ul_open"
  "tags_ok ol_open"
  "tags_ok ''<li>''"
  "tags_ok ''</li>''"
  "tags_ok ''</ul>''"
  "tags_ok ''</ol>''"
  "tags_ok ''<br>''"
  using tags_literals unfolding list.pred_inject by blast+

lemma tags_delimited:
  assumes shape: "\<And>m cs. rx_shape xs m cs \<Longrightarrow> \<exists>u. m = d # l @ u @ e # r \<and> cs = [u]"
    and d: "\<not> md_char d" "\<not> md_char e" and lit: "tags_ok a" "tags_ok z" and s: "tags_ok s"
  shows "tags_ok (replace_all xs (\<lambda>_ cs. a @ hd cs @ z) s)"
proof (rule tags_replace [OF _ _ _ s])
  show "consuming xs" using shape by (fastforce simp: consuming_def)
  fix m cs q assume "rx_shape xs m cs"
  from shape [OF this] obtain u where m: "m = d # l @ u @ e # r" "cs = [u]" by blast
  show "w = []" if "w \<in> set md_tails" "prefix w (m @ q)" for w
    using that md_tails_start [of w d] d(1) m(1) by simp
  show "tags_ok (a @ hd cs @ z)" if "tags_ok (m @ q)"
  proof -
    have "tags_ok u" using that tags_capture [of "d # l" u e "r @ q"] d(2) m(1) by simp
    with lit m(2) show ?thesis by auto
  qed
qed

lemma tags_anchor:
  assumes "tags_ok u" "tags_ok v"
  shows "tags_ok (''<a href=\"'' @ v @ link_close @ u @ ''</a>'')"
  by (rule tags_ok_append [OF tags_lits(11) tags_ok_append [OF assms(2)
        tags_ok_append [OF tags_lits(12) tags_ok_append [OF assms(1) tags_lits(13)]]]])

lemma tags_fences: "tags_ok s \<Longrightarrow> tags_ok (md_fences s)"
  unfolding md_fences_def
  by (rule tags_delimited [where d = "CHR ''`''" and e = "CHR ''`''" and l = "''``''" and r = "''``''"])
    (auto intro: tags_lits simp del: tags_ok.simps)

lemma tags_code: "tags_ok s \<Longrightarrow> tags_ok (md_code s)"
  unfolding md_code_def
  by (rule tags_delimited [where d = "CHR ''`''" and e = "CHR ''`''" and l = "''''" and r = "''''"])
    (auto intro: tags_lits simp del: tags_ok.simps)

lemma tags_bold: "tags_ok s \<Longrightarrow> tags_ok (md_bold s)"
  unfolding md_bold_def
  by (rule tags_delimited [where d = "CHR ''*''" and e = "CHR ''*''" and l = "''*''" and r = "''*''"])
    (auto intro: tags_lits simp del: tags_ok.simps)

lemma tags_italic: "tags_ok s \<Longrightarrow> tags_ok (md_italic s)"
  unfolding md_italic_def
  by (rule tags_delimited [where d = "CHR ''*''" and e = "CHR ''*''" and l = "''''" and r = "''''"])
    (auto intro: tags_lits simp del: tags_ok.simps)

lemma tags_underline: "tags_ok s \<Longrightarrow> tags_ok (md_underline s)"
  unfolding md_underline_def
  by (rule tags_delimited [where d = "CHR ''_''" and e = "CHR ''_''" and l = "''_''" and r = "''_''"])
    (auto intro: tags_lits simp del: tags_ok.simps)

lemma tags_links: "tags_ok s \<Longrightarrow> tags_ok (md_links s)"
  unfolding md_links_def
proof (rule tags_replace)
  let ?xs = "[Lit ''['', Many (\<lambda>c. c \<noteq> CHR '']'') 1 True True, Lit '']('',
    Many (\<lambda>c. c \<noteq> CHR '')'') 1 True True, Lit '')'']"
  show "consuming ?xs" by (simp add: consuming_def)
  fix m cs q assume "rx_shape ?xs m cs"
  then obtain u v where m: "m = ''['' @ u @ CHR '']'' # ''('' @ v @ CHR '')'' # ''''" "cs = [u, v]" by auto
  show "w = []" if "w \<in> set md_tails" "prefix w (m @ q)" for w
    using that md_tails_start [of w "CHR ''[''"] m(1) by simp
  show "tags_ok (''<a href=\"'' @ cs ! 1 @ link_close @ cs ! 0 @ ''</a>'')" if t: "tags_ok (m @ q)"
  proof -
    have "tags_ok u" using t tags_capture [of "''[''" u "CHR '']''"] m(1) by simp
    moreover have "tags_ok v"
      using t tags_capture [of "''['' @ u @ CHR '']'' # ''(''" v "CHR '')''" q] m(1) by simp
    ultimately have "tags_ok (''<a href=\"'' @ v @ link_close @ u @ ''</a>'')" by (rule tags_anchor)
    then show ?thesis unfolding m(2) by (simp only: nth_Cons_0 nth_Cons_Suc One_nat_def)
  qed
qed

lemma tags_autolink: "tags_ok s \<Longrightarrow> tags_ok (md_autolink s)"
  unfolding md_autolink_def
proof (rule tags_replace)
  let ?xs = "[NotBehind [''href=\"'', ''\">''], Lit ''http'', Opt (\<lambda>c. c = CHR ''s''), Lit ''://'',
      Many (\<lambda>c. \<not> re_space c \<and> c \<noteq> CHR ''<'') 1 True False]"
  show "consuming ?xs" by (simp add: consuming_def)
  fix m cs q assume sh: "rx_shape ?xs m cs"
  then obtain x where m: "m = CHR ''h'' # CHR ''t'' # x" by auto
  show "w = []" if "w \<in> set md_tails" "prefix w (m @ q)" for w
    using that md_tails_http [of w "x @ q"] m by simp
  have "CHR ''<'' \<notin> set m"
    using sh unfolding rx_shape.simps by (elim exE conjE disjE) (simp; blast)+
  then have "tags_ok m" by (rule tags_ok_no_lt)
  from tags_anchor [OF this this] show "tags_ok (''<a href=\"'' @ m @ link_close @ m @ ''</a>'')" .
qed

lemma tags_breaks: "tags_ok s \<Longrightarrow> tags_ok (md_breaks s)"
  unfolding md_breaks_def
proof (rule tags_replace)
  show "consuming [Lit [newline]]" by (simp add: consuming_def)
  fix m cs q assume x: "rx_shape [Lit [newline]] m cs"
  then show "w = []" if "w \<in> set md_tails" "prefix w (m @ q)" for w
    using that md_tails_start [of w newline] by simp
  show "tags_ok ''<br>''" by (rule tags_lits)
qed

lemma tags_inline: "tags_ok (md_inline s)"
  unfolding md_inline_def
  by (intro tags_autolink tags_links tags_underline tags_italic tags_bold tags_code tags_fences
      tags_ok_no_lt md_escape_no_lt)

section \<open>Lists\<close>

lemma rx_match_greedy_end:
  "rx_match xs b r cs = Some (cs', b', r') \<Longrightarrow> xs \<noteq> [] \<Longrightarrow> last xs = Many p lo True capt \<Longrightarrow>
     r' = [] \<or> \<not> p (hd r')"
proof (induction xs b r cs arbitrary: cs' b' r' rule: rx_match.induct)
  case (2 w xs b r cs)
  then show ?case by (cases "xs = []") (auto split: if_splits)
next
  case (3 q xs b r cs)
  then show ?case by (cases "xs = []") (auto split: if_splits list.splits)
next
  case (4 q xs b r cs)
  then have ne: "xs \<noteq> []" "last xs = Many p lo True capt" by (auto split: if_splits)
  show ?case
  proof (cases r)
    case Nil
    with 4(1,5) ne show ?thesis by simp
  next
    case (Cons c r1)
    have "rx_match xs (c # b) r1 cs = Some (cs', b', r') \<and> q c \<or> rx_match xs b r cs = Some (cs', b', r')"
      using 4(5) Cons first_some_in [of "[rx_match xs (c # b) r1 cs, rx_match xs b r cs]"]
      by (force split: if_splits)
    then show ?thesis using 4(2) [OF Cons] 4(3,4) [OF Cons] ne by blast
  qed
next
  case (5 q lo' greedy capt' xs b r cs)
  let ?att = "\<lambda>n. rx_match xs (rev (take n r) @ b) (drop n r) (if capt' then cs @ [take n r] else cs)"
  from 5(2) have f: "first_some (map ?att (tries greedy lo' (length (takeWhile q r)))) = Some (cs', b', r')" by simp
  show ?case
  proof (cases "xs = []")
    case True
    with 5(4) have q: "q = p" "greedy" by auto
    let ?h = "length (takeWhile q r)"
    have "lo' \<le> ?h"
    proof (rule ccontr)
      assume "\<not> lo' \<le> ?h"
      then have "tries greedy lo' ?h = []" by (simp add: tries_def)
      with f show False by simp
    qed
    then have "tries greedy lo' ?h = ?h # rev [lo' ..< ?h]" using q(2) by (simp add: tries_def)
    with f True have "r' = drop ?h r" by auto
    then have "r' = dropWhile q r" by (simp add: dropWhile_eq_drop)
    then show ?thesis using q(1) hd_dropWhile [of q r] by auto
  next
    case False
    from first_some_in [OF f] obtain n where "n \<in> set (tries greedy lo' (length (takeWhile q r)))"
      "?att n = Some (cs', b', r')" by auto
    from 5(1) [OF this] False 5(4) show ?thesis by simp
  qed
qed (auto split: if_splits)

lemma split_lines_Cons: "\<exists>l ls. split_lines s = l # ls"
  by (induction s) (auto split: list.splits)

lemma tags_split:
  "tags_ok s \<Longrightarrow> split_lines s = l # ls \<Longrightarrow>
     (\<forall>x \<in> set (l # ls). tags_ok x) \<and> (\<forall>w \<in> set md_words. prefix w s \<longrightarrow> prefix w l)"
proof (induction s arbitrary: l ls)
  case (Cons c s)
  obtain k ks where k: "split_lines s = k # ks" using split_lines_Cons by blast
  from Cons.IH [OF _ k] Cons.prems(1) have t: "\<forall>x \<in> set (k # ks). tags_ok x"
    "\<forall>w \<in> set md_words. prefix w s \<longrightarrow> prefix w k" by auto
  show ?case
  proof (cases "c = newline")
    case True
    with Cons.prems(2) k have l: "l = []" "ls = k # ks" by auto
    have "prefix w [] " if "w \<in> set md_words" "prefix w (c # s)" for w
      using md_tails_start [of w c s] md_words_tails [OF that(1)] that(2) True by simp
    with l t show ?thesis by simp
  next
    case False
    with Cons.prems(2) k have l: "l = c # k" "ls = ks" by auto
    have "tags_ok (c # k)" using Cons.prems(1) t by auto
    moreover have "prefix w (c # k)" if w: "w \<in> set md_words" "prefix w (c # s)" for w
    proof -
      have "w \<noteq> []" using w(1) by (auto simp: md_words_def)
      then obtain v where v: "w = c # v" "prefix v s" using w(2) by (cases w) auto
      have "newline \<notin> set w" using md_tails_char [OF md_words_tails [OF w(1)]] md_delims(7) by blast
      moreover have "s = k \<or> (\<exists>b. s = k @ newline # b)" using k
      proof (induction s arbitrary: k ks)
        case (Cons d u)
        obtain j js where j: "split_lines u = j # js" using split_lines_Cons by blast
        from Cons.IH [OF j] Cons.prems j show ?case by (cases "d = newline") auto
      qed auto
      ultimately show ?thesis using v prefix_cut [of v k newline] by auto
    qed
    ultimately show ?thesis using l t by simp
  qed
qed (auto simp: prefix_def)

lemma rx_first_capture:
  assumes "rx_first (xs @ [Many re_dot 1 True True]) l = Some cs" "tags_ok l"
    and shape: "\<And>m cs. rx_shape (xs @ [Many re_dot 1 True True]) m cs \<Longrightarrow> \<exists>a u. m = a @ u \<and> cs = [u]"
  shows "tags_ok (hd cs)"
proof -
  from assms(1) obtain b' r' where r: "rx_match (xs @ [Many re_dot 1 True True]) [] l [] = Some (cs, b', r')"
    by (auto simp: rx_first_def)
  from rx_match_shape [OF r] obtain m where m: "l = m @ r'" "rx_shape (xs @ [Many re_dot 1 True True]) m cs" by auto
  from shape [OF m(2)] obtain a u where u: "m = a @ u" "cs = [u]" by blast
  from rx_match_greedy_end [OF r, of re_dot 1 True] have "r' = [] \<or> \<not> re_dot (hd r')" by simp
  moreover have "\<not> md_char c" if "\<not> re_dot c" for c
  proof -
    have "list_all re_dot (concat md_words)" by code_simp
    with that show ?thesis by (auto simp: md_char_def list_all_iff)
  qed
  moreover have "tags_ok (u @ r')" using assms(2) m(1) u(1) tags_ok_suffix [of a] by simp
  ultimately have "tags_ok u" using tags_ok_cut [of u "hd r'" "tl r'"] by (cases r') auto
  with u(2) show ?thesis by simp
qed

lemma ul_capture: "ul_match l = Some cs \<Longrightarrow> tags_ok l \<Longrightarrow> tags_ok (hd cs)"
proof (rule rx_first_capture)
  let ?xs = "[One (\<lambda>c. c = CHR ''-'' \<or> c = CHR ''*''), Many re_space 1 True False]"
  assume "ul_match l = Some cs"
  then show "rx_first (?xs @ [Many re_dot 1 True True]) l = Some cs" by (simp add: ul_match_def)
  fix m ds assume "rx_shape (?xs @ [Many re_dot 1 True True]) m ds"
  then obtain c v u where "m = (c # v) @ u" "ds = [u]" by auto
  then show "\<exists>a u. m = a @ u \<and> ds = [u]" by blast
qed

lemma ol_capture: "ol_match l = Some cs \<Longrightarrow> tags_ok l \<Longrightarrow> tags_ok (hd cs)"
proof (rule rx_first_capture)
  let ?xs = "[Many re_digit 1 True False, Lit ''.'', Many re_space 1 True False]"
  assume "ol_match l = Some cs"
  then show "rx_first (?xs @ [Many re_dot 1 True True]) l = Some cs" by (simp add: ol_match_def)
  fix m ds assume "rx_shape (?xs @ [Many re_dot 1 True True]) m ds"
  then obtain d v u where "m = (d @ ''.'' @ v) @ u" "ds = [u]" by auto
  then show "\<exists>a u. m = a @ u \<and> ds = [u]" by blast
qed

lemma tags_item: "tags_ok (hd cs) \<Longrightarrow> tags_ok (md_item cs)"
  unfolding md_item_def by (rule tags_ok_append [OF tags_lits(16) tags_ok_append [OF _ tags_lits(17)]])

lemma tags_line:
  assumes "tags_ok l" "\<forall>x \<in> set (processed s). tags_ok x"
  shows "\<forall>x \<in> set (processed (md_line l s)). tags_ok x"
proof -
  have ul: "tags_ok (md_item cs)" if "ul_match l = Some cs" for cs
    using tags_item [OF ul_capture [OF that assms(1)]] .
  have ol: "tags_ok (md_item cs)" if "ol_match l = Some cs" for cs
    using tags_item [OF ol_capture [OF that assms(1)]] .
  have lit: "tags_ok ul_open" "tags_ok ol_open" "tags_ok ''</ul>''" "tags_ok ''</ol>''" by (rule tags_lits)+
  show ?thesis
  proof (cases "ul_match l")
    case None
    show ?thesis
    proof (cases "ol_match l")
      case None2: None
      show ?thesis using None None2 assms lit by (simp add: md_line_def Let_def del: tags_ok.simps)
    next
      case (Some cs)
      show ?thesis using None Some assms(2) lit(2) ol [OF Some] by (simp add: md_line_def Let_def del: tags_ok.simps)
    qed
  next
    case (Some cs)
    show ?thesis using Some assms(2) lit(1) ul [OF Some] by (simp add: md_line_def Let_def del: tags_ok.simps)
  qed
qed

lemma tags_lines:
  assumes "\<forall>l \<in> set ls. tags_ok l"
  shows "\<forall>x \<in> set (md_lines ls). tags_ok x"
proof -
  have "\<forall>x \<in> set (processed s). tags_ok x \<Longrightarrow> \<forall>x \<in> set (processed (fold md_line ls s)). tags_ok x" for s
    using assms
  proof (induction ls arbitrary: s)
    case (Cons l ls)
    from Cons.prems(2) have l: "tags_ok l" "\<forall>x \<in> set ls. tags_ok x" by simp_all
    from Cons.IH [OF tags_line [OF l(1) Cons.prems(1)] l(2)] show ?case by simp
  qed simp
  from this [of "\<lparr>in_ul = False, in_ol = False, processed = []\<rparr>"]
  have f: "\<forall>x \<in> set (processed (fold md_line ls \<lparr>in_ul = False, in_ol = False, processed = []\<rparr>)). tags_ok x" by simp
  have lit: "tags_ok ''</ul>''" "tags_ok ''</ol>''" by (rule tags_lits)+
  show ?thesis using f lit by (simp add: md_lines_def Let_def del: tags_ok.simps) blast
qed

lemma tags_join: "\<forall>l \<in> set ls. tags_ok l \<Longrightarrow> tags_ok (join_lines ls)"
proof (induction ls rule: join_lines.induct)
  case (3 l k ks)
  then have "tags_ok (newline # join_lines (k # ks))" by (simp add: newline_def)
  with 3(2) show ?case by (simp del: tags_ok.simps) (rule tags_ok_append; simp)
qed simp_all

text \<open>C5. In the HTML that a message is turned into, before the sanitizer sees it, every \<open><\<close> begins one
  of the renderer's own tags: no text of a message, however nested its markup, opens another.\<close>

theorem only_own_tags:
  "CHR ''<'' # t = drop n (md_html s) \<Longrightarrow> \<exists>w \<in> set md_words. prefix w t"
proof -
  obtain l ls where l: "split_lines (md_inline s) = l # ls" using split_lines_Cons by blast
  have "tags_ok (md_html s)"
    unfolding md_html_def using tags_split [OF tags_inline l] l by (intro tags_breaks tags_join tags_lines) simp
  then have "tags_ok (drop n (md_html s))" using tags_ok_suffix [of "take n (md_html s)"] by simp
  moreover assume "CHR ''<'' # t = drop n (md_html s)"
  ultimately show ?thesis by (metis tags_ok.simps(2))
qed

theorem only_own_tags_witness:
  "prefix ''strong>'' ''strong>a</strong> &lt;script&gt;'' \<and>
   md_html ''**a** <script>'' = ''<strong>a</strong> &lt;script&gt;''"
proof -
  have e: "md_html ''**a** <script>'' = ''<strong>a</strong> &lt;script&gt;''" by code_simp
  then have "CHR ''<'' # ''strong>a</strong> &lt;script&gt;'' = drop 0 (md_html ''**a** <script>'')" by simp
  from only_own_tags [OF this] e show ?thesis by (auto simp: md_words_def)
qed

section \<open>Nesting of lists\<close>

fun nests :: "string list \<Rightarrow> string list \<Rightarrow> string list option" where
  "nests st [] = Some st"
| "nests st (x # xs) =
     (if x = ul_open then nests (''</ul>'' # st) xs
      else if x = ol_open then nests (''</ol>'' # st) xs
      else if x = ''</ul>'' \<or> x = ''</ol>''
      then (case st of [] \<Rightarrow> None | y # ys \<Rightarrow> if x = y then nests ys xs else None)
      else nests st xs)"

lemma nests_append: "nests st (xs @ ys) = (case nests st xs of None \<Rightarrow> None | Some t \<Rightarrow> nests t ys)"
  by (induction st xs rule: nests.induct) (auto split: list.split)

datatype line_kind = Bullet | Numbered | Plain

definition line_kind :: "string \<Rightarrow> line_kind" where
  "line_kind l = (if ul_match l \<noteq> None then Bullet else if ol_match l \<noteq> None then Numbered else Plain)"

text \<open>No bulleted line stands right before or after a numbered one.\<close>

fun unmixed :: "line_kind \<Rightarrow> string list \<Rightarrow> bool" where
  "unmixed k [] = True"
| "unmixed k (l # ls) =
     (\<not> (k = Bullet \<and> line_kind l = Numbered) \<and> \<not> (k = Numbered \<and> line_kind l = Bullet) \<and> unmixed (line_kind l) ls)"

definition list_tag :: "string \<Rightarrow> bool" where
  "list_tag x \<longleftrightarrow> x \<in> {ul_open, ol_open, ''</ul>'', ''</ol>''}"

lemma md_item_no_tag: "md_item cs \<noteq> ul_open" "md_item cs \<noteq> ol_open" "md_item cs \<noteq> ''</ul>''" "md_item cs \<noteq> ''</ol>''"
  by (simp_all add: md_item_def ul_open_def ol_open_def)

lemma list_tags_differ:
  "ul_open \<noteq> ol_open" "ul_open \<noteq> ''</ul>''" "ul_open \<noteq> ''</ol>''" "ol_open \<noteq> ''</ul>''" "ol_open \<noteq> ''</ol>''"
  "ol_open \<noteq> ul_open" "''</ul>'' \<noteq> ul_open" "''</ol>'' \<noteq> ul_open" "''</ul>'' \<noteq> ol_open" "''</ol>'' \<noteq> ol_open"
  by (simp_all add: ul_open_def ol_open_def)

definition open_lists :: "md_lists \<Rightarrow> string list" where
  "open_lists s = (if in_ul s then [''</ul>''] else []) @ (if in_ol s then [''</ol>''] else [])"

definition lists_ok :: "line_kind \<Rightarrow> md_lists \<Rightarrow> bool" where
  "lists_ok k s \<longleftrightarrow> in_ul s = (k = Bullet) \<and> in_ol s = (k = Numbered) \<and> nests [] (processed s) = Some (open_lists s)"

lemma lists_ok_line:
  assumes "lists_ok k s" "\<not> list_tag l" "unmixed k [l]"
  shows "lists_ok (line_kind l) (md_line l s)"
proof -
  have s: "in_ul s = (k = Bullet)" "in_ol s = (k = Numbered)" "nests [] (processed s) = Some (open_lists s)"
    using assms(1) by (simp_all add: lists_ok_def)
  note simps = lists_ok_def md_line_def line_kind_def open_lists_def nests_append md_item_no_tag list_tags_differ Let_def
  show ?thesis
  proof (cases "ul_match l")
    case (Some cs)
    with assms(3) s show ?thesis by (cases k) (simp_all add: simps)
  next
    case None
    show ?thesis
    proof (cases "ol_match l")
      case (Some cs)
      with None assms(3) s show ?thesis by (cases k) (simp_all add: simps)
    next
      case None2: None
      with None assms(2) s show ?thesis by (cases k) (auto simp: simps list_tag_def)
    qed
  qed
qed

lemma lists_ok_fold:
  "lists_ok k s \<Longrightarrow> unmixed k ls \<Longrightarrow> \<forall>l \<in> set ls. \<not> list_tag l \<Longrightarrow> \<exists>j. lists_ok j (fold md_line ls s)"
proof (induction ls arbitrary: k s)
  case (Cons l ls)
  then have "lists_ok (line_kind l) (md_line l s)" by (intro lists_ok_line) auto
  with Cons show ?case by simp
qed auto

text \<open>The list tags pair up and nest when no bulleted line touches a numbered one: each list is closed
  before another begins and none is left open at the end of the message.\<close>

theorem lists_are_nested:
  assumes "unmixed Plain ls" "\<forall>l \<in> set ls. \<not> list_tag l"
  shows "nests [] (md_lines ls) = Some []"
proof -
  let ?s = "fold md_line ls \<lparr>in_ul = False, in_ol = False, processed = []\<rparr>"
  have "lists_ok Plain \<lparr>in_ul = False, in_ol = False, processed = []\<rparr>" by (simp add: lists_ok_def open_lists_def)
  from lists_ok_fold [OF this assms] obtain j where j: "lists_ok j ?s" by blast
  define t where "t = ?s"
  have "lists_ok j t" using j by (simp add: t_def)
  then have "nests [] (processed t @ (if in_ul t then [''</ul>''] else []) @ (if in_ol t then [''</ol>''] else [])) = Some []"
    by (cases j) (simp_all add: lists_ok_def open_lists_def nests_append list_tags_differ)
  then show ?thesis by (simp add: md_lines_def Let_def t_def)
qed

theorem lists_are_nested_witness:
  "nests [] (md_lines [''- a'', ''- b'', ''c'', ''1. d'']) = Some [] \<and>
   length (md_lines [''- a'', ''- b'', ''c'', ''1. d'']) = 8"
proof -
  have "unmixed Plain [''- a'', ''- b'', ''c'', ''1. d'']"
    "\<forall>l \<in> set [''- a'', ''- b'', ''c'', ''1. d'']. \<not> list_tag l" by code_simp+
  from lists_are_nested [OF this] have "nests [] (md_lines [''- a'', ''- b'', ''c'', ''1. d'']) = Some []" .
  moreover have "length (md_lines [''- a'', ''- b'', ''c'', ''1. d'']) = 8" by code_simp
  ultimately show ?thesis by blast
qed

text \<open>
  A numbered line right after a bulleted one opens its list inside the open one and the two are
  closed in the wrong order.
\<close>

lemma mixed_lists_misnest:
  "md_lines [''- a'', ''1. b''] = [ul_open, ''<li>a</li>'', ol_open, ''<li>b</li>'', ''</ul>'', ''</ol>''] \<and>
   nests [] (md_lines [''- a'', ''1. b'']) = None"
  by code_simp

text \<open>Inline code is not protected from the later stages.\<close>

lemma code_is_formatted: "md_inline ''`**a**`'' = code_open @ ''<strong>a</strong></code>''"
  by code_simp

text \<open>A link to an address that contains another: the inner one is linked inside the attribute.\<close>

lemma archive_link_broken:
  "md_inline ''[a](https://b/https://c)'' =
     ''<a href=\"https://b/<a href=\"https://c\"'' @ link_close @ ''https://c\"</a>'' @ tl link_close @ ''a</a>''"
  by code_simp

section \<open>Escaping and the toolbar\<close>

text \<open>The three replacements are the escape of each character on its own, the escaped text contains no
  angle bracket, and reading the entities back gives the message.\<close>

theorem escape_reads_back:
  "md_escape s = concat (map md_esc s) \<and> CHR ''<'' \<notin> set (md_escape s) \<and> CHR ''>'' \<notin> set (md_escape s) \<and>
   md_unescape (md_escape s) = s"
  using md_escape_map md_escape_no_lt md_unescape_escape by auto

text \<open>An action keeps the text around the selection.\<close>

lemma markdown_keeps_rest:
  "from \<le> to \<Longrightarrow> to \<le> length v \<Longrightarrow>
     take from (apply_markdown a from to v) = take from v \<and>
     drop (from + length (md_insert a from to v)) (apply_markdown a from to v) = drop to v"
  by (auto simp: apply_markdown_def min_def)

text \<open>
  Without a selection the placeholder is selected afterwards, so that typing replaces it; but a list
  action at the very start of a text that is not empty selects one character too far, because the
  cursor code tests the whole value where the insertion tests what is before the cursor.
\<close>

lemma placeholder_selected:
  assumes "from \<le> length v" "0 < from \<or> v = [] \<or> \<not> md_block a"
    and c: "md_cursor a from from v = (p, q)"
  shows "take (q - p) (drop p (apply_markdown a from from v)) = md_placeholder a"
proof -
  have sel: "md_selected from from v = []" by (simp add: md_selected_def)
  define nl where "nl \<longleftrightarrow> md_block a \<and> take from v \<noteq> [] \<and> \<not> ends_line (take from v)"
  have "(md_block a \<and> v \<noteq> [] \<and> \<not> ends_line (take from v)) = nl" using assms(1,2) by (auto simp: nl_def)
  then have pq: "p = from + (if nl then 1 else 0) + length (md_prefix a)" "q = p + length (md_placeholder a)"
    using c sel by (auto simp: md_cursor_def Let_def)
  have "apply_markdown a from from v = (take from v @ (if nl then [newline] else []) @ md_prefix a) @
      md_placeholder a @ md_suffix a @ drop from v"
    using sel by (simp add: apply_markdown_def md_insert_def Let_def nl_def)
  moreover have "p = length (take from v @ (if nl then [newline] else []) @ md_prefix a)" using pq(1) assms(1) by simp
  ultimately show ?thesis using pq(2) by (simp only: append_eq_conv_conj) simp
qed

lemma placeholder_late_at_start:
  "apply_markdown (the (map_of md_actions ''unorderedList'')) 0 0 ''x'' = ''- list itemx'' \<and>
   md_cursor (the (map_of md_actions ''unorderedList'')) 0 0 ''x'' = (3, 12)"
  by code_simp

end
