(* ===== verification/Uploads.thy ===== *)
theory Uploads
  imports Snowflake
begin

text \<open>
  \<open>useAttachmentUpload\<close> of \<open>frontend/hooks/use-attachment-upload.ts\<close>: the files added to a message,
  their uploads in flight, and the object URLs of their previews. The upload itself is the SDK's
  (\<open>ChatApi\<close>); here its progress, result and failure are inputs.
\<close>

section \<open>State\<close>

record js_file =
  file_name :: string
  file_type :: string

record pending_upload =
  up_id :: string
  up_file :: js_file
  up_preview :: nat
  up_progress :: "int option"
  up_attachment :: "json option"
  up_error :: "string option"

record uploads =
  us_list :: "pending_upload list"
  us_next :: nat
  us_urls :: "nat set" \<comment> \<open>object URLs that are not revoked\<close>
  us_running :: "string set" \<comment> \<open>upload promises that are pending\<close>
  us_aborted :: "string set"

definition new_uploads :: uploads where
  "new_uploads = \<lparr>us_list = [], us_next = 0, us_urls = {}, us_running = {}, us_aborted = {}\<rparr>"

definition local_id :: "nat \<Rightarrow> string" where
  "local_id n = ''upload-'' @ show_nat n"

section \<open>Operations\<close>

definition update_upload :: "string \<Rightarrow> (pending_upload \<Rightarrow> pending_upload) \<Rightarrow> uploads \<Rightarrow> uploads" where
  "update_upload i f s = s\<lparr>us_list := map (\<lambda>u. if up_id u = i then f u else u) (us_list s)\<rparr>"

text \<open>Each file gets a new object URL; \<open>us_next\<close> names it.\<close>

definition add_file :: "js_file \<Rightarrow> uploads \<Rightarrow> uploads" where
  "add_file f s =
     s\<lparr>us_list := us_list s @
         [\<lparr>up_id = local_id (us_next s), up_file = f, up_preview = us_next s, up_progress = Some 0,
           up_attachment = None, up_error = None\<rparr>],
       us_next := Suc (us_next s), us_urls := insert (us_next s) (us_urls s),
       us_running := insert (local_id (us_next s)) (us_running s)\<rparr>"

definition add_files :: "bool \<Rightarrow> js_file list \<Rightarrow> uploads \<Rightarrow> uploads" where
  "add_files client fs s = (if client then fold add_file fs s else s)"

definition on_progress :: "string \<Rightarrow> int \<Rightarrow> uploads \<Rightarrow> uploads" where
  "on_progress i p s =
     (if i \<in> us_running s then update_upload i (\<lambda>u. u\<lparr>up_progress := Some p\<rparr>) s else s)"

definition upload_done :: "string \<Rightarrow> json \<Rightarrow> uploads \<Rightarrow> uploads" where
  "upload_done i a s =
     (if i \<in> us_running s
      then update_upload i (\<lambda>u. u\<lparr>up_attachment := Some a, up_progress := Some 100\<rparr>)
             (s\<lparr>us_running := us_running s - {i}\<rparr>)
      else s)"

definition CANCELLED :: string where
  "CANCELLED = ''Upload cancelled''"

definition upload_failed :: "string \<Rightarrow> string option \<Rightarrow> uploads \<Rightarrow> uploads" where
  "upload_failed i msg s =
     (if i \<notin> us_running s then s
      else
        (let s1 = s\<lparr>us_running := us_running s - {i}\<rparr> in
         if msg = Some CANCELLED then s1
         else update_upload i
           (\<lambda>u. u\<lparr>up_error := Some (case msg of Some m \<Rightarrow> m | None \<Rightarrow> ''Upload failed''), up_progress := None\<rparr>) s1))"

definition drop_upload :: "string \<Rightarrow> uploads \<Rightarrow> uploads" where
  "drop_upload i s =
     s\<lparr>us_list := filter (\<lambda>u. up_id u \<noteq> i) (us_list s),
       us_urls := us_urls s - {up_preview u |u. u \<in> set (us_list s) \<and> up_id u = i}\<rparr>"

text \<open>The cancel button of a listed upload.\<close>

definition abort_upload :: "string \<Rightarrow> uploads \<Rightarrow> uploads" where
  "abort_upload i s =
     (if \<exists>u \<in> set (us_list s). up_id u = i
      then drop_upload i (s\<lparr>us_aborted := insert i (us_aborted s)\<rparr>) else s)"

definition remove_upload :: "string \<Rightarrow> uploads \<Rightarrow> uploads" where
  "remove_upload i s =
     (case find (\<lambda>u. up_id u = i) (us_list s) of
        None \<Rightarrow> s
      | Some u \<Rightarrow>
          s\<lparr>us_list := filter (\<lambda>u. up_id u \<noteq> i) (us_list s), us_urls := us_urls s - {up_preview u}\<rparr>)"

definition clear_all :: "uploads \<Rightarrow> uploads" where
  "clear_all s = s\<lparr>us_list := [], us_urls := us_urls s - set (map up_preview (us_list s))\<rparr>"

definition ready_attachments :: "uploads \<Rightarrow> json list" where
  "ready_attachments s = List.map_filter up_attachment (us_list s)"

definition has_in_flight :: "uploads \<Rightarrow> bool" where
  "has_in_flight s \<longleftrightarrow> (\<exists>u \<in> set (us_list s). up_attachment u = None \<and> up_error u = None)"

datatype uploading_input =
    UAdd bool "js_file list"
  | UProgress string int
  | UDone string json
  | UFailed string "string option"
  | UAbort string
  | URemove string
  | UClear

fun uploading_step :: "uploading_input \<Rightarrow> uploads \<Rightarrow> uploads" where
  "uploading_step (UAdd c fs) s = add_files c fs s"
| "uploading_step (UProgress i p) s = on_progress i p s"
| "uploading_step (UDone i a) s = upload_done i a s"
| "uploading_step (UFailed i m) s = upload_failed i m s"
| "uploading_step (UAbort i) s = abort_upload i s"
| "uploading_step (URemove i) s = remove_upload i s"
| "uploading_step UClear s = clear_all s"

section \<open>Well-formed uploads\<close>

text \<open>The SDK fails an upload as cancelled only after its abort.\<close>

fun uploading_ok :: "uploading_input \<Rightarrow> uploads \<Rightarrow> bool" where
  "uploading_ok (UFailed i m) s = (m = Some CANCELLED \<longrightarrow> i \<in> us_aborted s)"
| "uploading_ok _ s = True"

datatype upload_status = Running | Done json | Failed string

text \<open>What a record says; \<open>None\<close> when its fields contradict each other.\<close>

definition upload_status :: "pending_upload \<Rightarrow> upload_status option" where
  "upload_status u =
     (case (up_attachment u, up_error u, up_progress u) of
        (None, None, Some _) \<Rightarrow> Some Running
      | (Some a, None, Some p) \<Rightarrow> if p = 100 then Some (Done a) else None
      | (None, Some e, None) \<Rightarrow> Some (Failed e)
      | _ \<Rightarrow> None)"

definition uploads_inv :: "uploads \<Rightarrow> bool" where
  "uploads_inv s \<longleftrightarrow>
     distinct (map up_id (us_list s)) \<and> sorted_wrt (<) (map up_preview (us_list s)) \<and>
     (\<forall>u \<in> set (us_list s). up_preview u < us_next s \<and> up_id u = local_id (up_preview u) \<and>
        upload_status u \<noteq> None \<and> (upload_status u = Some Running \<longleftrightarrow> up_id u \<in> us_running s) \<and>
        up_id u \<notin> us_aborted s) \<and>
     us_urls s = set (map up_preview (us_list s)) \<and>
     (\<forall>i \<in> us_running s \<union> us_aborted s. \<exists>n < us_next s. i = local_id n)"

lemma local_id_inj [simp]: "local_id m = local_id n \<longleftrightarrow> m = n"
proof
  assume "local_id m = local_id n"
  then have "id_val (show_int (int m)) = id_val (show_int (int n))" by (simp add: local_id_def show_int_def)
  then show "m = n" by simp
qed simp

lemma map_id_update [simp]:
  assumes "\<And>u. up_id (f u) = up_id u"
  shows "map up_id (map (\<lambda>u. if up_id u = i then f u else u) us) = map up_id us"
  using assms by (induction us) auto

lemma status_running: "upload_status u = Some Running \<longleftrightarrow>
    up_attachment u = None \<and> up_error u = None \<and> up_progress u \<noteq> None"
  by (auto simp: upload_status_def split: option.splits if_splits)

lemma status_done: "upload_status u = Some (Done a) \<longleftrightarrow>
    up_attachment u = Some a \<and> up_error u = None \<and> up_progress u = Some 100"
  by (auto simp: upload_status_def split: option.splits if_splits)

lemma status_failed: "upload_status u = Some (Failed e) \<longleftrightarrow>
    up_attachment u = None \<and> up_error u = Some e \<and> up_progress u = None"
  by (auto simp: upload_status_def split: option.splits if_splits)

lemma map_preview_update:
  assumes "\<And>u. up_preview (f u) = up_preview u"
  shows "map up_preview (map (\<lambda>u. if up_id u = i then f u else u) us) = map up_preview us"
  using assms by (induction us) auto

lemma uploads_inv_new: "uploads_inv new_uploads"
  by (simp add: uploads_inv_def new_uploads_def)

lemma uploads_inv_add:
  assumes i: "uploads_inv s"
  shows "uploads_inv (add_file f s)"
proof -
  let ?u = "\<lparr>up_id = local_id (us_next s), up_file = f, up_preview = us_next s, up_progress = Some 0,
    up_attachment = None, up_error = None\<rparr>"
  have new: "local_id (us_next s) \<notin> us_running s \<union> us_aborted s"
  proof
    assume "local_id (us_next s) \<in> us_running s \<union> us_aborted s"
    with i obtain n where "n < us_next s" "local_id (us_next s) = local_id n" unfolding uploads_inv_def by blast
    then show False by simp
  qed
  have u: "upload_status ?u = Some Running" by (simp add: status_running)
  from i have old: "\<forall>v \<in> set (us_list s). up_preview v < us_next s \<and> up_id v = local_id (up_preview v)"
    by (auto simp: uploads_inv_def)
  show ?thesis
    using i new u old unfolding uploads_inv_def add_file_def
    by (auto simp: sorted_wrt_append less_Suc_eq)
qed

lemma uploads_inv_add_files: "uploads_inv s \<Longrightarrow> uploads_inv (add_files c fs s)"
  unfolding add_files_def by (induction fs arbitrary: s) (auto simp: uploads_inv_add split: if_splits)

text \<open>An update of one record, with its promise settled or not.\<close>

lemma uploads_inv_update:
  assumes i: "uploads_inv s"
    and f: "\<And>u. up_id (f u) = up_id u" "\<And>u. up_preview (f u) = up_preview u"
    and st: "\<And>u. upload_status u = Some Running \<Longrightarrow>
      upload_status (f u) \<noteq> None \<and> (upload_status (f u) = Some Running \<longleftrightarrow> k \<in> r)"
    and r: "k \<in> us_running s" "r = us_running s \<or> r = us_running s - {k}"
  shows "uploads_inv (update_upload k f (s\<lparr>us_running := r\<rparr>))"
proof -
  let ?g = "\<lambda>u. if up_id u = k then f u else u"
  have m: "map up_id (map ?g (us_list s)) = map up_id (us_list s)"
    "map up_preview (map ?g (us_list s)) = map up_preview (us_list s)"
    using f by (simp_all add: map_preview_update del: map_map)
  have run: "upload_status u = Some Running" if "u \<in> set (us_list s)" "up_id u = k" for u
    using i that r(1) by (auto simp: uploads_inv_def)
  have "\<forall>u \<in> set (map ?g (us_list s)). up_preview u < us_next s \<and> up_id u = local_id (up_preview u) \<and>
      upload_status u \<noteq> None \<and> (upload_status u = Some Running \<longleftrightarrow> up_id u \<in> r) \<and> up_id u \<notin> us_aborted s"
  proof
    fix v assume "v \<in> set (map ?g (us_list s))"
    then obtain u where u: "u \<in> set (us_list s)" "v = ?g u" by auto
    with i have b: "up_preview u < us_next s" "up_id u = local_id (up_preview u)" "upload_status u \<noteq> None"
      "upload_status u = Some Running \<longleftrightarrow> up_id u \<in> us_running s" "up_id u \<notin> us_aborted s"
      by (auto simp: uploads_inv_def)
    show "up_preview v < us_next s \<and> up_id v = local_id (up_preview v) \<and> upload_status v \<noteq> None \<and>
        (upload_status v = Some Running \<longleftrightarrow> up_id v \<in> r) \<and> up_id v \<notin> us_aborted s"
    proof (cases "up_id u = k")
      case True
      with st [OF run [OF u(1)]] b f u(2) show ?thesis by simp
    next
      case False
      with b r(2) u(2) show ?thesis by auto
    qed
  qed
  moreover have "\<forall>i \<in> r \<union> us_aborted s. \<exists>n < us_next s. i = local_id n"
    using i r(2) by (auto simp: uploads_inv_def)
  moreover have "us_urls s = set (map up_preview (us_list s))" "distinct (map up_id (us_list s))"
    "sorted_wrt (<) (map up_preview (us_list s))" using i by (simp_all add: uploads_inv_def)
  moreover have e: "us_list (update_upload k f (s\<lparr>us_running := r\<rparr>)) = map ?g (us_list s)"
    "us_next (update_upload k f (s\<lparr>us_running := r\<rparr>)) = us_next s"
    "us_urls (update_upload k f (s\<lparr>us_running := r\<rparr>)) = us_urls s"
    "us_running (update_upload k f (s\<lparr>us_running := r\<rparr>)) = r"
    "us_aborted (update_upload k f (s\<lparr>us_running := r\<rparr>)) = us_aborted s" by (simp_all add: update_upload_def)
  ultimately show ?thesis unfolding uploads_inv_def e m by blast
qed

lemma uploads_inv_drop:
  assumes i: "uploads_inv s" and d: "d = {up_preview u |u. u \<in> set (us_list s) \<and> up_id u = k}"
    and a: "a = us_aborted s \<or> a = insert k (us_aborted s) \<and> (\<exists>u \<in> set (us_list s). up_id u = k)"
  shows "uploads_inv (s\<lparr>us_aborted := a, us_list := filter (\<lambda>u. up_id u \<noteq> k) (us_list s), us_urls := us_urls s - d\<rparr>)"
proof -
  have "distinct (map up_id (filter P (us_list s)))" for P
    using i by (simp add: uploads_inv_def distinct_map_filter)
  moreover have "sorted_wrt (<) (map up_preview (filter P (us_list s)))" for P
    using i by (simp add: uploads_inv_def sorted_wrt_map sorted_wrt_filter)
  moreover have "set (map up_preview (us_list s)) - d = set (map up_preview (filter (\<lambda>u. up_id u \<noteq> k) (us_list s)))"
    using i by (auto simp: d uploads_inv_def)
  ultimately show ?thesis using i a unfolding uploads_inv_def by auto
qed

lemma uploads_inv_step: "uploads_inv s \<Longrightarrow> uploading_ok e s \<Longrightarrow> uploads_inv (uploading_step e s)"
proof (cases e)
  case (UAdd c fs)
  then show "uploads_inv s \<Longrightarrow> ?thesis" by (simp add: uploads_inv_add_files)
next
  case (UProgress i p)
  assume "uploads_inv s"
  moreover have "upload_status (u\<lparr>up_progress := Some p\<rparr>) = Some Running" if "upload_status u = Some Running" for u
    using that by (simp add: status_running)
  ultimately have "i \<in> us_running s \<Longrightarrow> uploads_inv (update_upload i (\<lambda>u. u\<lparr>up_progress := Some p\<rparr>) (s\<lparr>us_running := us_running s\<rparr>))"
    by (intro uploads_inv_update) simp_all
  with \<open>uploads_inv s\<close> UProgress show ?thesis by (simp add: on_progress_def)
next
  case (UDone i a)
  assume "uploads_inv s"
  let ?f = "\<lambda>u. u\<lparr>up_attachment := Some a, up_progress := Some 100\<rparr>"
  have "upload_status (?f u) = Some (Done a)" if "upload_status u = Some Running" for u
    using that by (simp add: status_running status_done)
  with \<open>uploads_inv s\<close>
  have "i \<in> us_running s \<Longrightarrow> uploads_inv (update_upload i ?f (s\<lparr>us_running := us_running s - {i}\<rparr>))"
    by (intro uploads_inv_update) simp_all
  with \<open>uploads_inv s\<close> UDone show ?thesis by (simp add: upload_done_def)
next
  case (UFailed i m)
  assume inv: "uploads_inv s" and ok: "uploading_ok e s"
  show ?thesis
  proof (cases "i \<in> us_running s")
    case True
    show ?thesis
    proof (cases "m = Some CANCELLED")
      case cancelled: True
      with ok UFailed have "i \<in> us_aborted s" by simp
      with inv have "\<forall>u \<in> set (us_list s). up_id u \<noteq> i" by (auto simp: uploads_inv_def)
      with inv UFailed cancelled True show ?thesis by (auto simp: upload_failed_def uploads_inv_def)
    next
      case False
      let ?f = "\<lambda>u. u\<lparr>up_error := Some (case m of Some m \<Rightarrow> m | None \<Rightarrow> ''Upload failed''), up_progress := None\<rparr>"
      have "\<exists>e. upload_status (?f u) = Some (Failed e)" if "upload_status u = Some Running" for u
        using that by (simp add: status_running status_failed)
      then have "upload_status (?f u) \<noteq> None \<and> upload_status (?f u) \<noteq> Some Running"
        if "upload_status u = Some Running" for u
        using that by fastforce
      with inv True have "uploads_inv (update_upload i ?f (s\<lparr>us_running := us_running s - {i}\<rparr>))"
        by (intro uploads_inv_update) simp_all
      with True False UFailed show ?thesis by (simp add: upload_failed_def Let_def)
    qed
  next
    case False
    with inv UFailed show ?thesis by (simp add: upload_failed_def)
  qed
next
  case (UAbort i)
  assume "uploads_inv s"
  with UAbort show ?thesis
    using uploads_inv_drop [OF _ refl, of s "insert i (us_aborted s)" i]
    by (auto simp: abort_upload_def drop_upload_def)
next
  case (URemove i)
  assume inv: "uploads_inv s"
  show ?thesis
  proof (cases "find (\<lambda>u. up_id u = i) (us_list s)")
    case None
    with inv URemove show ?thesis by (simp add: remove_upload_def)
  next
    case (Some u)
    then have u: "u \<in> set (us_list s)" "up_id u = i" by (auto simp: find_Some_iff)
    with inv have "{up_preview v |v. v \<in> set (us_list s) \<and> up_id v = i} = {up_preview u}"
      by (auto simp: uploads_inv_def)
    with uploads_inv_drop [OF inv refl, of "us_aborted s" i] Some URemove show ?thesis
      by (simp add: remove_upload_def)
  qed
next
  case UClear
  assume "uploads_inv s"
  with UClear show ?thesis by (simp add: clear_all_def uploads_inv_def)
qed

interpretation uploading: invariant_machine uploading_step uploading_ok uploads_inv
  by unfold_locales (rule uploads_inv_step)

text \<open>C15. Every listed upload is running, done with its attachment, or failed with its message, and never two of
  these; the message waits exactly while a listed upload's promise is pending, and then carries the
  attachments of the uploads that are done, in the order the files were added; ids are distinct, and
  the object URLs that are alive are exactly the previews shown, so none leaks and none is revoked early.\<close>

theorem uploads_well_formed:
  assumes "guarded uploading_step uploading_ok es new_uploads"
  shows "let s = run uploading_step es new_uploads in
    distinct (map up_id (us_list s)) \<and>
    (\<forall>u \<in> set (us_list s). upload_status u \<noteq> None) \<and>
    (has_in_flight s \<longleftrightarrow> (\<exists>u \<in> set (us_list s). up_id u \<in> us_running s)) \<and>
    map Some (ready_attachments s) =
      map up_attachment (filter (\<lambda>u. \<exists>a. upload_status u = Some (Done a)) (us_list s)) \<and>
    sorted_wrt (<) (map up_preview (us_list s)) \<and>
    us_urls s = set (map up_preview (us_list s))"
proof -
  define s where "s = run uploading_step es new_uploads"
  have i: "uploads_inv s"
    unfolding s_def by (rule uploading.inv_run [OF uploads_inv_new assms])
  have st: "upload_status u \<noteq> None" "upload_status u = Some Running \<longleftrightarrow> up_id u \<in> us_running s"
    if "u \<in> set (us_list s)" for u
    using i that by (auto simp: uploads_inv_def)
  have "(up_attachment u = None \<and> up_error u = None) = (up_id u \<in> us_running s)" if "u \<in> set (us_list s)" for u
    using st [OF that] by (cases "up_progress u") (auto simp: upload_status_def split: option.splits if_splits)
  then have f: "has_in_flight s \<longleftrightarrow> (\<exists>u \<in> set (us_list s). up_id u \<in> us_running s)"
    by (auto simp: has_in_flight_def)
  have "(up_attachment u \<noteq> None) = (\<exists>a. upload_status u = Some (Done a))" if "u \<in> set (us_list s)" for u
    using st(1) [OF that] by (auto simp: upload_status_def split: option.splits if_splits)
  then have "filter (\<lambda>u. \<exists>a. upload_status u = Some (Done a)) (us_list s) = filter (\<lambda>u. up_attachment u \<noteq> None) (us_list s)"
    by (auto intro!: filter_cong)
  moreover have "map Some (List.map_filter up_attachment us) = map up_attachment (filter (\<lambda>u. up_attachment u \<noteq> None) us)" for us
    by (induction us) (auto simp: map_filter_simps split: option.split)
  ultimately have "map Some (ready_attachments s) =
      map up_attachment (filter (\<lambda>u. \<exists>a. upload_status u = Some (Done a)) (us_list s))"
    by (simp add: ready_attachments_def)
  with i f st(1) show ?thesis unfolding Let_def s_def [symmetric] by (simp add: uploads_inv_def)
qed

theorem uploads_well_formed_witness:
  "let s = run uploading_step
      [UAdd True [\<lparr>file_name = ''a'', file_type = ''image/png''\<rparr>, \<lparr>file_name = ''b'', file_type = ''''\<rparr>,
         \<lparr>file_name = ''c'', file_type = ''''\<rparr>],
       UProgress (local_id 0) 40, UDone (local_id 0) JNull, UAbort (local_id 1), UFailed (local_id 1) (Some CANCELLED)]
      new_uploads
   in us_urls s = {0, 2} \<and> us_urls s = set (map up_preview (us_list s)) \<and> ready_attachments s = [JNull] \<and>
      has_in_flight s"
proof -
  let ?es = "[UAdd True [\<lparr>file_name = ''a'', file_type = ''image/png''\<rparr>, \<lparr>file_name = ''b'', file_type = ''''\<rparr>,
         \<lparr>file_name = ''c'', file_type = ''''\<rparr>],
       UProgress (local_id 0) 40, UDone (local_id 0) JNull, UAbort (local_id 1), UFailed (local_id 1) (Some CANCELLED)]"
  note defs = new_uploads_def add_files_def add_file_def on_progress_def update_upload_def upload_done_def
    abort_upload_def drop_upload_def upload_failed_def Let_def
  have g: "guarded uploading_step uploading_ok ?es new_uploads" by (simp add: defs)
  have l: "map up_preview (us_list (run uploading_step ?es new_uploads)) = [0, 2]"
    "ready_attachments (run uploading_step ?es new_uploads) = [JNull]"
    "has_in_flight (run uploading_step ?es new_uploads)"
    by (simp_all add: defs ready_attachments_def has_in_flight_def map_filter_simps)
  define t where "t = run uploading_step ?es new_uploads"
  have "us_urls t = set (map up_preview (us_list t))"
    using uploads_well_formed [OF g] unfolding t_def Let_def by blast
  moreover note l [folded t_def]
  ultimately show ?thesis unfolding Let_def t_def [symmetric] by simp
qed

text \<open>
  \<open>removeUpload\<close> and \<open>clearAll\<close> do not abort: the upload goes on, and its result is dropped.
\<close>

lemma removed_upload_goes_on:
  "us_running (remove_upload i s) = us_running s \<and> us_aborted (remove_upload i s) = us_aborted s"
  by (simp add: remove_upload_def split: option.split)

end
