(* ===== verification/Composer.thy ===== *)
theory Composer
  imports Uploads Markdown
begin

text \<open>
  The input area of \<open>frontend/components/hub/text-channel-view.tsx\<close>: the draft, sending it with its
  attachments, the keys, the list continuation, dropping and pasting files, and the typing notices.
  \<open>sendMessage\<close> and \<open>sendTyping\<close> of the chat provider are the logs \<open>cp_sent\<close> and \<open>cp_typing\<close>.
\<close>

section \<open>State\<close>

record send_call =
  sc_text :: string
  sc_has_text :: bool

record composer =
  cp_input :: string
  cp_sending :: "send_call option"
  cp_uploads :: uploads
  cp_client :: bool
  cp_on_enter :: bool
  cp_stored :: "string option" \<comment> \<open>\<open>matehub_send_on_enter\<close> in \<open>localStorage\<close>\<close>
  cp_throttle :: int
  cp_drag :: int
  cp_drag_over :: bool
  cp_sent :: "(string \<times> json list option) list"
  cp_typing :: "int list"

definition new_composer :: "bool \<Rightarrow> string option \<Rightarrow> composer" where
  "new_composer client stored =
     \<lparr>cp_input = [], cp_sending = None, cp_uploads = new_uploads, cp_client = client,
      cp_on_enter = (case stored of None \<Rightarrow> True | Some v \<Rightarrow> v = ''1''), cp_stored = stored,
      cp_throttle = 0, cp_drag = 0, cp_drag_over = False, cp_sent = [], cp_typing = []\<rparr>"

section \<open>Sending\<close>

definition handle_send :: "composer \<Rightarrow> composer" where
  "handle_send s =
     (let has_text = js_trim (cp_input s) \<noteq> [];
          ready = ready_attachments (cp_uploads s)
      in if (\<not> has_text \<and> ready = []) \<or> cp_sending s \<noteq> None \<or> has_in_flight (cp_uploads s) then s
         else s\<lparr>cp_input := [], cp_sending := Some \<lparr>sc_text = cp_input s, sc_has_text = has_text\<rparr>,
                cp_sent := cp_sent s @ [(cp_input s, if ready \<noteq> [] then Some ready else None)]\<rparr>)"

text \<open>The promise of \<open>sendMessage\<close> settles.\<close>

definition send_settled :: "bool \<Rightarrow> composer \<Rightarrow> composer" where
  "send_settled ok s =
     (case cp_sending s of
        None \<Rightarrow> s
      | Some c \<Rightarrow>
          if ok then s\<lparr>cp_uploads := clear_all (cp_uploads s), cp_sending := None\<rparr>
          else if sc_has_text c then s\<lparr>cp_input := sc_text c, cp_sending := None\<rparr>
          else s\<lparr>cp_sending := None\<rparr>)"

section \<open>Keys\<close>

record key_event =
  k_key :: string
  k_shift :: bool
  k_ctrl :: bool
  k_meta :: bool
  k_from :: nat \<comment> \<open>selection\<close>
  k_to :: nat

definition apply_format :: "string \<Rightarrow> nat \<Rightarrow> nat \<Rightarrow> composer \<Rightarrow> composer" where
  "apply_format name from to s =
     (case map_of md_actions name of
        None \<Rightarrow> s
      | Some a \<Rightarrow> s\<lparr>cp_input := apply_markdown a from to (cp_input s)\<rparr>)"

text \<open>The start of the line of a position: after the last newline before it.\<close>

definition line_start :: "nat \<Rightarrow> string \<Rightarrow> nat" where
  "line_start pos v =
     (let cand = filter (\<lambda>i. i < length v \<and> v ! i = newline) [0 ..< (if pos = 0 then 1 else pos)]
      in if cand = [] then 0 else Suc (last cand))"

definition js_slice :: "nat \<Rightarrow> nat \<Rightarrow> string \<Rightarrow> string" where
  "js_slice from to v = drop from (take to v)"

definition parse_dec :: "string \<Rightarrow> nat" where
  "parse_dec ds = foldl (\<lambda>n c. 10 * n + (of_char c - 48)) 0 ds"

text \<open>The prefix that the next line of a list gets.\<close>

definition list_prefix :: "string \<Rightarrow> string option" where
  "list_prefix line =
     (case rx_match [Many re_space 0 True True, Many re_digit 1 True True, Lit ''.'', One re_space] [] line [] of
        Some (cs, _, _) \<Rightarrow> Some (cs ! 0 @ show_nat (Suc (parse_dec (cs ! 1))) @ ''. '')
      | None \<Rightarrow>
          (case rx_match [Many re_space 0 True False, One (\<lambda>c. c = CHR ''-'' \<or> c = CHR ''*''), One re_space] [] line [] of
             Some (_, b, _) \<Rightarrow> Some (rev b)
           | None \<Rightarrow> None))"

definition continue_list :: "nat \<Rightarrow> composer \<Rightarrow> composer" where
  "continue_list pos s =
     (let v = cp_input s in
      case list_prefix (js_slice (line_start pos v) pos v) of
        None \<Rightarrow> s
      | Some p \<Rightarrow> s\<lparr>cp_input := take pos v @ (newline # p) @ drop pos v\<rparr>)"

definition should_send :: "bool \<Rightarrow> key_event \<Rightarrow> bool" where
  "should_send on_enter k =
     (k_key k = ''Enter'' \<and> (if on_enter then \<not> k_shift k \<and> \<not> (k_ctrl k \<or> k_meta k) else k_ctrl k \<or> k_meta k))"

definition handle_key :: "key_event \<Rightarrow> composer \<Rightarrow> composer" where
  "handle_key k s =
     (if should_send (cp_on_enter s) k then handle_send s
      else
        (let s1 = (if k_key k = ''Enter'' \<and> k_shift k then continue_list (k_from k) s else s) in
         if k_ctrl k \<or> k_meta k
         then if k_key k \<in> {''b'', ''B''} then apply_format ''bold'' (k_from k) (k_to k) s1
              else if k_key k \<in> {''i'', ''I''} then apply_format ''italic'' (k_from k) (k_to k) s1
              else if k_key k \<in> {''u'', ''U''} then apply_format ''underline'' (k_from k) (k_to k) s1
              else s1
         else s1))"

definition toggle_on_enter :: "composer \<Rightarrow> composer" where
  "toggle_on_enter s =
     s\<lparr>cp_on_enter := \<not> cp_on_enter s, cp_stored := Some (if \<not> cp_on_enter s then ''1'' else ''0'')\<rparr>"

section \<open>Typing\<close>

definition handle_input :: "int \<Rightarrow> string \<Rightarrow> composer \<Rightarrow> composer" where
  "handle_input now v s =
     (let s1 = s\<lparr>cp_input := v\<rparr> in
      if now - cp_throttle s > 5000 then s1\<lparr>cp_throttle := now, cp_typing := cp_typing s @ [now]\<rparr> else s1)"

section \<open>Files\<close>

definition put_uploads :: "(uploads \<Rightarrow> uploads) \<Rightarrow> composer \<Rightarrow> composer" where
  "put_uploads f s = s\<lparr>cp_uploads := f (cp_uploads s)\<rparr>"

text \<open>The events carry whether files are dragged.\<close>

definition drag_enter :: "bool \<Rightarrow> composer \<Rightarrow> composer" where
  "drag_enter files s = (if files then s\<lparr>cp_drag := cp_drag s + 1, cp_drag_over := True\<rparr> else s)"

definition drag_leave :: "bool \<Rightarrow> composer \<Rightarrow> composer" where
  "drag_leave files s =
     (if files
      then (let n = max 0 (cp_drag s - 1) in s\<lparr>cp_drag := n, cp_drag_over := (cp_drag_over s \<and> n \<noteq> 0)\<rparr>)
      else s)"

definition drop_files :: "bool \<Rightarrow> js_file list \<Rightarrow> composer \<Rightarrow> composer" where
  "drop_files has fs s =
     (if has
      then put_uploads (if fs \<noteq> [] then add_files (cp_client s) fs else id) (s\<lparr>cp_drag := 0, cp_drag_over := False\<rparr>)
      else s)"

text \<open>
  Pasted files: one without a name, or with the name browsers give to a pasted image, gets a name
  from the clock and its type.
\<close>

definition type_ext :: "string \<Rightarrow> string" where
  "type_ext ty =
     (let sub = tl (dropWhile (\<lambda>c. c \<noteq> CHR ''/'') ty);
          part = takeWhile (\<lambda>c. c \<noteq> CHR ''/'') sub;
          ext = (if part = [] then ''bin'' else part);
          i = find (\<lambda>i. take 4 (drop i ext) = ''+xml'') [0 ..< length ext]
      in case i of None \<Rightarrow> ext | Some k \<Rightarrow> take k ext @ drop (k + 4) ext)"

definition pasted_file :: "int \<Rightarrow> js_file \<Rightarrow> js_file" where
  "pasted_file now f =
     (if file_name f = [] \<or> file_name f = ''image.png''
      then f\<lparr>file_name := ''pasted-'' @ show_int now @ ''.'' @ type_ext (file_type f)\<rparr> else f)"

definition handle_paste :: "int \<Rightarrow> js_file option list \<Rightarrow> composer \<Rightarrow> composer" where
  "handle_paste now items s =
     (let fs = map (pasted_file now) (List.map_filter id items) in
      if fs = [] then s else put_uploads (add_files (cp_client s) fs) s)"

datatype composer_input =
    CInput int string
  | CKey key_event
  | CSend
  | CSettled bool
  | CFormat string nat nat
  | CToggle
  | CDragEnter bool
  | CDragLeave bool
  | CDrop bool "js_file list"
  | CPaste int "js_file option list"
  | CFiles "js_file list"
  | CUpload uploading_input

fun composer_step :: "composer_input \<Rightarrow> composer \<Rightarrow> composer" where
  "composer_step (CInput now v) s = handle_input now v s"
| "composer_step (CKey k) s = handle_key k s"
| "composer_step CSend s = handle_send s"
| "composer_step (CSettled ok) s = send_settled ok s"
| "composer_step (CFormat name from to) s = apply_format name from to s"
| "composer_step CToggle s = toggle_on_enter s"
| "composer_step (CDragEnter b) s = drag_enter b s"
| "composer_step (CDragLeave b) s = drag_leave b s"
| "composer_step (CDrop b fs) s = drop_files b fs s"
| "composer_step (CPaste now items) s = handle_paste now items s"
| "composer_step (CFiles fs) s = put_uploads (add_files (cp_client s) fs) s"
| "composer_step (CUpload e) s = put_uploads (uploading_step e) s"

section \<open>Properties\<close>

text \<open>What a composer may have sent: each message has text or attachments.\<close>

definition sent_ok :: "string \<times> json list option \<Rightarrow> bool" where
  "sent_ok m \<longleftrightarrow> (js_trim (fst m) \<noteq> [] \<or> snd m \<noteq> None) \<and> snd m \<noteq> Some []"

text \<open>A step sends nothing, or sends the draft and waits.\<close>

definition sends :: "composer \<Rightarrow> composer \<Rightarrow> bool" where
  "sends s t \<longleftrightarrow> cp_sent t = cp_sent s \<and> (cp_sending s = None \<longrightarrow> cp_sending t = None) \<or>
     cp_sending s = None \<and> \<not> has_in_flight (cp_uploads s) \<and> cp_sending t \<noteq> None \<and>
     (\<exists>m. sent_ok m \<and> fst m = cp_input s \<and> cp_input t = [] \<and>
        snd m = (if ready_attachments (cp_uploads s) = [] then None else Some (ready_attachments (cp_uploads s))) \<and>
        cp_sent t = cp_sent s @ [m])"

lemma sends_send: "sends s (handle_send s)"
  by (auto simp: sends_def handle_send_def Let_def sent_ok_def)

lemma sends_frame:
  "cp_sent t = cp_sent s \<Longrightarrow> cp_sending t = cp_sending s \<or> cp_sending t = None \<Longrightarrow> sends s t"
  by (auto simp: sends_def)

lemma composer_frame [simp]:
  "cp_sent (apply_format n f u s) = cp_sent s" "cp_sending (apply_format n f u s) = cp_sending s"
  "cp_sent (continue_list p s) = cp_sent s" "cp_sending (continue_list p s) = cp_sending s"
  "cp_sent (put_uploads g s) = cp_sent s" "cp_sending (put_uploads g s) = cp_sending s"
  by (simp_all add: apply_format_def continue_list_def put_uploads_def Let_def split: option.split)

text \<open>C14. Whatever is typed, pressed, dropped and uploaded, and in whatever order: a step sends at most one
  message, only while no other one is being sent and no upload is running, with the draft as its text and
  exactly the finished attachments, and never an empty one; and the draft is emptied with it.\<close>

theorem draft_sent_once:
  "sends s (composer_step e s)"
proof (cases e)
  case (CKey k)
  then show ?thesis
    by (cases "should_send (cp_on_enter s) k")
      (auto simp: handle_key_def Let_def intro: sends_send sends_frame)
next
  case (CSettled ok)
  then show ?thesis by (auto simp: send_settled_def intro!: sends_frame split: option.split)
qed (auto intro!: sends_frame sends_send simp: handle_input_def toggle_on_enter_def drag_enter_def drag_leave_def
    drop_files_def handle_paste_def Let_def)

section \<open>Typing notices\<close>

definition notices_inv :: "composer \<Rightarrow> bool" where
  "notices_inv s \<longleftrightarrow> sorted_wrt (\<lambda>a b. a + 5000 < b) (cp_typing s) \<and>
     (cp_typing s \<noteq> [] \<longrightarrow> cp_throttle s = last (cp_typing s))"

lemma typing_frame [simp]:
  "cp_typing (apply_format n f u s) = cp_typing s" "cp_throttle (apply_format n f u s) = cp_throttle s"
  "cp_typing (continue_list p s) = cp_typing s" "cp_throttle (continue_list p s) = cp_throttle s"
  "cp_typing (put_uploads g s) = cp_typing s" "cp_throttle (put_uploads g s) = cp_throttle s"
  "cp_typing (handle_send s) = cp_typing s" "cp_throttle (handle_send s) = cp_throttle s"
  by (simp_all add: apply_format_def continue_list_def put_uploads_def handle_send_def Let_def split: option.split)

lemma notices_inv_cong: "cp_typing t = cp_typing s \<Longrightarrow> cp_throttle t = cp_throttle s \<Longrightarrow> notices_inv t = notices_inv s"
  by (simp add: notices_inv_def)

lemma spaced_last: "sorted_wrt (\<lambda>a b. a + 5000 < (b :: int)) xs \<Longrightarrow> x \<in> set xs \<Longrightarrow> x \<le> last xs"
proof (induction xs)
  case (Cons y ys)
  show ?case
  proof (cases "ys = []")
    case True
    with Cons.prems show ?thesis by simp
  next
    case False
    then have "last ys \<in> set ys" by simp
    with Cons.prems have "y + 5000 < last ys" by simp
    then have "y \<le> last ys" by linarith
    with False Cons show ?thesis by (cases "x = y") auto
  qed
qed simp

lemma notices_inv_step:
  assumes "notices_inv s"
  shows "notices_inv (composer_step e s)"
proof (cases e)
  case (CInput now v)
  have "x + 5000 < now" if "x \<in> set (cp_typing s)" "cp_throttle s + 5000 < now" for x
  proof -
    have "x \<le> last (cp_typing s)" using assms that(1) by (auto simp: notices_inv_def intro: spaced_last)
    moreover have "cp_throttle s = last (cp_typing s)" using assms that(1) by (auto simp: notices_inv_def)
    ultimately show ?thesis using that(2) by simp
  qed
  with CInput assms show ?thesis by (auto simp: notices_inv_def handle_input_def Let_def sorted_wrt_append)
next
  case (CKey k)
  have "notices_inv (handle_key k s) = notices_inv s" by (rule notices_inv_cong) (simp_all add: handle_key_def Let_def)
  with CKey assms show ?thesis by simp
next
  case (CSettled ok)
  have "notices_inv (send_settled ok s) = notices_inv s"
    by (rule notices_inv_cong) (simp_all add: send_settled_def split: option.split)
  with CSettled assms show ?thesis by simp
qed (use assms in \<open>auto simp: notices_inv_def toggle_on_enter_def drag_enter_def drag_leave_def drop_files_def
    handle_paste_def Let_def\<close>)

interpretation composing: invariant_machine composer_step "\<lambda>_ _. True" notices_inv
  by unfold_locales (rule notices_inv_step)

text \<open>Two typing notices are always more than five seconds apart, whatever the clock does between them.\<close>

theorem typing_is_throttled:
  "sorted_wrt (\<lambda>a b. a + 5000 < b) (cp_typing (run composer_step es (new_composer client stored)))"
proof -
  have "notices_inv (new_composer client stored)" by (simp add: notices_inv_def new_composer_def)
  moreover have "guarded composer_step (\<lambda>_ _. True) es t" for t by (induction es arbitrary: t) simp_all
  ultimately show ?thesis using composing.inv_run [of _ es] by (simp add: notices_inv_def)
qed

section \<open>Dragging and settings\<close>

definition drag_inv :: "composer \<Rightarrow> bool" where
  "drag_inv s \<longleftrightarrow> 0 \<le> cp_drag s \<and> (cp_drag_over s \<longleftrightarrow> 0 < cp_drag s)"

lemma drag_inv_ops:
  "drag_inv (new_composer c st)" "drag_inv s \<Longrightarrow> drag_inv (drag_enter b s)" "drag_inv s \<Longrightarrow> drag_inv (drag_leave b s)"
  "drag_inv s \<Longrightarrow> drag_inv (drop_files b fs s)"
  by (auto simp: drag_inv_def new_composer_def drag_enter_def drag_leave_def drop_files_def put_uploads_def Let_def)

lemma on_enter_remembered:
  "cp_on_enter (new_composer c (cp_stored (toggle_on_enter s))) = cp_on_enter (toggle_on_enter s)"
  by (simp add: new_composer_def toggle_on_enter_def)

text \<open>Files that are added while a message is being sent are dropped when it has been sent.\<close>

lemma files_lost_during_send:
  "cp_sending s \<noteq> None \<Longrightarrow>
     us_list (cp_uploads (run composer_step [CFiles fs, CSettled True] s)) = []"
  by (auto simp: send_settled_def put_uploads_def clear_all_def)

text \<open>Two pasted images of one type get the same name in the same millisecond, as in one paste.\<close>

lemma pasted_names_collide:
  "file_name (pasted_file now \<lparr>file_name = ''image.png'', file_type = ty\<rparr>) =
   file_name (pasted_file now \<lparr>file_name = '''', file_type = ty\<rparr>)"
  by (simp add: pasted_file_def)

text \<open>Shift+Enter continues the list of the line: the next number, or the same bullet.\<close>

lemma list_continues:
  "list_prefix ''  9. tea'' = Some ''  10. '' \<and> list_prefix ''- tea'' = Some ''- '' \<and> list_prefix ''tea'' = None"
  by code_simp

lemma extensions:
  "type_ext ''image/svg+xml'' = ''svg'' \<and> type_ext ''image/png'' = ''png'' \<and> type_ext '''' = ''bin''"
  by code_simp

end
