(* ===== verification/MessageView.thy ===== *)
theory MessageView
  imports ChatStore Presence Rx
begin

text \<open>
  The message list of \<open>frontend/components/hub/text-channel-view.tsx\<close>: where a day begins, where the
  unread messages begin, which messages are grouped, and the text of system messages. The local
  calendar (\<open>new Date(y, m, d).getTime()\<close>) is a parameter, translations are the identity.
\<close>

section \<open>Days\<close>

text \<open>\<open>cal\<close> gives the year, month and day of a time; \<open>sod\<close> is \<open>startOfDay\<close>.\<close>

definition pad2 :: "nat \<Rightarrow> string" where
  "pad2 n = (let s = show_nat n in if length s < 2 then CHR ''0'' # s else s)"

definition format_date_separator ::
  "(int \<Rightarrow> int) \<Rightarrow> (int \<Rightarrow> nat \<times> nat \<times> nat) \<Rightarrow> int \<Rightarrow> int \<Rightarrow> string" where
  "format_date_separator sod cal now d =
     (let today = sod now; yesterday = today - 86400 * 1000; day = sod d in
      if day = today then ''Today''
      else if day = yesterday then ''Yesterday''
      else case cal d of (y, m, dd) \<Rightarrow> pad2 dd @ ''.'' @ pad2 m @ ''.'' @ show_nat y)"

section \<open>Rows\<close>

record row =
  r_msg :: chat_msg
  r_new_day :: bool
  r_crossed :: bool
  r_grouped :: bool
  r_system :: bool

definition id_date :: "string \<Rightarrow> int" where
  "id_date i = SONYFLAKE_EPOCH_MS + drop_bit 24 (id_val i) * 10"

definition is_grouped_with :: "chat_msg option \<Rightarrow> chat_msg \<Rightarrow> bool" where
  "is_grouped_with prev cur = (case prev of None \<Rightarrow> False | Some p \<Rightarrow> msg_author p = msg_author cur)"

definition crossed_unread :: "string option \<Rightarrow> chat_msg option \<Rightarrow> chat_msg \<Rightarrow> bool" where
  "crossed_unread dv prev m =
     (case dv of
        None \<Rightarrow> False
      | Some d \<Rightarrow>
          id_val d < id_val (msg_id m) \<and>
          (case prev of None \<Rightarrow> True | Some p \<Rightarrow> id_val (msg_id p) \<le> id_val d))"

definition SYSTEM :: string where
  "SYSTEM = ''system''"

definition make_row :: "(int \<Rightarrow> int) \<Rightarrow> string option \<Rightarrow> chat_msg option \<Rightarrow> chat_msg \<Rightarrow> row" where
  "make_row sod dv prev m =
     (let new_day = (case prev of None \<Rightarrow> True | Some p \<Rightarrow> sod (id_date (msg_id m)) \<noteq> sod (id_date (msg_id p)));
          crossed = crossed_unread dv prev m;
          prev_system = (case prev of None \<Rightarrow> False | Some p \<Rightarrow> msg_author p = SYSTEM)
      in \<lparr>r_msg = m, r_new_day = new_day, r_crossed = crossed,
          r_grouped = (\<not> new_day \<and> \<not> crossed \<and> \<not> prev_system \<and> is_grouped_with prev m),
          r_system = (msg_author m = SYSTEM)\<rparr>)"

fun make_rows :: "(int \<Rightarrow> int) \<Rightarrow> string option \<Rightarrow> chat_msg option \<Rightarrow> chat_msg list \<Rightarrow> row list" where
  "make_rows sod dv prev [] = []"
| "make_rows sod dv prev (m # ms) = make_row sod dv prev m # make_rows sod dv (Some m) ms"

text \<open>The dividers that are shown: a day separator hides the unread divider.\<close>

definition shows_unread :: "row \<Rightarrow> bool" where
  "shows_unread r \<longleftrightarrow> r_crossed r \<and> \<not> r_new_day r"

lemma make_rows_length [simp]: "length (make_rows sod dv prev ms) = length ms"
  by (induction ms arbitrary: prev) auto

lemma make_rows_nth:
  "i < length ms \<Longrightarrow>
     make_rows sod dv prev ms ! i = make_row sod dv (if i = 0 then prev else Some (ms ! (i - 1))) (ms ! i)"
  by (induction ms arbitrary: prev i) (auto simp: nth_Cons split: nat.splits)

text \<open>In a list whose ids do not decrease, the unread boundary is the first message after the position
  where the reader left, and no other; a message is grouped only with one of the same author on the same
  day, neither of them a system message, and never across the boundary.\<close>

theorem unread_boundary_is_first_unread:
  assumes "sorted_wrt (\<le>) (map (\<lambda>m. id_val (msg_id m)) ms)" "i < length ms"
  shows "(r_crossed (make_rows sod (Some d) None ms ! i) \<longleftrightarrow>
      id_val d < id_val (msg_id (ms ! i)) \<and> (\<forall>j < i. id_val (msg_id (ms ! j)) \<le> id_val d)) \<and>
    (r_grouped (make_rows sod (Some d) None ms ! i) \<longrightarrow>
      0 < i \<and> msg_author (ms ! (i - 1)) = msg_author (ms ! i) \<and> msg_author (ms ! i) \<noteq> SYSTEM \<and>
      sod (id_date (msg_id (ms ! (i - 1)))) = sod (id_date (msg_id (ms ! i))) \<and>
      (id_val d < id_val (msg_id (ms ! i)) \<longrightarrow> id_val d < id_val (msg_id (ms ! (i - 1)))))"
proof -
  have le: "id_val (msg_id (ms ! j)) \<le> id_val (msg_id (ms ! (i - 1)))" if "j < i" for j
  proof (cases "j = i - 1")
    case False
    with that assms show ?thesis by (auto simp: sorted_wrt_iff_nth_less)
  qed simp
  have "(\<forall>j < i. id_val (msg_id (ms ! j)) \<le> id_val d) \<longleftrightarrow> i = 0 \<or> id_val (msg_id (ms ! (i - 1))) \<le> id_val d"
    using le order_trans by (cases i) (force, fastforce)
  then show ?thesis
    unfolding make_rows_nth [OF assms(2)]
    by (cases "i = 0") (auto simp: make_row_def crossed_unread_def is_grouped_with_def Let_def)
qed

theorem unread_boundary_is_first_unread_witness:
  "let m = (\<lambda>i a. \<lparr>msg_hub = '''', msg_channel = '''', msg_id = i, msg_author = a, msg_author_type = '''',
        msg_content = '''', msg_thread_root = None, msg_mentions = [], msg_mention_groups = [],
        msg_mention_everyone = False, msg_attachments = [], msg_edited_at = None, msg_deleted_at = None,
        msg_client = None, msg_bucket = 0, msg_status = None\<rparr>);
       ms = [m ''5'' ''u'', m ''7'' ''u'', m ''9'' ''u'']
   in \<not> r_crossed (make_rows (\<lambda>t. t) (Some ''6'') None ms ! 2) \<and>
      map r_crossed (make_rows (\<lambda>t. t) (Some ''6'') None ms) = [False, True, False] \<and>
      map r_grouped (make_rows (\<lambda>t. t) (Some ''6'') None ms) = [False, False, True]"
proof -
  define m where "m = (\<lambda>i a. \<lparr>msg_hub = '''', msg_channel = '''', msg_id = i, msg_author = a, msg_author_type = '''',
        msg_content = '''', msg_thread_root = None, msg_mentions = [], msg_mention_groups = [],
        msg_mention_everyone = False, msg_attachments = [], msg_edited_at = None, msg_deleted_at = None,
        msg_client = None, msg_bucket = 0, msg_status = None\<rparr>)"
  let ?ms = "[m ''5'' ''u'', m ''7'' ''u'', m ''9'' ''u'']"
  have v: "id_val ''5'' = 5" "id_val ''6'' = 6" "id_val ''7'' = 7" "id_val ''9'' = 9" by code_simp+
  have s: "sorted_wrt (\<le>) (map (\<lambda>m. id_val (msg_id m)) ?ms)" by (simp add: m_def v)
  have "\<not> r_crossed (make_rows (\<lambda>t. t) (Some ''6'') None ?ms ! 2)"
    using unread_boundary_is_first_unread [OF s, of 2 "\<lambda>t. t" "''6''"] by (auto simp: m_def v intro!: exI [of _ 1])
  moreover have "map r_crossed (make_rows (\<lambda>t. t) (Some ''6'') None ?ms) = [False, True, False]"
    "map r_grouped (make_rows (\<lambda>t. t) (Some ''6'') None ?ms) = [False, False, True]"
    by (simp_all add: make_row_def crossed_unread_def is_grouped_with_def Let_def m_def v id_date_def SYSTEM_def
        drop_bit_eq_div)
  ultimately show ?thesis unfolding Let_def m_def by blast
qed

text \<open>When the first unread message is the first of its day, no unread divider is shown.\<close>

lemma unread_divider_hidden_on_new_day:
  "r_new_day r \<Longrightarrow> \<not> shows_unread r"
  by (simp add: shows_unread_def)

text \<open>
  After a day of 23 hours (the clocks went forward) the day before is not labelled: its start is not
  24 hours before the start of today.
\<close>

lemma yesterday_missed:
  assumes "sod now - sod d \<noteq> 86400000" "sod d \<noteq> sod now" "cal d = (2025, 3, 30)"
  shows "format_date_separator sod cal now d = ''30.03.2025''"
proof -
  have "pad2 30 = ''30''" "pad2 3 = ''03''" "show_nat 2025 = ''2025''" by code_simp+
  with assms show ?thesis by (simp add: format_date_separator_def Let_def)
qed

section \<open>System messages\<close>

datatype piece = PText string | PRef string

text \<open>\<open>re.exec\<close> of \<open>/\$(\d+)/g\<close> from a position on: the text before, the digits, the rest.\<close>

fun find_ref :: "string \<Rightarrow> (string \<times> string \<times> string) option" where
  "find_ref [] = None"
| "find_ref (c # s) =
     (if c = CHR ''$'' \<and> takeWhile re_digit s \<noteq> [] then Some ([], takeWhile re_digit s, dropWhile re_digit s)
      else map_option (\<lambda>(p, ds, r). (c # p, ds, r)) (find_ref s))"

partial_function (option) render_loop :: "string \<Rightarrow> piece list option" where
  "render_loop s =
     (case find_ref s of
        None \<Rightarrow> Some (if s = [] then [] else [PText s])
      | Some (p, ds, r) \<Rightarrow>
          Option.bind (render_loop r) (\<lambda>ps. Some ((if p = [] then [] else [PText p]) @ PRef ds # ps)))"

definition parse_index :: "string \<Rightarrow> int" where
  "parse_index ds = foldl (\<lambda>n c. 10 * n + (int (of_char c) - 48)) 0 ds"

text \<open>The name shown for a reference: of the member, else the id, else a placeholder.\<close>

definition ref_name :: "string list \<Rightarrow> (string \<rightharpoonup> string) \<Rightarrow> string \<Rightarrow> string" where
  "ref_name mentions names ds =
     (let i = parse_index ds - 1 in
      if 0 \<le> i \<and> i < int (length mentions)
      then (let u = mentions ! nat i in
            if u = [] then u else case names u of Some n \<Rightarrow> n | None \<Rightarrow> u)
      else ''Unknown'')"

definition render_system_content :: "string \<Rightarrow> string list \<Rightarrow> (string \<rightharpoonup> string) \<Rightarrow> string list option" where
  "render_system_content content mentions names =
     map_option (map (\<lambda>p. case p of PText t \<Rightarrow> t | PRef ds \<Rightarrow> ref_name mentions names ds)) (render_loop content)"

lemma find_ref_split:
  "find_ref s = Some (p, ds, r) \<Longrightarrow> s = p @ CHR ''$'' # ds @ r \<and> ds \<noteq> [] \<and> (\<forall>c \<in> set ds. re_digit c) \<and>
     (r = [] \<or> \<not> re_digit (hd r))"
proof (induction s arbitrary: p)
  case (Cons c s)
  show ?case
  proof (cases "c = CHR ''$'' \<and> takeWhile re_digit s \<noteq> []")
    case True
    with Cons.prems have "p = []" "ds = takeWhile re_digit s" "r = dropWhile re_digit s" by auto
    with True show ?thesis using hd_dropWhile [of re_digit s] set_takeWhileD [of _ re_digit s] by auto
  next
    case False
    with Cons.prems obtain p' where "p = c # p'" "find_ref s = Some (p', ds, r)" by auto
    with Cons.IH show ?thesis by auto
  qed
qed simp

lemma find_ref_first: "find_ref s = Some (p, ds, r) \<Longrightarrow> find_ref p = None"
proof (induction s arbitrary: p)
  case (Cons c s)
  show ?case
  proof (cases "c = CHR ''$'' \<and> takeWhile re_digit s \<noteq> []")
    case True
    with Cons.prems show ?thesis by auto
  next
    case False
    with Cons.prems obtain p' where p: "p = c # p'" "find_ref s = Some (p', ds, r)" by auto
    from find_ref_split [OF p(2)] have "s = p' @ CHR ''$'' # ds @ r" by simp
    moreover have "\<not> re_digit CHR ''$''" by (simp add: re_digit_def)
    ultimately have "takeWhile re_digit s = takeWhile re_digit p'"
      by (cases "\<forall>x \<in> set p'. re_digit x") (auto simp: takeWhile_append takeWhile_eq_all_conv [THEN iffD2])
    with Cons.IH [OF p(2)] False p(1) show ?thesis by auto
  qed
qed simp

text \<open>What a piece stands for in the template.\<close>

fun piece_source :: "piece \<Rightarrow> string" where
  "piece_source (PText t) = t"
| "piece_source (PRef ds) = CHR ''$'' # ds"

fun piece_ok :: "piece \<Rightarrow> bool" where
  "piece_ok (PText t) = (t \<noteq> [] \<and> find_ref t = None)"
| "piece_ok (PRef ds) = (ds \<noteq> [] \<and> (\<forall>c \<in> set ds. re_digit c))"

text \<open>C26. The loop over the references of a system message ends for every template, and splits it exactly:
  the pieces put together again are the template, texts are not empty and hold no reference, so every
  reference is replaced and nothing else is lost or repeated.\<close>

theorem system_content_loop_ends:
  "\<exists>ps. render_loop content = Some ps \<and> concat (map piece_source ps) = content \<and> list_all piece_ok ps \<and>
     render_system_content content mentions names =
       Some (map (\<lambda>p. case p of PText t \<Rightarrow> t | PRef ds \<Rightarrow> ref_name mentions names ds) ps)"
proof -
  have "\<exists>ps. render_loop s = Some ps \<and> concat (map piece_source ps) = s \<and> (\<forall>p \<in> set ps. piece_ok p)" for s
  proof (induction "length s" arbitrary: s rule: less_induct)
    case less
    show ?case
    proof (cases "find_ref s")
      case None
      then show ?thesis by (subst render_loop.simps) simp
    next
      case (Some x)
      obtain p ds r where x: "x = (p, ds, r)" by (cases x)
      from find_ref_split [OF Some [unfolded x]]
      have s: "s = p @ CHR ''$'' # ds @ r" "ds \<noteq> []" "\<forall>c \<in> set ds. re_digit c" by auto
      then have "length r < length s" by simp
      from less [OF this] obtain ps where ps: "render_loop r = Some ps" "concat (map piece_source ps) = r"
        "\<forall>p \<in> set ps. piece_ok p" by blast
      have "render_loop s = Some ((if p = [] then [] else [PText p]) @ PRef ds # ps)"
        using Some x ps(1) by (subst render_loop.simps) simp
      moreover have "find_ref p = None" using find_ref_first Some x by blast
      ultimately show ?thesis using ps s by auto
    qed
  qed
  then show ?thesis by (fastforce simp: render_system_content_def list_all_iff)
qed

lemma system_content_example:
  "render_system_content ''$1 called $2 for $12'' [''u1'', ''u2''] [''u1'' \<mapsto> ''Ann''] =
     Some [''Ann'', '' called '', ''u2'', '' for '', ''Unknown'']"
proof -
  have "find_ref ''$1 called $2 for $12'' = Some ('''', ''1'', '' called $2 for $12'')"
    "find_ref '' called $2 for $12'' = Some ('' called '', ''2'', '' for $12'')"
    "find_ref '' for $12'' = Some ('' for '', ''12'', '''')" by code_simp+
  then have "render_loop ''$1 called $2 for $12'' =
      Some [PRef ''1'', PText '' called '', PRef ''2'', PText '' for '', PRef ''12'']"
    by (subst render_loop.simps, simp, subst render_loop.simps, simp, subst render_loop.simps, simp,
        subst render_loop.simps, simp)
  then show ?thesis by (simp add: render_system_content_def ref_name_def parse_index_def Let_def)
qed

end
