(* ===== verification/Channels.thy ===== *)
theory Channels
  imports Prelude
begin

text \<open>
  \<open>ChannelsProvider\<close> of \<open>frontend/contexts/channels-context.tsx\<close> (the channel list and its requests)
  and the selected channel of \<open>frontend/contexts/hub-selection-context.tsx\<close>, an external store over
  \<open>localStorage\<close>.
\<close>

section \<open>The channel list\<close>

datatype channel_kind = TextChannel | VoiceChannel | StageChannel | DmChannel

record channel =
  ch_id :: string
  ch_hub :: string
  ch_name :: string
  ch_type :: channel_kind
  ch_position :: int
  ch_icon :: "string option"
  ch_color :: "string option"
  ch_image :: "string option"
  ch_participants :: "string list"

text \<open>What the continuation of a request captured.\<close>

datatype channel_call =
    LoadCall \<comment> \<open>the initial load of a session\<close>
  | FetchCall
  | CreateCall
  | UpdateCall string
  | DeleteCall string
  | OpenDmCall
  | IconCall string

record channels =
  cs_list :: "channel list"
  cs_loading :: bool
  cs_session :: "(string \<times> string) option" \<comment> \<open>hub, token\<close>
  cs_load :: "nat option" \<comment> \<open>the load that is not cancelled\<close>
  cs_calls :: "nat \<rightharpoonup> channel_call"
  cs_next :: nat
  cs_requests :: "(string \<times> string) list" \<comment> \<open>method, path\<close>

definition new_channels :: channels where
  "new_channels = \<lparr>cs_list = [], cs_loading = True, cs_session = None, cs_load = None,
     cs_calls = (\<lambda>_. None), cs_next = 0, cs_requests = []\<rparr>"

definition start_call_ch :: "channel_call \<Rightarrow> (string \<times> string) list \<Rightarrow> channels \<Rightarrow> channels" where
  "start_call_ch c rs s =
     s\<lparr>cs_calls := (cs_calls s)(cs_next s \<mapsto> c), cs_next := Suc (cs_next s), cs_requests := cs_requests s @ rs\<rparr>"

definition hub_path :: "string \<Rightarrow> string \<Rightarrow> string" where
  "hub_path hub p = ''/api/hub/v1/hubs/'' @ hub @ p"

definition list_requests :: "string \<Rightarrow> (string \<times> string) list" where
  "list_requests hub = [(''GET'', hub_path hub ''/channels''), (''GET'', hub_path hub ''/dms'')]"

text \<open>The effect on hub and token; its cleanup cancels the load before.\<close>

definition session_channels :: "(string \<times> string) option \<Rightarrow> channels \<Rightarrow> channels" where
  "session_channels x s =
     (let s1 = s\<lparr>cs_session := x, cs_load := None\<rparr> in
      case x of
        Some (hub, tok) \<Rightarrow>
          if hub = [] \<or> tok = [] then s1
          else start_call_ch LoadCall (list_requests hub) (s1\<lparr>cs_load := Some (cs_next s)\<rparr>)
      | None \<Rightarrow> s1)"

definition fetch_channels :: "channels \<Rightarrow> channels" where
  "fetch_channels s =
     (case cs_session s of
        Some (hub, tok) \<Rightarrow>
          if hub = [] \<or> tok = [] then s else start_call_ch FetchCall (list_requests hub) s
      | None \<Rightarrow> s)"

text \<open>The other operations ask for a hub only; \<open>uploadIcon\<close> also for a token.\<close>

definition hub_call :: "bool \<Rightarrow> channel_call \<Rightarrow> string \<Rightarrow> string \<Rightarrow> channels \<Rightarrow> channels" where
  "hub_call need_token c meth p s =
     (case cs_session s of
        Some (hub, tok) \<Rightarrow>
          if hub = [] \<or> (need_token \<and> tok = []) then s
          else start_call_ch c [(meth, hub_path hub p)] s
      | None \<Rightarrow> s)"

definition create_channel :: "channels \<Rightarrow> channels" where
  "create_channel = hub_call False CreateCall ''POST'' ''/channels''"

definition update_channel :: "string \<Rightarrow> channels \<Rightarrow> channels" where
  "update_channel i = hub_call False (UpdateCall i) ''PATCH'' (''/channels/'' @ i)"

definition delete_channel :: "string \<Rightarrow> channels \<Rightarrow> channels" where
  "delete_channel i = hub_call False (DeleteCall i) ''DELETE'' (''/channels/'' @ i)"

definition open_dm :: "channels \<Rightarrow> channels" where
  "open_dm = hub_call False OpenDmCall ''POST'' ''/dms''"

definition upload_icon :: "string \<Rightarrow> channels \<Rightarrow> channels" where
  "upload_icon i = hub_call True (IconCall i) ''POST'' (''/channels/'' @ i @ ''/icon'')"

text \<open>
  Replies: the two lists (\<open>None\<close> for an error status), a channel, an icon's address, a plain success,
  or a failure of the request (an error status, no network, no JSON).
\<close>

datatype channel_reply =
    Lists "channel list option" "channel list option"
  | OneChannel channel
  | Url string
  | Okay
  | Fails

definition the_list :: "channel list option \<Rightarrow> channel list" where
  "the_list x = (case x of None \<Rightarrow> [] | Some cs \<Rightarrow> cs)"

definition replace_channel :: "string \<Rightarrow> (channel \<Rightarrow> channel) \<Rightarrow> channel list \<Rightarrow> channel list" where
  "replace_channel i f cs = map (\<lambda>c. if ch_id c = i then f c else c) cs"

definition upsert_channel :: "channel \<Rightarrow> channel list \<Rightarrow> channel list" where
  "upsert_channel c cs = filter (\<lambda>x. ch_id x \<noteq> ch_id c) cs @ [c]"

fun apply_reply :: "channel_call \<Rightarrow> channel_reply \<Rightarrow> channel list \<Rightarrow> channel list" where
  "apply_reply CreateCall (OneChannel c) cs = cs @ [c]"
| "apply_reply (UpdateCall i) (OneChannel c) cs = replace_channel i (\<lambda>_. c) cs"
| "apply_reply (DeleteCall i) Okay cs = filter (\<lambda>c. ch_id c \<noteq> i) cs"
| "apply_reply OpenDmCall (OneChannel c) cs = upsert_channel c cs"
| "apply_reply (IconCall i) (Url u) cs = replace_channel i (\<lambda>c. c\<lparr>ch_image := Some u\<rparr>) cs"
| "apply_reply _ (Lists a b) cs = the_list a @ the_list b"
| "apply_reply _ _ cs = cs"

definition channel_replied :: "nat \<Rightarrow> channel_reply \<Rightarrow> channels \<Rightarrow> channels" where
  "channel_replied n r s =
     (case cs_calls s n of
        None \<Rightarrow> s
      | Some c \<Rightarrow>
          (let s1 = s\<lparr>cs_calls := (cs_calls s)(n := None)\<rparr> in
           if c = LoadCall \<and> cs_load s \<noteq> Some n then s1
           else s1\<lparr>cs_list := apply_reply c r (cs_list s),
                   cs_loading := (if c = LoadCall \<or> c = FetchCall then False else cs_loading s)\<rparr>))"

datatype channels_input =
    ChSession "(string \<times> string) option"
  | ChFetch
  | ChCreate
  | ChUpdate string
  | ChDelete string
  | ChOpenDm
  | ChIcon string
  | ChReply nat channel_reply

fun channels_step :: "channels_input \<Rightarrow> channels \<Rightarrow> channels" where
  "channels_step (ChSession x) s = session_channels x s"
| "channels_step ChFetch s = fetch_channels s"
| "channels_step ChCreate s = create_channel s"
| "channels_step (ChUpdate i) s = update_channel i s"
| "channels_step (ChDelete i) s = delete_channel i s"
| "channels_step ChOpenDm s = open_dm s"
| "channels_step (ChIcon i) s = upload_icon i s"
| "channels_step (ChReply n r) s = channel_replied n r s"

section \<open>Ids stay distinct\<close>

text \<open>
  What the server promises: a list reply has distinct ids, an update keeps the id, and a created
  channel is not in the list yet (which a load in between may break).
\<close>

definition ids :: "channel list \<Rightarrow> string list" where
  "ids cs = map ch_id cs"

fun reply_ok_ch :: "channel_call \<Rightarrow> channel_reply \<Rightarrow> channel list \<Rightarrow> bool" where
  "reply_ok_ch CreateCall (OneChannel c) cs = (ch_id c \<notin> set (ids cs))"
| "reply_ok_ch (UpdateCall i) (OneChannel c) cs = (ch_id c = i)"
| "reply_ok_ch c (Lists a b) cs = ((c = LoadCall \<or> c = FetchCall) \<and> distinct (ids (the_list a @ the_list b)))"
| "reply_ok_ch _ _ _ = True"

fun channels_ok :: "channels_input \<Rightarrow> channels \<Rightarrow> bool" where
  "channels_ok (ChReply n r) s = (\<forall>c. cs_calls s n = Some c \<longrightarrow> reply_ok_ch c r (cs_list s))"
| "channels_ok _ s = True"

lemma list_frame [simp]:
  "cs_list (start_call_ch c rs s) = cs_list s" "cs_list (session_channels x s) = cs_list s"
  "cs_list (fetch_channels s) = cs_list s" "cs_list (hub_call b c m p s) = cs_list s"
  by (simp_all add: start_call_ch_def session_channels_def fetch_channels_def hub_call_def Let_def split: option.split)

lemma ids_replace: "(\<And>c. ch_id c = i \<Longrightarrow> ch_id (f c) = i) \<Longrightarrow> ids (replace_channel i f cs) = ids cs"
  by (induction cs) (auto simp: ids_def replace_channel_def)

lemma distinct_filter_ids: "distinct (ids cs) \<Longrightarrow> distinct (ids (filter P cs))"
  by (simp add: ids_def distinct_map_filter)

lemma apply_reply_distinct:
  "reply_ok_ch c r cs \<Longrightarrow> distinct (ids cs) \<Longrightarrow> distinct (ids (apply_reply c r cs))"
  by (induction c r cs rule: apply_reply.induct)
    (auto simp: ids_replace distinct_filter_ids upsert_channel_def, auto simp: ids_def distinct_map_filter)

lemma channels_distinct_step:
  "distinct (ids (cs_list s)) \<Longrightarrow> channels_ok e s \<Longrightarrow> distinct (ids (cs_list (channels_step e s)))"
  by (cases e) (auto simp: create_channel_def update_channel_def delete_channel_def open_dm_def upload_icon_def
      channel_replied_def Let_def apply_reply_distinct split: option.split)

interpretation channel_ids: invariant_machine channels_step channels_ok "\<lambda>s. distinct (ids (cs_list s))"
  by unfold_locales (rule channels_distinct_step)

lemma channels_stay_distinct:
  assumes "guarded channels_step channels_ok es new_channels"
  shows "distinct (ids (cs_list (run channels_step es new_channels)))"
  using channel_ids.inv_run [OF _ assms] by (simp add: new_channels_def ids_def)

text \<open>Opening a direct channel twice lists it once, with what the server returned last.\<close>

lemma opened_once:
  "filter (\<lambda>x. ch_id x = ch_id c) (upsert_channel c cs) = [c]"
  "upsert_channel c (upsert_channel c cs) = upsert_channel c cs"
  by (auto simp: upsert_channel_def filter_empty_conv)

text \<open>A load that lands between the creation and its reply lists the new channel twice.\<close>

lemma late_create_duplicates:
  assumes "cs_session s = Some (''h'', ''t'')" "ch_id c = ''1''"
  shows "ids (cs_list (run channels_step
      [ChCreate, ChFetch, ChReply (Suc (cs_next s)) (Lists (Some [c]) (Some [])), ChReply (cs_next s) (OneChannel c)] s)) =
    [''1'', ''1'']"
  using assms
  by (simp add: create_channel_def hub_call_def fetch_channels_def start_call_ch_def channel_replied_def Let_def
      the_list_def ids_def)

text \<open>A failed list of direct channels empties it: the channels that were shown are gone.\<close>

lemma failed_dms_vanish:
  "cs_calls s n = Some FetchCall \<Longrightarrow> cs_list (channel_replied n (Lists (Some cs) None) s) = cs"
  by (simp add: channel_replied_def Let_def the_list_def)

text \<open>A refetch is not cancelled by a change of hub: its channels replace those of the new hub.\<close>

lemma old_fetch_replaces:
  assumes "cs_calls s n = Some FetchCall" "cs_next s \<noteq> n"
  shows "cs_list (run channels_step [ChSession (Some (''h2'', ''t'')), ChReply n (Lists (Some cs) (Some []))] s) = cs"
  using assms
  by (simp add: session_channels_def start_call_ch_def channel_replied_def Let_def the_list_def)

section \<open>The selected channel\<close>

record hub_selection =
  hs_cache :: "string option option" \<comment> \<open>\<open>None\<close> before the first read\<close>
  hs_storage :: "string option"

text \<open>
  \<open>SelRead\<close> is a render; \<open>SelWrite\<close> selects; another tab writes the storage, and the browser then
  delivers the event with key and new value. \<open>ok\<close> says whether the storage can be written.
\<close>

datatype selection_op =
    SelRead
  | SelWrite "string option" bool
  | SelOtherTab "string option"
  | SelEvent bool "string option"

definition hs_snapshot :: "hub_selection \<Rightarrow> string option" where
  "hs_snapshot s = (case hs_cache s of None \<Rightarrow> hs_storage s | Some v \<Rightarrow> v)"

fun hs_upd :: "selection_op \<Rightarrow> hub_selection \<Rightarrow> hub_selection \<times> bool" where
  "hs_upd SelRead s = (s\<lparr>hs_cache := Some (hs_snapshot s)\<rparr>, False)"
| "hs_upd (SelWrite v ok) s = (s\<lparr>hs_cache := Some v, hs_storage := (if ok then v else hs_storage s)\<rparr>, True)"
| "hs_upd (SelOtherTab v) s = (s\<lparr>hs_storage := v\<rparr>, False)"
| "hs_upd (SelEvent mine v) s = (if mine then (s\<lparr>hs_cache := Some v\<rparr>, True) else (s, False))"

text \<open>Once it has been rendered, what a component shows is the selection.\<close>

interpretation selection: external_store hs_upd hs_snapshot "\<lambda>s. hs_cache s \<noteq> None"
proof
  fix s :: hub_selection and x
  assume g: "hs_cache s \<noteq> None"
  then show "hs_cache (fst (hs_upd x s)) \<noteq> None" by (cases x) auto
  show "hs_snapshot (fst (hs_upd x s)) = hs_snapshot s" if "\<not> snd (hs_upd x s)"
    using g that by (cases x) (auto simp: hs_snapshot_def split: if_splits)
qed

lemma selection_in_sync:
  "hs_cache s \<noteq> None \<Longrightarrow> consume hs_upd hs_snapshot xs (s, hs_snapshot s) = (s', v) \<Longrightarrow> v = hs_snapshot s'"
  using selection.consumer_in_sync [of s "hs_snapshot s" xs s' v] by simp

text \<open>
  When another tab clears the whole storage the event has no key, so this tab keeps its selection.
\<close>

lemma cleared_storage_ignored:
  "hs_cache s = Some v \<Longrightarrow> hs_snapshot (fst (hs_upd (SelEvent False None) (fst (hs_upd (SelOtherTab None) s)))) = v"
  by (simp add: hs_snapshot_def)

end
