(* ===== verification/Workspace.thy ===== *)
theory Workspace
  imports VideoHook Channels "HOL-Library.Multiset" Complex_Main
begin

text \<open>
  The call view: the tiles of \<open>frontend/components/hub/video-workspace/video-workspace.tsx\<close>, their
  order and pages, the spotlight of \<open>video-spotlight.tsx\<close>, and the grid of \<open>video-grid.tsx\<close>. Lengths
  are rational numbers: the rounding of JavaScript's doubles is not modelled.
\<close>

section \<open>Tiles\<close>

record camera_tile =
  ct_id :: string
  ct_user :: string
  ct_name :: string
  ct_avatar :: "string option"
  ct_audio :: "nat option"
  ct_video :: "nat option"
  ct_mic_muted :: bool
  ct_deafened :: bool
  ct_speaking :: bool
  ct_local :: bool
  ct_ringing :: bool

record screen_tile =
  st_id :: string
  st_owner :: string
  st_owner_name :: string
  st_video :: nat
  st_audio :: "nat option"
  st_local :: bool

datatype view_tile = CameraTile camera_tile | ScreenTile screen_tile

fun vt_id :: "view_tile \<Rightarrow> string" where
  "vt_id (CameraTile c) = ct_id c"
| "vt_id (ScreenTile s) = st_id s"

fun vt_local :: "view_tile \<Rightarrow> bool" where
  "vt_local (CameraTile c) = ct_local c"
| "vt_local (ScreenTile s) = st_local s"

fun vt_speaks :: "view_tile \<Rightarrow> bool" where
  "vt_speaks (CameraTile c) = ct_speaking c"
| "vt_speaks (ScreenTile s) = False"

text \<open>What the view reads from its contexts. A member is known by display name and avatar.\<close>

record view_input =
  vi_channel :: string
  vi_active :: "string option"
  vi_outgoing :: "string option"
  vi_session :: "(string \<times> string \<times> string \<times> string option) option" \<comment> \<open>id, user name, display name, avatar\<close>
  vi_members :: "(string \<times> string \<times> string option) list" \<comment> \<open>id, display name, avatar\<close>
  vi_participants :: "participant list"
  vi_camera :: "nat option" \<comment> \<open>first video track of the local stream\<close>
  vi_screen :: "nat option"
  vi_cam_enabled :: bool
  vi_mic_enabled :: bool
  vi_deafened :: bool
  vi_channels :: "channel list"

definition member_lookup :: "view_input \<Rightarrow> string \<Rightarrow> (string \<times> string option) option" where
  "member_lookup v =
     fold (\<lambda>(i, n, a) m. m(i \<mapsto> (n, a))) (vi_members v)
       (case vi_session v of None \<Rightarrow> (\<lambda>_. None) | Some (i, _, n, a) \<Rightarrow> [i \<mapsto> (n, a)])"

definition local_user :: "view_input \<Rightarrow> string" where
  "local_user v = (case vi_session v of None \<Rightarrow> ''local'' | Some (i, _) \<Rightarrow> i)"

definition local_name :: "view_input \<Rightarrow> string" where
  "local_name v =
     (case member_lookup v (local_user v) of
        Some (n, _) \<Rightarrow> n
      | None \<Rightarrow> (case vi_session v of Some (_, _, n, _) \<Rightarrow> n | None \<Rightarrow> ''anonymous''))"

definition local_avatar :: "view_input \<Rightarrow> string option" where
  "local_avatar v =
     (case member_lookup v (local_user v) of
        Some (_, Some a) \<Rightarrow> Some a
      | _ \<Rightarrow> (case vi_session v of Some (_, _, _, a) \<Rightarrow> a | None \<Rightarrow> None))"

definition name_of :: "view_input \<Rightarrow> string \<Rightarrow> string" where
  "name_of v u = (case member_lookup v u of Some (n, _) \<Rightarrow> n | None \<Rightarrow> u)"

definition avatar_of :: "view_input \<Rightarrow> string \<Rightarrow> string option" where
  "avatar_of v u = (case member_lookup v u of Some (_, a) \<Rightarrow> a | None \<Rightarrow> None)"

definition local_tile :: "view_input \<Rightarrow> view_tile" where
  "local_tile v = CameraTile
     \<lparr>ct_id = ''local'', ct_user = local_user v, ct_name = local_name v, ct_avatar = local_avatar v,
      ct_audio = None, ct_video = (if vi_cam_enabled v then vi_camera v else None),
      ct_mic_muted = (\<not> vi_mic_enabled v), ct_deafened = vi_deafened v, ct_speaking = False,
      ct_local = True, ct_ringing = False\<rparr>"

definition participant_tile :: "view_input \<Rightarrow> participant \<Rightarrow> view_tile" where
  "participant_tile v p = CameraTile
     \<lparr>ct_id = p_id p, ct_user = p_user p, ct_name = name_of v (p_user p), ct_avatar = avatar_of v (p_user p),
      ct_audio = p_audio p, ct_video = p_video p, ct_mic_muted = p_mic_muted p, ct_deafened = p_deafened p,
      ct_speaking = p_speaking p, ct_local = False, ct_ringing = False\<rparr>"

text \<open>The peer of an outgoing direct call, until he joins.\<close>

definition ringing_peer :: "view_input \<Rightarrow> string option" where
  "ringing_peer v =
     (if vi_outgoing v = Some (vi_channel v) \<and> vi_channel v \<noteq> [] \<and> vi_active v = Some (vi_channel v)
      then (case find (\<lambda>c. ch_id c = vi_channel v) (vi_channels v) of
              None \<Rightarrow> None
            | Some c \<Rightarrow>
                (case find (\<lambda>i. i \<noteq> local_user v) (ch_participants c) of
                   None \<Rightarrow> None
                 | Some u \<Rightarrow>
                     if u = [] \<or> (\<exists>p \<in> set (vi_participants v). p_user p = u) then None else Some u))
      else None)"

definition ringing_tiles :: "view_input \<Rightarrow> view_tile list" where
  "ringing_tiles v =
     (case ringing_peer v of
        None \<Rightarrow> []
      | Some u \<Rightarrow> [CameraTile
          \<lparr>ct_id = ''ringing-'' @ u, ct_user = u, ct_name = name_of v u, ct_avatar = avatar_of v u,
           ct_audio = None, ct_video = None, ct_mic_muted = True, ct_deafened = False, ct_speaking = False,
           ct_local = False, ct_ringing = True\<rparr>])"

definition screen_tiles :: "view_input \<Rightarrow> view_tile list" where
  "screen_tiles v =
     (case vi_screen v of
        None \<Rightarrow> []
      | Some t \<Rightarrow> [ScreenTile
          \<lparr>st_id = ''local-screen'', st_owner = local_user v, st_owner_name = local_name v, st_video = t,
           st_audio = None, st_local = True\<rparr>]) @
     List.map_filter
       (\<lambda>p. map_option
          (\<lambda>t. ScreenTile
             \<lparr>st_id = p_id p @ ''-screen'', st_owner = p_user p, st_owner_name = name_of v (p_user p),
              st_video = t, st_audio = p_screen_audio p, st_local = False\<rparr>)
          (p_screen_video p))
       (vi_participants v)"

definition build_tiles :: "view_input \<Rightarrow> view_tile list" where
  "build_tiles v =
     local_tile v # map (participant_tile v) (vi_participants v) @ ringing_tiles v @ screen_tiles v"

section \<open>Order and pages\<close>

definition PAGE_SIZE :: nat where
  "PAGE_SIZE = 12"

text \<open>\<open>sort\<close> is stable in JavaScript as \<open>sort_key\<close> is.\<close>

definition sorted_tiles :: "view_tile list \<Rightarrow> view_tile list" where
  "sorted_tiles ts =
     (if length ts \<le> PAGE_SIZE then ts
      else filter vt_local ts @ sort_key (\<lambda>t. if vt_speaks t then 0 else 1 :: nat) (filter (\<lambda>t. \<not> vt_local t) ts))"

definition pages :: "view_tile list \<Rightarrow> nat" where
  "pages ts = max 1 ((length ts + (PAGE_SIZE - 1)) div PAGE_SIZE)"

definition clamped_page :: "nat \<Rightarrow> view_tile list \<Rightarrow> nat" where
  "clamped_page page ts = min page (pages ts - 1)"

definition page_tiles :: "nat \<Rightarrow> view_tile list \<Rightarrow> view_tile list" where
  "page_tiles page ts =
     (let s = sorted_tiles ts in
      if pages s > 1 then take PAGE_SIZE (drop (clamped_page page s * PAGE_SIZE) s) else s)"

datatype layout_mode = Grid | Spotlight

definition on_pin :: "string \<Rightarrow> layout_mode \<times> string option \<Rightarrow> layout_mode \<times> string option" where
  "on_pin i s = (if s = (Spotlight, Some i) then (Grid, None) else (Spotlight, Some i))"

text \<open>The spotlight: a pinned tile, or the first, and at most eight others.\<close>

definition spotlight :: "string option \<Rightarrow> view_tile list \<Rightarrow> (view_tile \<times> view_tile list) option" where
  "spotlight i ts =
     (case ts of
        [] \<Rightarrow> None
      | t # _ \<Rightarrow>
          (let big = (case find (\<lambda>x. Some (vt_id x) = i) ts of None \<Rightarrow> t | Some x \<Rightarrow> x) in
           Some (big, take 8 (filter (\<lambda>x. vt_id x \<noteq> vt_id big) ts))))"

lemma sorted_tiles_mset: "mset (sorted_tiles ts) = mset ts"
  by (simp add: sorted_tiles_def mset_filter)

lemma sorted_tiles_length [simp]: "length (sorted_tiles ts) = length ts"
  by (metis sorted_tiles_mset size_mset)

lemma chunks:
  "0 < n \<Longrightarrow> length xs \<le> k * n \<Longrightarrow> concat (map (\<lambda>i. take n (drop (i * n) xs)) [0 ..< k]) = xs"
proof (induction k arbitrary: xs)
  case (Suc k)
  have "map (\<lambda>i. take n (drop (i * n) xs)) [0 ..< Suc k] =
      take n xs # map (\<lambda>i. take n (drop (i * n) (drop n xs))) [0 ..< k]"
    by (simp add: upt_conv_Cons map_Suc_upt [symmetric] add.commute del: upt_Suc)
  moreover have "concat (map (\<lambda>i. take n (drop (i * n) (drop n xs))) [0 ..< k]) = drop n xs"
    using Suc by (intro Suc.IH) simp_all
  ultimately show ?case by simp
qed simp


definition demo_camera :: camera_tile where
  "demo_camera = \<lparr>ct_id = ''c'', ct_user = ''u'', ct_name = ''U'', ct_avatar = None, ct_audio = None, ct_video = None,
     ct_mic_muted = False, ct_deafened = False, ct_speaking = False, ct_local = False, ct_ringing = False\<rparr>"

definition demo_tiles :: "view_tile list" where
  "demo_tiles = replicate 12 (CameraTile demo_camera) @ [CameraTile (demo_camera\<lparr>ct_local := True\<rparr>)]"


text \<open>In the spotlight the tiles after the ninth cannot be seen.\<close>

lemma spotlight_hides:
  "spotlight i ts = Some (big, strip) \<Longrightarrow> length strip \<le> 8"
  by (auto simp: spotlight_def Let_def split: list.splits)

text \<open>Pinning twice goes back to the grid.\<close>

lemma pin_twice: "on_pin i (on_pin i (Grid, x)) = (Grid, None)"
  by (simp add: on_pin_def)

section \<open>The grid\<close>

definition TILE_ASPECT :: rat where
  "TILE_ASPECT = 16 / 10"

definition GAP :: rat where
  "GAP = 10"

datatype tile_size = XS | SM | MD | LG

definition pick_tile_size :: "rat \<Rightarrow> tile_size" where
  "pick_tile_size px = (if px < 110 then XS else if px < 180 then SM else if px < 260 then MD else LG)"

record grid =
  g_area :: rat
  g_cols :: nat
  g_rows :: nat
  g_tile_w :: rat
  g_tile_h :: rat

definition cell :: "rat \<Rightarrow> nat \<Rightarrow> rat" where
  "cell space n = (space - GAP * (of_nat n - 1)) / of_nat n"

definition rows_for :: "nat \<Rightarrow> nat \<Rightarrow> nat" where
  "rows_for num cols = (num + cols - 1) div cols"

definition fit_tile :: "rat \<Rightarrow> rat \<Rightarrow> rat \<times> rat" where
  "fit_tile w h = (if w / TILE_ASPECT > h then (h * TILE_ASPECT, h) else (w, w / TILE_ASPECT))"

definition try_cols :: "nat \<Rightarrow> rat \<Rightarrow> rat \<Rightarrow> nat \<Rightarrow> grid \<Rightarrow> grid" where
  "try_cols num cw chh cols best =
     (let rows = rows_for num cols; w = cell cw cols; h = cell chh rows in
      if w \<le> 0 \<or> h \<le> 0 then best
      else case fit_tile w h of (tw, th) \<Rightarrow>
        if tw * th > g_area best
        then \<lparr>g_area = tw * th, g_cols = cols, g_rows = rows, g_tile_w = tw, g_tile_h = th\<rparr> else best)"

definition no_grid :: grid where
  "no_grid = \<lparr>g_area = 0, g_cols = 1, g_rows = 1, g_tile_w = 0, g_tile_h = 0\<rparr>"

definition compute_layout :: "nat \<Rightarrow> rat \<Rightarrow> rat \<Rightarrow> grid" where
  "compute_layout num cw chh =
     (if num = 0 \<or> cw \<le> 0 \<or> chh \<le> 0 then no_grid
      else fold (try_cols num cw chh) [1 ..< Suc num] no_grid)"

text \<open>A grid that shows \<open>num\<close> tiles of the aspect inside the container.\<close>

definition fits :: "nat \<Rightarrow> rat \<Rightarrow> rat \<Rightarrow> grid \<Rightarrow> bool" where
  "fits num cw chh g \<longleftrightarrow>
     0 < g_tile_w g \<and> 0 < g_tile_h g \<and> g_tile_w g = TILE_ASPECT * g_tile_h g \<and> g_area g = g_tile_w g * g_tile_h g \<and>
     num \<le> g_cols g * g_rows g \<and> 0 < g_cols g \<and> 0 < g_rows g \<and>
     of_nat (g_cols g) * g_tile_w g + GAP * (of_nat (g_cols g) - 1) \<le> cw \<and>
     of_nat (g_rows g) * g_tile_h g + GAP * (of_nat (g_rows g) - 1) \<le> chh"

lemma rows_for_enough: "0 < cols \<Longrightarrow> num \<le> cols * rows_for num cols"
proof -
  assume c: "0 < cols"
  define n where "n = num + cols - 1"
  have "n = cols * (n div cols) + n mod cols" by simp
  moreover have "n mod cols < cols" using c by simp
  ultimately have "num \<le> cols * (n div cols)" using c n_def by linarith
  then show ?thesis by (simp only: rows_for_def n_def)
qed

lemma rows_for_pos: "0 < cols \<Longrightarrow> 0 < num \<Longrightarrow> 0 < rows_for num cols"
  using rows_for_enough [of cols num] by (cases "rows_for num cols") auto

lemma rows_for_least:
  assumes "0 < cols" "num \<le> cols * rows"
  shows "rows_for num cols \<le> rows"
proof -
  have "num + cols - 1 < cols * Suc rows" using assms by simp
  then have "(num + cols - 1) div cols < Suc rows" by (simp add: less_mult_imp_div_less mult.commute)
  then show ?thesis by (simp add: rows_for_def)
qed

lemma cell_uses: "0 < n \<Longrightarrow> of_nat n * cell space n + GAP * (of_nat n - 1) = space"
  by (simp add: cell_def field_simps)

lemma fit_tile_fits:
  assumes "fit_tile w h = (tw, th)" "0 < w" "0 < h"
  shows "tw \<le> w" "th \<le> h" "0 < tw" "0 < th" "tw = TILE_ASPECT * th"
  using assms by (auto simp: fit_tile_def TILE_ASPECT_def field_simps split: if_splits)

lemma fit_tile_best:
  assumes "fit_tile w h = (tw, th)" "x \<le> w" "y \<le> h" "0 < x" "0 < y" "x = TILE_ASPECT * y"
  shows "x * y \<le> tw * th"
proof -
  have "x \<le> tw" "y \<le> th" using assms by (auto simp: fit_tile_def TILE_ASPECT_def field_simps split: if_splits)
  then show ?thesis using assms(4,5) by (intro mult_mono) auto
qed

lemma try_cols_fits:
  assumes "g = no_grid \<or> fits num cw chh g" "0 < cols" "0 < num"
  shows "try_cols num cw chh cols g = g \<or> fits num cw chh (try_cols num cw chh cols g)"
proof (cases "cell cw cols \<le> 0 \<or> cell chh (rows_for num cols) \<le> 0")
  case False
  obtain tw th where t: "fit_tile (cell cw cols) (cell chh (rows_for num cols)) = (tw, th)" by force
  note f = fit_tile_fits [OF t]
  have r: "0 < rows_for num cols" "num \<le> cols * rows_for num cols"
    using rows_for_pos rows_for_enough assms(2,3) by auto
  have "of_nat cols * tw \<le> of_nat cols * cell cw cols"
    "of_nat (rows_for num cols) * th \<le> of_nat (rows_for num cols) * cell chh (rows_for num cols)"
    using f False by (intro mult_left_mono; simp)+
  with cell_uses [OF assms(2), of cw] cell_uses [OF r(1), of chh]
  have "of_nat cols * tw + GAP * (of_nat cols - 1) \<le> cw"
    "of_nat (rows_for num cols) * th + GAP * (of_nat (rows_for num cols) - 1) \<le> chh" by linarith+
  moreover have "0 < tw" "0 < th" "tw = TILE_ASPECT * th" using f False by auto
  ultimately have "fits num cw chh \<lparr>g_area = tw * th, g_cols = cols, g_rows = rows_for num cols, g_tile_w = tw, g_tile_h = th\<rparr>"
    using r assms(2) unfolding fits_def grid.simps by blast
  then show ?thesis using False t by (simp add: try_cols_def Let_def)
qed (simp add: try_cols_def Let_def)

lemma try_cols_area:
  "g_area g \<le> g_area (try_cols num cw chh cols g)"
  by (auto simp: try_cols_def Let_def split: prod.split)

lemma try_cols_least:
  assumes "0 \<le> g_area g"
  shows "g_area (try_cols num cw chh c no_grid) \<le> g_area (try_cols num cw chh c g)"
  using assms by (auto simp: try_cols_def no_grid_def Let_def split: prod.split)

lemma fits_area: "g = no_grid \<or> fits num cw chh g \<Longrightarrow> 0 \<le> g_area g"
  by (auto simp: fits_def no_grid_def)

lemma fold_cols:
  assumes "\<forall>c \<in> set cs. 0 < c" "0 < num" "g = no_grid \<or> fits num cw chh g"
  shows "(fold (try_cols num cw chh) cs g = no_grid \<or> fits num cw chh (fold (try_cols num cw chh) cs g)) \<and>
    g_area g \<le> g_area (fold (try_cols num cw chh) cs g) \<and>
    (\<forall>c \<in> set cs. g_area (try_cols num cw chh c no_grid) \<le> g_area (fold (try_cols num cw chh) cs g))"
  using assms
proof (induction cs arbitrary: g)
  case (Cons d cs)
  let ?h = "try_cols num cw chh d g"
  have h: "?h = no_grid \<or> fits num cw chh ?h"
    using try_cols_fits [OF Cons.prems(3), of d] Cons.prems by auto
  have "g_area (try_cols num cw chh d no_grid) \<le> g_area ?h"
    using try_cols_least [OF fits_area [OF Cons.prems(3)]] .
  with Cons.IH [OF _ Cons.prems(2) h] Cons.prems(1) try_cols_area [of g num cw chh d] show ?case by fastforce
qed auto

lemma cell_antimono:
  assumes "0 < m" "m \<le> n" "0 < space"
  shows "cell space n \<le> cell space m"
proof -
  have c: "cell space k = (space + GAP) / of_nat k - GAP" if "0 < k" for k
    using that by (simp add: cell_def field_simps)
  have "(space + GAP) / of_nat n \<le> (space + GAP) / of_nat m"
    using assms by (intro divide_left_mono) (simp_all add: GAP_def)
  with c assms show ?thesis by simp
qed

lemma cell_bound:
  "0 < n \<Longrightarrow> of_nat n * x + GAP * (of_nat n - 1) \<le> space \<Longrightarrow> x \<le> cell space n"
  by (simp add: cell_def field_simps)

lemma cols_beat:
  assumes "fits num cw chh g" "0 < cw" "0 < chh" "0 < num"
  shows "g_area g \<le> g_area (try_cols num cw chh (g_cols g) no_grid)"
proof -
  let ?r = "rows_for num (g_cols g)"
  from assms(1) have g: "0 < g_tile_w g" "0 < g_tile_h g" "g_tile_w g = TILE_ASPECT * g_tile_h g"
    "g_area g = g_tile_w g * g_tile_h g" "num \<le> g_cols g * g_rows g" "0 < g_cols g" "0 < g_rows g" by (auto simp: fits_def)
  have w: "g_tile_w g \<le> cell cw (g_cols g)" using assms(1) by (intro cell_bound) (auto simp: fits_def)
  have h: "g_tile_h g \<le> cell chh (g_rows g)" using assms(1) by (intro cell_bound) (auto simp: fits_def)
  have "?r \<le> g_rows g" using rows_for_least g(5,6) by blast
  have "0 < ?r" using rows_for_pos [OF g(6) assms(4)] .
  with \<open>?r \<le> g_rows g\<close> assms(3) have "cell chh (g_rows g) \<le> cell chh ?r" by (intro cell_antimono) auto
  with h have h2: "g_tile_h g \<le> cell chh ?r" by simp
  obtain tw th where t: "fit_tile (cell cw (g_cols g)) (cell chh ?r) = (tw, th)" by force
  have "g_area g \<le> tw * th" using fit_tile_best [OF t w h2] g by simp
  moreover have "0 < g_area g" using g by simp
  ultimately show ?thesis using t w h2 g(1,2) by (simp add: try_cols_def Let_def no_grid_def)
qed

text \<open>C24. The grid that is shown is the best one: it holds all tiles, its tiles have the aspect 16 to 10 and
  stay with their gaps inside the container, and no other grid with at most as many columns as tiles that
  does so has larger tiles; nothing is shown only if no such grid exists.\<close>

theorem grid_is_largest_that_fits:
  assumes "0 < num" "0 < cw" "0 < chh" "g = compute_layout num cw chh"
  shows "(g_tile_w g > 0 \<longrightarrow> fits num cw chh g) \<and>
    (\<forall>h. fits num cw chh h \<and> g_cols h \<le> num \<longrightarrow> g_area h \<le> g_area g \<and> 0 < g_tile_w g)"
proof -
  have g: "g = fold (try_cols num cw chh) [1 ..< Suc num] no_grid"
    using assms by (simp add: compute_layout_def del: upt_Suc)
  have f: "(g = no_grid \<or> fits num cw chh g) \<and> g_area no_grid \<le> g_area g \<and>
      (\<forall>c \<in> set [1 ..< Suc num]. g_area (try_cols num cw chh c no_grid) \<le> g_area g)"
    unfolding g using assms(1) by (intro fold_cols) auto
  have "g_area h \<le> g_area g \<and> 0 < g_tile_w g" if h: "fits num cw chh h" "g_cols h \<le> num" for h
  proof -
    have "0 < g_cols h" using h(1) by (simp add: fits_def)
    with f h(2) have "g_area (try_cols num cw chh (g_cols h) no_grid) \<le> g_area g" by (auto simp del: upt_Suc)
    with cols_beat [OF h(1) assms(2,3,1)] have le: "g_area h \<le> g_area g" by simp
    moreover have "0 < g_area h" using h(1) by (simp add: fits_def)
    ultimately have "g \<noteq> no_grid" by (auto simp: no_grid_def)
    with f le show ?thesis by (simp add: fits_def)
  qed
  moreover have "g_tile_w g > 0 \<longrightarrow> fits num cw chh g" using f by (auto simp: no_grid_def)
  ultimately show ?thesis by blast
qed

theorem grid_is_largest_that_fits_witness:
  "fits 2 340 100 (compute_layout 2 340 100) \<and> g_cols (compute_layout 2 340 100) = 2 \<and>
   g_tile_w (compute_layout 2 340 100) = 160"
proof -
  have c: "g_cols (compute_layout 2 340 100) = 2" "g_tile_w (compute_layout 2 340 100) = 160"
    by code_simp+
  with grid_is_largest_that_fits [of 2 340 100 "compute_layout 2 340 100"] show ?thesis by simp
qed

end
