(* ===== verification/TileAudio.thy ===== *)
theory TileAudio
  imports Prelude Complex_Main
begin

text \<open>
  \<open>useTileAudio\<close> of \<open>frontend/hooks/use-tile-audio.ts\<close> with the shared context of
  \<open>frontend/lib/audio-context.ts\<close>: the Web Audio graph of one remote track and the element it falls
  back to. A render runs the effects whose dependencies changed, in their order, the first cleanup
  before its effect. Volumes are rational; a gain is the value it is set to.
\<close>

section \<open>The shared context\<close>

datatype audio_state = Running | Suspended

record audio_ctx =
  ac_ctx :: "audio_state option"
  ac_resumes :: nat

text \<open>\<open>can\<close>: whether the browser has a constructor that does not throw.\<close>

definition get_audio_context :: "bool \<Rightarrow> audio_ctx \<Rightarrow> audio_ctx \<times> bool" where
  "get_audio_context can s =
     (case ac_ctx s of
        Some st \<Rightarrow> (if st = Suspended then s\<lparr>ac_resumes := Suc (ac_resumes s)\<rparr> else s, True)
      | None \<Rightarrow>
          if can then (s\<lparr>ac_ctx := Some Suspended, ac_resumes := Suc (ac_resumes s)\<rparr>, True) else (s, False))"

lemma one_context:
  "ac_ctx s \<noteq> None \<Longrightarrow> snd (get_audio_context can s) \<and> ac_ctx (fst (get_audio_context can s)) = ac_ctx s"
  by (auto simp: get_audio_context_def)

section \<open>The tile\<close>

record tile_audio =
  ta_deps :: "(nat option \<times> rat \<times> bool) option" \<comment> \<open>track, volume, muted of the last render\<close>
  ta_graph :: "(nat \<times> nat \<times> rat) option" \<comment> \<open>node, track, gain\<close>
  ta_connected :: "nat list" \<comment> \<open>nodes connected to the output\<close>
  ta_next :: nat
  ta_src :: "nat option"
  ta_el_muted :: bool
  ta_el_volume :: rat

definition new_tile_audio :: tile_audio where
  "new_tile_audio = \<lparr>ta_deps = None, ta_graph = None, ta_connected = [], ta_next = 0, ta_src = None,
     ta_el_muted = False, ta_el_volume = 1\<rparr>"

definition wanted :: "rat \<Rightarrow> bool \<Rightarrow> rat" where
  "wanted volume muted = (if muted then 0 else volume)"

definition clamp1 :: "rat \<Rightarrow> rat" where
  "clamp1 x = min 1 (max 0 x)"

definition disconnect_graph :: "tile_audio \<Rightarrow> tile_audio" where
  "disconnect_graph s =
     (case ta_graph s of
        None \<Rightarrow> s
      | Some (n, _) \<Rightarrow> s\<lparr>ta_graph := None, ta_connected := removeAll n (ta_connected s)\<rparr>)"

text \<open>\<open>graph\<close>: whether there is a context and the source node can be created.\<close>

definition track_effect :: "bool \<Rightarrow> nat option \<Rightarrow> rat \<Rightarrow> bool \<Rightarrow> tile_audio \<Rightarrow> tile_audio" where
  "track_effect graph track volume muted s =
     (let s1 = disconnect_graph s in
      case track of
        None \<Rightarrow> s1\<lparr>ta_src := None\<rparr>
      | Some t \<Rightarrow>
          if graph
          then s1\<lparr>ta_src := Some t, ta_el_muted := True, ta_graph := Some (ta_next s, t, wanted volume muted),
                  ta_connected := ta_connected s1 @ [ta_next s], ta_next := Suc (ta_next s)\<rparr>
          else s1\<lparr>ta_src := Some t, ta_el_muted := False, ta_el_volume := clamp1 (wanted volume muted)\<rparr>)"

definition volume_effect :: "rat \<Rightarrow> bool \<Rightarrow> tile_audio \<Rightarrow> tile_audio" where
  "volume_effect volume muted s =
     (case ta_graph s of
        Some (n, t, _) \<Rightarrow> s\<lparr>ta_graph := Some (n, t, wanted volume muted)\<rparr>
      | None \<Rightarrow> s\<lparr>ta_el_muted := False, ta_el_volume := clamp1 (wanted volume muted)\<rparr>)"

definition render_tile :: "bool \<Rightarrow> nat option \<Rightarrow> rat \<Rightarrow> bool \<Rightarrow> tile_audio \<Rightarrow> tile_audio" where
  "render_tile graph track volume muted s =
     (let s1 = (if \<exists>v m. ta_deps s = Some (track, v, m) then s else track_effect graph track volume muted s);
          s2 = (if \<exists>t. ta_deps s = Some (t, volume, muted) then s1 else volume_effect volume muted s1)
      in s2\<lparr>ta_deps := Some (track, volume, muted)\<rparr>)"

definition unmount_tile :: "tile_audio \<Rightarrow> tile_audio" where
  "unmount_tile s = (case ta_graph s of None \<Rightarrow> s | Some (n, _) \<Rightarrow> s\<lparr>ta_connected := removeAll n (ta_connected s)\<rparr>)"

text \<open>The levels at which a track reaches the speakers, one entry per path.\<close>

definition heard :: "nat \<Rightarrow> tile_audio \<Rightarrow> rat list" where
  "heard t s =
     (case ta_graph s of Some (n, u, g) \<Rightarrow> if u = t \<and> n \<in> set (ta_connected s) then [g] else [] | None \<Rightarrow> []) @
     (if ta_src s = Some t \<and> \<not> ta_el_muted s then [ta_el_volume s] else [])"

definition tile_inv :: "tile_audio \<Rightarrow> bool" where
  "tile_inv s \<longleftrightarrow>
     (case ta_graph s of
        None \<Rightarrow> ta_connected s = [] \<and>
          (case ta_deps s of None \<Rightarrow> ta_src s = None
           | Some (track, v, m) \<Rightarrow> ta_src s = track \<and> \<not> (track \<noteq> None \<and> ta_el_muted s) \<and>
               (track \<noteq> None \<longrightarrow> ta_el_volume s = clamp1 (wanted v m)))
      | Some (n, t, g) \<Rightarrow> ta_connected s = [n] \<and> ta_src s = Some t \<and> ta_el_muted s \<and>
          (case ta_deps s of None \<Rightarrow> False | Some (track, v, m) \<Rightarrow> track = Some t \<and> g = wanted v m))"

fun tile_step :: "bool \<times> nat option \<times> rat \<times> bool \<Rightarrow> tile_audio \<Rightarrow> tile_audio" where
  "tile_step (graph, track, volume, muted) s = render_tile graph track volume muted s"

lemma tile_inv_new: "tile_inv new_tile_audio"
  by (simp add: tile_inv_def new_tile_audio_def)

lemma tile_inv_step: "tile_inv s \<Longrightarrow> tile_inv (tile_step e s)"
  by (cases e)
    (auto simp: tile_inv_def render_tile_def track_effect_def volume_effect_def disconnect_graph_def Let_def
      split: option.splits prod.splits)

interpretation tile: invariant_machine tile_step "\<lambda>_ _. True" tile_inv
  by unfold_locales (rule tile_inv_step)

text \<open>C16. After every render, whatever tracks, volumes and deafening came before: the track of the tile
  reaches the speakers on exactly one path, at the volume chosen (or silent when deafened), at most at full
  volume when there is no Web Audio; no other track is heard, and no node of an earlier track stays
  connected, also after the tile is gone.\<close>

theorem track_heard_once:
  "let s = run tile_step (es @ [(graph, track, volume, muted)]) new_tile_audio in
    (\<forall>t. heard t s =
       (if track \<noteq> Some t then []
        else if ta_graph s \<noteq> None then [wanted volume muted] else [clamp1 (wanted volume muted)])) \<and>
    length (ta_connected s) = (if ta_graph s = None then 0 else 1) \<and>
    ta_connected (unmount_tile s) = []"
proof -
  define s where "s = run tile_step (es @ [(graph, track, volume, muted)]) new_tile_audio"
  have "guarded tile_step (\<lambda>_ _. True) fs u" for fs u by (induction fs arbitrary: u) simp_all
  then have i: "tile_inv s" unfolding s_def by (intro tile.inv_run [OF tile_inv_new])
  have d: "ta_deps s = Some (track, volume, muted)" by (simp add: s_def render_tile_def Let_def)
  show ?thesis
    unfolding s_def [symmetric] Let_def
    using i d by (auto simp: tile_inv_def heard_def unmount_tile_def split: option.splits prod.splits)
qed

end
