(* ===== verification/VideoDebug.thy ===== *)
theory VideoDebug
  imports Prelude
begin

text \<open>
  The diagnostics of a call: the log and snapshots of \<open>frontend/hooks/use-video-debug.ts\<close>, their upload
  by \<open>frontend/components/hub/debug-uploader.tsx\<close>, and the switch of \<open>frontend/lib/video-trace.ts\<close>.
\<close>

section \<open>Log and snapshots\<close>

datatype log_level = LInfo | LWarn | LError

record log_entry =
  le_time :: int
  le_level :: log_level
  le_type :: string
  le_msg :: string

text \<open>What the SDK emits: a debug message, or another event by its type.\<close>

datatype sdk_event = DebugEvent log_level string | OtherEvent string

definition log_entry_of :: "int \<Rightarrow> sdk_event \<Rightarrow> log_entry" where
  "log_entry_of now e =
     (case e of
        DebugEvent l m \<Rightarrow> \<lparr>le_time = now, le_level = l, le_type = ''debug'', le_msg = m\<rparr>
      | OtherEvent t \<Rightarrow>
          \<lparr>le_time = now, le_level = (if t = ''error'' then LError else LInfo), le_type = t, le_msg = t\<rparr>)"

record diagnostics =
  dg_user :: string
  dg_session :: string
  dg_participant :: "string option"

record video_debug =
  vd_logs :: "log_entry list"
  vd_diag :: "diagnostics option"
  vd_client :: "nat option"
  vd_polls :: "(nat \<times> nat) list" \<comment> \<open>poll, client it asked\<close>
  vd_next :: nat

definition MAX_LOG_ENTRIES :: nat where
  "MAX_LOG_ENTRIES = 500"

definition new_video_debug :: video_debug where
  "new_video_debug = \<lparr>vd_logs = [], vd_diag = None, vd_client = None, vd_polls = [], vd_next = 0\<rparr>"

text \<open>\<open>xs.slice(-n)\<close> for positive \<open>n\<close>.\<close>

definition slice_last :: "nat \<Rightarrow> 'a list \<Rightarrow> 'a list" where
  "slice_last n xs = drop (length xs - n) xs"

definition append_log :: "log_entry \<Rightarrow> log_entry list \<Rightarrow> log_entry list" where
  "append_log e ls = slice_last (MAX_LOG_ENTRIES - 1) ls @ [e]"

definition poll :: "video_debug \<Rightarrow> video_debug" where
  "poll s =
     (case vd_client s of
        None \<Rightarrow> s
      | Some c \<Rightarrow> s\<lparr>vd_polls := vd_polls s @ [(vd_next s, c)], vd_next := Suc (vd_next s)\<rparr>)"

text \<open>The effect of a client: its cleanup unsubscribes and cancels, then it polls at once.\<close>

definition set_client :: "nat option \<Rightarrow> video_debug \<Rightarrow> video_debug" where
  "set_client c s = poll (s\<lparr>vd_client := c\<rparr>)"

definition sdk_emits :: "nat \<Rightarrow> int \<Rightarrow> sdk_event \<Rightarrow> video_debug \<Rightarrow> video_debug" where
  "sdk_emits c now e s =
     (if vd_client s = Some c then s\<lparr>vd_logs := append_log (log_entry_of now e) (vd_logs s)\<rparr> else s)"

definition polled :: "nat \<Rightarrow> diagnostics option \<Rightarrow> video_debug \<Rightarrow> video_debug" where
  "polled n r s =
     (case map_of (vd_polls s) n of
        None \<Rightarrow> s
      | Some c \<Rightarrow>
          (let s1 = s\<lparr>vd_polls := filter (\<lambda>p. fst p \<noteq> n) (vd_polls s)\<rparr> in
           case r of
             None \<Rightarrow> s1
           | Some d \<Rightarrow> if vd_client s = Some c then s1\<lparr>vd_diag := Some d\<rparr> else s1))"

definition clear_logs :: "video_debug \<Rightarrow> video_debug" where
  "clear_logs s = s\<lparr>vd_logs := []\<rparr>"

record debug_bundle =
  db_user :: "string option"
  db_session :: "string option"
  db_participant :: "string option"
  db_diag :: "diagnostics option"
  db_logs :: "log_entry list"

definition build_bundle :: "video_debug \<Rightarrow> debug_bundle" where
  "build_bundle s =
     (case vd_diag s of
        None \<Rightarrow> \<lparr>db_user = None, db_session = None, db_participant = None, db_diag = None, db_logs = vd_logs s\<rparr>
      | Some d \<Rightarrow> \<lparr>db_user = Some (dg_user d), db_session = Some (dg_session d), db_participant = dg_participant d,
                   db_diag = Some d, db_logs = vd_logs s\<rparr>)"

text \<open>The log is the last 500 entries of everything appended.\<close>

lemma slice_last_snoc: "0 < n \<Longrightarrow> slice_last (n - 1) (slice_last n xs) @ [x] = slice_last n (xs @ [x])"
proof (cases "length xs < n")
  case True
  assume "0 < n"
  with True show ?thesis by (simp add: slice_last_def)
next
  case False
  assume "0 < n"
  with False have "length xs - (length xs - n) - (n - 1) + (length xs - n) = Suc (length xs) - n"
    "Suc (length xs) - n \<le> length xs" by auto
  then show ?thesis by (simp add: slice_last_def)
qed

lemma log_is_last_500: "fold append_log es [] = slice_last MAX_LOG_ENTRIES es"
proof (induction es rule: rev_induct)
  case (snoc e es)
  have "0 < MAX_LOG_ENTRIES" by (simp add: MAX_LOG_ENTRIES_def)
  from slice_last_snoc [OF this, of es e] snoc show ?case by (simp add: append_log_def)
qed (simp add: slice_last_def)

lemma log_bounded: "length (append_log e ls) \<le> MAX_LOG_ENTRIES"
  by (simp add: append_log_def slice_last_def MAX_LOG_ENTRIES_def)

text \<open>
  A change of call keeps the snapshot and the log of the call before: until its first poll is answered
  the bundle carries the identity of the earlier session.
\<close>

lemma bundle_of_previous_call:
  "db_session (build_bundle (set_client (Some c) s)) = db_session (build_bundle s)"
  by (simp add: set_client_def poll_def build_bundle_def split: option.split)

section \<open>Upload\<close>

record uploader =
  ul_active :: "string option" \<comment> \<open>session of the running effect\<close>
  ul_posts :: "(string \<times> bool) list" \<comment> \<open>session, keepalive\<close>

definition debug_active :: "bool \<Rightarrow> nat option \<Rightarrow> string option \<Rightarrow> bool" where
  "debug_active enabled client session \<longleftrightarrow> enabled \<and> client \<noteq> None \<and> session \<noteq> None \<and> session \<noteq> Some []"

definition post_bundle :: "bool \<Rightarrow> uploader \<Rightarrow> uploader" where
  "post_bundle keepalive s =
     (case ul_active s of None \<Rightarrow> s | Some i \<Rightarrow> s\<lparr>ul_posts := ul_posts s @ [(i, keepalive)]\<rparr>)"

text \<open>A render: when activity or session change the cleanup posts once more.\<close>

definition render_uploader :: "bool \<Rightarrow> nat option \<Rightarrow> string option \<Rightarrow> uploader \<Rightarrow> uploader" where
  "render_uploader enabled client session s =
     (let next_session = (if debug_active enabled client session then session else None) in
      if next_session = ul_active s then s else (post_bundle True s)\<lparr>ul_active := next_session\<rparr>)"

lemma disabled_never_posts: "ul_active s = None \<Longrightarrow> post_bundle k s = s"
  by (simp add: post_bundle_def)

lemma final_flush:
  "ul_active s = Some i \<Longrightarrow> ul_posts (render_uploader enabled None x s) = ul_posts s @ [(i, True)]"
  by (simp add: render_uploader_def debug_active_def post_bundle_def Let_def)

section \<open>The switch\<close>

text \<open>The flag in \<open>localStorage\<close>; a change in another tab arrives with its storage event.\<close>

datatype trace_op = TraceOn | TraceOff | OtherTabTrace "string option" | OtherTabKey

fun trace_upd :: "trace_op \<Rightarrow> string option \<Rightarrow> string option \<times> bool" where
  "trace_upd TraceOn s = (Some ''1'', True)"
| "trace_upd TraceOff s = (None, True)"
| "trace_upd (OtherTabTrace v) s = (v, True)"
| "trace_upd OtherTabKey s = (s, False)"

definition is_video_trace_enabled :: "string option \<Rightarrow> bool" where
  "is_video_trace_enabled s \<longleftrightarrow> s = Some ''1''"

interpretation trace: external_store trace_upd is_video_trace_enabled "\<lambda>_. True"
proof
  fix x s show "is_video_trace_enabled (fst (trace_upd x s)) = is_video_trace_enabled s"
    if "\<not> snd (trace_upd x s)" using that by (cases x) auto
qed simp

lemma trace_panel_in_sync:
  "consume trace_upd is_video_trace_enabled xs (s, is_video_trace_enabled s) = (s', v) \<Longrightarrow>
     v = is_video_trace_enabled s'"
  using trace.consumer_in_sync by blast

end
