(* ===== verification/GroupRoles.thy ===== *)
theory GroupRoles
  imports Permissions "HOL-Library.Multiset"
begin

text \<open>
  \<open>frontend/components/hub/groups-roles-dialog.tsx\<close>: the list of groups, the selected group, the
  requests that create, change and delete groups with their replies, and the buttons with the
  guards of the markup. Requests are logged in the order they are sent; a reply is an event of its
  own. \<open>onGroupsChanged\<close> is a counter.

  The lemmas show what a click on a permission sends: exactly one bit changes, one the user holds.
  They also show two defects: clicks that do not wait for the reply overwrite each other, and the
  protection of a group depends on the text in its name field.
\<close>

unbundle bit_operations_syntax

section \<open>State\<close>

record hub_group =
  g_id :: string
  g_name :: string
  g_color :: "string option"
  g_position :: int
  g_default :: bool
  g_bits :: int

datatype group_patch = PatchName string | PatchColor string | PatchBits int

datatype group_request =
    GetGroups string
  | PostGroup string
  | PatchGroup string string group_patch
  | DeleteGroup string string

text \<open>What the continuation of a request captured.\<close>

datatype group_call = LoadsGroups | CreatesGroup | UpdatesGroup string | DeletesGroup string

record groups_dialog =
  gd_open :: bool
  gd_session :: "(string \<times> string) option" \<comment> \<open>hub, token\<close>
  gd_list :: "hub_group list"
  gd_selected :: "string option"
  gd_load :: "nat option" \<comment> \<open>the load that is not cancelled\<close>
  gd_calls :: "nat \<rightharpoonup> group_call"
  gd_next :: nat
  gd_requests :: "group_request list"
  gd_changed :: nat

definition new_groups_dialog :: "(string \<times> string) option \<Rightarrow> groups_dialog" where
  "new_groups_dialog x =
     \<lparr>gd_open = False, gd_session = x, gd_list = [], gd_selected = None, gd_load = None,
      gd_calls = (\<lambda>_. None), gd_next = 0, gd_requests = [], gd_changed = 0\<rparr>"

definition group_call :: "group_call \<Rightarrow> group_request \<Rightarrow> groups_dialog \<Rightarrow> groups_dialog" where
  "group_call c r s =
     s\<lparr>gd_calls := (gd_calls s)(gd_next s \<mapsto> c), gd_next := Suc (gd_next s),
       gd_requests := gd_requests s @ [r]\<rparr>"

section \<open>Opening\<close>

text \<open>The effect on the open flag, the hub and the token; its cleanup cancels the load before.\<close>

definition groups_effect :: "groups_dialog \<Rightarrow> groups_dialog" where
  "groups_effect s =
     (let s1 = s\<lparr>gd_load := None\<rparr> in
      case gd_session s of
        Some (hub, tok) \<Rightarrow>
          if \<not> gd_open s \<or> hub = [] \<or> tok = [] then s1
          else group_call LoadsGroups (GetGroups hub) (s1\<lparr>gd_load := Some (gd_next s)\<rparr>)
      | None \<Rightarrow> s1)"

definition open_groups :: "bool \<Rightarrow> groups_dialog \<Rightarrow> groups_dialog" where
  "open_groups b s = (if b = gd_open s then s else groups_effect (s\<lparr>gd_open := b\<rparr>))"

definition groups_session :: "(string \<times> string) option \<Rightarrow> groups_dialog \<Rightarrow> groups_dialog" where
  "groups_session x s = (if x = gd_session s then s else groups_effect (s\<lparr>gd_session := x\<rparr>))"

definition handle_open_change :: "bool \<Rightarrow> groups_dialog \<Rightarrow> groups_dialog" where
  "handle_open_change b s = open_groups b (if b then s else s\<lparr>gd_selected := None\<rparr>)"

section \<open>What the user may do\<close>

definition selected_group :: "groups_dialog \<Rightarrow> hub_group option" where
  "selected_group s =
     (case gd_selected s of None \<Rightarrow> None | Some i \<Rightarrow> find (\<lambda>g. g_id g = i) (gd_list s))"

definition is_protected_group :: "hub_group \<Rightarrow> bool" where
  "is_protected_group g \<longleftrightarrow> g_name g = ''admin'' \<or> g_name g = ''everyone''"

definition can_manage_roles :: "user_permissions option \<Rightarrow> bool" where
  "can_manage_roles p = perms_has p P_MANAGE_ROLES"

definition can_manage_group :: "user_permissions option \<Rightarrow> hub_group \<Rightarrow> bool" where
  "can_manage_group p g \<longleftrightarrow>
     can_manage_roles p \<and>
     (case p of None \<Rightarrow> False | Some x \<Rightarrow> is_admin x \<or> top_position x < g_position g)"

section \<open>Requests\<close>

definition with_hub :: "(string \<Rightarrow> groups_dialog \<Rightarrow> groups_dialog) \<Rightarrow> groups_dialog \<Rightarrow> groups_dialog" where
  "with_hub f s =
     (case gd_session s of None \<Rightarrow> s | Some (hub, _) \<Rightarrow> if hub = [] then s else f hub s)"

definition create_group :: "groups_dialog \<Rightarrow> groups_dialog" where
  "create_group = with_hub (\<lambda>hub. group_call CreatesGroup (PostGroup hub))"

definition update_group :: "string \<Rightarrow> group_patch \<Rightarrow> groups_dialog \<Rightarrow> groups_dialog" where
  "update_group i d = with_hub (\<lambda>hub. group_call (UpdatesGroup i) (PatchGroup hub i d))"

definition delete_group :: "string \<Rightarrow> groups_dialog \<Rightarrow> groups_dialog" where
  "delete_group i = with_hub (\<lambda>hub. group_call (DeletesGroup i) (DeleteGroup hub i))"

definition js_or :: "int \<Rightarrow> int \<Rightarrow> int" where
  "js_or a b = sint ((word_of_int a :: 32 word) OR word_of_int b)"

definition js_clear :: "int \<Rightarrow> int \<Rightarrow> int" where
  "js_clear a b = sint ((word_of_int a :: 32 word) AND NOT (word_of_int b))"

definition flip_bit :: "int \<Rightarrow> int \<Rightarrow> int" where
  "flip_bit bits b = (if has_bit bits b then js_clear bits b else js_or bits b)"

definition toggle_bit :: "int \<Rightarrow> groups_dialog \<Rightarrow> groups_dialog" where
  "toggle_bit b s =
     (case selected_group s of
        None \<Rightarrow> s
      | Some g \<Rightarrow>
          if is_protected_group g then s
          else update_group (g_id g) (PatchBits (flip_bit (g_bits g) b)) s)"

section \<open>Replies\<close>

text \<open>The list, a group, a plain success, or an error status.\<close>

datatype group_reply = GroupList "hub_group list" | OneGroup hub_group | GroupOk | GroupFails

definition replace_group :: "string \<Rightarrow> (hub_group \<Rightarrow> hub_group) \<Rightarrow> hub_group list \<Rightarrow> hub_group list" where
  "replace_group i f gs = map (\<lambda>g. if g_id g = i then f g else g) gs"

fun group_result :: "group_call \<Rightarrow> group_reply \<Rightarrow> groups_dialog \<Rightarrow> groups_dialog" where
  "group_result LoadsGroups (GroupList gs) s = s\<lparr>gd_list := sort_key g_position gs\<rparr>"
| "group_result CreatesGroup (OneGroup g) s =
     s\<lparr>gd_list := gd_list s @ [g], gd_selected := Some (g_id g), gd_changed := Suc (gd_changed s)\<rparr>"
| "group_result (UpdatesGroup i) (OneGroup g) s =
     s\<lparr>gd_list := replace_group i (\<lambda>_. g) (gd_list s), gd_changed := Suc (gd_changed s)\<rparr>"
| "group_result (DeletesGroup i) GroupOk s =
     s\<lparr>gd_list := filter (\<lambda>g. g_id g \<noteq> i) (gd_list s), gd_selected := None,
       gd_changed := Suc (gd_changed s)\<rparr>"
| "group_result _ _ s = s"

definition group_replied :: "nat \<Rightarrow> group_reply \<Rightarrow> groups_dialog \<Rightarrow> groups_dialog" where
  "group_replied n r s =
     (case gd_calls s n of
        None \<Rightarrow> s
      | Some c \<Rightarrow>
          (let s1 = s\<lparr>gd_calls := (gd_calls s)(n := None)\<rparr> in
           if c = LoadsGroups \<and> gd_load s \<noteq> Some n then s1 else group_result c r s1))"

section \<open>Buttons and fields\<close>

definition select_group :: "string option \<Rightarrow> groups_dialog \<Rightarrow> groups_dialog" where
  "select_group i s = s\<lparr>gd_selected := i\<rparr>"

definition click_create :: "user_permissions option \<Rightarrow> groups_dialog \<Rightarrow> groups_dialog" where
  "click_create p s =
     (if selected_group s = None \<and> can_manage_roles p then create_group s else s)"

text \<open>The name field writes into the list; leaving it sends the name.\<close>

definition name_field_on :: "user_permissions option \<Rightarrow> hub_group \<Rightarrow> bool" where
  "name_field_on p g \<longleftrightarrow> can_manage_group p g \<or> is_protected_group g"

definition type_name :: "user_permissions option \<Rightarrow> string \<Rightarrow> groups_dialog \<Rightarrow> groups_dialog" where
  "type_name p v s =
     (case selected_group s of
        None \<Rightarrow> s
      | Some g \<Rightarrow>
          if name_field_on p g
          then s\<lparr>gd_list := replace_group (g_id g) (\<lambda>x. x\<lparr>g_name := v\<rparr>) (gd_list s)\<rparr>
          else s)"

definition blur_name :: "user_permissions option \<Rightarrow> groups_dialog \<Rightarrow> groups_dialog" where
  "blur_name p s =
     (case selected_group s of
        None \<Rightarrow> s
      | Some g \<Rightarrow>
          if name_field_on p g then update_group (g_id g) (PatchName (g_name g)) s else s)"

definition group_colors :: "string list" where
  "group_colors =
     [''#E74C3C'', ''#E67E22'', ''#F1C40F'', ''#2ECC71'', ''#1ABC9C'', ''#3498DB'', ''#9B59B6'', ''#6366f1'',
      ''#EC4899'', ''#99AAB5'', ''#95A5A6'', ''#607D8B'']"

definition click_color :: "string \<Rightarrow> groups_dialog \<Rightarrow> groups_dialog" where
  "click_color c s =
     (case selected_group s of
        None \<Rightarrow> s
      | Some g \<Rightarrow> if c \<in> set group_colors then update_group (g_id g) (PatchColor c) s else s)"

text \<open>A switch of the list of permissions, which is shown for groups that are not protected.\<close>

definition can_toggle :: "user_permissions option \<Rightarrow> hub_group \<Rightarrow> int \<Rightarrow> bool" where
  "can_toggle p g b \<longleftrightarrow>
     can_manage_group p g \<and> has_bit (case p of None \<Rightarrow> 0 | Some x \<Rightarrow> hub_bits x) b"

definition click_bit :: "user_permissions option \<Rightarrow> int \<Rightarrow> groups_dialog \<Rightarrow> groups_dialog" where
  "click_bit p b s =
     (case selected_group s of
        None \<Rightarrow> s
      | Some g \<Rightarrow>
          if is_protected_group g \<or> b \<notin> fst ` set HUB_PERMISSION_LABELS then s
          else if can_toggle p g b then toggle_bit b s else s)"

definition click_delete :: "user_permissions option \<Rightarrow> groups_dialog \<Rightarrow> groups_dialog" where
  "click_delete p s =
     (case selected_group s of
        None \<Rightarrow> s
      | Some g \<Rightarrow>
          if \<not> is_protected_group g \<and> can_manage_group p g then delete_group (g_id g) s else s)"

section \<open>What a click sends\<close>

lemma permission_labels:
  "fst ` set HUB_PERMISSION_LABELS = (\<lambda>n. 2 ^ n) ` {7 ..< 14}"
proof -
  have "{7 ..< 14 :: nat} = {7, 8, 9, 10, 11, 12, 13}" by auto
  then show ?thesis
    by (simp add: HUB_PERMISSION_LABELS_def P_CREATE_TEXT_CHANNELS_def P_CREATE_VOICE_CHANNELS_def
        P_EDIT_OTHER_CHANNELS_def P_MANAGE_MEMBERS_def P_INVITE_PERMANENT_def P_CREATE_TEMP_LINKS_def
        P_MANAGE_ROLES_def)
qed

lemma has_single_bit:
  assumes "n < 31"
  shows "has_bit bits (2 ^ n) \<longleftrightarrow> bit bits n"
proof -
  have "(2 :: int) ^ n < 2 ^ 31" using assms by (intro power_strict_increasing) simp_all
  then have "0 \<le> (2 :: int) ^ n" "(2 :: int) ^ n < 2147483648" by simp_all
  from has_bit_is_inclusion [OF this, of bits] assms show ?thesis by (auto simp: bit_exp_iff)
qed

lemma sint_bit: "k < 32 \<Longrightarrow> bit (sint (w :: 32 word)) k = bit w k"
  by (simp add: bit_sint_iff)

lemma flip_bit_exact:
  assumes "n < 31" "k < 32"
  shows "bit (flip_bit bits (2 ^ n)) k = (if k = n then \<not> bit bits n else bit bits k)"
proof (cases "bit bits n")
  case True
  then have "flip_bit bits (2 ^ n) = js_clear bits (2 ^ n)" using has_single_bit assms by (simp add: flip_bit_def)
  with assms True show ?thesis
    by (auto simp: js_clear_def sint_bit bit_and_iff bit_not_iff bit_word_of_int_iff bit_exp_iff)
next
  case False
  then have "flip_bit bits (2 ^ n) = js_or bits (2 ^ n)" using has_single_bit assms by (simp add: flip_bit_def)
  with assms False show ?thesis
    by (auto simp: js_or_def sint_bit bit_or_iff bit_word_of_int_iff bit_exp_iff)
qed

lemma selected_group_call [simp]: "selected_group (group_call c r s) = selected_group s"
  by (simp add: selected_group_def group_call_def cong: option.case_cong)

lemma update_group_sends:
  "update_group i d s \<noteq> s \<Longrightarrow>
   \<exists>hub tok. gd_session s = Some (hub, tok) \<and> hub \<noteq> [] \<and>
     update_group i d s = group_call (UpdatesGroup i) (PatchGroup hub i d) s"
  by (auto simp: update_group_def with_hub_def split: option.splits if_splits)

lemma update_group_on:
  "gd_session s = Some (hub, tok) \<Longrightarrow> hub \<noteq> [] \<Longrightarrow>
   update_group i d s = group_call (UpdatesGroup i) (PatchGroup hub i d) s"
  by (simp add: update_group_def with_hub_def)

lemma click_bit_guards:
  assumes "click_bit p b s \<noteq> s"
  shows "\<exists>g n. selected_group s = Some g \<and> 7 \<le> n \<and> n < 14 \<and> b = 2 ^ n \<and> \<not> is_protected_group g
    \<and> can_toggle p g b \<and> click_bit p b s = update_group (g_id g) (PatchBits (flip_bit (g_bits g) b)) s"
  using assms by (auto simp: click_bit_def toggle_bit_def permission_labels split: option.splits if_splits)

text \<open>
  C32. When a click on a permission sends anything, it sends one change of the selected group in which
  exactly the bit of that permission is flipped; the user holds that permission himself, may manage
  roles, and is an administrator or stands above the group, which is not a protected one.
\<close>

theorem click_changes_one_held_bit:
  assumes "click_bit p b s \<noteq> s"
  shows "\<exists>hub g v x. selected_group s = Some g \<and> p = Some x
    \<and> gd_requests (click_bit p b s) = gd_requests s @ [PatchGroup hub (g_id g) (PatchBits v)]
    \<and> (\<forall>k < 32. bit v k \<noteq> bit (g_bits g) k \<longleftrightarrow> b = 2 ^ k)
    \<and> (\<forall>k < 32. bit v k \<noteq> bit (g_bits g) k \<longrightarrow> bit (hub_bits x) k)
    \<and> perms_has p P_MANAGE_ROLES \<and> (is_admin x \<or> top_position x < g_position g)
    \<and> g_name g \<notin> {''admin'', ''everyone''}"
proof -
  from click_bit_guards [OF assms] obtain g n where g: "selected_group s = Some g" "n < 14" "b = 2 ^ n"
    "\<not> is_protected_group g" "can_toggle p g b"
    "click_bit p b s = update_group (g_id g) (PatchBits (flip_bit (g_bits g) b)) s" by blast
  with assms obtain hub where hub: "click_bit p b s =
      group_call (UpdatesGroup (g_id g)) (PatchGroup hub (g_id g) (PatchBits (flip_bit (g_bits g) b))) s"
    using update_group_sends by metis
  from g(5) obtain x where x: "p = Some x" by (auto simp: can_toggle_def can_manage_group_def split: option.splits)
  define v where "v = flip_bit (g_bits g) b"
  have v: "bit v k \<noteq> bit (g_bits g) k \<longleftrightarrow> k = n" if "k < 32" for k
    using flip_bit_exact [of n k "g_bits g"] g(2,3) that by (auto simp: v_def)
  have held: "bit (hub_bits x) n"
    using g(2,3,5) x has_single_bit [of n "hub_bits x"] by (simp add: can_toggle_def)
  have sent: "gd_requests (click_bit p b s) = gd_requests s @ [PatchGroup hub (g_id g) (PatchBits v)]"
    by (simp add: hub v_def group_call_def)
  have "\<forall>k < 32. bit v k \<noteq> bit (g_bits g) k \<longleftrightarrow> b = 2 ^ k" using v g(3) by auto
  moreover have "\<forall>k < 32. bit v k \<noteq> bit (g_bits g) k \<longrightarrow> bit (hub_bits x) k" using v held by blast
  moreover have "perms_has p P_MANAGE_ROLES \<and> (is_admin x \<or> top_position x < g_position g)"
    using g(5) x by (simp add: can_toggle_def can_manage_group_def can_manage_roles_def)
  moreover have "g_name g \<notin> {''admin'', ''everyone''}" using g(4) by (simp add: is_protected_group_def)
  ultimately show ?thesis using g(1) x sent by blast
qed

definition demo_manager :: user_permissions where
  "demo_manager = \<lparr>hub_bits = 16383, top_position = 1, is_admin = False, is_creator = False\<rparr>"

definition demo_group :: hub_group where
  "demo_group = \<lparr>g_id = ''g'', g_name = ''staff'', g_color = None, g_position = 2, g_default = False, g_bits = 128\<rparr>"

definition demo_dialog :: groups_dialog where
  "demo_dialog = (new_groups_dialog (Some (''h'', ''t'')))\<lparr>gd_open := True, gd_list := [demo_group], gd_selected := Some ''g''\<rparr>"

lemma demo_click:
  "gd_requests (click_bit (Some demo_manager) P_MANAGE_MEMBERS demo_dialog) = [PatchGroup ''h'' ''g'' (PatchBits 1152)]"
  by code_simp

theorem click_changes_one_held_bit_witness:
  "\<exists>v. gd_requests (click_bit (Some demo_manager) P_MANAGE_MEMBERS demo_dialog) = [PatchGroup ''h'' ''g'' (PatchBits v)]
    \<and> bit v 10 \<and> bit v 7 \<and> \<not> bit v 8"
proof -
  define s where "s = click_bit (Some demo_manager) P_MANAGE_MEMBERS demo_dialog"
  have r: "gd_requests demo_dialog = []" "selected_group demo_dialog = Some demo_group" "g_bits demo_group = 128" "g_id demo_group = ''g''"
    by code_simp+
  have sent: "gd_requests s = [PatchGroup ''h'' ''g'' (PatchBits 1152)]" unfolding s_def by (rule demo_click)
  then have "s \<noteq> demo_dialog" using r(1) by auto
  from click_changes_one_held_bit [OF this [unfolded s_def], folded s_def] r
  obtain hub v where v: "gd_requests s = [PatchGroup hub ''g'' (PatchBits v)]"
    "\<forall>k < 32. bit v k \<noteq> bit (128 :: int) k \<longleftrightarrow> P_MANAGE_MEMBERS = 2 ^ k" by auto
  have "bit v 10" "bit v 7" "\<not> bit v 8"
    using v(2) [rule_format, of 10] v(2) [rule_format, of 7] v(2) [rule_format, of 8]
    by (simp_all add: P_MANAGE_MEMBERS_def)
  with v(1) sent show ?thesis unfolding s_def [symmetric] by auto
qed

section \<open>Defects\<close>

text \<open>
  Two clicks before the first reply: both changes start from the bits of the list, so the second
  takes back the first.
\<close>

lemma click_bit_on:
  assumes "gd_session s = Some (hub, tok)" "hub \<noteq> []" "selected_group s = Some g" "\<not> is_protected_group g"
    "b \<in> fst ` set HUB_PERMISSION_LABELS" "can_toggle p g b"
  shows "click_bit p b s =
    group_call (UpdatesGroup (g_id g)) (PatchGroup hub (g_id g) (PatchBits (flip_bit (g_bits g) b))) s"
  using assms by (simp add: click_bit_def toggle_bit_def update_group_on)

lemma second_click_takes_back_first:
  assumes "gd_session s = Some (hub, tok)" "hub \<noteq> []" "selected_group s = Some g" "\<not> is_protected_group g"
    "b \<in> fst ` set HUB_PERMISSION_LABELS" "can_toggle p g b"
    "c \<in> fst ` set HUB_PERMISSION_LABELS" "can_toggle p g c" "b \<noteq> c"
  shows "\<exists>v w n. gd_requests (click_bit p c (click_bit p b s)) = gd_requests s
      @ [PatchGroup hub (g_id g) (PatchBits v), PatchGroup hub (g_id g) (PatchBits w)]
    \<and> b = 2 ^ n \<and> bit v n \<noteq> bit (g_bits g) n \<and> bit w n = bit (g_bits g) n"
proof -
  from assms(5,7) obtain n m where n: "b = 2 ^ n" "n < 14" "c = 2 ^ m" "m < 14" unfolding permission_labels by auto
  with assms(9) have "n \<noteq> m" by auto
  have s1: "click_bit p b s = group_call (UpdatesGroup (g_id g)) (PatchGroup hub (g_id g) (PatchBits (flip_bit (g_bits g) b))) s"
    using click_bit_on [of s hub tok g b p] assms by simp
  have "gd_session (click_bit p b s) = Some (hub, tok)" using assms(1) by (simp add: s1 group_call_def)
  then have "gd_requests (click_bit p c (click_bit p b s)) = gd_requests s
      @ [PatchGroup hub (g_id g) (PatchBits (flip_bit (g_bits g) b)), PatchGroup hub (g_id g) (PatchBits (flip_bit (g_bits g) c))]"
    using click_bit_on [of "click_bit p b s" hub tok g c p] assms by (simp add: s1) (simp add: group_call_def)
  then show ?thesis using n \<open>n \<noteq> m\<close> flip_bit_exact [of n n "g_bits g"] flip_bit_exact [of m n "g_bits g"] by auto
qed

text \<open>
  The protection looks at the name in the list, which the name field changes on every key: one
  character typed into the name of the group \<open>admin\<close> and it can be deleted.
\<close>

lemma selected_after_type:
  assumes "selected_group s = Some g" "name_field_on p g"
  shows "selected_group (type_name p v s) = Some (g\<lparr>g_name := v\<rparr>)"
proof -
  from assms(1) obtain i where i: "gd_selected s = Some i" "find (\<lambda>g. g_id g = i) (gd_list s) = Some g"
    by (auto simp: selected_group_def split: option.splits)
  then have "g_id g = i" by (auto simp: find_Some_iff)
  moreover have "find (\<lambda>g. g_id g = i) (replace_group i f gs) = map_option f (find (\<lambda>g. g_id g = i) gs)"
    if "\<And>g. g_id (f g) = g_id g" for f gs
    using that by (induction gs) (auto simp: replace_group_def)
  ultimately show ?thesis using assms i by (simp add: type_name_def selected_group_def)
qed

lemma typing_lifts_protection:
  assumes "gd_session s = Some (hub, tok)" "hub \<noteq> []" "selected_group s = Some g" "can_manage_group p g"
    "v \<notin> {''admin'', ''everyone''}"
  shows "gd_requests (click_delete p (type_name p v s)) = gd_requests s @ [DeleteGroup hub (g_id g)]"
proof -
  have on: "name_field_on p g" using assms(4) by (simp add: name_field_on_def)
  have c: "can_manage_group p (g\<lparr>g_name := v\<rparr>)" using assms(4) by (auto simp: can_manage_group_def split: option.splits)
  have "gd_session (type_name p v s) = gd_session s" "gd_requests (type_name p v s) = gd_requests s"
    by (auto simp: type_name_def split: option.splits)
  with assms c selected_after_type [OF assms(3) on, of v] show ?thesis
    by (simp add: click_delete_def is_protected_group_def delete_group_def with_hub_def group_call_def)
qed

text \<open>Any member may send a colour: the buttons have no guard.\<close>

lemma anyone_sends_color:
  assumes "gd_session s = Some (hub, tok)" "hub \<noteq> []" "selected_group s = Some g" "c \<in> set group_colors"
  shows "gd_requests (click_color c s) = gd_requests s @ [PatchGroup hub (g_id g) (PatchColor c)]"
  using assms by (simp add: click_color_def update_group_on group_call_def)

text \<open>A reply to any change of a group replaces the name that is being typed; a refused one keeps it.\<close>

lemma reply_replaces_typed_name:
  assumes "gd_calls s n = Some (UpdatesGroup i)" "g \<in> set (gd_list (group_replied n (OneGroup u) s))" "g_id g = i" "g_id u = i"
  shows "g = u"
  using assms by (auto simp: group_replied_def replace_group_def split: if_splits)

lemma refused_name_stays:
  "gd_calls s n = Some (UpdatesGroup i) \<Longrightarrow> gd_list (group_replied n GroupFails s) = gd_list s"
  by (simp add: group_replied_def)

section \<open>The list\<close>

lemma loaded_groups_sorted:
  assumes "gd_calls s n = Some LoadsGroups" "gd_load s = Some n"
  shows "sorted (map g_position (gd_list (group_replied n (GroupList gs) s))) \<and>
    mset (gd_list (group_replied n (GroupList gs) s)) = mset gs"
  using assms by (simp add: group_replied_def)

lemma cancelled_load_ignored:
  assumes "gd_calls s n = Some LoadsGroups" "gd_load s \<noteq> Some n"
  shows "gd_list (group_replied n r s) = gd_list s"
  using assms by (simp add: group_replied_def)

end
