(* ===== verification/Members.thy ===== *)
theory Members
  imports Presence Permissions "HOL-Library.Multiset"
begin

text \<open>
  The people of a hub as the interface shows them: the sections of
  \<open>frontend/components/hub/member-sidebar.tsx\<close>, the open state of
  \<open>frontend/contexts/member-sidebar-context.tsx\<close>, and the card of one member,
  \<open>frontend/components/hub/member-card.tsx\<close>, with its requests, its replies and the guards of its
  buttons. The time is an argument, in milliseconds.

  The lemmas show that the sections hold every active member once, that the list of groups has each
  group once, and which requests a card can send.
\<close>

section \<open>The roster\<close>

record member_group =
  mg_id :: string
  mg_name :: string
  mg_color :: "string option"

text \<open>The rest of \<open>Member\<close>. \<open>rm_last_seen\<close> is a time, \<open>Some None\<close> when it does not parse.\<close>

record roster_member = member +
  rm_username :: string
  rm_name :: string
  rm_online :: bool
  rm_last_seen :: "int option option"
  rm_groups :: "member_group list"
  rm_temp :: bool

definition active_members :: "int \<Rightarrow> roster_member list \<Rightarrow> roster_member list" where
  "active_members now ms = filter (is_member_active now) ms"

definition online_members :: "int \<Rightarrow> roster_member list \<Rightarrow> roster_member list" where
  "online_members now ms = filter rm_online (active_members now ms)"

definition offline_members :: "int \<Rightarrow> roster_member list \<Rightarrow> roster_member list" where
  "offline_members now ms = filter (\<lambda>m. \<not> rm_online m) (active_members now ms)"

text \<open>The loop over the groups of all members, with the set \<open>seen\<close>.\<close>

definition note_group :: "member_group \<Rightarrow> string set \<times> member_group list \<Rightarrow> string set \<times> member_group list" where
  "note_group g x =
     (case x of (seen, gs) \<Rightarrow> if mg_id g \<in> seen then (seen, gs) else (insert (mg_id g) seen, gs @ [g]))"

definition all_groups :: "roster_member list \<Rightarrow> member_group list" where
  "all_groups ms = snd (fold (\<lambda>m. fold note_group (rm_groups m)) ms ({}, []))"

definition can_invite :: "user_permissions option \<Rightarrow> bool" where
  "can_invite p \<longleftrightarrow> perms_has p P_INVITE_PERMANENT \<or> perms_has p P_CREATE_TEMP_LINKS"

definition show_pending :: "user_permissions option \<Rightarrow> 'i list \<Rightarrow> bool" where
  "show_pending p pending \<longleftrightarrow> can_invite p \<and> pending \<noteq> []"

definition badge_group :: "roster_member \<Rightarrow> member_group option" where
  "badge_group m = find (\<lambda>g. mg_name g \<noteq> ''everyone'') (rm_groups m)"

section \<open>The panel\<close>

definition COLLAPSE_BREAKPOINT :: int where
  "COLLAPSE_BREAKPOINT = 1024"

definition panel_initially :: "int option \<Rightarrow> bool" where
  "panel_initially width = (case width of Some w \<Rightarrow> w \<ge> COLLAPSE_BREAKPOINT | None \<Rightarrow> True)"

text \<open>
  A toggle, a direct setting, and a new width of the window: the media query fires only when its
  answer changes. The state is the width and the open flag.
\<close>

datatype panel_input = PanelToggle | PanelSet bool | PanelWidth int

fun panel_step :: "panel_input \<Rightarrow> int \<times> bool \<Rightarrow> int \<times> bool" where
  "panel_step PanelToggle (w, b) = (w, \<not> b)"
| "panel_step (PanelSet c) (w, b) = (w, c)"
| "panel_step (PanelWidth v) (w, b) =
     (v, if (v \<ge> COLLAPSE_BREAKPOINT) = (w \<ge> COLLAPSE_BREAKPOINT) then b else v \<ge> COLLAPSE_BREAKPOINT)"

section \<open>The card\<close>

datatype dm_purpose = ToMessage | ToCall

datatype card_call = LoadsPicker | TogglesGroup string bool | Kicks | OpensDm dm_purpose

datatype card_request =
    CardGet string
  | CardPost string
  | CardDelete string
  | CardOpenDm string \<comment> \<open>\<open>openDm\<close> of the channels\<close>

record picker_group = member_group +
  pk_position :: int

record member_card =
  mc_member :: roster_member
  mc_session :: "(string \<times> string \<times> string) option" \<comment> \<open>user, hub, token\<close>
  mc_picker :: bool
  mc_kick_open :: bool
  mc_kicking :: bool
  mc_api_groups :: "picker_group list"
  mc_popover :: bool
  mc_load :: "nat option" \<comment> \<open>the load that is not cancelled\<close>
  mc_calls :: "nat \<rightharpoonup> card_call"
  mc_next :: nat
  mc_requests :: "card_request list"
  mc_changed :: nat
  mc_selected :: "string list" \<comment> \<open>\<open>selectTextChannel\<close>\<close>
  mc_called :: "string list" \<comment> \<open>\<open>startCall\<close>\<close>

definition new_card :: "roster_member \<Rightarrow> (string \<times> string \<times> string) option \<Rightarrow> member_card" where
  "new_card m x =
     \<lparr>mc_member = m, mc_session = x, mc_picker = False, mc_kick_open = False, mc_kicking = False,
      mc_api_groups = [], mc_popover = False, mc_load = None, mc_calls = (\<lambda>_. None), mc_next = 0,
      mc_requests = [], mc_changed = 0, mc_selected = [], mc_called = []\<rparr>"

definition card_call :: "card_call \<Rightarrow> card_request \<Rightarrow> member_card \<Rightarrow> member_card" where
  "card_call c r s =
     s\<lparr>mc_calls := (mc_calls s)(mc_next s \<mapsto> c), mc_next := Suc (mc_next s), mc_requests := mc_requests s @ [r]\<rparr>"

text \<open>\<open>HUB_API\<close>, from the variable \<open>VITE_HUB_API_URL\<close> of the build.\<close>

definition card_base :: "string option \<Rightarrow> string" where
  "card_base env = (case env of Some u \<Rightarrow> if u = [] then ''http://localhost:3002'' else u
     | None \<Rightarrow> ''http://localhost:3002'')"

definition is_self :: "member_card \<Rightarrow> bool" where
  "is_self s = (case mc_session s of None \<Rightarrow> False | Some (u, _, _) \<Rightarrow> u = m_user (mc_member s))"

definition handle_message :: "member_card \<Rightarrow> member_card" where
  "handle_message s = card_call (OpensDm ToMessage) (CardOpenDm (m_user (mc_member s))) s"

definition handle_call :: "member_card \<Rightarrow> member_card" where
  "handle_call s = card_call (OpensDm ToCall) (CardOpenDm (m_user (mc_member s))) s"

definition open_picker :: "string option \<Rightarrow> bool \<Rightarrow> member_card \<Rightarrow> member_card" where
  "open_picker env b s =
     (if b = mc_picker s then s
      else
        (let s1 = s\<lparr>mc_picker := b, mc_load := None\<rparr> in
         case mc_session s of
           Some (_, hub, tok) \<Rightarrow>
             if \<not> b \<or> hub = [] \<or> tok = [] then s1
             else card_call LoadsPicker (CardGet (card_base env @ ''/v1/hubs/'' @ hub @ ''/groups''))
                    (s1\<lparr>mc_load := Some (mc_next s)\<rparr>)
         | None \<Rightarrow> s1))"

definition picker_groups :: "member_group list \<Rightarrow> member_card \<Rightarrow> picker_group list" where
  "picker_groups gs s =
     (if mc_api_groups s \<noteq> [] then mc_api_groups s
      else map (\<lambda>g. member_group.extend g (picker_group.fields 0)) gs)"

definition toggle_group :: "string option \<Rightarrow> string \<Rightarrow> bool \<Rightarrow> member_card \<Rightarrow> member_card" where
  "toggle_group env i add s =
     (case mc_session s of
        None \<Rightarrow> s
      | Some (_, hub, _) \<Rightarrow>
          (let url = card_base env @ ''/v1/hubs/'' @ hub @ ''/groups/'' @ i @ ''/members/'' @ m_user (mc_member s)
           in card_call (TogglesGroup i add) (if add then CardPost url else CardDelete url) s))"

definition kick_member :: "string option \<Rightarrow> member_card \<Rightarrow> member_card" where
  "kick_member env s =
     (case mc_session s of
        None \<Rightarrow> s
      | Some (_, hub, _) \<Rightarrow>
          card_call Kicks (CardDelete (card_base env @ ''/v1/hubs/'' @ hub @ ''/members/'' @ m_user (mc_member s)))
            (s\<lparr>mc_kicking := True\<rparr>))"

text \<open>
  Replies: the groups, any answer whatever its status, no answer, or what \<open>openDm\<close> returned. An
  error status of the load is \<open>CardAnswer\<close>.
\<close>

datatype card_reply = CardGroups "picker_group list" | CardAnswer | CardNoAnswer | CardDm "string option"

fun card_result :: "card_call \<Rightarrow> card_reply \<Rightarrow> member_card \<Rightarrow> member_card" where
  "card_result LoadsPicker (CardGroups gs) s = s\<lparr>mc_api_groups := gs\<rparr>"
| "card_result (TogglesGroup _ _) CardAnswer s = s\<lparr>mc_changed := Suc (mc_changed s)\<rparr>"
| "card_result Kicks CardAnswer s =
     s\<lparr>mc_changed := Suc (mc_changed s), mc_kick_open := False, mc_kicking := False\<rparr>"
| "card_result Kicks _ s = s\<lparr>mc_kicking := False\<rparr>"
| "card_result (OpensDm ToMessage) (CardDm (Some ch)) s =
     s\<lparr>mc_selected := mc_selected s @ [ch], mc_popover := False\<rparr>"
| "card_result (OpensDm ToCall) (CardDm (Some ch)) s =
     s\<lparr>mc_called := mc_called s @ [ch], mc_popover := False\<rparr>"
| "card_result _ _ s = s"

definition card_replied :: "nat \<Rightarrow> card_reply \<Rightarrow> member_card \<Rightarrow> member_card" where
  "card_replied n r s =
     (case mc_calls s n of
        None \<Rightarrow> s
      | Some c \<Rightarrow>
          (let s1 = s\<lparr>mc_calls := (mc_calls s)(n := None)\<rparr> in
           if c = LoadsPicker \<and> mc_load s \<noteq> Some n then s1 else card_result c r s1))"

section \<open>Buttons of the card\<close>

definition lower_char :: "char \<Rightarrow> char" where
  "lower_char c = (let n = of_char c :: nat in if 65 \<le> n \<and> n \<le> 90 then char_of (n + 32) else c)"

text \<open>\<open>toLowerCase\<close>; the names it is compared with are of ASCII letters.\<close>

definition lower :: "string \<Rightarrow> string" where
  "lower = map lower_char"

definition badge_protected :: "user_permissions option \<Rightarrow> member_card \<Rightarrow> member_group \<Rightarrow> bool" where
  "badge_protected p s g \<longleftrightarrow>
     lower (mg_name g) = ''everyone''
     \<or> (lower (mg_name g) = ''admin'' \<and> (case p of None \<Rightarrow> False | Some x \<Rightarrow> \<not> is_creator x))
     \<or> is_self s"

definition can_remove :: "int \<Rightarrow> user_permissions option \<Rightarrow> member_card \<Rightarrow> member_group \<Rightarrow> bool" where
  "can_remove now p s g \<longleftrightarrow>
     perms_has p P_MANAGE_ROLES \<and> \<not> badge_protected p s g \<and> is_member_active now (mc_member s)"

definition picker_shown :: "int \<Rightarrow> user_permissions option \<Rightarrow> member_card \<Rightarrow> bool" where
  "picker_shown now p s \<longleftrightarrow>
     perms_has p P_MANAGE_ROLES \<and> \<not> is_self s \<and> is_member_active now (mc_member s)"

definition actions_shown :: "int \<Rightarrow> member_card \<Rightarrow> bool" where
  "actions_shown now s \<longleftrightarrow> \<not> is_self s \<and> is_member_active now (mc_member s)"

datatype card_input =
    CardPopover bool
  | CardPickerOpen bool
  | CardRemove member_group
  | CardPick string
  | CardMessage
  | CardCall
  | CardKickOpen
  | CardKickCancel
  | CardKick
  | CardReplied nat card_reply

text \<open>The environment: the build's variable, the time, the permissions.\<close>

type_synonym card_env = "string option \<times> int \<times> user_permissions option"

fun card_step :: "card_env \<Rightarrow> card_input \<Rightarrow> member_card \<Rightarrow> member_card" where
  "card_step e (CardPopover b) s = s\<lparr>mc_popover := b\<rparr>"
| "card_step (env, now, p) (CardPickerOpen b) s = (if picker_shown now p s then open_picker env b s else s)"
| "card_step (env, now, p) (CardRemove g) s =
     (if g \<in> set (rm_groups (mc_member s)) \<and> can_remove now p s g then toggle_group env (mg_id g) False s else s)"
| "card_step (env, now, p) (CardPick i) s =
     (if picker_shown now p s \<and> mc_picker s
      then open_picker env False
             (toggle_group env i (i \<notin> mg_id ` set (rm_groups (mc_member s))) s)
      else s)"
| "card_step (env, now, p) CardMessage s = (if actions_shown now s then handle_message s else s)"
| "card_step (env, now, p) CardCall s = (if actions_shown now s then handle_call s else s)"
| "card_step (env, now, p) CardKickOpen s =
     (if actions_shown now s \<and> perms_has p P_MANAGE_MEMBERS then s\<lparr>mc_kick_open := True\<rparr> else s)"
| "card_step e CardKickCancel s = s\<lparr>mc_kick_open := False\<rparr>"
| "card_step (env, now, p) CardKick s =
     (if mc_kick_open s \<and> \<not> mc_kicking s then kick_member env s else s)"
| "card_step e (CardReplied n r) s = card_replied n r s"

text \<open>When a member was seen last.\<close>

datatype seen_label = NeverSeen | JustNow | MinutesAgo int | HoursAgo int | OnDate "int option"

definition format_last_seen :: "int \<Rightarrow> int option option \<Rightarrow> seen_label" where
  "format_last_seen now seen =
     (case seen of
        None \<Rightarrow> NeverSeen
      | Some None \<Rightarrow> OnDate None
      | Some (Some d) \<Rightarrow>
          (let diff_min = (now - d) div 60000 in
           if diff_min < 1 then JustNow
           else if diff_min < 60 then MinutesAgo diff_min
           else
             (let diff_h = diff_min div 60 in
              if diff_h < 24 then HoursAgo diff_h else OnDate (Some d))))"

section \<open>Each group once\<close>

lemma all_groups_concat: "all_groups ms = snd (fold note_group (concat (map rm_groups ms)) ({}, []))"
proof -
  have "fold (\<lambda>m. fold note_group (rm_groups m)) ms x = fold note_group (concat (map rm_groups ms)) x" for x
    by (induction ms arbitrary: x) auto
  then show ?thesis by (simp add: all_groups_def)
qed

lemma fold_note_group:
  assumes "seen = mg_id ` set acc" "distinct (map mg_id acc)"
  shows "\<exists>out. fold note_group gs (seen, acc) = (mg_id ` set out, out) \<and> distinct (map mg_id out)
    \<and> (\<forall>i. find (\<lambda>g. mg_id g = i) out = find (\<lambda>g. mg_id g = i) (acc @ gs))"
  using assms
proof (induction gs arbitrary: seen acc)
  case Nil
  then show ?case by auto
next
  case (Cons g gs)
  show ?case
  proof (cases "mg_id g \<in> seen")
    case True
    with Cons.prems have "find (\<lambda>x. mg_id x = i) (acc @ g # gs) = find (\<lambda>x. mg_id x = i) (acc @ gs)" for i
    proof -
      have "mg_id g \<in> mg_id ` set acc" using True Cons.prems(1) by simp
      then have "i = mg_id g \<Longrightarrow> i \<in> mg_id ` set acc" by simp
      moreover have "i \<in> mg_id ` set acc \<Longrightarrow> ?thesis" by (induction acc) auto
      moreover have "i \<noteq> mg_id g \<Longrightarrow> ?thesis" by (induction acc) auto
      ultimately show ?thesis by blast
    qed
    with Cons.IH [OF Cons.prems] True show ?thesis by (simp add: note_group_def)
  next
    case False
    with Cons.prems have "distinct (map mg_id (acc @ [g]))" "insert (mg_id g) seen = mg_id ` set (acc @ [g])" by auto
    from Cons.IH [OF this(2,1)] False show ?thesis by (simp add: note_group_def)
  qed
qed

text \<open>
  The list of groups that the editors offer holds each group of each member once, and of two
  entries with the same id the one that is met first.
\<close>

theorem groups_listed_once:
  "distinct (map mg_id (all_groups ms)) \<and>
   find (\<lambda>g. mg_id g = i) (all_groups ms) = find (\<lambda>g. mg_id g = i) (concat (map rm_groups ms))"
  using fold_note_group [of "{}" "[]" "concat (map rm_groups ms)"] by (auto simp: all_groups_concat)

text \<open>Every active member is in exactly one of the two sections, as often as in the list.\<close>

lemma sections_partition:
  "mset (online_members now ms) + mset (offline_members now ms) = mset (active_members now ms)"
  by (simp add: online_members_def offline_members_def)

lemma sections_disjoint: "set (online_members now ms) \<inter> set (offline_members now ms) = {}"
  by (auto simp: online_members_def offline_members_def)

text \<open>After a change of the width that crosses the limit the panel is open exactly if the window is wide.\<close>

lemma panel_follows_width:
  "(v \<ge> COLLAPSE_BREAKPOINT) \<noteq> (fst x \<ge> COLLAPSE_BREAKPOINT) \<Longrightarrow>
   snd (panel_step (PanelWidth v) x) = (v \<ge> COLLAPSE_BREAKPOINT)"
  by (cases x) auto

section \<open>The card\<close>

definition card_run :: "(card_env \<times> card_input) list \<Rightarrow> member_card \<Rightarrow> member_card" where
  "card_run = run (\<lambda>(e, i). card_step e i)"

text \<open>While a member is being removed exactly one such request is waiting.\<close>

definition card_ok :: "member_card \<Rightarrow> bool" where
  "card_ok s \<longleftrightarrow>
     (mc_kicking s \<longleftrightarrow> (\<exists>n. mc_calls s n = Some Kicks))
     \<and> (\<forall>n m. mc_calls s n = Some Kicks \<longrightarrow> mc_calls s m = Some Kicks \<longrightarrow> n = m)
     \<and> (\<forall>n \<ge> mc_next s. mc_calls s n = None)"

lemma card_ok_new: "card_ok (new_card m x)"
  by (simp add: card_ok_def new_card_def)

lemma card_call_ok: "card_ok s \<Longrightarrow> c \<noteq> Kicks \<Longrightarrow> card_ok (card_call c r s)"
proof -
  assume s: "card_ok s" and c: "c \<noteq> Kicks"
  have "mc_calls (card_call c r s) n = Some Kicks \<longleftrightarrow> mc_calls s n = Some Kicks" for n
    using s c by (auto simp: card_ok_def card_call_def)
  with s show ?thesis by (simp add: card_ok_def) (simp add: card_call_def)
qed

lemma card_ok_frame:
  "card_ok s \<Longrightarrow> mc_kicking t = mc_kicking s \<Longrightarrow> mc_calls t = mc_calls s \<Longrightarrow> mc_next t = mc_next s \<Longrightarrow> card_ok t"
  by (simp add: card_ok_def)

lemma toggle_group_ok: "card_ok s \<Longrightarrow> card_ok (toggle_group env i a s)"
  by (auto simp: toggle_group_def Let_def split: option.splits intro!: card_call_ok)

lemma open_picker_ok: "card_ok s \<Longrightarrow> card_ok (open_picker env b s)"
proof -
  assume s: "card_ok s"
  then have "card_ok (s\<lparr>mc_picker := b, mc_load := l\<rparr>)" for l by (rule card_ok_frame) simp_all
  then show ?thesis by (auto simp: open_picker_def Let_def s split: option.splits intro!: card_call_ok)
qed

lemma kick_member_ok:
  assumes "card_ok s" "\<not> mc_kicking s"
  shows "card_ok (kick_member env s)"
  using assms by (auto simp: kick_member_def card_call_def card_ok_def split: option.splits)

lemma card_result_calls: "mc_calls (card_result c r s) = mc_calls s" "mc_next (card_result c r s) = mc_next s"
  by (induction c r s rule: card_result.induct) auto

lemma card_result_kicking: "mc_kicking (card_result c r s) = (mc_kicking s \<and> c \<noteq> Kicks)"
  by (induction c r s rule: card_result.induct) auto

lemma card_replied_ok:
  assumes "card_ok s"
  shows "card_ok (card_replied n r s)"
proof (cases "mc_calls s n")
  case None
  with assms show ?thesis by (simp add: card_replied_def)
next
  case (Some c)
  define t where "t = card_replied n r s"
  have t: "mc_calls t = (mc_calls s)(n := None)" "mc_next t = mc_next s" "mc_kicking t = (mc_kicking s \<and> c \<noteq> Kicks)"
    by (auto simp: t_def card_replied_def Some Let_def card_result_calls card_result_kicking)
  have "card_ok t"
  proof (cases "c = Kicks")
    case True
    with assms Some show ?thesis unfolding card_ok_def t by auto
  next
    case False
    then have "mc_calls t m = Some Kicks \<longleftrightarrow> mc_calls s m = Some Kicks" for m using Some t(1) by auto
    with assms False show ?thesis unfolding card_ok_def t(2,3) by (auto simp: t(1))
  qed
  then show ?thesis by (simp add: t_def)
qed

lemma card_step_ok: "card_ok s \<Longrightarrow> card_ok (card_step e i s)"
proof (induction e i s rule: card_step.induct)
  case (1 e b s)
  then show ?case by (simp add: card_ok_def)
next
  case (7 env now p s)
  then show ?case by (simp add: card_ok_def)
next
  case (8 e s)
  then show ?case by (simp add: card_ok_def)
qed (simp_all add: handle_message_def handle_call_def card_call_ok toggle_group_ok open_picker_ok
      kick_member_ok card_replied_ok)

interpretation card: invariant_machine "\<lambda>(e, i). card_step e i" "\<lambda>_ _. True" card_ok
  by unfold_locales (auto intro: card_step_ok)

lemma card_run_ok: "card_ok (card_run es (new_card m x))"
  using card.inv_run [OF card_ok_new, of es m x] by (simp add: card_run_def)

text \<open>
  The button of a removal comes back: whatever happened before, while it shows that a removal is
  running exactly one request is waiting, and any answer to it, an error or none at all, ends that.
\<close>

theorem kick_settles:
  "let s = card_run es (new_card m x)
   in mc_kicking s \<longleftrightarrow> (\<exists>!n. mc_calls s n = Some Kicks \<and> \<not> mc_kicking (card_replied n r s))"
proof -
  define s where "s = card_run es (new_card m x)"
  have ok: "card_ok s" unfolding s_def by (rule card_run_ok)
  have "\<not> mc_kicking (card_replied n r s)" if "mc_calls s n = Some Kicks" for n
    using that by (simp add: card_replied_def Let_def card_result_kicking)
  with ok show ?thesis unfolding s_def [symmetric] Let_def card_ok_def by blast
qed

text \<open>One's own card sends nothing.\<close>

lemma is_self_frame [simp]:
  "is_self (s\<lparr>mc_popover := b\<rparr>) = is_self s" "is_self (s\<lparr>mc_kick_open := b\<rparr>) = is_self s"
  "is_self (s\<lparr>mc_calls := c\<rparr>) = is_self s"
  by (simp_all add: is_self_def cong: option.case_cong)

lemma card_result_frame:
  "mc_requests (card_result c r s) = mc_requests s" "mc_member (card_result c r s) = mc_member s"
  "mc_session (card_result c r s) = mc_session s" "mc_picker (card_result c r s) = mc_picker s"
  "mc_kick_open (card_result c r s) \<Longrightarrow> mc_kick_open s"
  by (induction c r s rule: card_result.induct) auto

definition card_quiet :: "member_card \<Rightarrow> bool" where
  "card_quiet s \<longleftrightarrow> is_self s \<and> mc_requests s = [] \<and> \<not> mc_kick_open s"

lemma card_quiet_replied: "card_quiet s \<Longrightarrow> card_quiet (card_replied n r s)"
proof -
  assume s: "card_quiet s"
  have "card_quiet (card_result c r t)" if "card_quiet t" for c t
    using that card_result_frame (5) [of c r t]
    by (auto simp: card_quiet_def is_self_def card_result_frame (1-3) cong: option.case_cong)
  moreover have "card_quiet (s\<lparr>mc_calls := (mc_calls s)(n := None)\<rparr>)" using s by (simp add: card_quiet_def)
  ultimately show ?thesis using s by (simp add: card_replied_def Let_def split: option.split)
qed

lemma card_quiet_step: "card_quiet s \<Longrightarrow> card_quiet (card_step e i s)"
proof (induction e i s rule: card_step.induct)
  case (10 e n r s)
  then show ?case by (simp add: card_quiet_replied)
qed (simp_all add: card_quiet_def picker_shown_def actions_shown_def can_remove_def badge_protected_def)

interpretation quiet_card: invariant_machine "\<lambda>(e, i). card_step e i" "\<lambda>_ _. True" card_quiet
  by unfold_locales (auto intro: card_quiet_step)

theorem own_card_sends_nothing:
  "mc_requests (card_run es (new_card m (Some (m_user m, hub, tok)))) = []"
proof -
  have "card_quiet (new_card m (Some (m_user m, hub, tok)))"
    by (simp add: card_quiet_def new_card_def is_self_def)
  then have "card_quiet (card_run es (new_card m (Some (m_user m, hub, tok))))"
    unfolding card_run_def by (rule quiet_card.inv_run) simp
  then show ?thesis by (simp add: card_quiet_def)
qed

section \<open>Defects\<close>

text \<open>
  The badge of \<open>everyone\<close> cannot be removed from anyone, but the picker takes the group away.
\<close>

lemma picker_removes_everyone:
  assumes "g \<in> set (rm_groups (mc_member s))" "mg_name g = ''everyone''" "mc_session s = Some (u, hub, tok)"
    "picker_shown now p s" "mc_picker s"
  shows "\<not> can_remove now p s g"
    and "CardDelete (card_base env @ ''/v1/hubs/'' @ hub @ ''/groups/'' @ mg_id g @ ''/members/'' @ m_user (mc_member s))
      \<in> set (mc_requests (card_step (env, now, p) (CardPick (mg_id g)) s))"
proof -
  have "lower ''everyone'' = ''everyone''" by code_simp
  with assms(2) show "\<not> can_remove now p s g" by (simp add: can_remove_def badge_protected_def)
  show "CardDelete (card_base env @ ''/v1/hubs/'' @ hub @ ''/groups/'' @ mg_id g @ ''/members/'' @ m_user (mc_member s))
      \<in> set (mc_requests (card_step (env, now, p) (CardPick (mg_id g)) s))"
    using assms by (auto simp: toggle_group_def open_picker_def Let_def card_call_def)
qed

text \<open>A refused removal closes the dialog like a successful one.\<close>

lemma refused_kick_closes:
  "mc_calls s n = Some Kicks \<Longrightarrow> \<not> mc_kick_open (card_replied n CardAnswer s)"
  by (simp add: card_replied_def Let_def)

text \<open>Without the variable of the build the requests go to port 3002 of the user's own machine.\<close>

lemma card_leaves_origin: "card_base None = ''http://localhost:3002''"
  by (simp add: card_base_def)

text \<open>A member whose clock runs ahead was seen just now; otherwise the number shown is below the next unit.\<close>

lemma last_seen_bounds:
  "case format_last_seen now x of MinutesAgo n \<Rightarrow> 1 \<le> n \<and> n < 60 | HoursAgo n \<Rightarrow> 1 \<le> n \<and> n < 24 | _ \<Rightarrow> True"
  by (auto simp: format_last_seen_def Let_def split: option.splits)

lemma seen_in_future: "now < d \<Longrightarrow> format_last_seen now (Some (Some d)) = JustNow"
proof -
  assume "now < d"
  then have "(now - d) div 60000 \<le> 0" by (simp add: div_nonpos_pos_le0)
  then show ?thesis by (simp add: format_last_seen_def Let_def)
qed

end
