(* ===== verification/Invites.thy ===== *)
theory Invites
  imports Members ChatApi
begin

text \<open>
  Inviting people: \<open>frontend/components/hub/add-teammates-dialog.tsx\<close> (which groups may be chosen,
  the three forms with their requests and replies), \<open>frontend/hooks/use-pending-invites.ts\<close>, and the
  rows of pending invitations in \<open>frontend/components/hub/member-sidebar.tsx\<close>.

  Dates are local dates, \<open>None\<close> for \<open>Invalid Date\<close>; \<open>getTime\<close> depends on the time zone of the
  browser and is an argument. Messages are the keys given to \<open>t\<close>; those of the guest form, which are written in Russian in the code, are paraphrased. The three forms share the contract
  \<open>submit_form\<close>.
\<close>

section \<open>Groups that may be chosen\<close>

record invite_group =
  ig_id :: string
  ig_name :: string
  ig_color :: "string option"
  ig_position :: int
  ig_default :: bool

definition MAX_SAFE_INTEGER :: int where
  "MAX_SAFE_INTEGER = 9007199254740991"

definition my_top_position :: "user_permissions option \<Rightarrow> int" where
  "my_top_position p = (case p of None \<Rightarrow> MAX_SAFE_INTEGER | Some x \<Rightarrow> top_position x)"

definition assignable_groups :: "invite_group list \<Rightarrow> int \<Rightarrow> invite_group list" where
  "assignable_groups gs tp =
     filter (\<lambda>g. lower (ig_name g) \<noteq> ''admin'') (filter (\<lambda>g. ig_position g > tp) gs)"

definition junior_of :: "invite_group \<Rightarrow> invite_group option \<Rightarrow> invite_group option" where
  "junior_of g acc =
     (case acc of None \<Rightarrow> Some g | Some a \<Rightarrow> if ig_position g > ig_position a then Some g else Some a)"

definition default_group_id :: "invite_group list \<Rightarrow> string option" where
  "default_group_id pickable =
     (case find ig_default pickable of
        Some g \<Rightarrow> Some (ig_id g)
      | None \<Rightarrow> map_option ig_id (fold junior_of pickable None))"

definition picker_selected :: "invite_group list \<Rightarrow> string option \<Rightarrow> invite_group option" where
  "picker_selected gs sel = find (\<lambda>g. Some (ig_id g) = sel) gs"

section \<open>Numbers and dates\<close>

text \<open>
  \<open>Number\<close> of a string of a number field: empty, or a decimal literal with fraction and exponent.
  \<open>None\<close> is NaN. The literals \<open>Infinity\<close> and \<open>0x...\<close> do not pass the sanitization of the field.
\<close>

definition signed_part :: "string \<Rightarrow> bool \<times> string" where
  "signed_part s = (if s \<noteq> [] \<and> hd s = CHR ''-'' then (True, tl s)
     else if s \<noteq> [] \<and> hd s = CHR ''+'' then (False, tl s) else (False, s))"

definition digits_value :: "string \<Rightarrow> int" where
  "digits_value ds = (case parse_digits 10 ds of None \<Rightarrow> 0 | Some n \<Rightarrow> n)"

definition exponent_part :: "string \<Rightarrow> int option" where
  "exponent_part s =
     (if s = [] then Some 0
      else if hd s = CHR ''e'' \<or> hd s = CHR ''E'' then
        (case signed_part (tl s) of (neg, ds) \<Rightarrow>
           if ds = [] \<or> \<not> list_all is_digit ds then None
           else Some (if neg then - digits_value ds else digits_value ds))
      else None)"

definition js_number :: "string \<Rightarrow> rat option" where
  "js_number s =
     (if s = [] then Some 0
      else
        (case signed_part s of (neg, body) \<Rightarrow>
          (let ip = takeWhile is_digit body;
               r = dropWhile is_digit body;
               point = (r \<noteq> [] \<and> hd r = CHR ''.'');
               fp = (if point then takeWhile is_digit (tl r) else []);
               r' = (if point then dropWhile is_digit (tl r) else r)
           in if ip = [] \<and> fp = [] then None
              else case exponent_part r' of
                None \<Rightarrow> None
              | Some e \<Rightarrow>
                  (let v = of_int (digits_value (ip @ fp));
                       k = e - int (length fp);
                       m = (if k \<ge> 0 then v * 10 ^ nat k else v / 10 ^ nat (- k))
                   in Some (if neg then - m else m)))))"

definition is_integer :: "rat \<Rightarrow> bool" where
  "is_integer q \<longleftrightarrow> snd (quotient_of q) = 1"

record local_date =
  ld_day :: int
  ld_hour :: int
  ld_min :: int
  ld_sec :: int
  ld_ms :: int

text \<open>The parts of the value of the time field, \<open>Some None\<close> for NaN and \<open>None\<close> for \<open>undefined\<close>.\<close>

fun split_colon :: "string \<Rightarrow> string list" where
  "split_colon [] = [[]]"
| "split_colon (c # cs) =
     (case split_colon cs of
        [] \<Rightarrow> [[c]]
      | x # xs \<Rightarrow> if c = CHR '':'' then [] # x # xs else (c # x) # xs)"

definition time_parts :: "string \<Rightarrow> rat option list" where
  "time_parts v = map js_number (split_colon v)"

definition part_at :: "nat \<Rightarrow> 'a list \<Rightarrow> 'a option" where
  "part_at i xs = (if i < length xs then Some (xs ! i) else None)"

text \<open>
  \<open>setHours(h, m, 0, 0)\<close>: an argument that is missing or not a number gives an invalid date. The
  parts of a time field are integers in range.
\<close>

definition set_hours :: "rat option option \<Rightarrow> rat option option \<Rightarrow> local_date option \<Rightarrow> local_date option" where
  "set_hours h m d =
     (case (h, m, d) of
        (Some (Some x), Some (Some y), Some e) \<Rightarrow>
          Some (e\<lparr>ld_hour := \<lfloor>x\<rfloor>, ld_min := \<lfloor>y\<rfloor>, ld_sec := 0, ld_ms := 0\<rparr>)
      | _ \<Rightarrow> None)"

definition pick_time :: "string \<Rightarrow> local_date option \<Rightarrow> local_date option" where
  "pick_time v d =
     (let ps = time_parts v; h = part_at 0 ps; m = part_at 1 ps
      in if h = Some None \<or> m = Some None then d else set_hours h m d)"

definition pick_day :: "int option \<Rightarrow> local_date option \<Rightarrow> local_date option" where
  "pick_day x d =
     (case x of
        None \<Rightarrow> d
      | Some day \<Rightarrow>
          map_option (\<lambda>e. \<lparr>ld_day = day, ld_hour = ld_hour e, ld_min = ld_min e, ld_sec = 0, ld_ms = 0\<rparr>) d)"

datatype render_error = RangeError

text \<open>The button shows \<open>format(expiresAt, "PPP")\<close>, which throws on an invalid date.\<close>

definition shown_day :: "local_date option \<Rightarrow> render_error + int" where
  "shown_day d = (case d of None \<Rightarrow> Inl RangeError | Some e \<Rightarrow> Inr (ld_day e))"

section \<open>The contract of the forms\<close>

text \<open>
  A form with one request at a time: it is submitted when it is idle and no result is shown; the
  reply gives a result or an error. Errors are cleared when the request is sent.
\<close>

locale submit_form =
  fixes busy :: "'s \<Rightarrow> bool"
    and result :: "'s \<Rightarrow> bool"
    and failed :: "'s \<Rightarrow> bool"
    and submit :: "'e \<Rightarrow> 's \<Rightarrow> 's"
    and reply :: "'r \<Rightarrow> 's \<Rightarrow> 's"
    and edit :: "'c \<Rightarrow> 's \<Rightarrow> 's"
  assumes submit_clears: "\<not> busy s \<Longrightarrow> \<not> result s \<Longrightarrow> busy (submit e s) \<Longrightarrow> \<not> failed (submit e s)"
    and submit_no_result: "\<not> result s \<Longrightarrow> \<not> result (submit e s)"
    and reply_settles: "busy s \<Longrightarrow> \<not> failed s \<Longrightarrow> \<not> result s \<Longrightarrow>
      \<not> busy (reply r s) \<and> (result (reply r s) \<longleftrightarrow> \<not> failed (reply r s))"
    and edit_keeps: "busy (edit c s) = busy s" "result (edit c s) \<Longrightarrow> result s" "failed (edit c s) \<Longrightarrow> failed s"
begin

text \<open>At most one of a running request, a result and an error.\<close>

definition phase_ok :: "'s \<Rightarrow> bool" where
  "phase_ok s \<longleftrightarrow> \<not> (busy s \<and> failed s) \<and> \<not> (busy s \<and> result s) \<and> \<not> (result s \<and> failed s)"

text \<open>The events pass the guards of the page: no button while busy, no form while a result is shown.\<close>

definition form_step :: "('e, 'r + 'c) sum \<Rightarrow> 's \<Rightarrow> 's" where
  "form_step x s =
     (case x of
        Inl e \<Rightarrow> if busy s \<or> result s then s else submit e s
      | Inr (Inl r) \<Rightarrow> if busy s then reply r s else s
      | Inr (Inr c) \<Rightarrow> edit c s)"

lemma phase_step: "phase_ok s \<Longrightarrow> phase_ok (form_step x s)"
  using submit_clears [of s] submit_no_result [of s] reply_settles [of s] edit_keeps [of _ s]
  by (auto simp: phase_ok_def form_step_def split: sum.splits)

lemma phase_run: "phase_ok s \<Longrightarrow> phase_ok (fold form_step xs s)"
  by (induction xs arbitrary: s) (auto intro: phase_step)

text \<open>Every reply ends the request, with a result or an error, not both.\<close>

lemma reply_ends:
  assumes "phase_ok s" "busy s"
  shows "\<not> busy (form_step (Inr (Inl r)) s) \<and>
    (result (form_step (Inr (Inl r)) s) \<longleftrightarrow> \<not> failed (form_step (Inr (Inl r)) s))"
  using assms reply_settles [of s r] by (auto simp: phase_ok_def form_step_def)

end

text \<open>
  The environment of a form: hub and token (\<open>None\<close> for \<open>undefined\<close>, empty strings are falsy) and
  the origin of the page. A reply is an error status with the code of its body, an address, or a
  failure of the request (no network, or a body that is not JSON).
\<close>

record form_env =
  fe_hub :: "string option"
  fe_token :: "string option"
  fe_scheme :: string
  fe_host :: string

text \<open>\<open>window.location.origin\<close>.\<close>

definition page_origin :: "form_env \<Rightarrow> string" where
  "page_origin e = fe_scheme e @ ''://'' @ fe_host e"

definition given :: "string option \<Rightarrow> bool" where
  "given x \<longleftrightarrow> x \<noteq> None \<and> x \<noteq> Some []"

datatype form_reply = Refused int "string option" | Created string | Unreachable

definition invite_url :: "form_env \<Rightarrow> string \<Rightarrow> string" where
  "invite_url e u = page_origin e @ u"

definition status_text :: "int \<Rightarrow> string" where
  "status_text n = ''Error: '' @ show_int n"

section \<open>The link form\<close>

record link_request =
  lr_expires :: local_date
  lr_max_uses :: "rat option"
  lr_group :: "string option"

record link_form =
  lf_expires :: "local_date option"
  lf_date_open :: bool
  lf_limited :: bool
  lf_max_uses :: string
  lf_group :: "string option"
  lf_url :: string
  lf_submitting :: bool
  lf_max_err :: string
  lf_form_err :: string
  lf_requests :: "link_request list"
  lf_invalidated :: "string list"

definition new_link_form :: "local_date \<Rightarrow> link_form" where
  "new_link_form d =
     \<lparr>lf_expires = Some d, lf_date_open = False, lf_limited = False, lf_max_uses = ''10'', lf_group = None,
      lf_url = [], lf_submitting = False, lf_max_err = [], lf_form_err = [], lf_requests = [],
      lf_invalidated = []\<rparr>"

definition effective_group :: "string option \<Rightarrow> link_form \<Rightarrow> string option" where
  "effective_group dflt s = (case lf_group s of None \<Rightarrow> dflt | Some g \<Rightarrow> Some g)"

text \<open>
  \<open>submit\<close>. \<open>toISOString\<close> of an invalid date throws, which the handler reports as an unreachable
  server.
\<close>

definition link_submit :: "form_env \<times> string option \<Rightarrow> link_form \<Rightarrow> link_form" where
  "link_submit x s =
     (case x of (e, dflt) \<Rightarrow>
        if \<not> given (fe_hub e) \<or> \<not> given (fe_token e) then s
        else
          (let s1 = s\<lparr>lf_max_err := [], lf_form_err := []\<rparr>;
               cap = (if lf_limited s then js_number (lf_max_uses s) else None);
               bad = (lf_limited s \<and> (case cap of None \<Rightarrow> True | Some n \<Rightarrow> \<not> is_integer n \<or> n < 1))
           in if bad then s1\<lparr>lf_max_err := ''Enter a positive whole number''\<rparr>
              else case lf_expires s of
                None \<Rightarrow> s1\<lparr>lf_form_err := ''Could not reach the server''\<rparr>
              | Some d \<Rightarrow>
                  s1\<lparr>lf_submitting := True,
                     lf_requests := lf_requests s @
                       [\<lparr>lr_expires = d, lr_max_uses = cap, lr_group = effective_group dflt s\<rparr>]\<rparr>))"

definition link_refused :: "int \<Rightarrow> string option \<Rightarrow> link_form \<Rightarrow> link_form" where
  "link_refused status code s =
     (if code = Some ''expires_in_past'' then s\<lparr>lf_form_err := ''Pick a future date''\<rparr>
      else if code = Some ''invalid_max_uses'' then s\<lparr>lf_max_err := ''Enter a positive whole number''\<rparr>
      else if code = Some ''invalid_group'' then s\<lparr>lf_form_err := ''Selected group is no longer available''\<rparr>
      else if code = Some ''forbidden'' then s\<lparr>lf_form_err := ''No permission to create invitations''\<rparr>
      else s\<lparr>lf_form_err := status_text status\<rparr>)"

definition link_replied :: "form_env \<times> form_reply \<Rightarrow> link_form \<Rightarrow> link_form" where
  "link_replied x s =
     (case x of
        (e, Refused status code) \<Rightarrow> (link_refused status code s)\<lparr>lf_submitting := False\<rparr>
      | (e, Created u) \<Rightarrow>
          s\<lparr>lf_url := invite_url e u, lf_submitting := False,
            lf_invalidated := lf_invalidated s @ (case fe_hub e of None \<Rightarrow> [] | Some h \<Rightarrow> if h = [] then [] else [h])\<rparr>
      | (e, Unreachable) \<Rightarrow> s\<lparr>lf_form_err := ''Could not reach the server'', lf_submitting := False\<rparr>)"

datatype link_edit =
    LinkDateOpen bool
  | LinkDay "int option"
  | LinkTime string
  | LinkLimited bool
  | LinkMaxUses string
  | LinkGroup string
  | LinkReset

fun link_change :: "link_edit \<Rightarrow> link_form \<Rightarrow> link_form" where
  "link_change (LinkDateOpen b) s = s\<lparr>lf_date_open := b\<rparr>"
| "link_change (LinkDay x) s =
     (if x = None then s else s\<lparr>lf_expires := pick_day x (lf_expires s), lf_date_open := False\<rparr>)"
| "link_change (LinkTime v) s = s\<lparr>lf_expires := pick_time v (lf_expires s)\<rparr>"
| "link_change (LinkLimited b) s =
     s\<lparr>lf_limited := b, lf_max_err := (if b then lf_max_err s else [])\<rparr>"
| "link_change (LinkMaxUses v) s = s\<lparr>lf_max_uses := v, lf_max_err := []\<rparr>"
| "link_change (LinkGroup g) s = s\<lparr>lf_group := Some g\<rparr>"
| "link_change LinkReset s = s\<lparr>lf_url := []\<rparr>"

section \<open>The guest form\<close>

record temp_request =
  tr_nickname :: string
  tr_group :: string
  tr_ttl :: int

record temp_form =
  tf_nickname :: string
  tf_expires :: "local_date option"
  tf_date_open :: bool
  tf_url :: string
  tf_submitting :: bool
  tf_error :: string
  tf_suffix :: string
  tf_requests :: "temp_request list"
  tf_invalidated :: "string list"

definition new_temp_form :: "local_date \<Rightarrow> string \<Rightarrow> temp_form" where
  "new_temp_form d suffix =
     \<lparr>tf_nickname = [], tf_expires = Some d, tf_date_open = False, tf_url = [], tf_submitting = False,
      tf_error = [], tf_suffix = suffix, tf_requests = [], tf_invalidated = []\<rparr>"

definition last_chars :: "nat \<Rightarrow> string \<Rightarrow> string" where
  "last_chars n s = drop (length s - n) s"

definition placeholder_nick :: "string option \<Rightarrow> temp_form \<Rightarrow> string" where
  "placeholder_nick hub s =
     (case hub of
        None \<Rightarrow> ''tempuser''
      | Some h \<Rightarrow> if h = [] then ''tempuser'' else ''tempuser-'' @ last_chars 4 h @ ''-'' @ tf_suffix s)"

definition ttl_seconds :: "int \<Rightarrow> int \<Rightarrow> int" where
  "ttl_seconds now expires = max 60 ((expires - now) div 1000)"

text \<open>
  The arguments: the environment, the group, the time and \<open>getTime\<close>. The time of an invalid date
  is NaN, and so is the sent number; the page has failed before (\<open>shown_day\<close>), so nothing is sent here.
\<close>

definition temp_submit ::
  "form_env \<times> string option \<times> int \<times> (local_date \<Rightarrow> int) \<Rightarrow> temp_form \<Rightarrow> temp_form" where
  "temp_submit x s =
     (case x of (e, grp, now, time_of) \<Rightarrow>
        if \<not> given (fe_hub e) \<or> \<not> given (fe_token e) \<or> \<not> given grp
        then s\<lparr>tf_error := ''groups not loaded''\<rparr>
        else case tf_expires s of
          None \<Rightarrow> s
        | Some d \<Rightarrow>
            (let nick = js_trim (tf_nickname s) in
             s\<lparr>tf_error := [], tf_submitting := True,
               tf_requests := tf_requests s @
                 [\<lparr>tr_nickname = (if nick = [] then placeholder_nick (fe_hub e) s else nick),
                   tr_group = the grp, tr_ttl = ttl_seconds now (time_of d)\<rparr>]\<rparr>))"

definition temp_replied :: "form_env \<times> form_reply \<Rightarrow> temp_form \<Rightarrow> temp_form" where
  "temp_replied x s =
     (case x of
        (e, Refused status code) \<Rightarrow> s\<lparr>tf_error := status_text status, tf_submitting := False\<rparr>
      | (e, Created u) \<Rightarrow>
          s\<lparr>tf_url := invite_url e u, tf_submitting := False,
            tf_invalidated := tf_invalidated s @ (case fe_hub e of None \<Rightarrow> [] | Some h \<Rightarrow> if h = [] then [] else [h])\<rparr>
      | (e, Unreachable) \<Rightarrow> s\<lparr>tf_error := ''server unreachable'', tf_submitting := False\<rparr>)"

datatype temp_edit = TempNick string | TempDateOpen bool | TempDay "int option" | TempTime string | TempReset

fun temp_change :: "temp_edit \<Rightarrow> temp_form \<Rightarrow> temp_form" where
  "temp_change (TempNick v) s = s\<lparr>tf_nickname := v\<rparr>"
| "temp_change (TempDateOpen b) s = s\<lparr>tf_date_open := b\<rparr>"
| "temp_change (TempDay x) s =
     (if x = None then s else s\<lparr>tf_expires := pick_day x (tf_expires s), tf_date_open := False\<rparr>)"
| "temp_change (TempTime v) s = s\<lparr>tf_expires := pick_time v (tf_expires s)\<rparr>"
| "temp_change TempReset s = s\<lparr>tf_url := []\<rparr>"

section \<open>The form of a permanent user\<close>

record perm_form =
  pf_username :: string
  pf_email :: string
  pf_url :: string
  pf_submitting :: bool
  pf_username_err :: string
  pf_email_err :: string
  pf_form_err :: string
  pf_requests :: "(string \<times> string option) list"
  pf_invalidated :: "string list"

definition new_perm_form :: perm_form where
  "new_perm_form =
     \<lparr>pf_username = [], pf_email = [], pf_url = [], pf_submitting = False, pf_username_err = [],
      pf_email_err = [], pf_form_err = [], pf_requests = [], pf_invalidated = []\<rparr>"

definition apply_server_error :: "string option \<Rightarrow> int \<Rightarrow> perm_form \<Rightarrow> perm_form" where
  "apply_server_error code status s =
     (if code = Some ''username_required'' then s\<lparr>pf_username_err := ''Enter login''\<rparr>
      else if code = Some ''username_taken'' then s\<lparr>pf_username_err := ''Login is already taken''\<rparr>
      else if code = Some ''username_pending'' then
        s\<lparr>pf_username_err := ''There is already a pending invite for this login''\<rparr>
      else if code = Some ''invalid_email'' then s\<lparr>pf_email_err := ''Invalid email format''\<rparr>
      else if code = Some ''email_taken'' then s\<lparr>pf_email_err := ''Email is already in use''\<rparr>
      else if code = Some ''email_pending'' then
        s\<lparr>pf_email_err := ''There is already a pending invite for this email''\<rparr>
      else if code = Some ''forbidden'' then s\<lparr>pf_form_err := ''No permission to create invitations''\<rparr>
      else s\<lparr>pf_form_err := status_text status\<rparr>)"

definition perm_submit :: "form_env \<Rightarrow> perm_form \<Rightarrow> perm_form" where
  "perm_submit e s =
     (if \<not> given (fe_hub e) \<or> \<not> given (fe_token e) then s
      else
        (let s1 = s\<lparr>pf_username_err := [], pf_email_err := [], pf_form_err := []\<rparr>;
             name = js_trim (pf_username s); mail = js_trim (pf_email s)
         in if name = [] then s1\<lparr>pf_username_err := ''Enter login''\<rparr>
            else s1\<lparr>pf_submitting := True,
                    pf_requests := pf_requests s @ [(name, if mail = [] then None else Some mail)]\<rparr>))"

definition perm_replied :: "form_env \<times> form_reply \<Rightarrow> perm_form \<Rightarrow> perm_form" where
  "perm_replied x s =
     (case x of
        (e, Refused status code) \<Rightarrow> (apply_server_error code status s)\<lparr>pf_submitting := False\<rparr>
      | (e, Created u) \<Rightarrow>
          s\<lparr>pf_url := invite_url e u, pf_submitting := False,
            pf_invalidated := pf_invalidated s @ (case fe_hub e of None \<Rightarrow> [] | Some h \<Rightarrow> if h = [] then [] else [h])\<rparr>
      | (e, Unreachable) \<Rightarrow> s\<lparr>pf_form_err := ''Could not reach the server'', pf_submitting := False\<rparr>)"

datatype perm_edit = PermName string | PermEmail string | PermReset

fun perm_change :: "perm_edit \<Rightarrow> perm_form \<Rightarrow> perm_form" where
  "perm_change (PermName v) s = s\<lparr>pf_username := v, pf_username_err := []\<rparr>"
| "perm_change (PermEmail v) s = s\<lparr>pf_email := v, pf_email_err := []\<rparr>"
| "perm_change PermReset s = s\<lparr>pf_url := []\<rparr>"

section \<open>Pending invitations\<close>

datatype invite_kind = PermanentInvite | TempInvite | LinkInvite

record pending_invite =
  pi_kind :: invite_kind
  pi_id :: string
  pi_name :: string
  pi_created_by :: string
  pi_max_uses :: "int option"
  pi_uses :: "int option"

text \<open>The result of the list: an answer with its status and list, or no answer.\<close>

datatype pending_result = PendingList "pending_invite list" | PendingRedirect | PendingThrows

definition pending_key :: "string option \<Rightarrow> (string \<times> string) option" where
  "pending_key hub =
     (case hub of None \<Rightarrow> None | Some h \<Rightarrow> if h = [] then None else Some (''pending-invites'', h))"

definition fetch_pending ::
  "string option \<Rightarrow> (int \<times> pending_invite list option) option \<Rightarrow> pending_result" where
  "fetch_pending tok answer =
     (if \<not> given tok then PendingList []
      else case answer of
        None \<Rightarrow> PendingThrows
      | Some (status, ans) \<Rightarrow>
          if status = 401 then PendingRedirect
          else if \<not> (200 \<le> status \<and> status \<le> 299) then PendingThrows
          else case ans of None \<Rightarrow> PendingThrows | Some l \<Rightarrow> PendingList l)"

definition kind_name :: "invite_kind \<Rightarrow> string" where
  "kind_name k = (case k of PermanentInvite \<Rightarrow> ''permanent'' | TempInvite \<Rightarrow> ''temp'' | LinkInvite \<Rightarrow> ''link'')"

datatype link_label = UsedCount int | UsedOf int int

definition format_link_label :: "int option \<Rightarrow> int option \<Rightarrow> link_label" where
  "format_link_label used cap =
     (let u = (case used of None \<Rightarrow> 0 | Some n \<Rightarrow> n) in
      case cap of None \<Rightarrow> UsedCount u | Some c \<Rightarrow> UsedOf u c)"

record invite_row =
  ir_invite :: pending_invite
  ir_open :: bool
  ir_deleting :: bool
  ir_error :: string
  ir_requests :: "string list"
  ir_invalidated :: "string list"

definition new_invite_row :: "pending_invite \<Rightarrow> invite_row" where
  "new_invite_row x =
     \<lparr>ir_invite = x, ir_open = False, ir_deleting = False, ir_error = [], ir_requests = [], ir_invalidated = []\<rparr>"

definition can_delete_invite :: "string option \<Rightarrow> user_permissions option \<Rightarrow> pending_invite \<Rightarrow> bool" where
  "can_delete_invite me p x \<longleftrightarrow>
     me = Some (pi_created_by x)
     \<or> (if pi_kind x = TempInvite then perms_has p P_CREATE_TEMP_LINKS else perms_has p P_INVITE_PERMANENT)
     \<or> perms_has p P_MANAGE_MEMBERS"

definition delete_path :: "string \<Rightarrow> pending_invite \<Rightarrow> string" where
  "delete_path hub x =
     ''/api/hub/v1/hubs/'' @ hub @ ''/pending-invites/'' @ kind_name (pi_kind x) @ ''/'' @ pi_id x"

definition delete_invite :: "string option \<Rightarrow> string option \<Rightarrow> invite_row \<Rightarrow> invite_row" where
  "delete_invite hub tok s =
     (if \<not> given hub \<or> \<not> given tok \<or> ir_deleting s then s
      else s\<lparr>ir_error := [], ir_deleting := True,
             ir_requests := ir_requests s @ [delete_path (the hub) (ir_invite s)]\<rparr>)"

text \<open>
  The reply of \<open>deletePendingInvite\<close>: a status, or \<open>None\<close> when the request itself fails. Then the
  promise is rejected and nothing after the \<open>await\<close> runs.
\<close>

definition delete_replied :: "string \<Rightarrow> int option \<Rightarrow> invite_row \<Rightarrow> invite_row" where
  "delete_replied hub r s =
     (case r of
        None \<Rightarrow> s
      | Some status \<Rightarrow>
          (let s1 = (if (200 \<le> status \<and> status \<le> 299) \<or> status = 404 \<or> status = 410
                     then s\<lparr>ir_invalidated := ir_invalidated s @ [hub]\<rparr> else s);
               s2 = (if status = 204 \<or> status = 404 \<or> status = 410 then s1\<lparr>ir_open := False\<rparr>
                     else if status = 403 then s1\<lparr>ir_error := ''No permission to delete this invite''\<rparr>
                     else s1\<lparr>ir_error := status_text status\<rparr>)
           in s2\<lparr>ir_deleting := False\<rparr>))"

section \<open>Who may be invited where\<close>

lemma fold_junior:
  "case fold junior_of gs acc of
     None \<Rightarrow> gs = [] \<and> acc = None
   | Some g \<Rightarrow> (g \<in> set gs \<or> acc = Some g) \<and> (\<forall>h \<in> set gs \<union> set_option acc. ig_position h \<le> ig_position g)"
proof (induction gs arbitrary: acc)
  case Nil
  then show ?case by (auto split: option.split)
next
  case (Cons h gs)
  obtain a where a: "junior_of h acc = Some a" "a = h \<or> acc = Some a" "\<forall>x \<in> insert h (set_option acc). ig_position x \<le> ig_position a"
    by (cases acc; cases "ig_position h > ig_position (the acc)") (auto simp: junior_of_def)
  from Cons.IH [of "Some a"] a show ?case by (auto simp: a(1) split: option.splits; fastforce)
qed

text \<open>The group that is chosen when the user picks none may be assigned by him: it stands below his own
  rank and is not the group of administrators. It is the default group of the hub if that may be
  assigned, otherwise one of the lowest rank; and there is none only if no group may be assigned.
\<close>

theorem default_group_may_be_assigned:
  "case default_group_id (assignable_groups gs tp) of
     None \<Rightarrow> assignable_groups gs tp = []
   | Some i \<Rightarrow> \<exists>g \<in> set gs. ig_id g = i \<and> tp < ig_position g \<and> lower (ig_name g) \<noteq> ''admin''
       \<and> (ig_default g \<or> (\<forall>h \<in> set (assignable_groups gs tp). \<not> ig_default h \<and> ig_position h \<le> ig_position g))"
proof (cases "find ig_default (assignable_groups gs tp)")
  case (Some g)
  then have "g \<in> set (assignable_groups gs tp)" "ig_default g" by (auto simp: find_Some_iff)
  with Some show ?thesis by (auto simp: default_group_id_def assignable_groups_def)
next
  case None
  then have n: "\<forall>h \<in> set (assignable_groups gs tp). \<not> ig_default h" by (simp add: find_None_iff)
  show ?thesis
  proof (cases "fold junior_of (assignable_groups gs tp) None")
    case (Some g)
    with fold_junior [of "assignable_groups gs tp" None]
    have g: "g \<in> set (assignable_groups gs tp)" "\<forall>h \<in> set (assignable_groups gs tp). ig_position h \<le> ig_position g" by auto
    then have "g \<in> set gs" "tp < ig_position g" "lower (ig_name g) \<noteq> ''admin''" by (auto simp: assignable_groups_def)
    with g n None Some show ?thesis by (auto simp: default_group_id_def)
  next
    case None': None
    with fold_junior [of "assignable_groups gs tp" None] None show ?thesis by (auto simp: default_group_id_def)
  qed
qed

definition demo_groups :: "invite_group list" where
  "demo_groups =
     [\<lparr>ig_id = ''1'', ig_name = ''Admin'', ig_color = None, ig_position = 5, ig_default = False\<rparr>,
      \<lparr>ig_id = ''2'', ig_name = ''staff'', ig_color = None, ig_position = 3, ig_default = False\<rparr>,
      \<lparr>ig_id = ''3'', ig_name = ''guests'', ig_color = None, ig_position = 4, ig_default = False\<rparr>]"

lemma demo_assignable: "assignable_groups demo_groups 2 = tl demo_groups"
  by code_simp

theorem default_group_may_be_assigned_witness:
  "\<exists>g \<in> set demo_groups. default_group_id (assignable_groups demo_groups 2) = Some (ig_id g) \<and> 4 \<le> ig_position g
    \<and> lower (ig_name g) \<noteq> ''admin''"
proof -
  have a: "assignable_groups demo_groups 2 \<noteq> []" "\<exists>h \<in> set (assignable_groups demo_groups 2). ig_position h = 4"
    "\<forall>h \<in> set demo_groups. \<not> ig_default h"
    unfolding demo_assignable by (simp_all add: demo_groups_def)
  with default_group_may_be_assigned [of demo_groups 2] obtain g where
    "g \<in> set demo_groups" "default_group_id (assignable_groups demo_groups 2) = Some (ig_id g)"
    "lower (ig_name g) \<noteq> ''admin''" "\<forall>h \<in> set (assignable_groups demo_groups 2). ig_position h \<le> ig_position g"
    by (auto split: option.splits)
  with a(2) show ?thesis by force
qed

text \<open>
  Before the permissions are loaded no group may be chosen and there is no default: the position of
  the user stands in as the greatest number, and nothing is below it.
\<close>

lemma nothing_assignable_unloaded:
  "\<forall>g \<in> set gs. ig_position g \<le> MAX_SAFE_INTEGER \<Longrightarrow> assignable_groups gs (my_top_position None) = []"
  by (auto simp: assignable_groups_def my_top_position_def filter_empty_conv)

section \<open>The forms keep the contract\<close>

lemma status_text_ne [simp]: "status_text n \<noteq> []"
  by (simp add: status_text_def)

lemma invite_url_ne [simp]: "invite_url e u \<noteq> []"
  by (simp add: invite_url_def page_origin_def)

lemma link_refused_frame [simp]:
  "lf_url (link_refused st c s) = lf_url s" "lf_submitting (link_refused st c s) = lf_submitting s"
  by (simp_all add: link_refused_def)

lemma link_refused_fails [simp]: "lf_max_err (link_refused st c s) = [] \<Longrightarrow> lf_form_err (link_refused st c s) \<noteq> []"
  by (auto simp: link_refused_def split: if_splits)

interpretation link: submit_form lf_submitting "\<lambda>s. lf_url s \<noteq> []" "\<lambda>s. lf_max_err s \<noteq> [] \<or> lf_form_err s \<noteq> []"
  link_submit link_replied link_change
proof unfold_locales
  fix s :: link_form and c
  show "lf_submitting (link_change c s) = lf_submitting s" by (cases c) auto
  show "lf_url (link_change c s) \<noteq> [] \<Longrightarrow> lf_url s \<noteq> []" by (cases c) (auto split: if_splits)
  show "lf_max_err (link_change c s) \<noteq> [] \<or> lf_form_err (link_change c s) \<noteq> [] \<Longrightarrow> lf_max_err s \<noteq> [] \<or> lf_form_err s \<noteq> []"
    by (cases c) (auto split: if_splits)
qed (auto simp: link_submit_def link_replied_def Let_def split: prod.splits option.splits if_splits form_reply.splits)

interpretation temp: submit_form tf_submitting "\<lambda>s. tf_url s \<noteq> []" "\<lambda>s. tf_error s \<noteq> []"
  temp_submit temp_replied temp_change
proof unfold_locales
  fix s :: temp_form and c
  show "tf_submitting (temp_change c s) = tf_submitting s" by (cases c) auto
  show "tf_url (temp_change c s) \<noteq> [] \<Longrightarrow> tf_url s \<noteq> []" by (cases c) (auto split: if_splits)
  show "tf_error (temp_change c s) \<noteq> [] \<Longrightarrow> tf_error s \<noteq> []" by (cases c) (auto split: if_splits)
qed (auto simp: temp_submit_def temp_replied_def Let_def split: prod.splits option.splits if_splits form_reply.splits)

definition perm_failed :: "perm_form \<Rightarrow> bool" where
  "perm_failed s \<longleftrightarrow> pf_username_err s \<noteq> [] \<or> pf_email_err s \<noteq> [] \<or> pf_form_err s \<noteq> []"

lemma server_error_frame [simp]:
  "pf_url (apply_server_error c st s) = pf_url s" "pf_submitting (apply_server_error c st s) = pf_submitting s"
  by (simp_all add: apply_server_error_def)

lemma server_error_fails [simp]: "perm_failed (apply_server_error c st s)"
  by (simp add: apply_server_error_def perm_failed_def)

lemma perm_failed_submitting [simp]: "perm_failed (s\<lparr>pf_submitting := b\<rparr>) = perm_failed s"
  by (simp add: perm_failed_def)

interpretation perm: submit_form pf_submitting "\<lambda>s. pf_url s \<noteq> []" perm_failed perm_submit perm_replied perm_change
proof unfold_locales
  fix s :: perm_form and c e r
  show "pf_submitting (perm_change c s) = pf_submitting s" by (cases c) auto
  show "pf_url (perm_change c s) \<noteq> [] \<Longrightarrow> pf_url s \<noteq> []" by (cases c) auto
  show "perm_failed (perm_change c s) \<Longrightarrow> perm_failed s" by (cases c) (auto simp: perm_failed_def)
  show "\<not> pf_submitting s \<Longrightarrow> \<not> pf_url s \<noteq> [] \<Longrightarrow> pf_submitting (perm_submit e s) \<Longrightarrow> \<not> perm_failed (perm_submit e s)"
    by (auto simp: perm_submit_def perm_failed_def Let_def split: if_splits)
  show "\<not> pf_url s \<noteq> [] \<Longrightarrow> \<not> pf_url (perm_submit e s) \<noteq> []"
    by (auto simp: perm_submit_def Let_def)
  assume "pf_submitting s" "\<not> perm_failed s" "\<not> pf_url s \<noteq> []"
  then show "\<not> pf_submitting (perm_replied r s) \<and> ((pf_url (perm_replied r s) \<noteq> []) = (\<not> perm_failed (perm_replied r s)))"
    by (auto simp: perm_replied_def split: prod.split form_reply.split) (auto simp: perm_failed_def)
qed

definition perm_form_step :: "(form_env, (form_env \<times> form_reply) + perm_edit) sum \<Rightarrow> perm_form \<Rightarrow> perm_form" where
  "perm_form_step x s =
     (case x of
        Inl e \<Rightarrow> if pf_submitting s \<or> pf_url s \<noteq> [] then s else perm_submit e s
      | Inr (Inl r) \<Rightarrow> if pf_submitting s then perm_replied r s else s
      | Inr (Inr c) \<Rightarrow> perm_change c s)"

lemma perm_form_step_eq: "perm.form_step = perm_form_step"
  by (intro ext) (simp add: perm.form_step_def perm_form_step_def split: sum.split)

lemma perm_phase: "perm.phase_ok (fold perm_form_step xs new_perm_form)"
  using perm.phase_run [of new_perm_form xs]
  by (simp add: perm_form_step_eq) (simp add: perm.phase_ok_def new_perm_form_def)

text \<open>
  C33. Whatever is typed, sent and answered, the form of a permanent user shows at most one of a running
  request, an error and a link; and every answer to a running request leaves exactly one of the last two.
\<close>

theorem invite_form_settles:
  "let s = fold perm_form_step xs new_perm_form; t = perm_form_step (Inr (Inl r)) s
   in \<not> (pf_submitting s \<and> perm_failed s) \<and> \<not> (pf_submitting s \<and> pf_url s \<noteq> []) \<and> \<not> (perm_failed s \<and> pf_url s \<noteq> [])
    \<and> (if pf_submitting s then \<not> pf_submitting t \<and> (pf_url t \<noteq> []) = (\<not> perm_failed t) else True)"
proof -
  define s where "s = fold perm_form_step xs new_perm_form"
  have ok: "perm.phase_ok s" unfolding s_def by (rule perm_phase)
  from perm.reply_ends [OF this, of r]
  have "pf_submitting s \<Longrightarrow> \<not> pf_submitting (perm_form_step (Inr (Inl r)) s) \<and>
    (pf_url (perm_form_step (Inr (Inl r)) s) \<noteq> []) = (\<not> perm_failed (perm_form_step (Inr (Inl r)) s))"
    by (simp add: perm_form_step_eq)
  with ok show ?thesis unfolding s_def [symmetric] Let_def perm.phase_ok_def by auto
qed

section \<open>What is sent\<close>

text \<open>A limit that is sent is a whole number of at least one, and none is sent without a limit.\<close>

lemma link_cap_positive:
  assumes "lf_requests (link_submit x s) = lf_requests s @ [q]"
  shows "case lr_max_uses q of None \<Rightarrow> \<not> lf_limited s
    | Some n \<Rightarrow> lf_limited s \<and> is_integer n \<and> 1 \<le> n \<and> js_number (lf_max_uses s) = Some n"
  using assms
  by (auto simp: link_submit_def Let_def not_less split: prod.splits if_splits option.splits)

text \<open>A guest's stay is at least a minute, and otherwise ends within the second before the chosen time.
\<close>

theorem guest_ttl_bounds:
  "60 \<le> ttl_seconds now expires \<and>
   (if now + 60000 \<le> expires
    then now + 1000 * ttl_seconds now expires \<le> expires \<and> expires < now + 1000 * ttl_seconds now expires + 1000
    else ttl_seconds now expires = 60)"
proof -
  have "1000 * ((expires - now) div 1000) \<le> expires - now" "expires - now < 1000 * ((expires - now) div 1000) + 1000"
    using pos_mod_bound [of 1000 "expires - now"] pos_mod_sign [of 1000 "expires - now"]
      div_mult_mod_eq [of "expires - now" 1000] by linarith+
  then show ?thesis by (auto simp: ttl_seconds_def)
qed

lemma perm_request_trimmed:
  "perm_submit e s \<noteq> s \<Longrightarrow> pf_submitting (perm_submit e s) \<Longrightarrow> \<not> pf_submitting s \<Longrightarrow>
   \<exists>mail. pf_requests (perm_submit e s) = pf_requests s @ [(js_trim (pf_username s), mail)] \<and> js_trim (pf_username s) \<noteq> []"
  by (auto simp: perm_submit_def Let_def split: if_splits)

section \<open>Defects\<close>

text \<open>
  Clearing the time field makes the date invalid (its second part is \<open>undefined\<close>, which
  \<open>Number.isNaN\<close> does not catch), and the next rendering throws. No later choice repairs it.
\<close>

lemma pick_time_empty: "pick_time [] d = None"
  by (simp add: pick_time_def time_parts_def part_at_def js_number_def set_hours_def Let_def split: option.split)

lemma invalid_date_stays: "pick_day x None = None" "pick_time v None = None"
  by (auto simp: pick_day_def pick_time_def set_hours_def Let_def split: option.splits)

theorem clearing_time_breaks_dialog:
  "shown_day (lf_expires (fold link_change (LinkTime [] # cs) (new_link_form d))) = Inl RangeError"
proof -
  have "lf_expires (fold link_change cs s) = None" if "lf_expires s = None" for s
    using that
  proof (induction cs arbitrary: s)
    case (Cons c cs)
    then have "lf_expires (link_change c s) = None" by (cases c) (auto simp: invalid_date_stays)
    with Cons.IH show ?case by simp
  qed simp
  then show ?thesis by (simp add: pick_time_empty shown_day_def)
qed

lemma pick_time_example:
  "pick_time ''09:30'' (Some d) = Some (d\<lparr>ld_hour := 9, ld_min := 30, ld_sec := 0, ld_ms := 0\<rparr>)"
proof -
  have "time_parts ''09:30'' = [Some 9, Some 30]" by code_simp
  then show ?thesis by (simp add: pick_time_def part_at_def set_hours_def)
qed

text \<open>A failure of the network leaves the row deleting: its button stays disabled for good.\<close>

lemma failed_delete_hangs:
  assumes "ir_deleting s"
  shows "delete_replied hub None s = s" "delete_invite hub' tok s = s"
  using assms by (simp_all add: delete_replied_def delete_invite_def)

lemma delete_settles: "\<not> ir_deleting (delete_replied hub (Some status) s)"
  by (simp add: delete_replied_def Let_def)

text \<open>An accepted deletion with a status other than 204 is shown as an error.\<close>

lemma accepted_delete_shows_error:
  "ir_error (delete_replied hub (Some 200) s) = status_text 200 \<and> hub \<in> set (ir_invalidated (delete_replied hub (Some 200) s))"
  by (simp add: delete_replied_def Let_def)

end
