(* ===== verification/SignIn.thy ===== *)
theory SignIn
  imports Auth Invites
begin

text \<open>
  The pages in front of the hub: \<open>frontend/app/page.tsx\<close> (where a visitor goes), and under
  \<open>frontend/app/\<close> the pages \<open>(auth)/login\<close>, \<open>(auth)/signup\<close> (a shared link), \<open>(auth)/register\<close> (an
  invitation), \<open>(auth)/join\<close> (a guest link) and \<open>setup\<close> (the first start). A page that succeeds calls
  \<open>login\<close> of the session with what the server sent; these calls are logged in order. A form whose
  submit button is disabled is not submitted, neither by the button nor by the Enter key.
\<close>

section \<open>Where a visitor goes\<close>

datatype boot_target = ToSetup | ToHub | ToLogin

text \<open>
  The state: the answer to the status request (\<open>None\<close> while it is open), the loading flag and
  whether a session is there. A request that fails counts as \<open>needs_setup: false\<close>.
\<close>

definition boot_target :: "bool option \<Rightarrow> bool \<Rightarrow> bool \<Rightarrow> boot_target option" where
  "boot_target needs loading has_session =
     (if loading then None
      else case needs of
        None \<Rightarrow> None
      | Some n \<Rightarrow> Some (if n then ToSetup else if has_session then ToHub else ToLogin))"

section \<open>What the server sends\<close>

record sign_in = auth_session +
  si_username :: string
  si_slug :: string
  si_expires_in :: "int option"

definition apply_logins :: "exp_of \<Rightarrow> sign_in list \<Rightarrow> auth \<Rightarrow> auth" where
  "apply_logins exp_of xs s = fold (\<lambda>x. login exp_of (auth_session.truncate x)) xs s"

text \<open>A refusal with its status and the code of its body, a good answer, or a failure.\<close>

datatype page_reply = PageRefused int "string option" | PageOk sign_in | PageFails

text \<open>The session made of the answer to a new account: no picture and no expiry.\<close>

definition fresh_session :: "sign_in \<Rightarrow> sign_in" where
  "fresh_session d = d\<lparr>as_temp := False, as_expires := None, as_avatar := None\<rparr>"

section \<open>Signing in\<close>

definition FALLBACK_HUB_ID :: string where
  "FALLBACK_HUB_ID = ''1''"

record login_page =
  lp_login :: string
  lp_password :: string
  lp_remember :: bool
  lp_error :: string
  lp_loading :: bool
  lp_hub :: "string option"
  lp_hub_name :: "string option"
  lp_status_loaded :: bool
  lp_status_error :: bool
  lp_mount_open :: bool \<comment> \<open>the status request of the mount is open\<close>
  lp_submit_open :: bool \<comment> \<open>the status request of a submission is open\<close>
  lp_posting :: bool \<comment> \<open>the login request is open\<close>
  lp_requests :: "(string \<times> string \<times> string \<times> bool) list" \<comment> \<open>login, password, hub, remember\<close>
  lp_logins :: "sign_in list"

definition new_login_page :: login_page where
  "new_login_page =
     \<lparr>lp_login = [], lp_password = [], lp_remember = False, lp_error = [], lp_loading = False,
      lp_hub = None, lp_hub_name = None, lp_status_loaded = False, lp_status_error = False,
      lp_mount_open = True, lp_submit_open = False, lp_posting = False, lp_requests = [], lp_logins = []\<rparr>"

text \<open>\<open>None\<close> for an error status, no network or no JSON; otherwise hub id and name.\<close>

type_synonym status_reply = "(string option \<times> string option) option"

definition status_applied :: "status_reply \<Rightarrow> login_page \<Rightarrow> login_page" where
  "status_applied r s =
     (case r of
        None \<Rightarrow> s\<lparr>lp_status_error := True, lp_status_loaded := True\<rparr>
      | Some (h, n) \<Rightarrow>
          s\<lparr>lp_hub := (if given h then h else lp_hub s), lp_hub_name := (if given n then n else lp_hub_name s),
            lp_status_error := False, lp_status_loaded := True\<rparr>)"

definition post_login :: "string \<Rightarrow> login_page \<Rightarrow> login_page" where
  "post_login hub s =
     s\<lparr>lp_posting := True,
       lp_requests := lp_requests s @ [(lp_login s, lp_password s, hub, lp_remember s)]\<rparr>"

definition login_submit :: "login_page \<Rightarrow> login_page" where
  "login_submit s =
     (if lp_loading s \<or> \<not> lp_status_loaded s then s
      else
        (let s1 = s\<lparr>lp_error := [], lp_loading := True\<rparr> in
         case lp_hub s of None \<Rightarrow> s1\<lparr>lp_submit_open := True\<rparr> | Some h \<Rightarrow> post_login h s1))"

definition mount_status :: "status_reply \<Rightarrow> login_page \<Rightarrow> login_page" where
  "mount_status r s = (if lp_mount_open s then status_applied r (s\<lparr>lp_mount_open := False\<rparr>) else s)"

text \<open>The continuation of the submission sees the hub of its own rendering, which was null.\<close>

definition submit_status :: "status_reply \<Rightarrow> login_page \<Rightarrow> login_page" where
  "submit_status r s =
     (if lp_submit_open s
      then post_login (case r of Some (Some h, _) \<Rightarrow> h | _ \<Rightarrow> FALLBACK_HUB_ID)
             (status_applied r (s\<lparr>lp_submit_open := False\<rparr>))
      else s)"

definition login_status_error :: "int \<Rightarrow> string" where
  "login_status_error n =
     (if n = 401 then ''Invalid username or password''
      else if n = 403 then ''You are not a member of this hub''
      else ''Login failed ('' @ show_int n @ '')'')"

definition login_replied :: "page_reply \<Rightarrow> login_page \<Rightarrow> login_page" where
  "login_replied r s =
     (if \<not> lp_posting s then s
      else
        (let s1 = s\<lparr>lp_posting := False\<rparr> in
         case r of
           PageRefused n _ \<Rightarrow> s1\<lparr>lp_error := login_status_error n, lp_loading := False\<rparr>
         | PageOk d \<Rightarrow> s1\<lparr>lp_logins := lp_logins s @ [d\<lparr>as_temp := False, as_expires := None\<rparr>]\<rparr>
         | PageFails \<Rightarrow> s1\<lparr>lp_error := ''Cannot reach server'', lp_loading := False\<rparr>))"

datatype login_input =
    LoginField string | PasswordField string | RememberField bool | LoginSubmit
  | MountStatus status_reply | SubmitStatus status_reply | LoginReply page_reply

fun login_step :: "login_input \<Rightarrow> login_page \<Rightarrow> login_page" where
  "login_step (LoginField v) s = s\<lparr>lp_login := v\<rparr>"
| "login_step (PasswordField v) s = s\<lparr>lp_password := v\<rparr>"
| "login_step (RememberField b) s = s\<lparr>lp_remember := b\<rparr>"
| "login_step LoginSubmit s = login_submit s"
| "login_step (MountStatus r) s = mount_status r s"
| "login_step (SubmitStatus r) s = submit_status r s"
| "login_step (LoginReply r) s = login_replied r s"

section \<open>A shared link\<close>

record signup_page =
  sg_token :: "string option"
  sg_preview :: bool
  sg_load_error :: string
  sg_loading :: bool
  sg_submitting :: bool
  sg_username :: string
  sg_display :: string
  sg_email :: string
  sg_password :: string
  sg_confirm :: string
  sg_username_err :: string
  sg_email_err :: string
  sg_password_err :: string
  sg_display_err :: string
  sg_form_err :: string
  sg_requests :: "(string \<times> string \<times> string \<times> string) list"
  sg_logins :: "sign_in list"

definition new_signup_page :: "string option \<Rightarrow> signup_page" where
  "new_signup_page tok =
     \<lparr>sg_token = tok, sg_preview = False, sg_load_error = [], sg_loading = True, sg_submitting = False,
      sg_username = [], sg_display = [], sg_email = [], sg_password = [], sg_confirm = [],
      sg_username_err = [], sg_email_err = [], sg_password_err = [], sg_display_err = [], sg_form_err = [],
      sg_requests = [], sg_logins = []\<rparr>"

text \<open>The check of a link: an answer with its status, or \<open>None\<close> for no network or no JSON.\<close>

definition link_error :: "string \<Rightarrow> int option \<Rightarrow> string option" where
  "link_error gone r =
     (case r of
        None \<Rightarrow> Some ''request failed''
      | Some n \<Rightarrow>
          if n = 404 then Some ''Link does not exist''
          else if n = 410 then Some gone
          else if \<not> (200 \<le> n \<and> n \<le> 299) then Some (status_text n) else None)"

definition signup_checked :: "int option \<Rightarrow> signup_page \<Rightarrow> signup_page" where
  "signup_checked r s =
     (if \<not> given (sg_token s) \<or> \<not> sg_loading s then s
      else case link_error ''This link is no longer valid'' r of
        Some e \<Rightarrow> s\<lparr>sg_load_error := e, sg_loading := False\<rparr>
      | None \<Rightarrow> s\<lparr>sg_preview := True, sg_loading := False\<rparr>)"

definition signup_submit :: "unit \<Rightarrow> signup_page \<Rightarrow> signup_page" where
  "signup_submit _ s =
     (if \<not> given (sg_token s) \<or> \<not> sg_preview s then s
      else
        (let s1 = s\<lparr>sg_username_err := [], sg_email_err := [], sg_password_err := [], sg_display_err := [],
                    sg_form_err := []\<rparr>
         in if sg_password s \<noteq> sg_confirm s then s1\<lparr>sg_password_err := ''Passwords do not match''\<rparr>
            else s1\<lparr>sg_submitting := True,
                    sg_requests := sg_requests s @
                      [(js_trim (sg_username s), sg_password s, js_trim (sg_display s), js_trim (sg_email s))]\<rparr>))"

definition signup_refused :: "int \<Rightarrow> string option \<Rightarrow> signup_page \<Rightarrow> signup_page" where
  "signup_refused status code s =
     (if code = Some ''username_invalid'' then s\<lparr>sg_username_err := ''Login must be 3-32 chars: letters, digits, . _ -''\<rparr>
      else if code = Some ''username_taken'' then s\<lparr>sg_username_err := ''Login is already taken''\<rparr>
      else if code = Some ''email_invalid'' then s\<lparr>sg_email_err := ''Invalid email format''\<rparr>
      else if code = Some ''email_taken'' then s\<lparr>sg_email_err := ''Email is already in use''\<rparr>
      else if code = Some ''password_too_short'' then
        s\<lparr>sg_password_err := ''Password too short (minimum 6 characters)''\<rparr>
      else if code = Some ''display_name_invalid'' then s\<lparr>sg_display_err := ''Enter your name''\<rparr>
      else if code = Some ''link_unavailable'' then s\<lparr>sg_form_err := ''This link is no longer valid''\<rparr>
      else s\<lparr>sg_form_err := status_text status\<rparr>)"

definition signup_replied :: "page_reply \<Rightarrow> signup_page \<Rightarrow> signup_page" where
  "signup_replied r s =
     (case r of
        PageRefused status code \<Rightarrow> (signup_refused status code s)\<lparr>sg_submitting := False\<rparr>
      | PageOk d \<Rightarrow> s\<lparr>sg_logins := sg_logins s @ [fresh_session d]\<rparr>
      | PageFails \<Rightarrow> s\<lparr>sg_form_err := ''Could not reach the server'', sg_submitting := False\<rparr>)"

datatype signup_edit =
    SignupUsername string | SignupDisplay string | SignupEmail string | SignupPassword string | SignupConfirm string
  | SignupChecked "int option"

fun signup_change :: "signup_edit \<Rightarrow> signup_page \<Rightarrow> signup_page" where
  "signup_change (SignupUsername v) s = s\<lparr>sg_username := v, sg_username_err := []\<rparr>"
| "signup_change (SignupDisplay v) s = s\<lparr>sg_display := v, sg_display_err := []\<rparr>"
| "signup_change (SignupEmail v) s = s\<lparr>sg_email := v, sg_email_err := []\<rparr>"
| "signup_change (SignupPassword v) s = s\<lparr>sg_password := v, sg_password_err := []\<rparr>"
| "signup_change (SignupConfirm v) s = s\<lparr>sg_confirm := v\<rparr>"
| "signup_change (SignupChecked r) s = signup_checked r s"

definition slots_left :: "int option \<Rightarrow> int \<Rightarrow> int option" where
  "slots_left cap used = map_option (\<lambda>n. n - used) cap"

section \<open>An invitation\<close>

text \<open>
  What a page waits for: the answer to its request, or the upload of a picture for the account it
  has just made. Files are known by whether there is one.
\<close>

datatype page_stage = StageIdle | StagePosting | StageAvatar sign_in | StageHubAvatar sign_in

record invite_page =
  ip_token :: "string option"
  ip_preview :: bool
  ip_load_error :: string
  ip_loading :: bool
  ip_stage :: page_stage
  ip_submitting :: bool
  ip_error :: string
  ip_avatar :: bool
  ip_display :: string
  ip_password :: string
  ip_confirm :: string
  ip_requests :: "(string \<times> string) list"
  ip_uploads :: nat
  ip_logins :: "sign_in list"

definition new_invite_page :: "string option \<Rightarrow> invite_page" where
  "new_invite_page tok =
     \<lparr>ip_token = tok, ip_preview = False, ip_load_error = [], ip_loading = True, ip_stage = StageIdle,
      ip_submitting = False, ip_error = [], ip_avatar = False, ip_display = [], ip_password = [],
      ip_confirm = [], ip_requests = [], ip_uploads = 0, ip_logins = []\<rparr>"

definition invite_checked :: "int option \<Rightarrow> invite_page \<Rightarrow> invite_page" where
  "invite_checked r s =
     (if \<not> given (ip_token s) \<or> \<not> ip_loading s then s
      else case link_error ''This link has already been used'' r of
        Some e \<Rightarrow> s\<lparr>ip_load_error := e, ip_loading := False\<rparr>
      | None \<Rightarrow> s\<lparr>ip_preview := True, ip_loading := False\<rparr>)"

text \<open>The local checks, in the order of the code.\<close>

definition account_error :: "string \<Rightarrow> string \<Rightarrow> string option" where
  "account_error pw confirm =
     (if length pw < 6 then Some ''Password too short (minimum 6 characters)''
      else if pw \<noteq> confirm then Some ''Passwords do not match'' else None)"

definition invite_submit :: "invite_page \<Rightarrow> invite_page" where
  "invite_submit s =
     (if \<not> given (ip_token s) \<or> \<not> ip_preview s \<or> ip_submitting s then s
      else if js_trim (ip_display s) = [] then s\<lparr>ip_error := ''Enter your name''\<rparr>
      else case account_error (ip_password s) (ip_confirm s) of
        Some e \<Rightarrow> s\<lparr>ip_error := e\<rparr>
      | None \<Rightarrow>
          s\<lparr>ip_error := [], ip_submitting := True, ip_stage := StagePosting,
            ip_requests := ip_requests s @ [(js_trim (ip_display s), ip_password s)]\<rparr>)"

definition invite_status_error :: "int \<Rightarrow> string" where
  "invite_status_error n =
     (if n = 410 then ''This link has already been used''
      else if n = 409 then ''Login is taken'' else status_text n)"

definition invite_replied :: "page_reply \<Rightarrow> invite_page \<Rightarrow> invite_page" where
  "invite_replied r s =
     (case ip_stage s of
        StagePosting \<Rightarrow>
          (case r of
             PageRefused n _ \<Rightarrow> s\<lparr>ip_error := invite_status_error n, ip_submitting := False, ip_stage := StageIdle\<rparr>
           | PageFails \<Rightarrow> s\<lparr>ip_error := ''Could not reach the server'', ip_submitting := False, ip_stage := StageIdle\<rparr>
           | PageOk d \<Rightarrow>
               if ip_avatar s then s\<lparr>ip_stage := StageAvatar d, ip_uploads := Suc (ip_uploads s)\<rparr>
               else s\<lparr>ip_stage := StageIdle, ip_logins := ip_logins s @ [fresh_session d]\<rparr>)
      | _ \<Rightarrow> s)"

text \<open>The upload ends, well or not.\<close>

definition invite_uploaded :: "invite_page \<Rightarrow> invite_page" where
  "invite_uploaded s =
     (case ip_stage s of
        StageAvatar d \<Rightarrow> s\<lparr>ip_stage := StageIdle, ip_logins := ip_logins s @ [fresh_session d]\<rparr>
      | _ \<Rightarrow> s)"

datatype invite_input =
    InviteDisplay string | InvitePassword string | InviteConfirm string | InviteAvatar bool
  | InviteSubmit | InviteChecked "int option" | InviteReply page_reply | InviteUploaded

fun invite_step :: "invite_input \<Rightarrow> invite_page \<Rightarrow> invite_page" where
  "invite_step (InviteDisplay v) s = s\<lparr>ip_display := v\<rparr>"
| "invite_step (InvitePassword v) s = s\<lparr>ip_password := v\<rparr>"
| "invite_step (InviteConfirm v) s = s\<lparr>ip_confirm := v\<rparr>"
| "invite_step (InviteAvatar b) s = s\<lparr>ip_avatar := b\<rparr>"
| "invite_step InviteSubmit s = invite_submit s"
| "invite_step (InviteChecked r) s = invite_checked r s"
| "invite_step (InviteReply r) s = invite_replied r s"
| "invite_step InviteUploaded s = invite_uploaded s"

section \<open>A guest link\<close>

datatype join_phase = Resolving | Ready | Entering | JoinError

record join_page =
  jp_phase :: join_phase
  jp_data :: "sign_in option"
  jp_error :: string
  jp_dots :: nat
  jp_logins :: "sign_in list"

definition new_join_page :: join_page where
  "new_join_page = \<lparr>jp_phase = Resolving, jp_data = None, jp_error = [], jp_dots = 0, jp_logins = []\<rparr>"

definition join_tick :: "join_page \<Rightarrow> join_page" where
  "join_tick s =
     (if jp_phase s \<noteq> Resolving then s
      else s\<lparr>jp_dots := (if jp_dots s \<ge> 3 then 0 else Suc (jp_dots s))\<rparr>)"

text \<open>The answer; a good one after its delay of 600 ms.\<close>

definition join_resolved :: "page_reply \<Rightarrow> join_page \<Rightarrow> join_page" where
  "join_resolved r s =
     (case r of
        PageRefused n _ \<Rightarrow>
          s\<lparr>jp_error := (if n = 404 then ''Link expired or revoked'' else ''Server error ('' @ show_int n @ '')''),
            jp_phase := JoinError\<rparr>
      | PageOk d \<Rightarrow> s\<lparr>jp_data := Some d, jp_phase := Ready\<rparr>
      | PageFails \<Rightarrow> s\<lparr>jp_error := ''Cannot reach server'', jp_phase := JoinError\<rparr>)"

text \<open>
  \<open>enter\<close>, from the button that is shown when the page is ready. A guest has no refresh token and is
  shown under the nickname.
\<close>

definition join_enter :: "join_page \<Rightarrow> join_page" where
  "join_enter s =
     (case jp_data s of
        None \<Rightarrow> s
      | Some d \<Rightarrow>
          if jp_phase s \<noteq> Ready then s
          else s\<lparr>jp_phase := Entering,
                 jp_logins := jp_logins s @ [d\<lparr>as_temp := True, as_refresh := None, as_expires := None,
                                         as_name := si_username d, as_avatar := None\<rparr>]\<rparr>)"

section \<open>The first start\<close>

record setup_page =
  su_step :: nat
  su_submitting :: bool
  su_stage :: page_stage
  su_error :: string
  su_admin_avatar :: bool
  su_display :: string
  su_username :: string
  su_email :: string
  su_password :: string
  su_confirm :: string
  su_hub_avatar :: bool
  su_hub_name :: string
  su_requests :: "(string \<times> string \<times> string \<times> string option \<times> string) list"
    \<comment> \<open>user name, password, display name, mail, hub name\<close>
  su_uploads :: "string list"
  su_logins :: "sign_in list"

definition new_setup_page :: setup_page where
  "new_setup_page =
     \<lparr>su_step = 1, su_submitting = False, su_stage = StageIdle, su_error = [], su_admin_avatar = False,
      su_display = [], su_username = [], su_email = [], su_password = [], su_confirm = [],
      su_hub_avatar = False, su_hub_name = [], su_requests = [], su_uploads = [], su_logins = []\<rparr>"

definition go_next :: "setup_page \<Rightarrow> setup_page" where
  "go_next s =
     (let s1 = s\<lparr>su_error := []\<rparr> in
      if js_trim (su_username s) = [] \<or> js_trim (su_display s) = [] then s1\<lparr>su_error := ''Fill in name and login''\<rparr>
      else case account_error (su_password s) (su_confirm s) of
        Some e \<Rightarrow> s1\<lparr>su_error := e\<rparr>
      | None \<Rightarrow> s1\<lparr>su_step := 2\<rparr>)"

definition setup_finish :: "setup_page \<Rightarrow> setup_page" where
  "setup_finish s =
     (if js_trim (su_hub_name s) = [] then s\<lparr>su_error := ''Enter hub name''\<rparr>
      else
        (let mail = js_trim (su_email s) in
         s\<lparr>su_error := [], su_submitting := True, su_stage := StagePosting,
           su_requests := su_requests s @
             [(js_trim (su_username s), su_password s, js_trim (su_display s),
               (if mail = [] then None else Some mail), js_trim (su_hub_name s))]\<rparr>))"

text \<open>After the account: the picture of the administrator, the icon of the hub, then signing in.\<close>

definition hub_upload :: "sign_in \<Rightarrow> setup_page \<Rightarrow> setup_page" where
  "hub_upload d s =
     (if su_hub_avatar s then s\<lparr>su_stage := StageHubAvatar d, su_uploads := su_uploads s @ [''hub'']\<rparr>
      else s\<lparr>su_stage := StageIdle, su_logins := su_logins s @ [fresh_session d]\<rparr>)"

definition setup_replied :: "page_reply \<Rightarrow> setup_page \<Rightarrow> setup_page" where
  "setup_replied r s =
     (case su_stage s of
        StagePosting \<Rightarrow>
          (case r of
             PageRefused n _ \<Rightarrow>
               s\<lparr>su_error := (if n = 409 then ''Hub is already initialised'' else ''Setup failed ('' @ show_int n @ '')''),
                 su_submitting := False, su_stage := StageIdle\<rparr>
           | PageFails \<Rightarrow> s\<lparr>su_error := ''Could not reach the server'', su_submitting := False, su_stage := StageIdle\<rparr>
           | PageOk d \<Rightarrow>
               if su_admin_avatar s then s\<lparr>su_stage := StageAvatar d, su_uploads := su_uploads s @ [''admin'']\<rparr>
               else hub_upload d s)
      | _ \<Rightarrow> s)"

definition setup_uploaded :: "setup_page \<Rightarrow> setup_page" where
  "setup_uploaded s =
     (case su_stage s of
        StageAvatar d \<Rightarrow> hub_upload d s
      | StageHubAvatar d \<Rightarrow> s\<lparr>su_stage := StageIdle, su_logins := su_logins s @ [fresh_session d]\<rparr>
      | _ \<Rightarrow> s)"

datatype setup_input =
    SetupDisplay string | SetupUsername string | SetupEmail string | SetupPassword string | SetupConfirm string
  | SetupAdminAvatar bool | SetupNext | SetupBack | SetupHubName string | SetupHubAvatar bool | SetupFinish
  | SetupReply page_reply | SetupUploaded

text \<open>The fields and buttons of each step are on the page only in that step.\<close>

fun setup_step :: "setup_input \<Rightarrow> setup_page \<Rightarrow> setup_page" where
  "setup_step (SetupDisplay v) s = (if su_step s = 1 then s\<lparr>su_display := v\<rparr> else s)"
| "setup_step (SetupUsername v) s = (if su_step s = 1 then s\<lparr>su_username := v\<rparr> else s)"
| "setup_step (SetupEmail v) s = (if su_step s = 1 then s\<lparr>su_email := v\<rparr> else s)"
| "setup_step (SetupPassword v) s = (if su_step s = 1 then s\<lparr>su_password := v\<rparr> else s)"
| "setup_step (SetupConfirm v) s = (if su_step s = 1 then s\<lparr>su_confirm := v\<rparr> else s)"
| "setup_step (SetupAdminAvatar b) s = (if su_step s = 1 then s\<lparr>su_admin_avatar := b\<rparr> else s)"
| "setup_step SetupNext s = (if su_step s = 1 then go_next s else s)"
| "setup_step SetupBack s = (if su_step s = 2 \<and> \<not> su_submitting s then s\<lparr>su_step := 1\<rparr> else s)"
| "setup_step (SetupHubName v) s = (if su_step s = 2 then s\<lparr>su_hub_name := v\<rparr> else s)"
| "setup_step (SetupHubAvatar b) s = (if su_step s = 2 then s\<lparr>su_hub_avatar := b\<rparr> else s)"
| "setup_step SetupFinish s = (if su_step s = 2 \<and> \<not> su_submitting s then setup_finish s else s)"
| "setup_step (SetupReply r) s = setup_replied r s"
| "setup_step SetupUploaded s = setup_uploaded s"

section \<open>Signing in asks the right hub\<close>

text \<open>The hub ids that the server has given so far.\<close>

fun hub_of :: "login_input \<Rightarrow> string option" where
  "hub_of (MountStatus (Some (h, _))) = h"
| "hub_of (SubmitStatus (Some (h, _))) = h"
| "hub_of _ = None"

definition login_ok :: "string \<Rightarrow> login_page \<Rightarrow> bool" where
  "login_ok h s \<longleftrightarrow>
     lp_hub s \<in> {None, Some h}
     \<and> (\<forall>(_, _, x, _) \<in> set (lp_requests s). x \<in> {h, FALLBACK_HUB_ID})
     \<and> (lp_submit_open s \<longrightarrow> lp_loading s \<and> lp_status_loaded s)
     \<and> (lp_mount_open s \<longleftrightarrow> \<not> lp_status_loaded s)
     \<and> (lp_posting s \<longrightarrow> lp_loading s \<and> \<not> lp_submit_open s)"

lemma login_ok_new: "login_ok h new_login_page"
  by (simp add: login_ok_def new_login_page_def)

lemma login_ok_step:
  assumes "login_ok h s" "hub_of i \<in> {None, Some h}" "h \<noteq> []"
  shows "login_ok h (login_step i s)"
proof (cases i)
  case LoginSubmit
  with assms show ?thesis
    by (auto simp: login_ok_def login_submit_def post_login_def Let_def split: option.splits)
next
  case (MountStatus r)
  with assms show ?thesis
    by (cases r) (auto simp: login_ok_def mount_status_def status_applied_def given_def)
next
  case (SubmitStatus r)
  with assms show ?thesis
    by (cases r)
      (auto simp: login_ok_def submit_status_def status_applied_def post_login_def given_def split: option.splits prod.splits)
next
  case (LoginReply r)
  with assms show ?thesis
    by (cases r) (auto simp: login_ok_def login_replied_def Let_def)
qed (use assms in \<open>auto simp: login_ok_def\<close>)

definition hub_announced :: "string \<Rightarrow> login_input \<Rightarrow> bool" where
  "hub_announced h i \<longleftrightarrow> hub_of i \<in> {None, Some h} \<and> h \<noteq> []"

interpretation login_page: invariant_machine login_step "\<lambda>i _. hub_announced h i" "login_ok h" for h
  by unfold_locales (auto intro: login_ok_step simp: hub_announced_def)

text \<open>
  A server that answers the status request names one hub. Every login request then goes to that hub
  or, when no answer came that names it, to the fallback; and once the hub is known to the page,
  each new request goes to it.
\<close>

theorem login_asks_known_hub:
  assumes "\<forall>i \<in> set is. hub_announced h i"
  defines "s \<equiv> run login_step is new_login_page"
  shows "(\<forall>(_, _, x, _) \<in> set (lp_requests s). x \<in> {h, FALLBACK_HUB_ID})
    \<and> lp_hub s \<in> {None, Some h}
    \<and> (if lp_hub s \<noteq> None
       then set (lp_requests (login_step LoginSubmit s)) \<subseteq> set (lp_requests s) \<union> {(lp_login s, lp_password s, h, lp_remember s)}
       else lp_requests (login_step LoginSubmit s) = lp_requests s)"
proof -
  have ok: "login_ok h s" unfolding s_def using login_page.inv_run [OF login_ok_new, where es = "is"] assms(1) by simp
  then have "lp_hub s \<in> {None, Some h}" "\<forall>(_, _, x, _) \<in> set (lp_requests s). x \<in> {h, FALLBACK_HUB_ID}"
    by (auto simp: login_ok_def)
  moreover from this(1) have "if lp_hub s \<noteq> None
      then set (lp_requests (login_step LoginSubmit s)) \<subseteq> set (lp_requests s) \<union> {(lp_login s, lp_password s, h, lp_remember s)}
      else lp_requests (login_step LoginSubmit s) = lp_requests s"
    by (auto simp: login_submit_def post_login_def Let_def split: if_splits)
  ultimately show ?thesis by blast
qed

theorem login_asks_known_hub_witness:
  "lp_requests (run login_step
      [MountStatus (Some (Some ''77'', Some ''Acme'')), LoginField ''ann'', PasswordField ''secret'', LoginSubmit]
      new_login_page) = [(''ann'', ''secret'', ''77'', False)]"
proof -
  let ?is = "[MountStatus (Some (Some ''77'', Some ''Acme'')), LoginField ''ann'', PasswordField ''secret'', LoginSubmit]"
  have "\<forall>i \<in> set ?is. hub_announced ''77'' i" by (simp add: hub_announced_def)
  note login_asks_known_hub [OF this, THEN conjunct1]
  moreover have "\<exists>x. lp_requests (run login_step ?is new_login_page) = [(''ann'', ''secret'', x, False)]
      \<and> x \<noteq> FALLBACK_HUB_ID"
    by (simp add: new_login_page_def mount_status_def status_applied_def given_def login_submit_def post_login_def
        FALLBACK_HUB_ID_def)
  ultimately show ?thesis by auto
qed

section \<open>The first start sends a valid account\<close>

definition account_ok :: "setup_page \<Rightarrow> bool" where
  "account_ok s \<longleftrightarrow>
     js_trim (su_username s) \<noteq> [] \<and> js_trim (su_display s) \<noteq> [] \<and> 6 \<le> length (su_password s)
     \<and> su_password s = su_confirm s"

definition setup_ok :: "setup_page \<Rightarrow> bool" where
  "setup_ok s \<longleftrightarrow>
     su_step s \<in> {1, 2} \<and> (su_step s = 2 \<longrightarrow> account_ok s)
     \<and> (su_submitting s \<longrightarrow> su_step s = 2) \<and> (su_stage s \<noteq> StageIdle \<longrightarrow> su_submitting s)
     \<and> (\<forall>(u, p, d, m, h) \<in> set (su_requests s). u \<noteq> [] \<and> 6 \<le> length p \<and> d \<noteq> [] \<and> m \<noteq> Some [] \<and> h \<noteq> [])"

lemma setup_ok_new: "setup_ok new_setup_page"
  by (simp add: setup_ok_def new_setup_page_def)

lemma hub_upload_ok: "setup_ok s \<Longrightarrow> su_submitting s \<Longrightarrow> setup_ok (hub_upload d s)"
  by (auto simp: setup_ok_def hub_upload_def account_ok_def)

lemma setup_replied_ok: "setup_ok s \<Longrightarrow> setup_ok (setup_replied r s)"
proof -
  assume s: "setup_ok s"
  then have "su_stage s = StagePosting \<Longrightarrow> su_submitting s" by (auto simp: setup_ok_def)
  with s hub_upload_ok [OF s] show ?thesis
    by (auto simp: setup_replied_def split: page_stage.split page_reply.split) (auto simp: setup_ok_def account_ok_def)
qed

lemma setup_uploaded_ok: "setup_ok s \<Longrightarrow> setup_ok (setup_uploaded s)"
proof -
  assume s: "setup_ok s"
  then have "su_stage s = StageAvatar d \<Longrightarrow> su_submitting s" for d by (auto simp: setup_ok_def)
  with s hub_upload_ok [OF s] show ?thesis
    by (auto simp: setup_uploaded_def split: page_stage.split) (auto simp: setup_ok_def account_ok_def)
qed

lemma setup_finish_ok: "setup_ok s \<Longrightarrow> su_step s = 2 \<Longrightarrow> setup_ok (setup_finish s)"
  by (auto simp: setup_ok_def setup_finish_def account_ok_def Let_def)

lemma go_next_ok: "setup_ok s \<Longrightarrow> su_step s = 1 \<Longrightarrow> setup_ok (go_next s)"
  by (auto simp: setup_ok_def go_next_def account_ok_def account_error_def Let_def)

lemma setup_step_ok: "setup_ok s \<Longrightarrow> setup_ok (setup_step i s)"
proof (cases i)
  case (SetupReply r)
  assume "setup_ok s"
  then show ?thesis by (simp add: SetupReply setup_replied_ok)
next
  case SetupUploaded
  assume "setup_ok s"
  then show ?thesis by (simp add: SetupUploaded setup_uploaded_ok)
qed (auto simp: go_next_ok setup_finish_ok, auto simp: setup_ok_def account_ok_def)

interpretation setup_page: invariant_machine setup_step "\<lambda>_ _. True" setup_ok
  by unfold_locales (rule setup_step_ok)


text \<open>
  A created account is signed in once whatever pictures were chosen, after at most two uploads, whose
  outcome does not matter.
\<close>

lemma created_account_signed_in:
  assumes "su_stage s = StagePosting"
  shows "su_logins (run setup_step [SetupReply (PageOk d), SetupUploaded, SetupUploaded] s) = su_logins s @ [fresh_session d]"
  using assms by (simp add: setup_replied_def setup_uploaded_def hub_upload_def)

lemma accepted_invitation_signed_in:
  assumes "ip_stage s = StagePosting"
  shows "ip_logins (run invite_step [InviteReply (PageOk d), InviteUploaded] s) = ip_logins s @ [fresh_session d]"
  using assms by (simp add: invite_replied_def invite_uploaded_def)

section \<open>The form of a shared link keeps the contract\<close>

definition signup_failed :: "signup_page \<Rightarrow> bool" where
  "signup_failed s \<longleftrightarrow> sg_username_err s \<noteq> [] \<or> sg_email_err s \<noteq> [] \<or> sg_password_err s \<noteq> []
     \<or> sg_display_err s \<noteq> [] \<or> sg_form_err s \<noteq> []"

lemma signup_refused_frame [simp]:
  "sg_logins (signup_refused st c s) = sg_logins s" "sg_submitting (signup_refused st c s) = sg_submitting s"
  by (simp_all add: signup_refused_def)

lemma signup_refused_fails [simp]: "signup_failed (signup_refused st c s)"
  by (simp add: signup_refused_def signup_failed_def)

lemma signup_failed_submitting [simp]: "signup_failed (s\<lparr>sg_submitting := b\<rparr>) = signup_failed s"
  by (simp add: signup_failed_def)

interpretation signup: submit_form "\<lambda>s. sg_submitting s \<and> sg_logins s = []" "\<lambda>s. sg_logins s \<noteq> []" signup_failed
  signup_submit signup_replied signup_change
proof unfold_locales
  fix s :: signup_page and c e r
  have b: "sg_submitting (signup_change c s) = sg_submitting s" "sg_logins (signup_change c s) = sg_logins s"
    by (cases c; simp add: signup_checked_def split: option.split)+
  then show "(sg_submitting (signup_change c s) \<and> sg_logins (signup_change c s) = []) = (sg_submitting s \<and> sg_logins s = [])"
    by simp
  show "sg_logins (signup_change c s) \<noteq> [] \<Longrightarrow> sg_logins s \<noteq> []" using b by simp
  show "signup_failed (signup_change c s) \<Longrightarrow> signup_failed s"
    by (cases c) (auto simp: signup_failed_def signup_checked_def split: option.splits if_splits)
  show "\<not> (sg_submitting s \<and> sg_logins s = []) \<Longrightarrow> \<not> sg_logins s \<noteq> [] \<Longrightarrow>
      sg_submitting (signup_submit e s) \<and> sg_logins (signup_submit e s) = [] \<Longrightarrow> \<not> signup_failed (signup_submit e s)"
    by (auto simp: signup_submit_def signup_failed_def Let_def split: if_splits)
  show "\<not> sg_logins s \<noteq> [] \<Longrightarrow> \<not> sg_logins (signup_submit e s) \<noteq> []"
    by (auto simp: signup_submit_def Let_def)
  assume "sg_submitting s \<and> sg_logins s = []" "\<not> signup_failed s" "\<not> sg_logins s \<noteq> []"
  then show "\<not> (sg_submitting (signup_replied r s) \<and> sg_logins (signup_replied r s) = [])
      \<and> ((sg_logins (signup_replied r s) \<noteq> []) = (\<not> signup_failed (signup_replied r s)))"
    by (auto simp: signup_replied_def split: page_reply.split) (auto simp: signup_failed_def)
qed

section \<open>A guest\<close>

text \<open>
  Entering as a guest once hands over one session without a refresh token; the session provider then
  arms the timer of its link and no refresh.
\<close>

lemma guest_enters_once:
  assumes "jp_phase s = Ready" "jp_data s = Some d"
  shows "jp_logins (join_enter (join_enter s)) = jp_logins (join_enter s)"
    and "\<exists>x. jp_logins (join_enter s) = jp_logins s @ [x] \<and> as_temp x \<and> as_refresh x = None"
  using assms by (simp_all add: join_enter_def)

lemma guest_session_expires:
  fixes exp_of :: exp_of and a :: auth
  assumes "jp_phase s = Ready" "jp_data s = Some d" "jp_logins s = []"
  defines "b \<equiv> apply_logins exp_of (jp_logins (join_enter s)) a"
  shows "a_timer b = None \<and> (\<exists>x. a_session b = Some x \<and> as_token x = as_token d \<and> a_storage b = Stored x) \<and>
    a_guest_timer b = Some (a_now a + timer_delay (jwt_seconds_left exp_of (a_now a) (as_token d) * 1000))"
proof -
  have "0 \<le> jwt_seconds_left exp_of (a_now a) (as_token d)" by (simp add: jwt_seconds_left_def split: option.split)
  with assms(1-3) show ?thesis
    by (simp add: b_def apply_logins_def join_enter_def login_def schedule_refresh_def set_session_def auth_session.defs)
qed

section \<open>Where a visitor goes\<close>

lemma boot_needs_setup_first: "boot_target needs loading x = Some ToSetup \<longleftrightarrow> needs = Some True \<and> \<not> loading"
  by (auto simp: boot_target_def split: option.split)

lemma boot_waits: "boot_target needs loading x = None \<longleftrightarrow> loading \<or> needs = None"
  by (auto simp: boot_target_def split: option.split)

end
