(* ===== verification/WorkspaceStack.thy ===== *)
theory WorkspaceStack
  imports Prelude Complex_Main
begin

text \<open>
  \<open>frontend/components/hub/workspace-stack.tsx\<close>: the split between the call and the chat, kept in
  \<open>localStorage\<close> with a cached snapshot, an external store of React, and the dragging of the handle.
  Fractions are rationals; the container of a drag has a positive height, since its handle is in it.

  The lemmas show that a subscriber is in sync, that every share shown is between 0.15 and 0.85, and
  that a reload shows what was shown before.
\<close>

section \<open>The store\<close>

record split_state =
  sp_split :: rat
  sp_collapsed :: bool

text \<open>
  What is in \<open>localStorage\<close>: nothing (or the empty string), text that does not parse to an object, or
  an object with its \<open>split\<close>, if that is a number, and the truth of its \<open>collapsed\<close>.
\<close>

datatype raw_split = NoRaw | BadRaw | RawSplit "rat option" bool

definition clamp_split :: "rat \<Rightarrow> rat" where
  "clamp_split v = min (85/100) (max (15/100) v)"

definition default_split :: split_state where
  "default_split = \<lparr>sp_split = 1/2, sp_collapsed = False\<rparr>"

definition read_stored :: "raw_split \<Rightarrow> split_state" where
  "read_stored r =
     (case r of
        RawSplit v c \<Rightarrow>
          \<lparr>sp_split = (case v of None \<Rightarrow> 1/2 | Some x \<Rightarrow> clamp_split x), sp_collapsed = c\<rparr>
      | _ \<Rightarrow> default_split)"

record split_store =
  sk_raw :: raw_split
  sk_cache :: "split_state option"
  sk_writable :: bool \<comment> \<open>\<open>setItem\<close> does not throw\<close>

definition new_split_store :: "raw_split \<Rightarrow> bool \<Rightarrow> split_store" where
  "new_split_store r w = \<lparr>sk_raw = r, sk_cache = None, sk_writable = w\<rparr>"

definition split_snap :: "split_store \<Rightarrow> split_state" where
  "split_snap s = (case sk_cache s of Some x \<Rightarrow> x | None \<Rightarrow> read_stored (sk_raw s))"

text \<open>\<open>getSnapshot\<close> fills the cache.\<close>

definition get_split :: "split_store \<Rightarrow> split_store" where
  "get_split s = s\<lparr>sk_cache := Some (split_snap s)\<rparr>"

definition write_stored :: "split_state \<Rightarrow> split_store \<Rightarrow> split_store" where
  "write_stored x s =
     s\<lparr>sk_cache := Some x,
       sk_raw := (if sk_writable s then RawSplit (Some (sp_split x)) (sp_collapsed x) else sk_raw s)\<rparr>"

definition set_split :: "rat \<Rightarrow> split_store \<Rightarrow> split_store" where
  "set_split v s = write_stored \<lparr>sp_split = clamp_split v, sp_collapsed = sp_collapsed (split_snap s)\<rparr> s"

definition set_collapsed :: "bool \<Rightarrow> split_store \<Rightarrow> split_store" where
  "set_collapsed b s = write_stored \<lparr>sp_split = sp_split (split_snap s), sp_collapsed = b\<rparr> s"

text \<open>
  Operations and the events of other tabs: a write to this key drops the cache and calls the
  listeners, which read again; a clear has no key and is not noticed.
\<close>

datatype split_op = SetSplit rat | SetCollapsed bool | OtherTab raw_split | OtherKey | OtherCleared

fun split_upd :: "split_op \<Rightarrow> split_store \<Rightarrow> split_store \<times> bool" where
  "split_upd (SetSplit v) s = (set_split v s, True)"
| "split_upd (SetCollapsed b) s = (set_collapsed b s, True)"
| "split_upd (OtherTab r) s = (get_split (s\<lparr>sk_raw := r, sk_cache := None\<rparr>), True)"
| "split_upd OtherKey s = (s, False)"
| "split_upd OtherCleared s = (s\<lparr>sk_raw := NoRaw\<rparr>, False)"

definition split_good :: "split_store \<Rightarrow> bool" where
  "split_good s \<longleftrightarrow> sk_cache s \<noteq> None"

interpretation split: external_store split_upd split_snap split_good
proof unfold_locales
  fix s x
  assume "split_good s"
  then show "split_good (fst (split_upd x s))"
    by (cases x) (auto simp: split_good_def set_split_def set_collapsed_def write_stored_def get_split_def)
  assume "\<not> snd (split_upd x s)"
  with \<open>split_good s\<close> show "split_snap (fst (split_upd x s)) = split_snap s"
    by (cases x) (auto simp: split_good_def split_snap_def)
qed

section \<open>The stack\<close>

record drag_start =
  dr_y :: rat
  dr_split :: rat
  dr_height :: rat

record split_stack =
  wk_store :: split_store
  wk_drag :: "drag_start option"

definition new_stack :: "raw_split \<Rightarrow> bool \<Rightarrow> split_stack" where
  "new_stack r w = \<lparr>wk_store = get_split (new_split_store r w), wk_drag = None\<rparr>"

datatype stack_input =
    HandleDown rat rat \<comment> \<open>pointer, height of the container\<close>
  | PointerMove rat
  | PointerUp
  | HandleDoubleClick
  | Collapse
  | Expand
  | ToggleCollapsed
  | FromOutside split_op

definition on_store :: "(split_store \<Rightarrow> split_store) \<Rightarrow> split_stack \<Rightarrow> split_stack" where
  "on_store f s = s\<lparr>wk_store := f (wk_store s)\<rparr>"

fun stack_step :: "stack_input \<Rightarrow> split_stack \<Rightarrow> split_stack" where
  "stack_step (HandleDown y h) s =
     s\<lparr>wk_drag := Some \<lparr>dr_y = y, dr_split = sp_split (split_snap (wk_store s)), dr_height = h\<rparr>\<rparr>"
| "stack_step (PointerMove y) s =
     (case wk_drag s of
        None \<Rightarrow> s
      | Some d \<Rightarrow> on_store (set_split (dr_split d + (y - dr_y d) / dr_height d)) s)"
| "stack_step PointerUp s = s\<lparr>wk_drag := None\<rparr>"
| "stack_step HandleDoubleClick s = on_store (set_collapsed True) s"
| "stack_step Collapse s = on_store (set_collapsed True) s"
| "stack_step Expand s = on_store (set_collapsed False) s"
| "stack_step ToggleCollapsed s =
     on_store (set_collapsed (\<not> sp_collapsed (split_snap (wk_store s)))) s"
| "stack_step (FromOutside x) s = on_store (\<lambda>t. fst (split_upd x t)) s"

datatype stack_layout = Placeholder | Both rat rat | TopOverStrip | TopOnly | BottomOnly

definition stack_layout :: "bool \<Rightarrow> bool \<Rightarrow> split_state \<Rightarrow> stack_layout" where
  "stack_layout t b x =
     (if \<not> t \<and> \<not> b then Placeholder
      else if t \<and> b \<and> \<not> sp_collapsed x then Both (sp_split x) (1 - sp_split x)
      else if t \<and> b then TopOverStrip
      else if t then TopOnly else BottomOnly)"

section \<open>Shares\<close>

definition share_ok :: "rat \<Rightarrow> bool" where
  "share_ok v \<longleftrightarrow> 15/100 \<le> v \<and> v \<le> 85/100"

lemma clamp_ok [simp]: "share_ok (clamp_split v)"
  by (simp add: share_ok_def clamp_split_def)

lemma clamp_id: "share_ok v \<Longrightarrow> clamp_split v = v"
  by (simp add: share_ok_def clamp_split_def)

lemma read_ok [simp]: "share_ok (sp_split (read_stored r))"
  by (simp add: read_stored_def default_split_def split: raw_split.split option.split) (simp add: share_ok_def)

definition store_ok :: "split_store \<Rightarrow> bool" where
  "store_ok s \<longleftrightarrow> (\<exists>x. sk_cache s = Some x \<and> share_ok (sp_split x))"

lemma store_ok_snap: "store_ok s \<Longrightarrow> share_ok (sp_split (split_snap s))"
  by (auto simp: store_ok_def split_snap_def)

lemma store_ok_write [simp]: "store_ok (write_stored x s) \<longleftrightarrow> share_ok (sp_split x)"
  by (simp add: store_ok_def write_stored_def)

lemma store_ok_sets: "store_ok s \<Longrightarrow> store_ok (set_split v s)" "store_ok s \<Longrightarrow> store_ok (set_collapsed b s)"
  by (simp_all add: set_split_def set_collapsed_def store_ok_snap)

lemma store_ok_upd: "store_ok s \<Longrightarrow> store_ok (fst (split_upd x s))"
  by (cases x) (auto simp: store_ok_sets, auto simp: store_ok_def get_split_def split_snap_def)

lemma store_ok_new: "store_ok (get_split (new_split_store r w))"
  by (simp add: store_ok_def get_split_def split_snap_def new_split_store_def)

lemma stack_step_ok: "store_ok (wk_store s) \<Longrightarrow> store_ok (wk_store (stack_step i s))"
  by (cases i) (auto simp: on_store_def store_ok_sets store_ok_upd split: option.split)

interpretation stack: invariant_machine stack_step "\<lambda>_ _. True" "\<lambda>s. store_ok (wk_store s)"
  by unfold_locales (rule stack_step_ok)

text \<open>Whatever is in the storage, whatever other tabs write and wherever the handle is dragged, both parts
  of the split get at least 15 percent, and together all of it.
\<close>

theorem split_shares_bounded:
  "let s = run stack_step is (new_stack r w)
   in case stack_layout t b (split_snap (wk_store s)) of
        Both p q \<Rightarrow> 15/100 \<le> p \<and> 15/100 \<le> q \<and> p + q = 1
      | _ \<Rightarrow> if t \<and> b then sp_collapsed (split_snap (wk_store s)) else True"
proof -
  define s where "s = run stack_step is (new_stack r w)"
  have "store_ok (wk_store s)"
    unfolding s_def using stack.inv_run [of "new_stack r w" "is"] by (simp add: new_stack_def store_ok_new)
  then have "share_ok (sp_split (split_snap (wk_store s)))" by (rule store_ok_snap)
  then show ?thesis unfolding s_def [symmetric] by (simp add: Let_def stack_layout_def share_ok_def)
qed

section \<open>Reloading\<close>

text \<open>What a fresh page would show.\<close>

definition stored_agrees :: "split_store \<Rightarrow> bool" where
  "stored_agrees s \<longleftrightarrow> sk_writable s \<and> store_ok s \<and> read_stored (sk_raw s) = split_snap s"

lemma stored_agrees_write: "sk_writable s \<Longrightarrow> share_ok (sp_split x) \<Longrightarrow> stored_agrees (write_stored x s)"
  by (simp add: stored_agrees_def write_stored_def read_stored_def split_snap_def clamp_id store_ok_def)

lemma stored_agrees_upd: "stored_agrees s \<Longrightarrow> x \<noteq> OtherCleared \<Longrightarrow> stored_agrees (fst (split_upd x s))"
proof -
  assume s: "stored_agrees s" and x: "x \<noteq> OtherCleared"
  then have "sk_writable s" "share_ok (sp_split (split_snap s))" by (auto simp: stored_agrees_def store_ok_snap)
  with s x show ?thesis
    by (cases x)
      (auto simp: set_split_def set_collapsed_def stored_agrees_write,
       auto simp: stored_agrees_def get_split_def split_snap_def store_ok_def)
qed

lemma stored_agrees_step:
  "stored_agrees (wk_store s) \<Longrightarrow> i \<noteq> FromOutside OtherCleared \<Longrightarrow> stored_agrees (wk_store (stack_step i s))"
  using stored_agrees_upd [of "wk_store s" "SetSplit v" for v] stored_agrees_upd [of "wk_store s" "SetCollapsed b" for b]
    stored_agrees_upd [of "wk_store s"]
  by (cases i) (auto simp: on_store_def split: option.split)

interpretation reload: invariant_machine stack_step "\<lambda>i _. i \<noteq> FromOutside OtherCleared" "\<lambda>s. stored_agrees (wk_store s)"
  by unfold_locales (rule stored_agrees_step)

text \<open>With a storage that accepts writes, and unless another tab clears it, a reload at any moment shows
  the same split as before.
\<close>

theorem split_survives_reload:
  assumes "list_all (\<lambda>i. i \<noteq> FromOutside OtherCleared) is"
  shows "let s = run stack_step is (new_stack r True)
    in split_snap (wk_store (new_stack (sk_raw (wk_store s)) True)) = split_snap (wk_store s)"
proof -
  have "stored_agrees (wk_store (new_stack r True))"
    using store_ok_new by (simp add: stored_agrees_def new_stack_def) (simp add: get_split_def new_split_store_def split_snap_def)
  with reload.inv_run [of "new_stack r True" "is"] assms
  have "stored_agrees (wk_store (run stack_step is (new_stack r True)))" by (simp add: list_all_iff)
  then show ?thesis
    by (simp add: Let_def stored_agrees_def) (simp add: new_stack_def get_split_def new_split_store_def split_snap_def)
qed

theorem split_survives_reload_witness:
  "let s = run stack_step [HandleDown 100 400, PointerMove 500, PointerUp, Collapse] (new_stack BadRaw True)
   in split_snap (wk_store (new_stack (sk_raw (wk_store s)) True)) = \<lparr>sp_split = 85/100, sp_collapsed = True\<rparr>"
proof -
  let ?is = "[HandleDown 100 400, PointerMove 500, PointerUp, Collapse]"
  have "split_snap (wk_store (run stack_step ?is (new_stack BadRaw True))) = \<lparr>sp_split = 85/100, sp_collapsed = True\<rparr>"
    by code_simp
  with split_survives_reload [of ?is BadRaw] show ?thesis by (simp add: Let_def)
qed

text \<open>A clear in another tab goes unnoticed: the snapshot stays, a reload shows the default.\<close>

lemma cleared_storage_unnoticed:
  "split_good s \<Longrightarrow> split_snap (fst (split_upd OtherCleared s)) = split_snap s \<and>
   read_stored (sk_raw (fst (split_upd OtherCleared s))) = default_split"
  by (auto simp: split_good_def split_snap_def read_stored_def)

text \<open>A subscriber holds the current snapshot whatever happens.\<close>

lemma split_subscriber_in_sync:
  "split_good s \<Longrightarrow> consume split_upd split_snap xs (s, split_snap s) = (s', v) \<Longrightarrow> v = split_snap s'"
  using split.consumer_in_sync [of s "split_snap s" xs s' v] by simp

end
