(* ===== verification/Navigation.thy ===== *)
theory Navigation
  imports Workspace Invites VoiceStores Snowflake
begin

text \<open>
  The channel list of \<open>frontend/components/nav-channels.tsx\<close> with the dialog of
  \<open>frontend/components/hub/channel-editor.tsx\<close>: the sections, the rows of a voice channel, the badges,
  the direct channels, and saving a channel, which is a sequence of requests with its continuation.
  The operations of the channel provider are logged in the order they are called.
\<close>

section \<open>Sections\<close>

definition text_channels :: "channel list \<Rightarrow> channel list" where
  "text_channels cs = filter (\<lambda>c. ch_type c = TextChannel) cs"

definition voice_channels :: "channel list \<Rightarrow> channel list" where
  "voice_channels cs = filter (\<lambda>c. ch_type c = VoiceChannel \<or> ch_type c = StageChannel) cs"

definition dm_channels :: "channel list \<Rightarrow> channel list" where
  "dm_channels cs = filter (\<lambda>c. ch_type c = DmChannel) cs"

text \<open>The picture of a channel: its image, else its colour behind the icon, else the icon.\<close>

datatype channel_icon = IconImage string | IconColor string | IconOnly

definition channel_icon :: "channel \<Rightarrow> channel_icon" where
  "channel_icon c =
     (if given (ch_image c) then IconImage (the (ch_image c))
      else if given (ch_color c) then IconColor (the (ch_color c)) else IconOnly)"

definition show_badge :: "bool \<Rightarrow> nat option \<Rightarrow> bool" where
  "show_badge active unread \<longleftrightarrow> \<not> active \<and> (case unread of None \<Rightarrow> False | Some n \<Rightarrow> n > 0)"

definition badge_text :: "nat \<Rightarrow> string" where
  "badge_text n = (if n > 99 then ''99+'' else show_nat n)"

section \<open>Who is in a voice channel\<close>

definition in_channel :: "(string, string) jmap \<Rightarrow> string \<Rightarrow> roster_member list \<Rightarrow> roster_member list" where
  "in_channel occ ch ms = filter (\<lambda>m. jget occ (m_user m) = Some ch) ms"

text \<open>\<open>new Map(participants.map((p) => [p.userId, p]))\<close>: the last participant of a key counts.\<close>

definition sdk_lookup :: "participant list \<Rightarrow> string \<Rightarrow> participant option" where
  "sdk_lookup ps k = find (\<lambda>p. p_user p = k) (rev ps)"

definition sdk_of :: "bool \<Rightarrow> participant list \<Rightarrow> roster_member \<Rightarrow> participant option" where
  "sdk_of active ps m =
     (if \<not> active then None
      else case sdk_lookup ps (rm_username m) of Some p \<Rightarrow> Some p | None \<Rightarrow> sdk_lookup ps (m_user m))"

record voice_row =
  vr_user :: string
  vr_name :: string
  vr_self :: bool
  vr_speaking :: bool
  vr_mic_muted :: bool

definition voice_row ::
  "string option \<Rightarrow> bool \<Rightarrow> bool \<Rightarrow> participant list \<Rightarrow> (string, mute_state) jmap \<Rightarrow> roster_member \<Rightarrow> voice_row" where
  "voice_row me active self_mic ps mutes m =
     (let self = (me = Some (m_user m)); sdk = sdk_of active ps m in
      \<lparr>vr_user = m_user m, vr_name = rm_name m, vr_self = self,
       vr_speaking = (case sdk of None \<Rightarrow> False | Some p \<Rightarrow> p_speaking p),
       vr_mic_muted =
         (if self then \<not> self_mic
          else case sdk of
            Some p \<Rightarrow> p_mic_muted p
          | None \<Rightarrow> (case jget mutes (m_user m) of Some x \<Rightarrow> audio_muted x | None \<Rightarrow> True))\<rparr>)"

definition voice_rows ::
  "string option \<Rightarrow> string option \<Rightarrow> bool \<Rightarrow> participant list \<Rightarrow> (string, string) jmap \<Rightarrow> (string, mute_state) jmap
    \<Rightarrow> roster_member list \<Rightarrow> string \<Rightarrow> voice_row list" where
  "voice_rows me call self_mic ps occ mutes ms ch =
     map (voice_row me (call = Some ch) self_mic ps mutes) (in_channel occ ch ms)"

section \<open>Direct channels\<close>

definition dm_peer_id :: "string option \<Rightarrow> channel \<Rightarrow> string option" where
  "dm_peer_id me c = find (\<lambda>i. Some i \<noteq> me) (ch_participants c)"

definition dm_name :: "string option \<Rightarrow> roster_member list \<Rightarrow> channel \<Rightarrow> string" where
  "dm_name me ms c =
     (case dm_peer_id me c of
        None \<Rightarrow> ''Unknown''
      | Some i \<Rightarrow>
          (case (if i = [] then None else find (\<lambda>m. m_user m = i) ms) of
             Some m \<Rightarrow> rm_name m | None \<Rightarrow> i))"

text \<open>The button for inviting people is inside the section of direct channels.\<close>

definition invite_button_shown :: "user_permissions option \<Rightarrow> channel list \<Rightarrow> bool" where
  "invite_button_shown p cs \<longleftrightarrow> dm_channels cs \<noteq> [] \<and> can_invite p"

section \<open>The editor\<close>

datatype icon_mode = ModeIcon | ModeColor | ModeImage

datatype editor_mode = CreateMode | EditMode

record icon_file =
  if_id :: nat
  if_size :: int

text \<open>The image shown: an address, or the contents of a file.\<close>

datatype icon_image = ImageAt string | ImageOf nat

record channel_data =
  cd_name :: string
  cd_type :: channel_kind
  cd_icon :: string
  cd_color :: "string option"
  cd_image :: "icon_image option"
  cd_groups :: "string set"
  cd_file :: "icon_file option"

record channel_initial =
  ci_name :: "string option"
  ci_icon :: "string option"
  ci_color :: "string option"
  ci_image :: "string option"
  ci_groups :: "string list option"

record channel_editor =
  ce_open :: bool
  ce_name :: string
  ce_icon :: string
  ce_color :: "string option"
  ce_image :: "icon_image option"
  ce_mode :: icon_mode
  ce_groups :: "string set"
  ce_picker :: bool
  ce_pending :: "icon_file option"
  ce_crop :: "icon_file option"
  ce_reading :: "nat list" \<comment> \<open>files whose \<open>FileReader\<close> has not loaded\<close>

definition new_editor :: channel_editor where
  "new_editor =
     \<lparr>ce_open = False, ce_name = [], ce_icon = ''hash'', ce_color = None, ce_image = None, ce_mode = ModeIcon,
      ce_groups = {}, ce_picker = False, ce_pending = None, ce_crop = None, ce_reading = []\<rparr>"

definition all_icons :: "(string \<times> string option) list" where
  "all_icons =
     [(''hash'', Some ''text''), (''mic'', Some ''voice''), (''radio'', Some ''voice''), (''chat'', None), (''book'', None),
      (''megaphone'', None), (''zap'', None), (''star'', None), (''heart'', None)]"

definition available_icons :: "channel_kind \<Rightarrow> string list" where
  "available_icons k =
     map fst (filter (\<lambda>(_, f). case f of None \<Rightarrow> True
       | Some x \<Rightarrow> if k = TextChannel then x = ''text'' else x = ''voice'') all_icons)"

definition available_colors :: "string list" where
  "available_colors =
     [''#6366f1'', ''#8b5cf6'', ''#a855f7'', ''#ec4899'', ''#ef4444'', ''#f97316'', ''#eab308'', ''#22c55e'',
      ''#14b8a6'', ''#06b6d4'', ''#3b82f6'', ''#6b7280'']"

definition protected_name :: "string \<Rightarrow> bool" where
  "protected_name n \<longleftrightarrow> lower n \<in> {''admin'', ''everyone''}"

definition default_icon :: "channel_kind \<Rightarrow> string" where
  "default_icon k = (if k = TextChannel then ''hash'' else ''mic'')"

text \<open>The reset of the form when the dialog opens.\<close>

definition open_editor ::
  "editor_mode \<Rightarrow> channel_kind \<Rightarrow> channel_initial option \<Rightarrow> member_group list \<Rightarrow> channel_editor \<Rightarrow> channel_editor" where
  "open_editor mode k init gs s =
     (let s1 = s\<lparr>ce_open := True, ce_picker := False, ce_pending := None, ce_crop := None\<rparr>;
          every = mg_id ` set gs in
      case (mode, init) of
        (EditMode, Some x) \<Rightarrow>
          s1\<lparr>ce_name := (case ci_name x of None \<Rightarrow> [] | Some n \<Rightarrow> n),
             ce_icon := (case ci_icon x of None \<Rightarrow> default_icon k | Some i \<Rightarrow> i),
             ce_color := ci_color x, ce_image := map_option ImageAt (ci_image x),
             ce_mode := (if given (ci_image x) then ModeImage else if given (ci_color x) then ModeColor else ModeIcon),
             ce_groups := (case ci_groups x of None \<Rightarrow> every | Some l \<Rightarrow> set l)\<rparr>
      | _ \<Rightarrow>
          s1\<lparr>ce_name := [], ce_icon := default_icon k, ce_color := None, ce_image := None, ce_mode := ModeIcon,
             ce_groups := every\<rparr>)"

definition pick_file :: "icon_file option \<Rightarrow> channel_editor \<Rightarrow> channel_editor" where
  "pick_file f s =
     (case f of None \<Rightarrow> s | Some x \<Rightarrow> if if_size x > 10 * 1024 * 1024 then s else s\<lparr>ce_crop := Some x\<rparr>)"

definition crop_confirm :: "icon_file \<Rightarrow> channel_editor \<Rightarrow> channel_editor" where
  "crop_confirm f s = s\<lparr>ce_pending := Some f, ce_crop := None, ce_reading := ce_reading s @ [if_id f]\<rparr>"

definition reader_loaded :: "nat \<Rightarrow> channel_editor \<Rightarrow> channel_editor" where
  "reader_loaded i s =
     (if i \<in> set (ce_reading s)
      then s\<lparr>ce_reading := remove1 i (ce_reading s), ce_image := Some (ImageOf i), ce_mode := ModeImage\<rparr> else s)"

definition toggle_visible :: "string \<Rightarrow> string \<Rightarrow> channel_editor \<Rightarrow> channel_editor" where
  "toggle_visible i n s =
     (if protected_name n then s
      else s\<lparr>ce_groups := (if i \<in> ce_groups s then ce_groups s - {i} else insert i (ce_groups s))\<rparr>)"

definition editor_data :: "channel_kind \<Rightarrow> channel_editor \<Rightarrow> channel_data option" where
  "editor_data k s =
     (if js_trim (ce_name s) = [] then None
      else Some
        \<lparr>cd_name = js_trim (ce_name s), cd_type = k, cd_icon = ce_icon s,
         cd_color = (if ce_mode s = ModeColor then ce_color s else None),
         cd_image = (if ce_mode s = ModeImage \<and> ce_pending s = None then ce_image s else None),
         cd_groups = ce_groups s, cd_file = ce_pending s\<rparr>)"

definition saved_editor :: "channel_editor \<Rightarrow> channel_editor" where
  "saved_editor s = (if js_trim (ce_name s) = [] then s else s\<lparr>ce_pending := None, ce_open := False\<rparr>)"

datatype editor_input =
    EditName string
  | EditIconMode icon_mode
  | EditIcon string
  | EditColor string
  | EditFile "icon_file option"
  | EditCropCancel
  | EditCropConfirm icon_file
  | EditReader nat
  | EditGroup string string
  | EditPicker bool
  | EditCancel

fun editor_step :: "editor_input \<Rightarrow> channel_editor \<Rightarrow> channel_editor" where
  "editor_step (EditName v) s = s\<lparr>ce_name := v\<rparr>"
| "editor_step (EditIconMode m) s = s\<lparr>ce_mode := m\<rparr>"
| "editor_step (EditIcon i) s = s\<lparr>ce_icon := i\<rparr>"
| "editor_step (EditColor c) s = s\<lparr>ce_color := Some c\<rparr>"
| "editor_step (EditFile f) s = pick_file f s"
| "editor_step EditCropCancel s = s\<lparr>ce_crop := None\<rparr>"
| "editor_step (EditCropConfirm f) s = crop_confirm f s"
| "editor_step (EditReader i) s = reader_loaded i s"
| "editor_step (EditGroup i n) s = toggle_visible i n s"
| "editor_step (EditPicker b) s = s\<lparr>ce_picker := b\<rparr>"
| "editor_step EditCancel s = s\<lparr>ce_open := False\<rparr>"

section \<open>Saving a channel\<close>

text \<open>
  What the list does with the provider: the created channel, the changed one with its name, icon,
  colour and image, an icon file, a deletion, and a selection.
\<close>

datatype nav_op =
    OpCreate string channel_kind string "string option"
  | OpUpdate string string string "string option" "icon_image option"
  | OpIcon string nat
  | OpDelete string
  | OpSelect string
  | OpJoin string

text \<open>Where the continuation of a save stands.\<close>

datatype save_stage =
    SaveCreating "icon_file option"
  | SaveUpdating string "icon_file option"
  | SaveIcon "string option" \<comment> \<open>the channel to select afterwards\<close>

record nav =
  nv_editor :: channel_editor
  nv_mode :: editor_mode
  nv_type :: channel_kind
  nv_editing :: "channel option"
  nv_saves :: "nat \<rightharpoonup> save_stage"
  nv_next :: nat
  nv_ops :: "nav_op list"

definition new_nav :: nav where
  "new_nav =
     \<lparr>nv_editor = new_editor, nv_mode = CreateMode, nv_type = TextChannel, nv_editing = None,
      nv_saves = (\<lambda>_. None), nv_next = 0, nv_ops = []\<rparr>"

definition initial_of :: "channel \<Rightarrow> channel_initial" where
  "initial_of c =
     \<lparr>ci_name = Some (ch_name c), ci_icon = ch_icon c, ci_color = ch_color c, ci_image = ch_image c, ci_groups = None\<rparr>"

definition open_create :: "member_group list \<Rightarrow> channel_kind \<Rightarrow> nav \<Rightarrow> nav" where
  "open_create gs k s =
     s\<lparr>nv_mode := CreateMode, nv_type := k, nv_editing := None,
       nv_editor := open_editor CreateMode k None gs (nv_editor s)\<rparr>"

definition open_edit :: "member_group list \<Rightarrow> channel \<Rightarrow> nav \<Rightarrow> nav" where
  "open_edit gs c s =
     (if ch_type c = DmChannel then s
      else s\<lparr>nv_mode := EditMode, nv_type := ch_type c, nv_editing := Some c,
             nv_editor := open_editor EditMode (ch_type c) (Some (initial_of c)) gs (nv_editor s)\<rparr>)"

definition nav_op :: "nav_op \<Rightarrow> nav \<Rightarrow> nav" where
  "nav_op x s = s\<lparr>nv_ops := nv_ops s @ [x]\<rparr>"

text \<open>The rest of a save, once the channel is there: the icon, then the selection.\<close>

definition save_rest :: "nat \<Rightarrow> icon_file option \<Rightarrow> string \<Rightarrow> string option \<Rightarrow> nav \<Rightarrow> nav" where
  "save_rest n f target sel s =
     (case f of
        Some x \<Rightarrow>
          if target \<noteq> [] then nav_op (OpIcon target (if_id x)) (s\<lparr>nv_saves := (nv_saves s)(n \<mapsto> SaveIcon sel)\<rparr>)
          else s\<lparr>nv_saves := (nv_saves s)(n := None)\<rparr>
      | None \<Rightarrow>
          (let s1 = s\<lparr>nv_saves := (nv_saves s)(n := None)\<rparr> in
           case sel of None \<Rightarrow> s1 | Some i \<Rightarrow> nav_op (OpSelect i) s1))"

definition handle_save :: "nav \<Rightarrow> nav" where
  "handle_save s =
     (case editor_data (nv_type s) (nv_editor s) of
        None \<Rightarrow> s
      | Some d \<Rightarrow>
          (let s1 = s\<lparr>nv_editor := saved_editor (nv_editor s)\<rparr>;
               start = (\<lambda>st x. nav_op x (s1\<lparr>nv_saves := (nv_saves s)(nv_next s \<mapsto> st), nv_next := Suc (nv_next s)\<rparr>))
           in case nv_mode s of
             CreateMode \<Rightarrow> start (SaveCreating (cd_file d)) (OpCreate (cd_name d) (cd_type d) (cd_icon d) (cd_color d))
           | EditMode \<Rightarrow>
               (case nv_editing s of
                  None \<Rightarrow> s1
                | Some c \<Rightarrow>
                    start (SaveUpdating (ch_id c) (cd_file d))
                      (OpUpdate (ch_id c) (cd_name d) (cd_icon d) (cd_color d) (cd_image d)))))"

text \<open>
  The promise of a save settles: a channel, nothing (\<open>null\<close>, an error status), or a rejection (no
  network), after which nothing more of the save runs.
\<close>

datatype save_reply = SavedChannel string channel_kind | SavedNothing | SaveRejected

definition save_replied :: "nat \<Rightarrow> save_reply \<Rightarrow> nav \<Rightarrow> nav" where
  "save_replied n r s =
     (case nv_saves s n of
        None \<Rightarrow> s
      | Some st \<Rightarrow>
          if r = SaveRejected then s\<lparr>nv_saves := (nv_saves s)(n := None)\<rparr>
          else
            (case st of
               SaveCreating f \<Rightarrow>
                 (case r of
                    SavedChannel i k \<Rightarrow> save_rest n f i (if k = TextChannel \<and> i \<noteq> [] then Some i else None) s
                  | _ \<Rightarrow> s\<lparr>nv_saves := (nv_saves s)(n := None)\<rparr>)
             | SaveUpdating i f \<Rightarrow> save_rest n f i None s
             | SaveIcon sel \<Rightarrow>
                 (let s1 = s\<lparr>nv_saves := (nv_saves s)(n := None)\<rparr> in
                  case sel of None \<Rightarrow> s1 | Some i \<Rightarrow> nav_op (OpSelect i) s1)))"

definition is_default_channel :: "channel option \<Rightarrow> bool" where
  "is_default_channel c = (case c of None \<Rightarrow> False | Some x \<Rightarrow> ch_type x = TextChannel \<and> ch_position x = 0)"

definition click_delete_channel :: "nav \<Rightarrow> nav" where
  "click_delete_channel s =
     (case nv_editing s of
        None \<Rightarrow> s
      | Some c \<Rightarrow>
          if nv_mode s = EditMode \<and> \<not> is_default_channel (Some c) \<and> ce_open (nv_editor s)
          then nav_op (OpDelete (ch_id c)) (s\<lparr>nv_editor := (nv_editor s)\<lparr>ce_open := False\<rparr>\<rparr>) else s)"

datatype nav_input =
    NavText string
  | NavVoice string
  | NavCreate channel_kind
  | NavEdit channel
  | NavEditor editor_input
  | NavSave
  | NavDelete
  | NavReply nat save_reply

text \<open>The environment: the permissions and the groups of the members.\<close>

fun nav_step :: "user_permissions option \<times> member_group list \<Rightarrow> nav_input \<Rightarrow> nav \<Rightarrow> nav" where
  "nav_step e (NavText i) s = nav_op (OpSelect i) s"
| "nav_step e (NavVoice i) s = nav_op (OpJoin i) s"
| "nav_step (p, gs) (NavCreate k) s =
     (if (k = TextChannel \<and> perms_has p P_CREATE_TEXT_CHANNELS) \<or> (k = VoiceChannel \<and> perms_has p P_CREATE_VOICE_CHANNELS)
      then open_create gs k s else s)"
| "nav_step (p, gs) (NavEdit c) s =
     (if perms_has p P_EDIT_OTHER_CHANNELS \<and> ch_type c \<noteq> DmChannel then open_edit gs c s else s)"
| "nav_step e (NavEditor x) s = s\<lparr>nv_editor := editor_step x (nv_editor s)\<rparr>"
| "nav_step e NavSave s = (if ce_open (nv_editor s) then handle_save s else s)"
| "nav_step e NavDelete s = click_delete_channel s"
| "nav_step e (NavReply n r) s = save_replied n r s"

section \<open>Every channel in one section\<close>

lemma channel_sections:
  "mset (text_channels cs) + mset (voice_channels cs) + mset (dm_channels cs) = mset cs"
proof (induction cs)
  case (Cons c cs)
  then show ?case by (cases "ch_type c") (simp_all add: text_channels_def voice_channels_def dm_channels_def)
qed (simp add: text_channels_def voice_channels_def dm_channels_def)

text \<open>
  The rows under the voice channels are the members who are in one, each under his channel; with
  distinct channels and members nobody is listed twice.
\<close>

lemma rows_of_channel: "map vr_user (voice_rows me call mic ps occ mutes ms ch) = map m_user (in_channel occ ch ms)"
  by (simp add: voice_rows_def voice_row_def Let_def)

lemma listed_in_one_channel:
  assumes "m \<in> set (in_channel occ ch ms)" "m \<in> set (in_channel occ ch' ms)"
  shows "ch = ch'"
  using assms by (auto simp: in_channel_def)

text \<open>
  One's own row shows the local microphone whatever the stores say; outside the own call it shows
  the mute store, and a member of whom nothing is known is shown muted.
\<close>

lemma mic_shown:
  "vr_mic_muted (voice_row me active mic ps mutes m) =
     (if me = Some (m_user m) then \<not> mic
      else if active \<and> sdk_of True ps m \<noteq> None then p_mic_muted (the (sdk_of True ps m))
      else case jget mutes (m_user m) of Some x \<Rightarrow> audio_muted x | None \<Rightarrow> True)"
  by (auto simp: voice_row_def sdk_of_def Let_def split: option.splits)

lemma badge_text_short: "length (badge_text n) \<le> 3"
proof (cases "n < 10")
  case True
  then show ?thesis by (subst badge_text_def, subst show_nat.simps) simp
next
  case False
  then have "n div 10 < 10 \<or> n > 99" by linarith
  with False show ?thesis
    by (subst badge_text_def, subst show_nat.simps, subst show_nat.simps) auto
qed

section \<open>The editor\<close>

text \<open>The groups that are always visible stay chosen while the form is edited.\<close>

definition protected_kept :: "member_group list \<Rightarrow> channel_editor \<Rightarrow> bool" where
  "protected_kept gs s \<longleftrightarrow> (\<forall>g \<in> set gs. protected_name (mg_name g) \<longrightarrow> mg_id g \<in> ce_groups s)"

text \<open>The buttons of the form toggle a group under its own name.\<close>

definition editor_ok :: "member_group list \<Rightarrow> editor_input \<Rightarrow> bool" where
  "editor_ok gs x =
     (case x of EditGroup i n \<Rightarrow> \<forall>g \<in> set gs. mg_id g = i \<longrightarrow> mg_name g = n | _ \<Rightarrow> True)"

lemma editor_step_groups: "(\<And>i n. x \<noteq> EditGroup i n) \<Longrightarrow> ce_groups (editor_step x s) = ce_groups s"
  by (cases x) (auto simp: pick_file_def crop_confirm_def reader_loaded_def split: option.split)

lemma protected_kept_step:
  assumes "protected_kept gs s" "editor_ok gs x"
  shows "protected_kept gs (editor_step x s)"
proof (cases "\<exists>i n. x = EditGroup i n")
  case True
  with assms show ?thesis by (auto simp: protected_kept_def editor_ok_def toggle_visible_def)
next
  case False
  with assms show ?thesis by (auto simp: protected_kept_def editor_step_groups)
qed

interpretation editor: invariant_machine editor_step "\<lambda>x _. editor_ok gs x" "protected_kept gs" for gs
  by unfold_locales (rule protected_kept_step)

lemma protected_after_open: "init = None \<or> ci_groups (the init) = None \<Longrightarrow> protected_kept gs (open_editor m k init gs s)"
  by (auto simp: protected_kept_def open_editor_def Let_def split: editor_mode.split option.split)

lemma saved_groups_protected:
  assumes "\<forall>x \<in> set xs. editor_ok gs x" "editor_data k (run editor_step xs (open_editor m k (Some (initial_of c)) gs s)) = Some d"
    "g \<in> set gs" "protected_name (mg_name g)"
  shows "mg_id g \<in> cd_groups d"
proof -
  have "protected_kept gs (open_editor m k (Some (initial_of c)) gs s)"
    by (rule protected_after_open) (simp add: initial_of_def)
  then have "protected_kept gs (run editor_step xs (open_editor m k (Some (initial_of c)) gs s))"
    by (rule editor.inv_run) (simp add: assms(1))
  with assms show ?thesis by (auto simp: editor_data_def protected_kept_def split: if_splits)
qed

section \<open>What is selected after a save\<close>

text \<open>
  A state is in order when each waiting save that will select a channel has had the reply with that
  channel, which is a text channel.
\<close>

definition created_texts :: "nav_input list \<Rightarrow> string set" where
  "created_texts is = {i. \<exists>n. NavReply n (SavedChannel i TextChannel) \<in> set is \<and> i \<noteq> []}"

definition clicked_texts :: "nav_input list \<Rightarrow> string set" where
  "clicked_texts is = {i. NavText i \<in> set is}"

definition nav_ok :: "string set \<Rightarrow> nav \<Rightarrow> bool" where
  "nav_ok X s \<longleftrightarrow>
     (\<forall>i. OpSelect i \<in> set (nv_ops s) \<longrightarrow> i \<in> X) \<and> (\<forall>n i. nv_saves s n = Some (SaveIcon (Some i)) \<longrightarrow> i \<in> X)"

lemma nav_ok_mono: "nav_ok X s \<Longrightarrow> X \<subseteq> Y \<Longrightarrow> nav_ok Y s"
  by (auto simp: nav_ok_def)

lemma nav_ok_op: "nav_ok X s \<Longrightarrow> (\<And>i. x = OpSelect i \<Longrightarrow> i \<in> X) \<Longrightarrow> nav_ok X (nav_op x s)"
  by (auto simp: nav_ok_def nav_op_def)

lemma nav_ok_drop: "nav_ok X s \<Longrightarrow> nav_ok X (s\<lparr>nv_saves := (nv_saves s)(n := None)\<rparr>)"
  by (auto simp: nav_ok_def)

lemma nav_ok_put:
  "nav_ok X s \<Longrightarrow> (\<And>i. st = SaveIcon (Some i) \<Longrightarrow> i \<in> X) \<Longrightarrow> nav_ok X (s\<lparr>nv_saves := (nv_saves s)(n \<mapsto> st)\<rparr>)"
  by (auto simp: nav_ok_def)

lemma save_rest_ok:
  assumes "nav_ok X s" "\<And>i. sel = Some i \<Longrightarrow> i \<in> X"
  shows "nav_ok X (save_rest n f target sel s)"
  using assms
  by (auto simp: save_rest_def Let_def intro!: nav_ok_op nav_ok_put nav_ok_drop split: option.split)

lemma handle_save_ok: "nav_ok X s \<Longrightarrow> nav_ok X (handle_save s)"
  by (auto simp: handle_save_def nav_op_def nav_ok_def Let_def split: option.splits editor_mode.splits if_splits)

lemma save_replied_ok:
  assumes "nav_ok X s" "\<And>i. r = SavedChannel i TextChannel \<Longrightarrow> i \<noteq> [] \<Longrightarrow> i \<in> X"
  shows "nav_ok X (save_replied n r s)"
proof (cases "nv_saves s n")
  case (Some st)
  have rest: "nav_ok X (save_rest n f t sel s)" if "\<And>i. sel = Some i \<Longrightarrow> i \<in> X" for f t sel
    using assms(1) that by (rule save_rest_ok)
  show ?thesis
  proof (cases "r = SaveRejected")
    case False
    show ?thesis
    proof (cases st)
      case (SaveCreating f)
      with False Some assms rest nav_ok_drop [OF assms(1)] show ?thesis
        by (cases r) (auto simp: save_replied_def intro!: rest)
    next
      case (SaveUpdating i f)
      with False Some rest [of None] show ?thesis by (simp add: save_replied_def)
    next
      case (SaveIcon sel)
      with Some assms(1) have "sel = Some i \<Longrightarrow> i \<in> X" for i by (auto simp: nav_ok_def)
      with SaveIcon False Some nav_ok_drop [OF assms(1)] show ?thesis
        by (auto simp: save_replied_def Let_def intro: nav_ok_op split: option.split)
    qed
  qed (use Some nav_ok_drop [OF assms(1)] in \<open>simp add: save_replied_def\<close>)
qed (use assms(1) in \<open>simp add: save_replied_def\<close>)

lemma nav_step_ok:
  assumes "nav_ok X s"
  shows "nav_ok (X \<union> clicked_texts [x] \<union> created_texts [x]) (nav_step e x s)"
proof -
  define Y where "Y = X \<union> clicked_texts [x] \<union> created_texts [x]"
  have s: "nav_ok Y s" using assms by (rule nav_ok_mono) (auto simp: Y_def)
  have clicked: "x = NavText i \<Longrightarrow> i \<in> Y" for i by (simp add: Y_def clicked_texts_def)
  have made: "x = NavReply n (SavedChannel i TextChannel) \<Longrightarrow> i \<noteq> [] \<Longrightarrow> i \<in> Y" for n i
    by (auto simp: Y_def created_texts_def)
  have same: "nav_ok Y t" if "nv_ops t = nv_ops s" "nv_saves t = nv_saves s" for t
    using s that by (simp add: nav_ok_def)
  have "nav_ok Y (nav_step e x s)"
  proof (cases x)
    case (NavText i)
    with s clicked [OF NavText] show ?thesis by (auto intro: nav_ok_op)
  next
    case (NavReply n r)
    with save_replied_ok [OF s, of r n] made show ?thesis by simp
  next
    case NavSave
    with handle_save_ok [OF s] s show ?thesis by simp
  next
    case NavDelete
    have "nav_ok Y (nav_op (OpDelete i) (s\<lparr>nv_editor := ed\<rparr>))" for i ed
      by (rule nav_ok_op) (simp_all add: same)
    then show ?thesis using s by (simp add: NavDelete click_delete_channel_def split: option.split)
  next
    case (NavVoice i)
    with s show ?thesis by (auto intro: nav_ok_op)
  next
    case (NavCreate k)
    with s show ?thesis by (cases e) (simp add: same open_create_def)
  next
    case (NavEdit c)
    with s show ?thesis by (cases e) (simp add: same open_edit_def)
  next
    case (NavEditor y)
    then show ?thesis by (simp add: same)
  qed
  then show ?thesis by (simp add: Y_def)
qed

lemma nav_ok_run:
  "nav_ok (clicked_texts is \<union> created_texts is) (run (nav_step e) is new_nav)"
proof (induction "is" rule: rev_induct)
  case Nil
  show ?case by (simp add: nav_ok_def new_nav_def)
next
  case (snoc x xs)
  from nav_step_ok [OF this, where e = e and x = x]
  have "nav_ok (clicked_texts xs \<union> created_texts xs \<union> clicked_texts [x] \<union> created_texts [x])
      (run (nav_step e) (xs @ [x]) new_nav)" by simp
  then show ?case by (rule nav_ok_mono) (auto simp: clicked_texts_def created_texts_def)
qed

text \<open>
  The selection follows the user: every channel that is selected was clicked, or is a text channel
  that the server has created for a save.
\<close>

theorem selects_clicked_or_created:
  "{i. OpSelect i \<in> set (nv_ops (run (nav_step e) is new_nav))} \<subseteq> clicked_texts is \<union> created_texts is"
  using nav_ok_run [of "is" e] by (auto simp: nav_ok_def)

section \<open>Defects\<close>

text \<open>A cropped image stays pending when the user turns to a colour: both are sent, and the image wins.\<close>

lemma abandoned_image_still_sent:
  assumes "js_trim (ce_name s) \<noteq> []"
  shows "\<exists>d. editor_data k (run editor_step [EditCropConfirm f, EditReader (if_id f), EditIconMode ModeColor, EditColor c] s) = Some d
    \<and> cd_color d = Some c \<and> cd_file d = Some f"
  using assms by (simp add: editor_data_def crop_confirm_def reader_loaded_def)

text \<open>
  Changing the image of a channel first removes the old one and then sends the new: if the second
  request fails the channel has no image.
\<close>

lemma image_removed_before_upload:
  assumes "nv_mode s = EditMode" "nv_editing s = Some c" "js_trim (ce_name (nv_editor s)) \<noteq> []"
    "ce_pending (nv_editor s) = Some f"
  shows "\<exists>nm ic co. nv_ops (handle_save s) = nv_ops s @ [OpUpdate (ch_id c) nm ic co None]
    \<and> nv_saves (handle_save s) (nv_next s) = Some (SaveUpdating (ch_id c) (Some f))"
  using assms by (simp add: handle_save_def editor_data_def nav_op_def Let_def)

text \<open>The visible groups are collected by the form and sent nowhere.\<close>

lemma visible_groups_not_sent:
  "nv_ops (handle_save (s\<lparr>nv_editor := (nv_editor s)\<lparr>ce_groups := G\<rparr>\<rparr>)) = nv_ops (handle_save s)"
  by (auto simp: handle_save_def editor_data_def nav_op_def Let_def split: option.split editor_mode.split)

text \<open>Without a direct channel there is no button for inviting people.\<close>

lemma invite_button_hidden: "dm_channels cs = [] \<Longrightarrow> \<not> invite_button_shown p cs"
  by (simp add: invite_button_shown_def)

end
