(* ===== verification/Media.thy ===== *)
theory Media
  imports Snowflake Complex_Main
begin

text \<open>
  Attachments under \<open>frontend/components/hub/media/\<close>: the audio player, the video player, the image
  gallery, and the labels and sizes of \<open>message-attachments.tsx\<close>. Times and fractions are rationals
  (the doubles of the code without rounding; not a number is \<open>None\<close>). The events of the media element
  are inputs.

  The lemmas show that the volume settings survive a reload, that positions stay in range, and what
  the labels and thumbnails are.
\<close>

section \<open>Labels\<close>

text \<open>\<open>toFixed(1)\<close> of a non-negative fraction, in tenths: rounded to the nearest, halves up.\<close>

definition tenths :: "nat \<Rightarrow> nat \<Rightarrow> nat" where
  "tenths num den = (20 * num + den) div (2 * den)"

definition fixed1 :: "nat \<Rightarrow> string" where
  "fixed1 t = show_nat (t div 10) @ ''.'' @ show_nat (t mod 10)"

definition format_size :: "nat \<Rightarrow> string" where
  "format_size bytes =
     (if bytes < 1024 then show_nat bytes @ '' B''
      else if bytes < 1024 * 1024 then fixed1 (tenths bytes 1024) @ '' KB''
      else fixed1 (tenths bytes (1024 * 1024)) @ '' MB'')"

text \<open>\<open>padStart(2, "0")\<close> of a number below 60.\<close>

definition two_digits :: "nat \<Rightarrow> string" where
  "two_digits n = (if n < 10 then CHR ''0'' # show_nat n else show_nat n)"

definition fmt_time :: "rat option \<Rightarrow> string" where
  "fmt_time sec =
     (case sec of
        None \<Rightarrow> ''0:00''
      | Some x \<Rightarrow>
          if x < 0 then ''0:00''
          else (let n = nat \<lfloor>x\<rfloor> in show_nat (n div 60) @ '':'' @ two_digits (n mod 60)))"

section \<open>Thumbnails\<close>

definition thumb_size :: "rat option \<Rightarrow> rat option \<Rightarrow> rat \<times> rat" where
  "thumb_size width height =
     (let w = (case width of None \<Rightarrow> 400 | Some x \<Rightarrow> x);
          h = (case height of None \<Rightarrow> 300 | Some x \<Rightarrow> x);
          (w1, h1) = (if w > 400 then (400, h * 400 / w) else (w, h))
      in if h1 > 300 then (w1 * 300 / h1, 300) else (w1, h1))"

section \<open>The gallery\<close>

record lightbox =
  lb_count :: nat
  lb_index :: nat
  lb_visible :: bool
  lb_closing :: bool
  lb_timers :: nat \<comment> \<open>delayed calls of \<open>onClose\<close>\<close>
  lb_closed :: nat

definition new_lightbox :: "nat \<Rightarrow> nat \<Rightarrow> lightbox" where
  "new_lightbox n i =
     \<lparr>lb_count = n, lb_index = i, lb_visible = False, lb_closing = False, lb_timers = 0, lb_closed = 0\<rparr>"

definition lb_close :: "lightbox \<Rightarrow> lightbox" where
  "lb_close s = s\<lparr>lb_closing := True, lb_timers := Suc (lb_timers s)\<rparr>"

definition lb_prev :: "lightbox \<Rightarrow> lightbox" where
  "lb_prev s = s\<lparr>lb_index := nat ((int (lb_index s) - 1 + int (lb_count s)) mod int (lb_count s))\<rparr>"

definition lb_next :: "lightbox \<Rightarrow> lightbox" where
  "lb_next s = s\<lparr>lb_index := (lb_index s + 1) mod lb_count s\<rparr>"

definition lb_key :: "string \<Rightarrow> lightbox \<Rightarrow> lightbox" where
  "lb_key k s =
     (if k = ''Escape'' then lb_close s
      else if k = ''ArrowLeft'' then lb_prev s
      else if k = ''ArrowRight'' then lb_next s else s)"

datatype lb_input = LbFrame | LbKey string | LbPrev | LbNext | LbClose | LbTimer

fun lb_step :: "lb_input \<Rightarrow> lightbox \<Rightarrow> lightbox" where
  "lb_step LbFrame s = s\<lparr>lb_visible := True\<rparr>"
| "lb_step (LbKey k) s = lb_key k s"
| "lb_step LbPrev s = lb_prev s"
| "lb_step LbNext s = lb_next s"
| "lb_step LbClose s = lb_close s"
| "lb_step LbTimer s =
     (if lb_timers s = 0 then s else s\<lparr>lb_timers := lb_timers s - 1, lb_closed := Suc (lb_closed s)\<rparr>)"

section \<open>The audio player\<close>

text \<open>The stored volume: none, text that is not a number, or a number.\<close>

datatype raw_volume = NoVolume | BadVolume | Volume rat

definition unit_clamp :: "rat \<Rightarrow> rat" where
  "unit_clamp v = max 0 (min 1 v)"

definition read_volume :: "raw_volume \<Rightarrow> rat" where
  "read_volume r = (case r of Volume v \<Rightarrow> unit_clamp v | _ \<Rightarrow> 1)"

definition read_muted :: "string option \<Rightarrow> bool" where
  "read_muted r \<longleftrightarrow> r = Some ''1''"

text \<open>A drag: of the position or of the volume, with the \<open>muted\<close> of the rendering it began in.\<close>

datatype ap_drag = DragSeek | DragVolume bool

record audio_player =
  ap_playing :: bool
  ap_muted :: bool
  ap_volume :: rat
  ap_time :: rat
  ap_duration :: rat
  ap_buffered :: rat
  ap_scrub :: "rat option"
  ap_drag :: "ap_drag option"
  ap_raw_volume :: raw_volume
  ap_raw_muted :: "string option"
  el_paused :: bool
  el_duration :: "rat option"
  el_time :: rat

definition new_audio_player :: "rat option \<Rightarrow> raw_volume \<Rightarrow> string option \<Rightarrow> audio_player" where
  "new_audio_player hint rv rm =
     \<lparr>ap_playing = False, ap_muted = read_muted rm, ap_volume = read_volume rv, ap_time = 0,
      ap_duration = (case hint of None \<Rightarrow> 0 | Some d \<Rightarrow> d), ap_buffered = 0, ap_scrub = None,
      ap_drag = None, ap_raw_volume = rv, ap_raw_muted = rm, el_paused = True, el_duration = None, el_time = 0\<rparr>"

definition toggle_play :: "audio_player \<Rightarrow> audio_player" where
  "toggle_play s = s\<lparr>el_paused := \<not> el_paused s\<rparr>"

definition flag :: "bool \<Rightarrow> string option" where
  "flag b = Some (if b then ''1'' else ''0'')"

definition toggle_mute_ap :: "audio_player \<Rightarrow> audio_player" where
  "toggle_mute_ap s =
     (let on = \<not> ap_muted s;
          s1 = s\<lparr>ap_muted := on, ap_raw_muted := flag on\<rparr>
      in if \<not> on \<and> ap_volume s = 0 then s1\<lparr>ap_volume := 1/2, ap_raw_volume := Volume (1/2)\<rparr> else s1)"

definition apply_volume :: "bool \<Rightarrow> rat \<Rightarrow> audio_player \<Rightarrow> audio_player" where
  "apply_volume was_muted v s =
     (let c = unit_clamp v; s1 = s\<lparr>ap_volume := c, ap_raw_volume := Volume c\<rparr> in
      if c > 0 \<and> was_muted then s1\<lparr>ap_muted := False, ap_raw_muted := flag False\<rparr> else s1)"

text \<open>A duration of NaN or 0 is falsy.\<close>

definition known_duration :: "audio_player \<Rightarrow> rat option" where
  "known_duration s = (case el_duration s of None \<Rightarrow> None | Some d \<Rightarrow> if d = 0 then None else Some d)"

definition seek_to :: "rat \<Rightarrow> audio_player \<Rightarrow> audio_player" where
  "seek_to p s = (case known_duration s of None \<Rightarrow> s | Some d \<Rightarrow> s\<lparr>el_time := d * unit_clamp p\<rparr>)"

definition buffer_end :: "rat list \<Rightarrow> rat" where
  "buffer_end ends = fold (\<lambda>e m. if e > m then e else m) ends 0"

datatype ap_input =
    ApPlayClick
  | ApMuteClick
  | ApSeekDown rat \<comment> \<open>where on the bar, as a fraction that may be out of range\<close>
  | ApVolumeDown rat
  | ApMove rat
  | ApUp rat
  | ElTime rat
  | ElDuration "rat option"
  | ElPlay
  | ElPause
  | ElEnded
  | ElProgress "rat list"

definition drag_to :: "rat \<Rightarrow> audio_player \<Rightarrow> audio_player" where
  "drag_to x s =
     (case ap_drag s of
        None \<Rightarrow> s
      | Some DragSeek \<Rightarrow> s\<lparr>ap_scrub := Some (unit_clamp x)\<rparr>
      | Some (DragVolume m) \<Rightarrow> apply_volume m (unit_clamp x) s)"

fun ap_step :: "ap_input \<Rightarrow> audio_player \<Rightarrow> audio_player" where
  "ap_step ApPlayClick s = toggle_play s"
| "ap_step ApMuteClick s = toggle_mute_ap s"
| "ap_step (ApSeekDown x) s = drag_to x (s\<lparr>ap_drag := Some DragSeek\<rparr>)"
| "ap_step (ApVolumeDown x) s = drag_to x (s\<lparr>ap_drag := Some (DragVolume (ap_muted s))\<rparr>)"
| "ap_step (ApMove x) s = drag_to x s"
| "ap_step (ApUp x) s =
     (case ap_drag s of
        Some DragSeek \<Rightarrow> (seek_to (unit_clamp x) s)\<lparr>ap_scrub := None, ap_drag := None\<rparr>
      | _ \<Rightarrow> s\<lparr>ap_drag := None\<rparr>)"
| "ap_step (ElTime t) s = s\<lparr>el_time := t, ap_time := t\<rparr>"
| "ap_step (ElDuration d) s = s\<lparr>el_duration := d, ap_duration := (case d of None \<Rightarrow> 0 | Some x \<Rightarrow> x)\<rparr>"
| "ap_step ElPlay s = s\<lparr>ap_playing := True\<rparr>"
| "ap_step ElPause s = s\<lparr>ap_playing := False\<rparr>"
| "ap_step ElEnded s = s\<lparr>ap_playing := False, el_paused := True\<rparr>"
| "ap_step (ElProgress ends) s =
     (case known_duration s of None \<Rightarrow> s | Some d \<Rightarrow> s\<lparr>ap_buffered := buffer_end ends / d\<rparr>)"

text \<open>What is shown. The element plays at \<open>ap_volume\<close>, muted as \<open>ap_muted\<close>: the effect sets both.\<close>

definition played_share :: "audio_player \<Rightarrow> rat" where
  "played_share s =
     (case ap_scrub s of Some p \<Rightarrow> p | None \<Rightarrow> if ap_duration s \<noteq> 0 then ap_time s / ap_duration s else 0)"

definition display_time :: "audio_player \<Rightarrow> rat" where
  "display_time s =
     (case ap_scrub s of
        Some p \<Rightarrow> if ap_duration s \<noteq> 0 then p * ap_duration s else ap_time s | None \<Rightarrow> ap_time s)"

definition looks_muted :: "audio_player \<Rightarrow> bool" where
  "looks_muted s \<longleftrightarrow> ap_muted s \<or> ap_volume s = 0"

datatype volume_icon = IconMuted | IconLow | IconHigh

definition volume_icon :: "audio_player \<Rightarrow> volume_icon" where
  "volume_icon s = (if looks_muted s then IconMuted else if ap_volume s < 1/2 then IconLow else IconHigh)"

definition visual_volume :: "audio_player \<Rightarrow> rat" where
  "visual_volume s = (if looks_muted s then 0 else ap_volume s)"

section \<open>The video player\<close>

record video_player =
  vp_playing :: bool
  vp_muted :: bool
  vp_time :: rat
  vp_duration :: rat
  vp_buffered :: rat
  vl_paused :: bool
  vl_muted :: bool
  vl_duration :: "rat option"
  vl_time :: rat

definition new_video_player :: video_player where
  "new_video_player =
     \<lparr>vp_playing = False, vp_muted = False, vp_time = 0, vp_duration = 0, vp_buffered = 0,
      vl_paused = True, vl_muted = False, vl_duration = None, vl_time = 0\<rparr>"

datatype vp_input =
    VpPlayClick | VpMuteClick | VpSeek rat | VlTime rat | VlDuration "rat option" | VlPlay | VlPause | VlProgress "rat list"

definition vp_known :: "video_player \<Rightarrow> rat option" where
  "vp_known s = (case vl_duration s of None \<Rightarrow> None | Some d \<Rightarrow> if d = 0 then None else Some d)"

fun vp_step :: "vp_input \<Rightarrow> video_player \<Rightarrow> video_player" where
  "vp_step VpPlayClick s = s\<lparr>vl_paused := \<not> vl_paused s\<rparr>"
| "vp_step VpMuteClick s = s\<lparr>vl_muted := \<not> vl_muted s, vp_muted := \<not> vl_muted s\<rparr>"
| "vp_step (VpSeek p) s = (case vp_known s of None \<Rightarrow> s | Some d \<Rightarrow> s\<lparr>vl_time := d * p\<rparr>)"
| "vp_step (VlTime t) s = s\<lparr>vl_time := t, vp_time := t\<rparr>"
| "vp_step (VlDuration d) s = s\<lparr>vl_duration := d, vp_duration := (case d of None \<Rightarrow> 0 | Some x \<Rightarrow> x)\<rparr>"
| "vp_step VlPlay s = s\<lparr>vp_playing := True\<rparr>"
| "vp_step VlPause s = s\<lparr>vp_playing := False\<rparr>"
| "vp_step (VlProgress ends) s =
     (case vp_known s of None \<Rightarrow> s | Some d \<Rightarrow> s\<lparr>vp_buffered := buffer_end ends / d\<rparr>)"

definition vp_progress :: "video_player \<Rightarrow> rat" where
  "vp_progress s = (if vp_duration s \<noteq> 0 then vp_time s / vp_duration s else 0)"

section \<open>Settings survive a reload\<close>

definition prefs_ok :: "audio_player \<Rightarrow> bool" where
  "prefs_ok s \<longleftrightarrow>
     read_volume (ap_raw_volume s) = ap_volume s \<and> read_muted (ap_raw_muted s) = ap_muted s
     \<and> 0 \<le> ap_volume s \<and> ap_volume s \<le> 1"

lemma unit_clamp_range [simp]: "0 \<le> unit_clamp v" "unit_clamp v \<le> 1"
  by (simp_all add: unit_clamp_def)

lemma unit_clamp_id [simp]: "unit_clamp (unit_clamp v) = unit_clamp v"
  by (simp add: unit_clamp_def)

lemma prefs_ok_new: "prefs_ok (new_audio_player hint rv rm)"
  by (simp add: prefs_ok_def new_audio_player_def read_volume_def split: raw_volume.split)

lemma prefs_ok_frame:
  "prefs_ok s \<Longrightarrow> ap_raw_volume t = ap_raw_volume s \<Longrightarrow> ap_raw_muted t = ap_raw_muted s \<Longrightarrow>
   ap_volume t = ap_volume s \<Longrightarrow> ap_muted t = ap_muted s \<Longrightarrow> prefs_ok t"
  by (simp add: prefs_ok_def)

lemma apply_volume_ok: "prefs_ok s \<Longrightarrow> prefs_ok (apply_volume m v s)"
  by (auto simp: prefs_ok_def apply_volume_def read_volume_def read_muted_def flag_def Let_def)

lemma toggle_mute_ok: "prefs_ok s \<Longrightarrow> prefs_ok (toggle_mute_ap s)"
  by (auto simp: prefs_ok_def toggle_mute_ap_def read_volume_def read_muted_def flag_def unit_clamp_def Let_def)

lemma drag_to_ok: "prefs_ok s \<Longrightarrow> prefs_ok (drag_to x s)"
  by (auto simp: drag_to_def apply_volume_ok split: option.split ap_drag.split elim: prefs_ok_frame)

lemma ap_step_ok: "prefs_ok s \<Longrightarrow> prefs_ok (ap_step i s)"
proof (cases i)
  case (ApSeekDown x)
  assume s: "prefs_ok s"
  have "prefs_ok (s\<lparr>ap_drag := Some DragSeek\<rparr>)" using s by (rule prefs_ok_frame) simp_all
  then show ?thesis by (simp add: ApSeekDown drag_to_ok)
next
  case (ApVolumeDown x)
  assume s: "prefs_ok s"
  have "prefs_ok (s\<lparr>ap_drag := Some (DragVolume (ap_muted s))\<rparr>)" using s by (rule prefs_ok_frame) simp_all
  then show ?thesis by (simp add: ApVolumeDown drag_to_ok)
next
  case (ApUp x)
  assume "prefs_ok s"
  then show ?thesis
    by (auto simp: ApUp seek_to_def split: option.split ap_drag.split elim!: prefs_ok_frame)
next
  case (ElProgress ends)
  assume "prefs_ok s"
  then show ?thesis by (auto simp: ElProgress split: option.split elim!: prefs_ok_frame)
qed (auto simp: toggle_mute_ok drag_to_ok toggle_play_def elim!: prefs_ok_frame)

text \<open>
  Whatever was stored and however the controls are used, the volume stays in [0, 1], and a player that
  is opened next has the same volume and mute as this one.
\<close>

theorem audio_settings_survive:
  "let s = fold ap_step is (new_audio_player hint rv rm);
       t = new_audio_player hint' (ap_raw_volume s) (ap_raw_muted s)
   in ap_volume t = ap_volume s \<and> ap_muted t = ap_muted s \<and> 0 \<le> ap_volume s \<and> ap_volume s \<le> 1"
proof -
  have "prefs_ok (fold ap_step is s)" if "prefs_ok s" for s
    using that by (induction "is" arbitrary: s) (auto intro: ap_step_ok)
  from this [OF prefs_ok_new] show ?thesis by (simp add: Let_def prefs_ok_def new_audio_player_def)
qed

text \<open>Unmuting is always heard; but a volume dragged to zero needs two clicks.\<close>

lemma unmute_is_heard: "ap_muted s \<Longrightarrow> \<not> looks_muted (toggle_mute_ap s)"
  by (simp add: toggle_mute_ap_def looks_muted_def Let_def)

lemma first_click_mutes_silence:
  "\<not> ap_muted s \<Longrightarrow> ap_volume s = 0 \<Longrightarrow> looks_muted s \<and> looks_muted (toggle_mute_ap s)"
  by (simp add: toggle_mute_ap_def looks_muted_def Let_def)

lemma dragging_volume_unmutes:
  "0 < v \<Longrightarrow> \<not> looks_muted (ap_step (ApVolumeDown v) s)"
  by (simp add: drag_to_def apply_volume_def looks_muted_def unit_clamp_def Let_def)

text \<open>A seek ends inside the track, the shown share of a scrub inside the bar.\<close>

lemma seek_in_range:
  "el_duration s = Some d \<Longrightarrow> 0 < d \<Longrightarrow> 0 \<le> el_time (seek_to p s) \<and> el_time (seek_to p s) \<le> d"
  using mult_left_mono [of "unit_clamp p" 1 d] by (simp add: seek_to_def known_duration_def)

lemma buffer_end_max: "buffer_end ends = Max (insert 0 (set ends))"
proof -
  have "fold (\<lambda>e m. if e > m then e else m) ends m = Max (insert m (set ends))" for m :: rat
  proof (induction ends arbitrary: m)
    case (Cons e ends)
    have "Max (insert (if e > m then e else m) (set ends)) = Max (insert m (insert e (set ends)))"
      by (cases "set ends = {}") (auto simp: max_def)
    with Cons show ?case by simp
  qed simp
  then show ?thesis by (simp add: buffer_end_def)
qed

section \<open>Labels and thumbnails\<close>

lemma tenths_nearest: "0 < den \<Longrightarrow> \<bar>2 * int den * int (tenths num den) - 20 * int num\<bar> \<le> int den"
proof -
  assume d: "0 < den"
  have "(20 * num + den) div (2 * den) * (2 * den) + (20 * num + den) mod (2 * den) = 20 * num + den"
    by (rule div_mult_mod_eq)
  moreover have "(20 * num + den) mod (2 * den) < 2 * den" using d by simp
  ultimately have "2 * den * tenths num den \<le> 20 * num + den" "20 * num + den < 2 * den * tenths num den + 2 * den"
    by (simp_all add: tenths_def algebra_simps)
  then have "int (2 * den * tenths num den) \<le> int (20 * num + den)"
    "int (20 * num + den) < int (2 * den * tenths num den + 2 * den)" by (simp_all only: of_nat_le_iff of_nat_less_iff)
  then have "2 * int den * int (tenths num den) \<le> 20 * int num + int den"
    "20 * int num + int den < 2 * int den * int (tenths num den) + 2 * int den" by simp_all
  then show ?thesis by linarith
qed

lemma size_examples:
  "format_size 1023 = ''1023 B''" "format_size 1536 = ''1.5 KB''" "format_size 1048575 = ''1024.0 KB''"
  by (simp_all add: format_size_def tenths_def fixed1_def show_nat.simps digit_char_def, code_simp+)

text \<open>
  A thumbnail fits into 400 by 300, keeps the shape of the picture, and a picture that fits is shown
  in its own size.
\<close>

theorem thumbnail_fits:
  assumes "0 < w" "0 < h"
  shows "case thumb_size (Some w) (Some h) of (x, y) \<Rightarrow>
    0 < x \<and> x \<le> 400 \<and> 0 < y \<and> y \<le> 300 \<and> x * h = y * w \<and> (w \<le> 400 \<and> h \<le> 300) = ((x, y) = (w, h))"
proof -
  define h1 where "h1 = h * 400 / w"
  have h1: "0 < h1" "400 * h = h1 * w" using assms by (simp_all add: h1_def)
  show ?thesis
  proof (cases "w > 400")
    case True
    show ?thesis
    proof (cases "h1 > 300")
      case big: True
      have "400 * 300 / h1 \<le> 400" using big by (simp add: field_simps)
      moreover have "400 * 300 / h1 * h = 300 * w" using h1 by (simp add: field_simps)
      ultimately show ?thesis using True big h1 assms by (auto simp: thumb_size_def Let_def h1_def [symmetric])
    next
      case False
      with True h1 assms show ?thesis by (auto simp: thumb_size_def Let_def h1_def [symmetric])
    qed
  next
    case False
    show ?thesis
    proof (cases "h > 300")
      case True
      have "w * 300 / h \<le> w" using True assms by (simp add: field_simps)
      with True False assms show ?thesis by (auto simp: thumb_size_def Let_def)
    next
      case small: False
      with False assms show ?thesis by (auto simp: thumb_size_def Let_def)
    qed
  qed
qed

theorem thumbnail_fits_witness: "thumb_size (Some 1600) (Some 1200) = (400, 300)"
proof -
  have "case thumb_size (Some 1600) (Some 1200) of (x, y) \<Rightarrow> x \<le> 400 \<and> y \<le> 300 \<and> x * 1200 = y * 1600"
    using thumbnail_fits [of 1600 1200] by (auto split: prod.splits)
  moreover have "fst (thumb_size (Some 1600) (Some 1200)) = 400" by code_simp
  ultimately show ?thesis by (cases "thumb_size (Some 1600) (Some 1200)") auto
qed

section \<open>The gallery\<close>

lemma lb_index_bound:
  "lb_index s < lb_count s \<Longrightarrow> lb_index (lb_step i s) < lb_count (lb_step i s) \<and> lb_count (lb_step i s) = lb_count s"
  by (cases i) (auto simp: lb_key_def lb_prev_def lb_next_def lb_close_def nat_less_iff)

lemma lb_prev_next: "lb_index s < lb_count s \<Longrightarrow> lb_index (lb_prev (lb_next s)) = lb_index s"
proof -
  assume l: "lb_index s < lb_count s"
  show ?thesis
  proof (cases "Suc (lb_index s) = lb_count s")
    case True
    then have "lb_index (lb_next s) = 0" by (simp add: lb_next_def)
    moreover have "(- 1 + int (lb_count s)) mod int (lb_count s) = - 1 + int (lb_count s)"
      using l by (intro mod_pos_pos_trivial) simp_all
    ultimately show ?thesis using True l by (simp add: lb_prev_def del: mod_add_self2) (simp add: lb_next_def)
  next
    case False
    with l have "lb_index (lb_next s) = Suc (lb_index s)" by (simp add: lb_next_def)
    with l show ?thesis by (simp add: lb_prev_def) (simp add: lb_next_def)
  qed
qed

text \<open>Closing twice calls \<open>onClose\<close> twice.\<close>

lemma double_close: "lb_closed (fold lb_step [LbClose, LbClose, LbTimer, LbTimer] (new_lightbox n i)) = 2"
  by (simp add: new_lightbox_def lb_close_def)

end
