(* ===== verification/DebugPanel.thy ===== *)
theory DebugPanel
  imports ChatApi Complex_Main
begin

text \<open>
  The floating button of \<open>frontend/components/hub/call-debug-panel.tsx\<close>: its position in the window,
  the stored copy, dragging and clicking. Lengths are rationals. A click of the mouse is its events
  in the order of the browser: down, moves, up, click.

  The lemmas show that the button stays in every window that has room for it, and that a drag also
  toggles the panel, which the code means to avoid.
\<close>

record panel_pos =
  pp_x :: rat
  pp_y :: rat
  pp_open :: bool

text \<open>The stored position: none, text that is not an object, or its fields (\<open>None\<close> if not a number).\<close>

datatype raw_pos = NoPos | BadPos | RawPos "rat option" "rat option" bool

definition no_pos :: panel_pos where
  "no_pos = \<lparr>pp_x = -1, pp_y = -1, pp_open = False\<rparr>"

definition read_pos :: "raw_pos \<Rightarrow> panel_pos" where
  "read_pos r =
     (case r of
        RawPos x y b \<Rightarrow>
          \<lparr>pp_x = (case x of None \<Rightarrow> -1 | Some v \<Rightarrow> v), pp_y = (case y of None \<Rightarrow> -1 | Some v \<Rightarrow> v), pp_open = b\<rparr>
      | _ \<Rightarrow> no_pos)"

definition FAB_SIZE :: rat where "FAB_SIZE = 44"
definition PANEL_W :: rat where "PANEL_W = 460"
definition PANEL_H :: rat where "PANEL_H = 520"

definition clamp_axis :: "rat \<Rightarrow> rat \<Rightarrow> rat" where
  "clamp_axis len v = max 8 (min (len - FAB_SIZE - 8) v)"

record fab_drag =
  fd_start_x :: rat
  fd_start_y :: rat
  fd_orig_x :: rat
  fd_orig_y :: rat
  fd_moved :: bool

record fab =
  fb_pos :: panel_pos
  fb_width :: rat
  fb_height :: rat
  fb_drag :: "fab_drag option"
  fb_raw :: raw_pos
  fb_writable :: bool

text \<open>The effect that runs after every change of the position.\<close>

definition put_pos :: "panel_pos \<Rightarrow> fab \<Rightarrow> fab" where
  "put_pos p s =
     s\<lparr>fb_pos := p,
       fb_raw := (if pp_x p \<ge> 0 \<and> pp_y p \<ge> 0 \<and> fb_writable s then RawPos (Some (pp_x p)) (Some (pp_y p)) (pp_open p)
                  else fb_raw s)\<rparr>"

definition hydrate :: "fab \<Rightarrow> fab" where
  "hydrate s =
     (let stored = read_pos (fb_raw s);
          fresh = (pp_x stored < 0 \<or> pp_y stored < 0);
          x = clamp_axis (fb_width s) (if fresh then fb_width s - FAB_SIZE - 24 else pp_x stored);
          y = clamp_axis (fb_height s) (if fresh then fb_height s - FAB_SIZE - 24 else pp_y stored)
      in put_pos \<lparr>pp_x = x, pp_y = y, pp_open = pp_open stored\<rparr> s)"

definition new_fab :: "raw_pos \<Rightarrow> bool \<Rightarrow> rat \<Rightarrow> rat \<Rightarrow> fab" where
  "new_fab r ok w h =
     hydrate \<lparr>fb_pos = no_pos, fb_width = w, fb_height = h, fb_drag = None, fb_raw = r, fb_writable = ok\<rparr>"

definition resize_fab :: "rat \<Rightarrow> rat \<Rightarrow> fab \<Rightarrow> fab" where
  "resize_fab w h s =
     put_pos ((fb_pos s)\<lparr>pp_x := clamp_axis w (pp_x (fb_pos s)), pp_y := clamp_axis h (pp_y (fb_pos s))\<rparr>)
       (s\<lparr>fb_width := w, fb_height := h\<rparr>)"

definition begin_drag :: "rat \<Rightarrow> rat \<Rightarrow> fab \<Rightarrow> fab" where
  "begin_drag x y s =
     s\<lparr>fb_drag := Some \<lparr>fd_start_x = x, fd_start_y = y, fd_orig_x = pp_x (fb_pos s), fd_orig_y = pp_y (fb_pos s),
                       fd_moved = False\<rparr>\<rparr>"

definition fab_move :: "rat \<Rightarrow> rat \<Rightarrow> fab \<Rightarrow> fab" where
  "fab_move x y s =
     (case fb_drag s of
        None \<Rightarrow> s
      | Some d \<Rightarrow>
          (let dx = x - fd_start_x d; dy = y - fd_start_y d;
               moved = (fd_moved d \<or> dx * dx + dy * dy > 9);
               s1 = s\<lparr>fb_drag := Some (d\<lparr>fd_moved := moved\<rparr>)\<rparr>
           in if \<not> moved then s1
              else put_pos ((fb_pos s)\<lparr>pp_x := clamp_axis (fb_width s) (fd_orig_x d + dx),
                                      pp_y := clamp_axis (fb_height s) (fd_orig_y d + dy)\<rparr>) s1))"

definition fab_up :: "fab \<Rightarrow> fab" where
  "fab_up s = s\<lparr>fb_drag := None\<rparr>"

definition fab_click :: "fab \<Rightarrow> fab" where
  "fab_click s =
     (if (case fb_drag s of None \<Rightarrow> False | Some d \<Rightarrow> fd_moved d) then s
      else put_pos ((fb_pos s)\<lparr>pp_open := \<not> pp_open (fb_pos s)\<rparr>) s)"

definition fab_close :: "fab \<Rightarrow> fab" where
  "fab_close s = put_pos ((fb_pos s)\<lparr>pp_open := False\<rparr>) s"

datatype fab_input =
    FabDown rat rat | FabMove rat rat | FabUp | FabClick | FabClose | FabResize rat rat

fun fab_step :: "fab_input \<Rightarrow> fab \<Rightarrow> fab" where
  "fab_step (FabDown x y) s = begin_drag x y s"
| "fab_step (FabMove x y) s = fab_move x y s"
| "fab_step FabUp s = fab_up s"
| "fab_step FabClick s = fab_click s"
| "fab_step FabClose s = fab_close s"
| "fab_step (FabResize w h) s = resize_fab w h s"

text \<open>Left and top of the panel, grown away from the nearer edges.\<close>

definition panel_origin :: "fab \<Rightarrow> rat \<times> rat" where
  "panel_origin s =
     (let x = pp_x (fb_pos s); y = pp_y (fb_pos s);
          right = (x + PANEL_W + 8 < fb_width s); down = (y + PANEL_H + 8 < fb_height s)
      in (if right then x else x + FAB_SIZE - PANEL_W, if down then y + FAB_SIZE + 8 else y - PANEL_H - 8))"

section \<open>The button stays in the window\<close>

text \<open>A window with room for the button and its margins.\<close>

definition roomy :: "rat \<Rightarrow> bool" where
  "roomy len \<longleftrightarrow> FAB_SIZE + 16 \<le> len"

lemma clamp_axis_in:
  "roomy len \<Longrightarrow> 8 \<le> clamp_axis len v \<and> clamp_axis len v + FAB_SIZE + 8 \<le> len"
  by (auto simp: roomy_def clamp_axis_def max_def min_def)

definition fab_inside :: "fab \<Rightarrow> bool" where
  "fab_inside s \<longleftrightarrow>
     8 \<le> pp_x (fb_pos s) \<and> pp_x (fb_pos s) + FAB_SIZE + 8 \<le> fb_width s \<and>
     8 \<le> pp_y (fb_pos s) \<and> pp_y (fb_pos s) + FAB_SIZE + 8 \<le> fb_height s"

definition fab_room :: "fab \<Rightarrow> bool" where
  "fab_room s \<longleftrightarrow> roomy (fb_width s) \<and> roomy (fb_height s)"

text \<open>What is stored is what is shown, when the storage takes it.\<close>

definition fab_stored :: "fab \<Rightarrow> bool" where
  "fab_stored s \<longleftrightarrow> (fb_writable s \<longrightarrow> read_pos (fb_raw s) = fb_pos s)"

definition fab_ok :: "fab \<Rightarrow> bool" where
  "fab_ok s \<longleftrightarrow> fab_room s \<and> fab_inside s \<and> fab_stored s"

lemma put_pos_frame [simp]:
  "fb_pos (put_pos p s) = p" "fb_width (put_pos p s) = fb_width s" "fb_height (put_pos p s) = fb_height s"
  "fb_drag (put_pos p s) = fb_drag s" "fb_writable (put_pos p s) = fb_writable s"
  by (simp_all add: put_pos_def)

lemma put_pos_stored: "8 \<le> pp_x p \<Longrightarrow> 8 \<le> pp_y p \<Longrightarrow> fab_stored (put_pos p s)"
  by (simp add: fab_stored_def put_pos_def read_pos_def)

lemma fab_ok_put:
  assumes "roomy (fb_width s)" "roomy (fb_height s)" "8 \<le> pp_x p" "pp_x p + FAB_SIZE + 8 \<le> fb_width s"
    "8 \<le> pp_y p" "pp_y p + FAB_SIZE + 8 \<le> fb_height s"
  shows "fab_ok (put_pos p s)"
  using assms put_pos_stored [of p s] by (simp add: fab_ok_def fab_room_def fab_inside_def)

lemma new_fab_ok: "roomy w \<Longrightarrow> roomy h \<Longrightarrow> fab_ok (new_fab r ok w h)"
  using clamp_axis_in [of w] clamp_axis_in [of h]
  by (simp add: new_fab_def hydrate_def Let_def) (auto intro!: fab_ok_put)

definition fab_input_ok :: "fab_input \<Rightarrow> bool" where
  "fab_input_ok i = (case i of FabResize w h \<Rightarrow> roomy w \<and> roomy h | _ \<Rightarrow> True)"

lemma fab_ok_drag: "fab_ok s \<Longrightarrow> fab_ok (s\<lparr>fb_drag := d\<rparr>)"
  by (simp add: fab_ok_def fab_room_def fab_inside_def fab_stored_def)

lemma fab_step_ok:
  assumes "fab_ok s" "fab_input_ok i"
  shows "fab_ok (fab_step i s)"
proof (cases i)
  case (FabMove x y)
  from assms(1) have room: "roomy (fb_width s)" "roomy (fb_height s)" by (auto simp: fab_ok_def fab_room_def)
  show ?thesis
  proof (cases "fb_drag s")
    case (Some d)
    with room clamp_axis_in assms(1) show ?thesis
      by (auto simp: FabMove fab_move_def Let_def fab_ok_drag intro!: fab_ok_put)
  qed (use assms(1) in \<open>simp add: FabMove fab_move_def\<close>)
next
  case (FabResize w h)
  with assms clamp_axis_in show ?thesis by (auto simp: resize_fab_def fab_input_ok_def intro!: fab_ok_put)
next
  case FabClick
  with assms(1) show ?thesis
    by (auto simp: fab_click_def fab_ok_def fab_room_def fab_inside_def put_pos_stored split: option.split)
next
  case FabClose
  with assms(1) show ?thesis by (auto simp: fab_close_def fab_ok_def fab_room_def fab_inside_def put_pos_stored)
qed (use assms(1) in \<open>simp_all add: begin_drag_def fab_up_def fab_ok_drag\<close>)

interpretation fab: invariant_machine fab_step "\<lambda>i _. fab_input_ok i" fab_ok
  by unfold_locales (rule fab_step_ok)

text \<open>
  In windows of at least 60 by 60 the button is always wholly visible with its margins, wherever it was
  stored, dragged or left by a resize, and a reload with a writable storage finds it in the same place.
\<close>

theorem debug_button_visible:
  fixes r :: raw_pos
  assumes "roomy w" "roomy h" "list_all fab_input_ok is"
  defines "s \<equiv> run fab_step is (new_fab r True w h)"
  shows "fab_inside s \<and> fb_pos (new_fab (fb_raw s) True (fb_width s) (fb_height s)) = fb_pos s"
proof -
  have "fab_ok s"
    unfolding s_def using new_fab_ok [OF assms(1,2)] assms(3) by (intro fab.inv_run) (simp_all add: list_all_iff)
  moreover have "fb_writable (fab_step i t) = fb_writable t" for i t
    by (cases i) (auto simp: begin_drag_def fab_move_def fab_up_def fab_click_def fab_close_def resize_fab_def Let_def split: option.split)
  then have "fb_writable (run fab_step xs t) = fb_writable t" for xs t by (induction xs arbitrary: t) auto
  then have "fb_writable s" by (simp add: s_def new_fab_def hydrate_def Let_def)
  ultimately have p: "fab_inside s" "read_pos (fb_raw s) = fb_pos s" by (simp_all add: fab_ok_def fab_stored_def)
  have id: "8 \<le> v \<Longrightarrow> v + FAB_SIZE + 8 \<le> len \<Longrightarrow> clamp_axis len v = v" for v len
    by (simp add: clamp_axis_def max_def min_def)
  from p id show ?thesis by (simp add: new_fab_def hydrate_def Let_def fab_inside_def)
qed

lemma roomy_cases: "roomy 800" "roomy 600" "roomy 300" "roomy 200"
  by (simp_all add: roomy_def FAB_SIZE_def)

theorem debug_button_visible_witness:
  "fab_inside (run fab_step [FabUp, FabResize 300 200] (new_fab NoPos True 800 600))"
proof -
  have "list_all fab_input_ok [FabUp, FabResize 300 200]" by (simp add: fab_input_ok_def roomy_cases)
  from debug_button_visible [OF roomy_cases(1) roomy_cases(2) this, of NoPos] show ?thesis by (elim conjE)
qed

text \<open>The panel opens inside a window that has room for it on the chosen sides.\<close>

lemma panel_visible:
  assumes "fab_inside s" "2 * PANEL_W \<le> fb_width s" "2 * PANEL_H + FAB_SIZE + 32 \<le> fb_height s"
  shows "0 \<le> fst (panel_origin s) \<and> fst (panel_origin s) + PANEL_W \<le> fb_width s"
  using assms by (auto simp: panel_origin_def Let_def fab_inside_def PANEL_W_def PANEL_H_def FAB_SIZE_def)

section \<open>Dragging toggles the panel\<close>

lemma fab_move_open: "pp_open (fb_pos (fab_move x y s)) = pp_open (fb_pos s)"
  by (simp add: fab_move_def Let_def split: option.split)

text \<open>
  The handler of the click looks at the drag, which the handler of the mouse button's release has
  cleared just before: a drag that ends over the button, as it does unless it leaves the window, toggles
  the panel like a click.
\<close>

theorem drag_toggles_panel:
  "pp_open (fb_pos (run fab_step ([FabDown x y] @ map (\<lambda>(a, b). FabMove a b) ps @ [FabUp, FabClick]) s)) =
     (\<not> pp_open (fb_pos s))"
proof -
  have "pp_open (fb_pos (run fab_step (map (\<lambda>(a, b). FabMove a b) ps) t)) = pp_open (fb_pos t)" for t
  proof (induction ps arbitrary: t)
    case (Cons q ps)
    then show ?case by (cases q) (simp add: fab_move_open)
  qed simp
  then show ?thesis by (simp add: run_append fab_up_def fab_click_def begin_drag_def)
qed

section \<open>Names in the panel\<close>

text \<open>Regular expressions are searched from left to right; a matcher takes the rest of the text at one place.\<close>

fun search :: "(string \<Rightarrow> 'a option) \<Rightarrow> string \<Rightarrow> 'a option" where
  "search m [] = m []"
| "search m (c # cs) = (case m (c # cs) of Some v \<Rightarrow> Some v | None \<Rightarrow> search m cs)"

definition lit :: "string \<Rightarrow> string \<Rightarrow> string option" where
  "lit w cs = (if take (length w) cs = w then Some (drop (length w) cs) else None)"

definition holds :: "string \<Rightarrow> string \<Rightarrow> bool" where
  "holds w cs \<longleftrightarrow> search (lit w) cs \<noteq> None"

text \<open>One or more digits, with the rest.\<close>

definition digits :: "string \<Rightarrow> (string \<times> string) option" where
  "digits cs = (if takeWhile is_digit cs = [] then None else Some (takeWhile is_digit cs, dropWhile is_digit cs))"

text \<open>A separator of the given characters and more digits.\<close>

definition sep_digits :: "string \<Rightarrow> string \<Rightarrow> (string \<times> string) option" where
  "sep_digits seps cs =
     (case cs of
        [] \<Rightarrow> None
      | c # r \<Rightarrow> if c \<in> set seps then map_option (\<lambda>(d, r'). (c # d, r')) (digits r) else None)"

text \<open>Digits with between \<open>least\<close> and \<open>most\<close> further groups.\<close>

fun groups_of :: "nat \<Rightarrow> nat \<Rightarrow> string \<Rightarrow> string \<Rightarrow> string option" where
  "groups_of least 0 seps cs = (if least = 0 then Some [] else None)"
| "groups_of least (Suc most) seps cs =
     (case sep_digits seps cs of
        Some (d, r) \<Rightarrow> map_option ((@) d) (groups_of (least - 1) most seps r)
      | None \<Rightarrow> if least = 0 then Some [] else None)"

definition version :: "nat \<Rightarrow> nat \<Rightarrow> string \<Rightarrow> string \<Rightarrow> string option" where
  "version least most seps cs =
     (case digits cs of None \<Rightarrow> None | Some (d, r) \<Rightarrow> map_option ((@) d) (groups_of least most seps r))"

definition versioned :: "string \<Rightarrow> nat \<Rightarrow> nat \<Rightarrow> string \<Rightarrow> string \<Rightarrow> string option" where
  "versioned w least most seps = search (\<lambda>cs. Option.bind (lit w cs) (version least most seps))"

definition with_dots :: "string \<Rightarrow> string" where
  "with_dots = map (\<lambda>c. if c = CHR ''_'' then CHR ''.'' else c)"

definition safari_version :: "string \<Rightarrow> string option" where
  "safari_version =
     search (\<lambda>cs. case Option.bind (lit ''Version/'' cs) digits of
                     Some (d, r) \<Rightarrow> if holds ''Safari'' r then Some d else None
                   | None \<Rightarrow> None)"

definition browser_patterns :: "(string \<times> (string \<Rightarrow> string option)) list" where
  "browser_patterns =
     [(''Edge'', versioned ''Edg/'' 0 0 []), (''Opera'', versioned ''OPR/'' 0 0 []),
      (''Chrome'', versioned ''Chrome/'' 0 0 []), (''Firefox'', versioned ''Firefox/'' 0 0 []),
      (''Safari'', safari_version)]"

fun first_match :: "(string \<times> (string \<Rightarrow> string option)) list \<Rightarrow> string \<Rightarrow> string" where
  "first_match [] ua = ''unknown''"
| "first_match ((n, m) # ps) ua =
     (case m ua of Some v \<Rightarrow> n @ '' '' @ v | None \<Rightarrow> first_match ps ua)"

definition browser_of :: "string \<Rightarrow> string" where
  "browser_of ua = first_match browser_patterns ua"

definition arch_at :: "string \<Rightarrow> string option" where
  "arch_at cs =
     (if lit ''x86_64'' cs \<noteq> None then Some ''x86_64''
      else case cs of
        CHR ''i'' # d # CHR ''8'' # CHR ''6'' # _ \<Rightarrow> if is_digit d then Some [CHR ''i'', d, CHR ''8'', CHR ''6''] else None
      | _ \<Rightarrow>
          if lit ''aarch64'' cs \<noteq> None then Some ''aarch64''
          else case Option.bind (lit ''armv'' cs) digits of
            Some (d, CHR ''l'' # _) \<Rightarrow> Some (''armv'' @ d @ ''l'')
          | _ \<Rightarrow> None)"

definition os_of :: "string \<Rightarrow> string" where
  "os_of ua =
     (if (case search (lit ''Windows NT 10.0'') ua of Some r \<Rightarrow> holds ''Win64'' r | None \<Rightarrow> False) \<or> holds ''Windows NT 11'' ua
      then ''Windows 10/11''
      else case versioned ''Windows NT '' 1 1 ''.'' ua of Some v \<Rightarrow> ''Windows NT '' @ v | None \<Rightarrow>
      (case versioned ''Mac OS X '' 1 2 ''._'' ua of Some v \<Rightarrow> ''macOS '' @ with_dots v | None \<Rightarrow>
      (case versioned ''Android '' 0 1 ''.'' ua of Some v \<Rightarrow> ''Android '' @ v | None \<Rightarrow>
      (case versioned ''iPhone OS '' 1 1 ''._'' ua of Some v \<Rightarrow> ''iOS '' @ with_dots v | None \<Rightarrow>
        if holds ''CrOS'' ua then ''ChromeOS''
        else if holds ''Linux'' ua
        then (case search (\<lambda>cs. Option.bind (lit ''Linux '' cs) arch_at) ua of Some a \<Rightarrow> ''Linux '' @ a | None \<Rightarrow> ''Linux'')
        else ''unknown''))))"

text \<open>The short form of an identifier and whether the ellipsis follows; \<open>None\<close> is the dash.\<close>

definition short_id :: "string option \<Rightarrow> (string \<times> bool) option" where
  "short_id i =
     (case i of
        None \<Rightarrow> None
      | Some s \<Rightarrow> if s = [] then None else if length s > 8 then Some (take 8 s, True) else Some (s, False))"

datatype tone = ToneGood | ToneBad | ToneWarn | ToneNone

definition state_tone :: "string \<Rightarrow> tone" where
  "state_tone v =
     (if v \<in> {''connected'', ''completed''} then ToneGood
      else if v \<in> {''failed'', ''closed''} then ToneBad
      else if v = ''disconnected'' then ToneWarn
      else ToneNone)"

text \<open>
  Edge names Chrome and Safari in its text: it is recognised wherever its own name stands.
\<close>

lemma search_finds: "m ys = Some v \<Longrightarrow> search m (xs @ ys) \<noteq> None"
proof (induction xs)
  case Nil
  then show ?case by (cases ys) auto
qed (auto split: option.split)

lemma edge_recognised:
  assumes "is_digit d"
  shows "take 5 (browser_of (xs @ ''Edg/'' @ d # ys)) = ''Edge ''"
proof -
  define m where "m = (\<lambda>cs. Option.bind (lit ''Edg/'' cs) (version 0 0 []))"
  have "m (''Edg/'' @ d # ys) = Some (d # takeWhile is_digit ys)"
    using assms by (simp add: m_def lit_def version_def digits_def)
  then have "search m (xs @ ''Edg/'' @ d # ys) \<noteq> None" by (rule search_finds)
  then obtain v where "versioned ''Edg/'' 0 0 [] (xs @ ''Edg/'' @ d # ys) = Some v"
    unfolding versioned_def m_def by blast
  then show ?thesis by (simp add: browser_of_def browser_patterns_def)
qed

lemma edge_is_not_chrome:
  "browser_of ''Mozilla/5.0 (X11; Linux x86_64) Chrome/120.0 Safari/537.36 Edg/121.0'' = ''Edge 121''"
  "browser_of ''Mozilla/5.0 (Macintosh; Intel Mac OS X 10_15_7) Version/17.2 Safari/605'' = ''Safari 17''"
  "os_of ''Mozilla/5.0 (Macintosh; Intel Mac OS X 10_15_7) Version/17.2 Safari/605'' = ''macOS 10.15.7''"
  "os_of ''Mozilla/5.0 (Linux; Android 14; Pixel) Chrome/120.0'' = ''Android 14''"
  "os_of ''Mozilla/5.0 (X11; Linux armv7l)'' = ''Linux armv7l''"
  by code_simp+

text \<open>An iPad of an earlier system names a version that no pattern takes.\<close>

lemma ipad_os_unknown: "os_of ''Mozilla/5.0 (iPad; CPU OS 12_2 like Mac OS X)'' = ''unknown''"
  by code_simp

end
