(* ===== verification/Profile.thy ===== *)
theory Profile
  imports Auth ChatApi
begin

text \<open>
  Editing what a member and a hub are called: the account menu \<open>frontend/components/nav-user.tsx\<close> on top
  of the session provider, \<open>frontend/components/hub/hub-settings-dialog.tsx\<close> with the requests of
  \<open>frontend/hooks/use-hub.ts\<close>, the crop dialog \<open>frontend/components/ui/image-crop-dialog.tsx\<close> and the
  feedback form of \<open>frontend/components/hub-switcher.tsx\<close>. Files are numbers; the cropping, the
  reading of a file as a data URL and the translation of messages are the browser's and the translator's.
\<close>

section \<open>The name of a cropped picture\<close>

definition rename_to_webp :: "string \<Rightarrow> string" where
  "rename_to_webp name =
     (let after = takeWhile (\<lambda>c. c \<noteq> CHR ''.'') (rev name);
          dot = length name - length after
      in (if dot > 1 then take (dot - 1) name else name) @ ''.webp'')"

text \<open>Renaming twice is renaming once.\<close>

lemma rename_to_webp_idem: "name \<noteq> [] \<Longrightarrow> rename_to_webp (rename_to_webp name) = rename_to_webp name"
proof -
  have one: "rename_to_webp (b @ ''.webp'') = b @ ''.webp''" if "b \<noteq> []" for b
    using that by (cases b) (simp_all add: rename_to_webp_def Let_def)
  assume n: "name \<noteq> []"
  obtain b where b: "rename_to_webp name = b @ ''.webp''" "b \<noteq> []"
  proof
    define dot where "dot = length name - length (takeWhile (\<lambda>c. c \<noteq> CHR ''.'') (rev name))"
    let ?b = "if dot > 1 then take (dot - 1) name else name"
    show "rename_to_webp name = ?b @ ''.webp''" by (simp only: rename_to_webp_def Let_def dot_def)
    show "?b \<noteq> []" using n by auto
  qed
  with one show ?thesis by simp
qed

record crop_body =
  cb_area :: "nat option"
  cb_busy :: bool
  cb_confirmed :: "nat list"

datatype crop_input = CropArea nat | CropConfirm | CropDone nat | CropFails

fun crop_step :: "crop_input \<Rightarrow> crop_body \<Rightarrow> crop_body" where
  "crop_step (CropArea a) s = s\<lparr>cb_area := Some a\<rparr>"
| "crop_step CropConfirm s = (if cb_busy s \<or> cb_area s = None then s else s\<lparr>cb_busy := True\<rparr>)"
| "crop_step (CropDone f) s =
     (if cb_busy s then s\<lparr>cb_busy := False, cb_confirmed := cb_confirmed s @ [f]\<rparr> else s)"
| "crop_step CropFails s = (if cb_busy s then s\<lparr>cb_busy := False\<rparr> else s)"

section \<open>The account menu\<close>

definition MAX_PICTURE :: nat where
  "MAX_PICTURE = 10 * 1024 * 1024"

datatype profile_stage = SavingAvatar nat | SavingName

text \<open>A save under way: the session it captured, updated as it goes, and the names it captured.\<close>

record save_run =
  sr_session :: auth_session
  sr_draft :: string
  sr_saved :: string
  sr_stage :: profile_stage

text \<open>A request with the access token it carries.\<close>

datatype profile_request = PostAvatar string string nat | PatchName string string string

record profile =
  pf_auth :: auth
  pf_open :: bool
  pf_saved :: string
  pf_draft :: string
  pf_url :: "string option"
  pf_preview :: "string option"
  pf_file :: "nat option"
  pf_crop :: "nat option"
  pf_error :: string
  pf_save :: "save_run option" \<comment> \<open>\<open>saving\<close> is that there is one\<close>
  pf_requests :: "profile_request list"

definition new_profile :: "string \<Rightarrow> auth \<Rightarrow> profile" where
  "new_profile user_name a =
     (let n = (case a_session a of None \<Rightarrow> user_name | Some x \<Rightarrow> as_name x)
      in \<lparr>pf_auth = a, pf_open = False, pf_saved = n, pf_draft = n,
          pf_url = (case a_session a of None \<Rightarrow> None | Some x \<Rightarrow> as_avatar x),
          pf_preview = None, pf_file = None, pf_crop = None, pf_error = [], pf_save = None, pf_requests = []\<rparr>)"

definition pick_avatar :: "(nat \<times> nat) option \<Rightarrow> profile \<Rightarrow> profile" where
  "pick_avatar f s =
     (case f of
        None \<Rightarrow> s
      | Some (i, bytes) \<Rightarrow>
          if bytes > MAX_PICTURE then s\<lparr>pf_error := ''Image must be under 10MB''\<rparr>
          else s\<lparr>pf_error := [], pf_crop := Some i\<rparr>)"

definition crop_confirmed :: "nat \<Rightarrow> profile \<Rightarrow> profile" where
  "crop_confirmed i s = s\<lparr>pf_file := Some i, pf_crop := None\<rparr>"

definition save_done :: "exp_of \<Rightarrow> save_run \<Rightarrow> profile \<Rightarrow> profile" where
  "save_done exp_of r s =
     s\<lparr>pf_auth := login exp_of ((sr_session r)\<lparr>as_name := sr_draft r\<rparr>) (pf_auth s),
       pf_saved := sr_draft r, pf_open := False, pf_save := None\<rparr>"

definition save_name :: "exp_of \<Rightarrow> save_run \<Rightarrow> profile \<Rightarrow> profile" where
  "save_name exp_of r s =
     (if sr_draft r \<noteq> sr_saved r
      then s\<lparr>pf_save := Some (r\<lparr>sr_stage := SavingName\<rparr>),
             pf_requests := pf_requests s @ [PatchName (as_hub (sr_session r)) (as_token (sr_session r)) (sr_draft r)]\<rparr>
      else save_done exp_of r s)"

definition save_profile :: "exp_of \<Rightarrow> profile \<Rightarrow> profile" where
  "save_profile exp_of s =
     (case a_session (pf_auth s) of
        None \<Rightarrow> s
      | Some x \<Rightarrow>
          if pf_save s \<noteq> None then s
          else
            (let s1 = s\<lparr>pf_error := []\<rparr>;
                 r = \<lparr>sr_session = x, sr_draft = pf_draft s, sr_saved = pf_saved s, sr_stage = SavingName\<rparr>
             in case pf_file s of
                  Some i \<Rightarrow>
                    s1\<lparr>pf_save := Some (r\<lparr>sr_stage := SavingAvatar i\<rparr>),
                       pf_requests := pf_requests s @ [PostAvatar (as_hub x) (as_token x) i]\<rparr>
                | None \<Rightarrow> save_name exp_of r s1))"

text \<open>
  The server's answer: no answer, a status that is not good, or a good status with the body, which may not
  be JSON (\<open>OkBody None\<close>) or lack the address of the picture (\<open>OkBody (Some None)\<close>).
\<close>

datatype profile_reply = NoAnswer | BadStatus int | OkBody "string option option"

definition avatar_status_error :: "int \<Rightarrow> string" where
  "avatar_status_error n =
     (if n = 413 then ''Image too large (max 2MB)''
      else if n = 415 then ''Unsupported image format''
      else ''Upload failed ('' @ show_int n @ '')'')"

definition profile_failed :: "string \<Rightarrow> profile \<Rightarrow> profile" where
  "profile_failed msg s = s\<lparr>pf_error := msg, pf_save := None\<rparr>"

definition profile_replied :: "exp_of \<Rightarrow> profile_reply \<Rightarrow> profile \<Rightarrow> profile" where
  "profile_replied exp_of r s =
     (case pf_save s of
        None \<Rightarrow> s
      | Some v \<Rightarrow>
          (case sr_stage v of
             SavingAvatar _ \<Rightarrow>
               (case r of
                  NoAnswer \<Rightarrow> profile_failed ''Cannot reach server'' s
                | BadStatus n \<Rightarrow> profile_failed (avatar_status_error n) s
                | OkBody None \<Rightarrow> profile_failed ''Cannot reach server'' s
                | OkBody (Some u) \<Rightarrow>
                    save_name exp_of (v\<lparr>sr_session := (sr_session v)\<lparr>as_avatar := u\<rparr>\<rparr>)
                      (s\<lparr>pf_url := u, pf_preview := None, pf_file := None\<rparr>))
           | SavingName \<Rightarrow>
               (case r of
                  NoAnswer \<Rightarrow> profile_failed ''Cannot reach server'' s
                | BadStatus n \<Rightarrow> profile_failed (''Failed to update name ('' @ show_int n @ '')'') s
                | OkBody _ \<Rightarrow> save_done exp_of v s)))"

text \<open>\<open>onOpenChange\<close> of the dialog: its cross, Escape, a click outside. The buttons only set \<open>editOpen\<close>.\<close>

definition edit_toggled :: "bool \<Rightarrow> profile \<Rightarrow> profile" where
  "edit_toggled b s =
     s\<lparr>pf_open := b, pf_draft := pf_saved s, pf_preview := None, pf_file := None, pf_crop := None, pf_error := []\<rparr>"

datatype profile_input =
    ProfileMenu \<comment> \<open>the item of the menu\<close>
  | ProfileCancel \<comment> \<open>the button\<close>
  | ProfileToggled bool
  | ProfileDraft string
  | ProfilePick "(nat \<times> nat) option"
  | ProfileCropped nat
  | ProfileCropCancel
  | ProfileRead string \<comment> \<open>the picture has been read\<close>
  | ProfileSave
  | ProfileReply profile_reply
  | ProfileLogout
  | ProfileAuth auth_input

fun profile_step :: "exp_of \<Rightarrow> profile_input \<Rightarrow> profile \<Rightarrow> profile" where
  "profile_step x ProfileMenu s = s\<lparr>pf_open := True\<rparr>"
| "profile_step x ProfileCancel s = s\<lparr>pf_open := False\<rparr>"
| "profile_step x (ProfileToggled b) s = edit_toggled b s"
| "profile_step x (ProfileDraft n) s = s\<lparr>pf_draft := n\<rparr>"
| "profile_step x (ProfilePick f) s = pick_avatar f s"
| "profile_step x (ProfileCropped i) s = crop_confirmed i s"
| "profile_step x ProfileCropCancel s = s\<lparr>pf_crop := None\<rparr>"
| "profile_step x (ProfileRead u) s = s\<lparr>pf_preview := Some u\<rparr>"
| "profile_step x ProfileSave s = save_profile x s"
| "profile_step x (ProfileReply r) s = profile_replied x r s"
| "profile_step x ProfileLogout s = s\<lparr>pf_auth := logout x (pf_auth s)\<rparr>"
| "profile_step x (ProfileAuth e) s = s\<lparr>pf_auth := auth_step x e (pf_auth s)\<rparr>"

text \<open>The picture in the sidebar and in the dialog.\<close>

definition current_avatar :: "profile \<Rightarrow> string option" where
  "current_avatar s = (if pf_preview s \<in> {None, Some []} then pf_url s else pf_preview s)"

section \<open>Saving a profile\<close>

text \<open>A save of a new picture and a new name that the server accepts reaches every place: the session in
  use, the stored session, the sidebar and the dialog, which closes.
\<close>

theorem profile_saved_everywhere:
  fixes f :: exp_of and u :: string and b :: "string option option"
  assumes "a_session (pf_auth s) = Some x" "pf_save s = None" "pf_file s = Some i" "pf_draft s \<noteq> pf_saved s"
  defines "s' \<equiv> run (profile_step f) [ProfileSave, ProfileReply (OkBody (Some (Some u))), ProfileReply (OkBody b)] s"
  shows "pf_requests s' = pf_requests s @
      [PostAvatar (as_hub x) (as_token x) i, PatchName (as_hub x) (as_token x) (pf_draft s)] \<and>
    a_session (pf_auth s') = Some (x\<lparr>as_avatar := Some u, as_name := pf_draft s\<rparr>) \<and>
    a_storage (pf_auth s') = Stored (x\<lparr>as_avatar := Some u, as_name := pf_draft s\<rparr>) \<and>
    pf_saved s' = pf_draft s \<and> current_avatar s' = Some u \<and> pf_save s' = None \<and> \<not> pf_open s' \<and> pf_error s' = []"
  using assms
  by (simp add: save_profile_def profile_replied_def save_name_def save_done_def Let_def login_def current_avatar_def)

theorem profile_saved_everywhere_witness:
  "a_storage (pf_auth (run (profile_step (\<lambda>_. None))
      [ProfileSave, ProfileReply (OkBody (Some (Some ''/a.webp''))), ProfileReply (OkBody None)]
      ((new_profile ''x'' ((new_auth NoEntry 0)\<lparr>a_session := Some member_session\<rparr>))\<lparr>pf_file := Some 1, pf_draft := ''Ann''\<rparr>))) =
     Stored (member_session\<lparr>as_avatar := Some ''/a.webp'', as_name := ''Ann''\<rparr>)"
  using profile_saved_everywhere [of "(new_profile ''x'' ((new_auth NoEntry 0)\<lparr>a_session := Some member_session\<rparr>))\<lparr>pf_file := Some 1, pf_draft := ''Ann''\<rparr>"
      member_session 1 "\<lambda>_. None" "''/a.webp''" None]
  by (simp add: new_profile_def member_session_def Let_def)

text \<open>Every answer to the last request ends the save, and a failed one is explained.\<close>

lemma save_ends:
  assumes "pf_save s = Some v" "sr_stage v = SavingName"
  shows "pf_save (profile_replied f r s) = None \<and>
    ((case r of OkBody _ \<Rightarrow> False | _ \<Rightarrow> True) \<longrightarrow> pf_error (profile_replied f r s) \<noteq> [] \<and> pf_open (profile_replied f r s) = pf_open s)"
  using assms by (cases r) (simp_all add: profile_replied_def profile_failed_def save_done_def)

lemma avatar_error_shown: "avatar_status_error n \<noteq> []"
  by (simp add: avatar_status_error_def)

text \<open>
  The name request fails after the picture was taken: the server and the sidebar have the new picture, the
  session and its stored copy the old one, which a reload shows.
\<close>

lemma avatar_lost_when_name_fails:
  fixes f :: exp_of and u :: string and n :: int
  assumes "a_session (pf_auth s) = Some x" "pf_save s = None" "pf_file s = Some i" "pf_draft s \<noteq> pf_saved s"
  defines "s' \<equiv> run (profile_step f) [ProfileSave, ProfileReply (OkBody (Some (Some u))), ProfileReply (BadStatus n)] s"
  shows "pf_url s' = Some u" "a_session (pf_auth s') = Some x" "pf_url (new_profile nm (pf_auth s')) = as_avatar x"
  using assms
  by (simp_all add: save_profile_def profile_replied_def save_name_def profile_failed_def Let_def new_profile_def)

text \<open>
  The session given to \<open>login\<close> is the one captured by the click: tokens that were refreshed while the
  request was open are put back to the old ones, in use and in the storage.
\<close>

lemma save_restores_old_tokens:
  fixes f :: exp_of and b :: "string option option" and tok2 :: string and ref2 :: "string option"
  assumes "a_session (pf_auth s) = Some x" "pf_save s = None" "pf_file s = None" "pf_draft s \<noteq> pf_saved s"
    and "as_refresh x = Some tok" "tok \<noteq> []"
  defines "s' \<equiv> run (profile_step f)
     [ProfileSave, ProfileAuth A401, ProfileAuth (AReply (a_next (pf_auth s)) (Some (tok2, ref2))), ProfileReply (OkBody b)] s"
  shows "a_session (pf_auth s') = Some (x\<lparr>as_name := pf_draft s\<rparr>)"
    "a_storage (pf_auth s') = Stored (x\<lparr>as_name := pf_draft s\<rparr>)"
  using assms
  by (simp_all add: save_profile_def profile_replied_def save_name_def save_done_def Let_def login_def
      handle_unauthorized_def ask_refresh_def refresh_reply_def)

text \<open>
  The button that cancels leaves the draft and the chosen picture: the sidebar shows a picture that was
  not saved, and the next visit of the dialog starts from the abandoned name and saves it.
\<close>

lemma cancel_keeps_draft:
  assumes "a_session (pf_auth s) = Some x" "pf_save s = None" "pf_file s = None" "n \<noteq> pf_saved s"
  shows "pf_requests (run (profile_step f) [ProfileMenu, ProfileDraft n, ProfileCancel, ProfileMenu, ProfileSave] s) =
      pf_requests s @ [PatchName (as_hub x) (as_token x) n]"
  using assms by (simp add: save_profile_def save_name_def Let_def)

lemma cancel_keeps_picture:
  "u \<noteq> [] \<Longrightarrow> current_avatar (run (profile_step f) [ProfileMenu, ProfileCropped i, ProfileRead u, ProfileCancel] s) = Some u"
  by (simp add: crop_confirmed_def current_avatar_def)

text \<open>A save that is answered after a logout signs the member in again.\<close>

lemma save_undoes_logout:
  assumes "a_session (pf_auth s) = Some x" "pf_save s = None" "pf_file s = None" "pf_draft s \<noteq> pf_saved s"
  shows "a_session (pf_auth (run (profile_step f) [ProfileSave, ProfileLogout, ProfileReply (OkBody b)] s)) =
     Some (x\<lparr>as_name := pf_draft s\<rparr>)"
  using assms
  by (simp add: save_profile_def profile_replied_def save_name_def save_done_def Let_def login_def)

section \<open>The settings of the hub\<close>

record hub_info =
  hi_name :: string
  hi_description :: "string option"
  hi_avatar :: "string option"

text \<open>A save under way with what it captured, and its stage.\<close>

datatype hub_stage = HubAvatarOpen | HubPatchOpen | HubReloading

record hub_save =
  hv_hub :: hub_info
  hv_name :: string
  hv_description :: string
  hv_stage :: hub_stage

datatype hub_request = HubPostAvatar nat | HubPatch "string option" "string option" | HubReload

record hub_settings =
  hs_session :: bool
  hs_open :: bool
  hs_hub :: "hub_info option"
  hs_seed :: "bool \<times> hub_info option"
  hs_name :: string
  hs_description :: string
  hs_preview :: "string option"
  hs_file :: "nat option"
  hs_crop :: "nat option"
  hs_saving :: bool
  hs_run :: "hub_save option"
  hs_error :: string
  hs_services :: "string list option"
  hs_fetch :: "nat option" \<comment> \<open>the fetch of versions that is not cancelled\<close>
  hs_next :: nat
  hs_requests :: "hub_request list"

definition new_hub_settings :: "bool \<Rightarrow> hub_info option \<Rightarrow> hub_settings" where
  "new_hub_settings b h =
     \<lparr>hs_session = b, hs_open = False, hs_hub = h, hs_seed = (False, h), hs_name = [], hs_description = [],
      hs_preview = None, hs_file = None, hs_crop = None, hs_saving = False, hs_run = None, hs_error = [],
      hs_services = None, hs_fetch = None, hs_next = 0, hs_requests = []\<rparr>"

text \<open>The draft is set anew during the render after the dialog opened or the hub changed.\<close>

definition reseed :: "hub_settings \<Rightarrow> hub_settings" where
  "reseed s =
     (if hs_seed s = (hs_open s, hs_hub s) then s
      else
        (let s1 = s\<lparr>hs_seed := (hs_open s, hs_hub s)\<rparr> in
         case hs_hub s of
           Some h \<Rightarrow>
             if hs_open s
             then s1\<lparr>hs_name := hi_name h, hs_description := (case hi_description h of None \<Rightarrow> [] | Some d \<Rightarrow> d),
                     hs_preview := None, hs_file := None, hs_crop := None, hs_error := []\<rparr>
             else s1
         | None \<Rightarrow> s1))"

text \<open>Opening fetches the versions of the services; closing cancels the fetch.\<close>

definition set_open :: "bool \<Rightarrow> hub_settings \<Rightarrow> hub_settings" where
  "set_open b s =
     (if b = hs_open s then s
      else reseed
        (s\<lparr>hs_open := b,
           hs_fetch := (if b \<and> hs_session s then Some (hs_next s) else None),
           hs_next := (if b \<and> hs_session s then Suc (hs_next s) else hs_next s)\<rparr>))"

text \<open>\<open>None\<close> when the fetch or its JSON fails; a bad status counts as an empty list.\<close>

definition services_replied :: "nat \<Rightarrow> (bool \<times> string list) option \<Rightarrow> hub_settings \<Rightarrow> hub_settings" where
  "services_replied n r s =
     (if hs_fetch s \<noteq> Some n then s
      else s\<lparr>hs_services :=
        Some (case r of
                None \<Rightarrow> []
              | Some (ok, xs) \<Rightarrow> if ok then filter (\<lambda>x. x \<noteq> ''general'') xs else [])\<rparr>)"

definition hub_pick :: "(nat \<times> nat) option \<Rightarrow> hub_settings \<Rightarrow> hub_settings" where
  "hub_pick f s =
     (case f of
        None \<Rightarrow> s
      | Some (i, bytes) \<Rightarrow>
          if bytes > MAX_PICTURE then s\<lparr>hs_error := ''Image must be under 10MB''\<rparr>
          else s\<lparr>hs_error := [], hs_crop := Some i\<rparr>)"

definition or_null :: "string option \<Rightarrow> string option" where
  "or_null d = (if d = Some [] then None else d)"

text \<open>\<open>await mutate()\<close>: the hub is loaded again, whatever comes of it.\<close>

definition hub_reload :: "hub_save \<Rightarrow> hub_settings \<Rightarrow> hub_settings" where
  "hub_reload v s = s\<lparr>hs_run := Some (v\<lparr>hv_stage := HubReloading\<rparr>), hs_requests := hs_requests s @ [HubReload]\<rparr>"

definition hub_patch :: "hub_save \<Rightarrow> hub_settings \<Rightarrow> hub_settings" where
  "hub_patch v s =
     (let name_changed = (hv_name v \<noteq> hi_name (hv_hub v));
          desc_changed = (or_null (Some (hv_description v)) \<noteq> or_null (hi_description (hv_hub v)))
      in if name_changed \<or> desc_changed
         then s\<lparr>hs_run := Some (v\<lparr>hv_stage := HubPatchOpen\<rparr>),
                hs_requests := hs_requests s @
                  [HubPatch (if name_changed then Some (hv_name v) else None)
                            (if desc_changed then Some (hv_description v) else None)]\<rparr>
         else hub_reload v s)"

definition hub_save_clicked :: "hub_settings \<Rightarrow> hub_settings" where
  "hub_save_clicked s =
     (case hs_hub s of
        None \<Rightarrow> s
      | Some h \<Rightarrow>
          if hs_saving s \<or> \<not> hs_session s then s
          else
            (let trimmed = js_trim (hs_name s);
                 v = \<lparr>hv_hub = h, hv_name = trimmed, hv_description = hs_description s, hv_stage = HubPatchOpen\<rparr>
             in if trimmed = [] then s\<lparr>hs_error := ''Hub name is required''\<rparr>
                else
                  (let s1 = s\<lparr>hs_saving := True, hs_error := []\<rparr>
                   in case hs_file s of
                        Some i \<Rightarrow> s1\<lparr>hs_run := Some (v\<lparr>hv_stage := HubAvatarOpen\<rparr>),
                                     hs_requests := hs_requests s @ [HubPostAvatar i]\<rparr>
                      | None \<Rightarrow> hub_patch v s1)))"

text \<open>An answer by its status; \<open>None\<close> when the request or the JSON of a good answer fails.\<close>

definition hub_error :: "string \<Rightarrow> int \<Rightarrow> string" where
  "hub_error what n =
     (if n = 403 then ''Only hub admins can change settings'' else what @ '' ('' @ show_int n @ '')'')"

definition hub_replied :: "int option \<Rightarrow> hub_settings \<Rightarrow> hub_settings" where
  "hub_replied r s =
     (case hs_run s of
        None \<Rightarrow> s
      | Some v \<Rightarrow>
          (case r of
             None \<Rightarrow> if hv_stage v = HubReloading then s else s\<lparr>hs_run := None\<rparr>
           | Some n \<Rightarrow>
               (let good = (200 \<le> n \<and> n \<le> 299) in
                case hv_stage v of
                  HubAvatarOpen \<Rightarrow>
                    if good then hub_patch v s
                    else s\<lparr>hs_error := hub_error ''Avatar upload failed'' n, hs_saving := False, hs_run := None\<rparr>
                | HubPatchOpen \<Rightarrow>
                    if good then hub_reload v s
                    else s\<lparr>hs_error := hub_error ''Save failed'' n, hs_saving := False, hs_run := None\<rparr>
                | HubReloading \<Rightarrow> s)))"

text \<open>The reload is over: the new hub, if there is one, and the dialog closes.\<close>

definition hub_reloaded :: "hub_info option \<Rightarrow> hub_settings \<Rightarrow> hub_settings" where
  "hub_reloaded h s =
     (case hs_run s of
        None \<Rightarrow> s
      | Some v \<Rightarrow>
          if hv_stage v \<noteq> HubReloading then s
          else
            (let s1 = (case h of None \<Rightarrow> s | Some x \<Rightarrow> reseed (s\<lparr>hs_hub := Some x\<rparr>))
             in set_open False (s1\<lparr>hs_saving := False, hs_run := None\<rparr>)))"

datatype hub_input =
    HubOpen bool
  | HubName string
  | HubDescription string
  | HubPick "(nat \<times> nat) option"
  | HubCropped nat
  | HubCropCancel
  | HubRead string
  | HubSave
  | HubReply "int option"
  | HubReloaded "hub_info option"
  | HubSeen "hub_info option" \<comment> \<open>the cache has a new hub\<close>
  | HubServices nat "(bool \<times> string list) option"

fun hub_step :: "hub_input \<Rightarrow> hub_settings \<Rightarrow> hub_settings" where
  "hub_step (HubOpen b) s = set_open b s"
| "hub_step (HubName n) s = s\<lparr>hs_name := n\<rparr>"
| "hub_step (HubDescription d) s = s\<lparr>hs_description := d\<rparr>"
| "hub_step (HubPick f) s = hub_pick f s"
| "hub_step (HubCropped i) s = s\<lparr>hs_file := Some i, hs_crop := None\<rparr>"
| "hub_step HubCropCancel s = s\<lparr>hs_crop := None\<rparr>"
| "hub_step (HubRead u) s = s\<lparr>hs_preview := Some u\<rparr>"
| "hub_step HubSave s = hub_save_clicked s"
| "hub_step (HubReply r) s = hub_replied r s"
| "hub_step (HubReloaded h) s = hub_reloaded h s"
| "hub_step (HubSeen h) s = reseed (s\<lparr>hs_hub := h\<rparr>)"
| "hub_step (HubServices n r) s = services_replied n r s"

subsection \<open>Only changes are sent\<close>

definition patch_ok :: "hub_request \<Rightarrow> bool" where
  "patch_ok r =
     (case r of
        HubPatch n d \<Rightarrow> (n \<noteq> None \<or> d \<noteq> None) \<and> n \<noteq> Some []
      | _ \<Rightarrow> True)"

definition hub_inv :: "hub_settings \<Rightarrow> bool" where
  "hub_inv s \<longleftrightarrow>
     list_all patch_ok (hs_requests s) \<and> (\<forall>v. hs_run s = Some v \<longrightarrow> hv_name v \<noteq> [] \<and> hs_saving s)"

lemma reseed_frame [simp]:
  "hs_requests (reseed s) = hs_requests s" "hs_run (reseed s) = hs_run s" "hs_saving (reseed s) = hs_saving s"
  "hs_open (reseed s) = hs_open s" "hs_hub (reseed s) = hs_hub s"
  by (simp_all add: reseed_def Let_def split: option.split)

lemma set_open_frame [simp]:
  "hs_requests (set_open b s) = hs_requests s" "hs_run (set_open b s) = hs_run s"
  "hs_saving (set_open b s) = hs_saving s" "hs_open (set_open b s) = b" "hs_hub (set_open b s) = hs_hub s"
  by (simp_all add: set_open_def)

lemma hub_patch_inv:
  assumes "list_all patch_ok (hs_requests s)" "hv_name v \<noteq> []" "hs_saving s"
  shows "hub_inv (hub_patch v s)"
  using assms by (auto simp: hub_inv_def hub_patch_def hub_reload_def Let_def patch_ok_def)

lemma hub_reload_inv:
  assumes "list_all patch_ok (hs_requests s)" "hv_name v \<noteq> []" "hs_saving s"
  shows "hub_inv (hub_reload v s)"
  using assms by (auto simp: hub_inv_def hub_reload_def patch_ok_def)

lemma hub_inv_frame:
  "hub_inv s \<Longrightarrow> hs_requests t = hs_requests s \<Longrightarrow> hs_run t = hs_run s \<Longrightarrow> hs_saving t = hs_saving s \<Longrightarrow> hub_inv t"
  by (simp add: hub_inv_def)

lemma hub_inv_done:
  "hub_inv s \<Longrightarrow> hs_requests t = hs_requests s \<Longrightarrow> hs_run t = None \<Longrightarrow> hub_inv t"
  by (simp add: hub_inv_def)

lemma hub_clicked_inv: "hub_inv s \<Longrightarrow> hub_inv (hub_save_clicked s)"
proof (cases "hs_hub s")
  case (Some h)
  assume i: "hub_inv s"
  show ?thesis
  proof (cases "hs_saving s \<or> \<not> hs_session s \<or> js_trim (hs_name s) = []")
    case True
    with i Some show ?thesis by (auto simp: hub_save_clicked_def Let_def elim: hub_inv_frame)
  next
    case False
    with i Some show ?thesis
      by (auto simp: hub_save_clicked_def Let_def split: option.split intro!: hub_patch_inv)
        (auto simp: hub_inv_def patch_ok_def)
  qed
qed (simp add: hub_save_clicked_def)

lemma hub_replied_inv: "hub_inv s \<Longrightarrow> hub_inv (hub_replied r s)"
proof (cases "hs_run s")
  case (Some v)
  assume i: "hub_inv s"
  with Some have v: "list_all patch_ok (hs_requests s)" "hv_name v \<noteq> []" "hs_saving s" by (simp_all add: hub_inv_def)
  show ?thesis
    using Some i hub_patch_inv [OF v] hub_reload_inv [OF v]
    by (cases r; cases "hv_stage v") (auto simp: hub_replied_def Let_def elim!: hub_inv_done)
qed (simp add: hub_replied_def)

lemma hub_step_inv: "hub_inv s \<Longrightarrow> hub_inv (hub_step e s)"
proof (cases e)
  case (HubReloaded h)
  assume "hub_inv s"
  then show ?thesis
    by (cases "hs_run s"; cases h) (auto simp: HubReloaded hub_reloaded_def Let_def elim!: hub_inv_done)
qed (auto simp: hub_clicked_inv hub_replied_inv hub_pick_def services_replied_def elim!: hub_inv_frame split: option.split)

interpretation hub_dialog: invariant_machine hub_step "\<lambda>_ _. True" hub_inv
  by unfold_locales (rule hub_step_inv)

text \<open>However the dialog is used, every request that changes the hub changes something and never gives it an
  empty name.
\<close>

theorem hub_patches_change_something:
  "list_all patch_ok (hs_requests (run hub_step es (new_hub_settings b h)))"
  using hub_dialog.inv_run [of "new_hub_settings b h" es]
  by (simp add: hub_inv_def new_hub_settings_def)

text \<open>
  A request that fails on the way leaves \<open>saving\<close> set, as \<open>handleSave\<close> catches nothing: the button stays
  disabled and no later use of the dialog sends anything, until the page is loaded again.
\<close>

lemma stuck_step:
  assumes "hs_saving s" "hs_run s = None"
  shows "hs_saving (hub_step e s) \<and> hs_run (hub_step e s) = None \<and> hs_requests (hub_step e s) = hs_requests s"
  using assms
  by (cases e)
    (auto simp: hub_save_clicked_def hub_replied_def hub_reloaded_def hub_pick_def services_replied_def split: option.split)

lemma hub_save_offline_stuck:
  assumes "hs_run s = Some v" "hv_stage v = HubPatchOpen" "hs_saving s"
  shows "hs_requests (run hub_step (HubReply None # es) s) = hs_requests s"
proof -
  have "hs_saving t \<Longrightarrow> hs_run t = None \<Longrightarrow> hs_requests (run hub_step es t) = hs_requests t" for t
    using stuck_step by (induction es arbitrary: t) simp_all
  with assms show ?thesis by (simp add: hub_replied_def)
qed

text \<open>
  A picture that was taken before the other changes were refused is not shown, as the hub is not loaded
  again, and a second try uploads it once more.
\<close>

lemma hub_picture_uploaded_twice:
  assumes "hs_hub s = Some h" "hs_session s" "\<not> hs_saving s" "hs_file s = Some i" "js_trim (hs_name s) \<noteq> []"
    "js_trim (hs_name s) \<noteq> hi_name h"
  shows "\<exists>p. hs_requests (run hub_step [HubSave, HubReply (Some 200), HubReply (Some 403), HubSave] s) =
     hs_requests s @ [HubPostAvatar i, p, HubPostAvatar i]"
  using assms by (simp add: hub_save_clicked_def hub_replied_def hub_patch_def Let_def)

section \<open>Feedback\<close>

record feedback =
  fk_open :: bool
  fk_email :: string
  fk_text :: string
  fk_sending :: bool
  fk_sent :: bool

datatype feedback_input = FeedbackOpen "string option" | FeedbackClose | FeedbackEmail string | FeedbackText string | FeedbackSend | FeedbackTimer

fun feedback_step :: "feedback_input \<Rightarrow> feedback \<Rightarrow> feedback" where
  "feedback_step (FeedbackOpen user) s =
     s\<lparr>fk_email := (if user \<in> {None, Some []} then [] else the user @ ''@matehub.io''), fk_text := [],
       fk_sent := False, fk_open := True\<rparr>"
| "feedback_step FeedbackClose s = s\<lparr>fk_open := False\<rparr>"
| "feedback_step (FeedbackEmail e) s = s\<lparr>fk_email := e\<rparr>"
| "feedback_step (FeedbackText x) s = s\<lparr>fk_text := x\<rparr>"
| "feedback_step FeedbackSend s =
     (if js_trim (fk_email s) = [] \<or> js_trim (fk_text s) = [] \<or> fk_sending s \<or> fk_sent s then s
      else s\<lparr>fk_sending := True\<rparr>)"
| "feedback_step FeedbackTimer s =
     (if fk_sending s then s\<lparr>fk_sending := False, fk_sent := True\<rparr> else s)"

text \<open>
  A form that is opened anew while the timer of an earlier one runs thanks for a text that was not given.
\<close>

lemma feedback_thanks_for_nothing:
  assumes "js_trim m \<noteq> []" "js_trim x \<noteq> []" "\<not> fk_sending s"
  shows "fk_sent (run feedback_step
      [FeedbackOpen u, FeedbackEmail m, FeedbackText x, FeedbackSend, FeedbackClose, FeedbackOpen u, FeedbackTimer] s)"
  using assms by simp

end
