(* ===== verification/CallTiles.thy ===== *)
theory CallTiles
  imports Workspace VolumeStore "HOL-Library.Word"
begin

text \<open>
  The parts of a tile and the controls of a call: \<open>frontend/components/hub/video-workspace/video-tile.tsx\<close>
  (background, initials, badges, the menu of a participant's volume, the enlarged screen),
  \<open>video-controls.tsx\<close> (the device menu) and the cues of \<open>frontend/lib/call-sounds.ts\<close>.

  The lemmas show that muting and unmuting somebody restores the volume that was chosen, that device
  swaps do not overlap, and that each cue has one element.
\<close>

section \<open>The background of a tile\<close>

text \<open>The loop works on 32-bit integers, as \<open>&\<close> does; the products stay far below 2^53.\<close>

definition hash_step :: "char \<Rightarrow> 32 word \<Rightarrow> 32 word" where
  "hash_step c h = (h * 31 + of_nat (of_char c)) AND 0xffffff"

definition tile_hash :: "string \<Rightarrow> 32 word" where
  "tile_hash name = fold hash_step name 0"

definition PALETTES :: nat where
  "PALETTES = 8"

definition tile_palette :: "string \<Rightarrow> nat" where
  "tile_palette name = unat (tile_hash name) mod PALETTES"

text \<open>The reference: the sum of the codes with alternating signs, from the last one, modulo eight.\<close>

fun alternating :: "int list \<Rightarrow> int" where
  "alternating [] = 0"
| "alternating (c # cs) = c - alternating cs"

lemma low_24: "uint ((w :: 32 word) AND 0xffffff) = uint w mod 2 ^ 24"
proof -
  have "w AND 0xffffff = take_bit 24 w" by (simp add: take_bit_eq_mask mask_eq_exp_minus_1)
  then show ?thesis by (simp only: unsigned_take_bit_eq) (simp add: take_bit_eq_mod)
qed

lemma times_31_mod_8: "(x * 31 + y) mod 8 = (y - x) mod (8::int)"
proof -
  have "x * 31 + y = (y - x) + 8 * (4 * x)" by simp
  then show ?thesis by (simp only: mod_mult_self2)
qed

lemma hash_step_mod8: "uint (hash_step c h) mod 8 = (of_char c - uint h) mod 8"
proof -
  have "uint (hash_step c h) mod 8 = uint (h * 31 + of_nat (of_char c)) mod 8"
    unfolding hash_step_def low_24 by (rule mod_mod_cancel) simp
  also have "uint (h * 31 + of_nat (of_char c)) = (uint h * 31 + int (of_char c)) mod 2 ^ 32"
    by (simp add: uint_word_ariths unsigned_of_nat take_bit_eq_mod zmod_int mod_simps)
  also have "\<dots> = (uint h * 31 + of_char c) mod 2 ^ 32" by (simp only: of_nat_of_char)
  also have "\<dots> mod 8 = (uint h * 31 + of_char c) mod 8" by (rule mod_mod_cancel) simp
  also have "\<dots> = (of_char c - uint h) mod 8" by (rule times_31_mod_8)
  finally show ?thesis .
qed

lemma hash_fold_mod8: "uint (fold hash_step cs h) mod 8 = alternating (rev (uint h # map of_char cs)) mod 8"
proof (induction cs rule: rev_induct)
  case (snoc c cs)
  have "uint (fold hash_step (cs @ [c]) h) mod 8 = uint (hash_step c (fold hash_step cs h)) mod 8"
    by (simp only: fold_append o_apply fold.simps id_apply)
  also have "\<dots> = (of_char c - alternating (rev (uint h # map of_char cs))) mod 8"
    unfolding hash_step_mod8 using snoc.IH by (metis mod_diff_right_eq)
  also have "of_char c - alternating (rev (uint h # map of_char cs)) = alternating (rev (uint h # map of_char (cs @ [c])))"
    by (simp only: map_append rev_append rev.simps list.map append_Nil append_Cons alternating.simps)
  finally show ?case .
qed simp

lemma alternating_snoc_0: "alternating (xs @ [0]) = alternating xs"
  by (induction xs) simp_all

text \<open>The loop on 32-bit integers picks the palette that the alternating sum of the codes names.\<close>

theorem tile_palette_is_alternating_sum:
  "int (tile_palette name) = alternating (rev (map of_char name)) mod 8"
proof -
  have "int (tile_palette name) = uint (tile_hash name) mod 8"
    by (simp add: tile_palette_def PALETTES_def zmod_int)
  also have "\<dots> = alternating (rev (map of_char name) @ [0]) mod 8"
    using hash_fold_mod8 [of name 0] by (simp add: tile_hash_def)
  finally show ?thesis by (simp only: alternating_snoc_0)
qed

section \<open>What a tile shows\<close>

text \<open>\<open>toUpperCase\<close> of a code unit; the two whose upper case is beyond 255 are kept, which the model leaves out.\<close>

definition upper_units :: "char \<Rightarrow> string" where
  "upper_units c =
     (let n = of_char c :: nat in
      if (97 \<le> n \<and> n \<le> 122) \<or> (224 \<le> n \<and> n \<le> 254 \<and> n \<noteq> 247) then [char_of (n - 32)]
      else if n = 223 then ''SS'' else [c])"

fun split_spaces :: "string \<Rightarrow> string list" where
  "split_spaces [] = [[]]"
| "split_spaces (c # cs) =
     (if c = CHR '' '' then [] # split_spaces cs
      else (case split_spaces cs of [] \<Rightarrow> [[c]] | p # ps \<Rightarrow> (c # p) # ps))"

text \<open>\<open>n[0]\<close> of an empty part is undefined, which \<open>join\<close> drops.\<close>

definition tile_initials :: "string \<Rightarrow> string" where
  "tile_initials name = take 2 (concat (map upper_units (concat (map (take 1) (split_spaces name)))))"

lemma tile_initials_short: "length (tile_initials name) \<le> 2"
  by (simp add: tile_initials_def)

text \<open>Two words give two initials, however many spaces are between them.\<close>

lemma split_spaces_word: "CHR '' '' \<notin> set w \<Longrightarrow> split_spaces (w @ CHR '' '' # cs) = w # split_spaces cs"
  by (induction w) auto

lemma split_spaces_plain: "CHR '' '' \<notin> set w \<Longrightarrow> split_spaces w = [w]"
  by (induction w) auto

lemma two_words_two_initials:
  assumes "CHR '' '' \<notin> set (a # as)" "CHR '' '' \<notin> set (b # bs)"
  shows "concat (map (take 1) (split_spaces ((a # as) @ CHR '' '' # replicate n (CHR '' '') @ b # bs))) = [a, b]"
proof -
  have "concat (map (take 1) (split_spaces (replicate n (CHR '' '') @ b # bs))) = [b]"
    using split_spaces_plain [OF assms(2)] by (induction n) simp_all
  then show ?thesis by (simp only: split_spaces_word [OF assms(1)]) simp
qed

datatype caption_end = PlainName | RingingName | OwnName

definition tile_caption :: "camera_tile \<Rightarrow> string \<times> caption_end" where
  "tile_caption x = (ct_name x, if ct_ringing x then RingingName else if ct_local x then OwnName else PlainName)"

datatype tile_badge = SpeakingBadge | MicOffBadge | DeafenedBadge | VolumeOffBadge

definition tile_badges :: "camera_tile \<Rightarrow> real \<Rightarrow> tile_badge list" where
  "tile_badges x volume =
     (if \<not> ct_ringing x \<and> ct_speaking x then [SpeakingBadge] else []) @
     (if \<not> ct_ringing x \<and> ct_mic_muted x \<and> \<not> ct_deafened x then [MicOffBadge] else []) @
     (if \<not> ct_ringing x \<and> ct_deafened x then [DeafenedBadge] else []) @
     (if \<not> ct_ringing x \<and> \<not> ct_local x \<and> volume = 0 then [VolumeOffBadge] else [])"

definition has_volume_menu :: "tile_size \<Rightarrow> view_tile \<Rightarrow> bool" where
  "has_volume_menu sz x =
     (case x of
        CameraTile c \<Rightarrow> \<not> ct_local c \<and> sz \<noteq> XS
      | ScreenTile t \<Rightarrow> st_audio t \<noteq> None \<and> \<not> st_local t)"

text \<open>A deafened participant's microphone is not shown too, and a call that still rings shows nothing.\<close>

lemma badges_exclusive:
  "\<not> (MicOffBadge \<in> set (tile_badges x v) \<and> DeafenedBadge \<in> set (tile_badges x v)) \<and>
   (if ct_ringing x then tile_badges x v = [] else True)"
  by (auto simp: tile_badges_def)

section \<open>The volume of a participant\<close>

text \<open>The menus over the store: each is known by a number and remembers the last volume above zero.\<close>

record volume_menus =
  vm_store :: vol_store
  vm_menus :: "nat \<rightharpoonup> string \<times> real"

text \<open>The effect of a menu, whenever its volume changed and at mount.\<close>

definition remember_volume :: "(string \<Rightarrow> real) \<Rightarrow> string \<times> real \<Rightarrow> string \<times> real" where
  "remember_volume get x = (case x of (user, kept) \<Rightarrow> (user, if get user > 0 then get user else kept))"

definition menu_mount :: "nat \<Rightarrow> string \<Rightarrow> volume_menus \<Rightarrow> volume_menus" where
  "menu_mount i user s =
     (let v = vol_get (vm_store s) user
      in s\<lparr>vm_menus := (vm_menus s)(i \<mapsto> (user, if v > 0 then v else 1))\<rparr>)"

definition put_volume :: "vol_op \<Rightarrow> volume_menus \<Rightarrow> volume_menus" where
  "put_volume op s =
     (let st = fst (vol_upd op (vm_store s))
      in s\<lparr>vm_store := st, vm_menus := (\<lambda>i. map_option (remember_volume (vol_get st)) (vm_menus s i))\<rparr>)"

definition slider_value :: "real \<Rightarrow> int" where
  "slider_value v = \<lfloor>v * 100 + 1 / 2\<rfloor>"

definition menu_slide :: "nat \<Rightarrow> int \<Rightarrow> volume_menus \<Rightarrow> volume_menus" where
  "menu_slide i next s =
     (case vm_menus s i of None \<Rightarrow> s | Some (user, _) \<Rightarrow> put_volume (VolSet user (of_int next / 100)) s)"

definition menu_mute :: "nat \<Rightarrow> volume_menus \<Rightarrow> volume_menus" where
  "menu_mute i s =
     (case vm_menus s i of
        None \<Rightarrow> s
      | Some (user, kept) \<Rightarrow>
          if vol_get (vm_store s) user = 0 then put_volume (VolSet user kept) s
          else put_volume (VolSet user 0) s)"

datatype menu_input = MenuMount nat string | MenuUnmount nat | MenuSlide nat int | MenuMute nat | StoreOp vol_op

fun menu_step :: "menu_input \<Rightarrow> volume_menus \<Rightarrow> volume_menus" where
  "menu_step (MenuMount i u) s = menu_mount i u s"
| "menu_step (MenuUnmount i) s = s\<lparr>vm_menus := (vm_menus s)(i := None)\<rparr>"
| "menu_step (MenuSlide i n) s = menu_slide i n s"
| "menu_step (MenuMute i) s = menu_mute i s"
| "menu_step (StoreOp op) s = put_volume op s"

definition no_menus :: volume_menus where
  "no_menus = \<lparr>vm_store = vol_empty, vm_menus = (\<lambda>_. None)\<rparr>"

text \<open>A volume the store can hold: it is set to itself.\<close>

definition settled :: "real \<Rightarrow> bool" where
  "settled v \<longleftrightarrow> effective v = v"

definition menus_ok :: "volume_menus \<Rightarrow> bool" where
  "menus_ok s \<longleftrightarrow>
     (\<forall>u. settled (vol_get (vm_store s) u)) \<and>
     (\<forall>i u l. vm_menus s i = Some (u, l) \<longrightarrow>
        0 < l \<and> settled l \<and> (vol_get (vm_store s) u > 0 \<longrightarrow> l = vol_get (vm_store s) u))"

lemma effective_idem [simp]: "effective (effective v) = effective v"
  by (simp add: effective_def Let_def)

lemma settled_effective: "settled (effective v)" and settled_1: "settled 1"
  by (simp_all add: settled_def) (simp add: effective_def)

lemma settled_spec: "(\<forall>u. settled (g u)) \<Longrightarrow> settled (vol_spec op g u)"
  by (cases op) (simp_all add: settled_effective settled_1)

lemma menus_ok_put:
  assumes "menus_ok s"
  shows "menus_ok (put_volume op s)"
proof -
  have g: "settled (vol_get (fst (vol_upd op (vm_store s))) u)" for u
    using assms settled_spec [of "vol_get (vm_store s)" op u] by (simp add: menus_ok_def vol_upd_spec)
  moreover have "0 < l \<and> settled l" if "vm_menus s i = Some (u, l)" for i u l
    using assms that by (simp add: menus_ok_def)
  ultimately show ?thesis
    by (auto simp: menus_ok_def put_volume_def Let_def remember_volume_def split: if_splits)
qed

lemma menus_ok_step: "menus_ok s \<Longrightarrow> menus_ok (menu_step e s)"
proof (cases e)
  case (MenuMount i u)
  assume "menus_ok s"
  moreover have "settled 1" by (simp add: settled_def effective_def)
  ultimately show ?thesis by (auto simp: MenuMount menu_mount_def Let_def menus_ok_def split: if_splits)
next
  case (MenuUnmount i)
  assume "menus_ok s"
  then show ?thesis by (auto simp: MenuUnmount menus_ok_def split: if_splits)
qed (auto simp: menu_slide_def menu_mute_def menus_ok_put split: option.split)

interpretation menus: invariant_machine menu_step "\<lambda>_ _. True" menus_ok
  by unfold_locales (rule menus_ok_step)

lemma no_menus_ok: "menus_ok no_menus"
  by (simp add: menus_ok_def no_menus_def settled_def effective_def vol_get_def vol_empty_def)

text \<open>
  C35. Whatever was set from whichever tile, muting a participant from the menu of a tile and unmuting there
  again gives everybody the volume they had.
\<close>

theorem mute_round_trip:
  fixes i :: nat and es :: "menu_input list"
  defines "s \<equiv> run menu_step es no_menus"
  defines "muted \<equiv> menu_step (MenuMute i) s"
  shows "case vm_menus s i of
      None \<Rightarrow> True
    | Some (u, _) \<Rightarrow>
        if vol_get (vm_store s) u = 0 then vol_get (vm_store muted) u > 0
        else vol_get (vm_store muted) u = 0 \<and>
             vol_get (vm_store (menu_step (MenuMute i) muted)) = vol_get (vm_store s)"
proof (cases "vm_menus s i")
  case (Some p)
  obtain u l where p: "p = (u, l)" by force
  have ok: "menus_ok s"
    unfolding s_def by (rule menus.inv_run [OF no_menus_ok]) simp
  with Some p have l: "0 < l" "settled l" and v: "settled (vol_get (vm_store s) u)"
    and e: "vol_get (vm_store s) u > 0 \<Longrightarrow> l = vol_get (vm_store s) u"
    by (simp_all add: menus_ok_def)
  have pos: "vol_get (vm_store s) u \<noteq> 0 \<Longrightarrow> 0 < vol_get (vm_store s) u"
    using v by (auto simp: settled_def effective_def Let_def max_def min_def split: if_splits)
  have zero: "effective 0 = 0" by (simp add: effective_def)
  show ?thesis
  proof (cases "vol_get (vm_store s) u = 0")
    case True
    with Some p l show ?thesis
      by (simp add: muted_def menu_mute_def put_volume_def Let_def vol_get_set settled_def)
  next
    case False
    with Some p pos e zero l show ?thesis
      by (simp add: muted_def menu_mute_def put_volume_def Let_def vol_get_set settled_def remember_volume_def fun_eq_iff)
  qed
qed simp

text \<open>The slider shows what it was dragged to.\<close>

lemma slider_shows_choice:
  assumes "0 \<le> n" "n \<le> 200"
  shows "slider_value (effective (of_int n / 100)) = n"
proof -
  have far: "(1 / 1000 :: real) \<le> \<bar>of_int n / 100 - 1\<bar>" if "n \<noteq> 100"
  proof -
    have "n \<le> 99 \<or> 101 \<le> n" using that by arith
    then have "real_of_int n \<le> 99 \<or> 101 \<le> real_of_int n" by linarith
    then show ?thesis by (auto simp: abs_if)
  qed
  have "0 \<le> real_of_int n" "real_of_int n \<le> 200" using assms by simp_all
  then have "max 0 (min 2 (real_of_int n / 100)) = of_int n / 100" by (simp add: max_def min_def)
  then have "effective (of_int n / 100) = (if n = 100 then 1 else of_int n / 100)"
    using far by (auto simp: effective_def)
  then show ?thesis by (auto simp: slider_value_def)
qed

text \<open>A menu that is mounted while its participant is muted forgets the earlier volume.\<close>

lemma remount_forgets_volume:
  assumes "vol_get (vm_store s) u = 0"
  shows "vol_get (vm_store (run menu_step [MenuUnmount i, MenuMount i u, MenuMute i] s)) u = 1"
  using assms by (simp add: menu_mount_def menu_mute_def put_volume_def Let_def vol_get_set) (simp add: effective_def)

section \<open>An enlarged screen\<close>

record screen_view =
  sv_track :: nat
  sv_src :: "nat option"
  sv_big_src :: "nat option"
  sv_big :: bool
  sv_tile_clicks :: nat \<comment> \<open>calls of the tile's own onClick\<close>

datatype screen_input =
    ScreenTrack nat
  | ScreenExpand
  | ScreenKey string
  | ScreenBackdrop
  | ScreenBigVideo
  | ScreenClose
  | ScreenTileClick

text \<open>The effects after a render: the element of the overlay exists while it is shown.\<close>

definition screen_effects :: "screen_view \<Rightarrow> screen_view" where
  "screen_effects s = s\<lparr>sv_src := Some (sv_track s), sv_big_src := (if sv_big s then Some (sv_track s) else None)\<rparr>"

definition new_screen_view :: "nat \<Rightarrow> screen_view" where
  "new_screen_view t =
     screen_effects \<lparr>sv_track = t, sv_src = None, sv_big_src = None, sv_big = False, sv_tile_clicks = 0\<rparr>"

text \<open>
  A click in the overlay bubbles through the portal to the tile, as React's events follow the tree of
  components, unless its handler stops it.
\<close>

fun screen_step :: "screen_input \<Rightarrow> screen_view \<Rightarrow> screen_view" where
  "screen_step (ScreenTrack t) s = screen_effects (s\<lparr>sv_track := t\<rparr>)"
| "screen_step ScreenExpand s = screen_effects (s\<lparr>sv_big := True\<rparr>)"
| "screen_step (ScreenKey k) s = (if sv_big s \<and> k = ''Escape'' then screen_effects (s\<lparr>sv_big := False\<rparr>) else s)"
| "screen_step ScreenBackdrop s =
     (if sv_big s then screen_effects (s\<lparr>sv_big := False, sv_tile_clicks := Suc (sv_tile_clicks s)\<rparr>) else s)"
| "screen_step ScreenBigVideo s = (if sv_big s then s\<lparr>sv_tile_clicks := Suc (sv_tile_clicks s)\<rparr> else s)"
| "screen_step ScreenClose s = (if sv_big s then screen_effects (s\<lparr>sv_big := False\<rparr>) else s)"
| "screen_step ScreenTileClick s = s\<lparr>sv_tile_clicks := Suc (sv_tile_clicks s)\<rparr>"

text \<open>Whatever happens both elements show the track of the tile, the large one while it is there.\<close>

lemma screen_shows_track:
  "sv_src (run screen_step es (new_screen_view t)) = Some (sv_track (run screen_step es (new_screen_view t))) \<and>
   sv_big_src (run screen_step es (new_screen_view t)) =
     (if sv_big (run screen_step es (new_screen_view t)) then Some (sv_track (run screen_step es (new_screen_view t))) else None)"
proof -
  define ok where "ok s \<longleftrightarrow> sv_src s = Some (sv_track s) \<and> sv_big_src s = (if sv_big s then Some (sv_track s) else None)" for s :: screen_view
  have "ok (screen_step e s)" if "ok s" for e s
    using that by (cases e) (auto simp: ok_def screen_effects_def)
  then have "ok s \<Longrightarrow> ok (run screen_step es s)" for s by (induction es arbitrary: s) simp_all
  moreover have "ok (new_screen_view t)" by (simp add: ok_def new_screen_view_def screen_effects_def)
  ultimately show ?thesis by (simp add: ok_def)
qed

text \<open>A click on the enlarged screen also clicks the tile behind it.\<close>

lemma overlay_click_reaches_tile:
  "sv_tile_clicks (run screen_step [ScreenExpand, ScreenBigVideo, ScreenKey ''Escape''] s) = Suc (sv_tile_clicks s)"
  by (simp add: screen_effects_def)

section \<open>The device menu\<close>

datatype device_kind = Microphone | Camera

record device_menu =
  dm_mic :: "string option"
  dm_cam :: "string option"
  dm_busy :: "(device_kind \<times> string) option"
  dm_swaps :: "(device_kind \<times> string) list" \<comment> \<open>swaps asked for\<close>
  dm_open_swaps :: "(device_kind \<times> string) list" \<comment> \<open>swaps not yet settled\<close>
  dm_refreshes :: nat

definition in_use :: "device_kind \<Rightarrow> device_menu \<Rightarrow> string option" where
  "in_use k s = (case k of Microphone \<Rightarrow> dm_mic s | Camera \<Rightarrow> dm_cam s)"

definition put_in_use :: "device_kind \<Rightarrow> string option \<Rightarrow> device_menu \<Rightarrow> device_menu" where
  "put_in_use k i s = (case k of Microphone \<Rightarrow> s\<lparr>dm_mic := i\<rparr> | Camera \<Rightarrow> s\<lparr>dm_cam := i\<rparr>)"

definition pick_device :: "device_kind \<Rightarrow> string \<Rightarrow> device_menu \<Rightarrow> device_menu" where
  "pick_device k i s =
     (if Some i = in_use k s \<or> dm_busy s \<noteq> None then s
      else s\<lparr>dm_busy := Some (k, i), dm_swaps := dm_swaps s @ [(k, i)], dm_open_swaps := dm_open_swaps s @ [(k, i)]\<rparr>)"

text \<open>A swap settles: the context names the device in use afterwards, or the swap failed.\<close>

definition swap_settled :: "string option \<Rightarrow> device_menu \<Rightarrow> device_menu" where
  "swap_settled r s =
     (case dm_open_swaps s of
        [] \<Rightarrow> s
      | (k, _) # xs \<Rightarrow> (if r = None then id else put_in_use k r) (s\<lparr>dm_busy := None, dm_open_swaps := xs\<rparr>))"

datatype device_input =
    PickDevice device_kind string
  | SwapSettled "string option"
  | MenuOpened bool
  | DeviceChanged device_kind "string option" \<comment> \<open>by other parts of the call\<close>

fun device_step :: "device_input \<Rightarrow> device_menu \<Rightarrow> device_menu" where
  "device_step (PickDevice k i) s = pick_device k i s"
| "device_step (SwapSettled r) s = swap_settled r s"
| "device_step (MenuOpened b) s = (if b then s\<lparr>dm_refreshes := Suc (dm_refreshes s)\<rparr> else s)"
| "device_step (DeviceChanged k i) s = put_in_use k i s"

definition one_swap :: "device_menu \<Rightarrow> bool" where
  "one_swap s \<longleftrightarrow> dm_open_swaps s = (case dm_busy s of None \<Rightarrow> [] | Some x \<Rightarrow> [x])"

lemma put_in_use_frame [simp]:
  "dm_busy (put_in_use k i s) = dm_busy s" "dm_open_swaps (put_in_use k i s) = dm_open_swaps s"
  "dm_swaps (put_in_use k i s) = dm_swaps s" "in_use k (put_in_use k i s) = i"
  by (simp_all add: put_in_use_def in_use_def split: device_kind.split)

lemma one_swap_step: "one_swap s \<Longrightarrow> one_swap (device_step e s)"
  by (cases e) (auto simp: one_swap_def pick_device_def swap_settled_def split: option.splits)

interpretation devices: invariant_machine device_step "\<lambda>_ _. True" one_swap
  by unfold_locales (rule one_swap_step)

text \<open>Two devices are never swapped at the same time, and every swap ends with the menu usable again.\<close>

lemma swaps_do_not_overlap:
  assumes "dm_open_swaps s = []" "dm_busy s = None"
  shows "length (dm_open_swaps (run device_step es s)) \<le> 1 \<and>
    dm_busy (device_step (SwapSettled r) (run device_step es s)) = None"
proof -
  have "one_swap s" using assms by (simp add: one_swap_def)
  then have "one_swap (run device_step es s)" by (rule devices.inv_run) simp
  then show ?thesis by (auto simp: one_swap_def swap_settled_def split: option.splits)
qed

text \<open>The rows of one kind: the label, or its place when it has none, whether it is chosen and disabled.\<close>

definition device_rows :: "device_kind \<Rightarrow> (string \<times> string) list \<Rightarrow> device_menu \<Rightarrow> ((string + nat) \<times> bool \<times> bool) list" where
  "device_rows k ds s =
     map (\<lambda>(n, i, l). (if l = [] then Inr (Suc n) else Inl l, Some i = in_use k s, dm_busy s = Some (k, i)))
       (enumerate 0 ds)"

section \<open>Buttons of the call\<close>

datatype control_title =
    NoDevice | TurnOff | TurnOn

definition media_button :: "bool \<Rightarrow> string list \<Rightarrow> control_title \<times> bool" where
  "media_button on devices = (if devices = [] then NoDevice else if on then TurnOff else TurnOn, devices = [])"

datatype button_look = Danger bool | Plain bool bool

text \<open>The colours: a button under the pointer or in focus, unless it is disabled.\<close>

definition look_of_button :: "bool \<Rightarrow> bool \<Rightarrow> bool \<Rightarrow> bool \<Rightarrow> button_look" where
  "look_of_button danger active disabled hover =
     (let show_hover = hover \<and> \<not> disabled
      in if danger then Danger show_hover else Plain show_hover (active \<or> show_hover))"

section \<open>Cues\<close>

datatype cue = JoinCue | LeaveCue | ShowDesktopCue | DisableDesktopCue | IncomingCue | EnableCue | DisableCue

definition CUE_VOLUME :: "cue \<Rightarrow> rat" where
  "CUE_VOLUME c =
     (case c of
        JoinCue \<Rightarrow> 15 / 100 | LeaveCue \<Rightarrow> 20 / 100 | ShowDesktopCue \<Rightarrow> 40 / 100 | DisableDesktopCue \<Rightarrow> 40 / 100
      | IncomingCue \<Rightarrow> 45 / 100 | EnableCue \<Rightarrow> 25 / 100 | DisableCue \<Rightarrow> 25 / 100)"

text \<open>An element: its volume, whether it loops and plays, and whether it was just rewound.\<close>

record cue_element =
  ce_volume :: rat
  ce_loop :: bool
  ce_playing :: bool
  ce_at_start :: bool

text \<open>The two caches. An element stays in its cache, so the closure that stops a loop is known by its cue.\<close>

record cues =
  cu_once :: "cue \<rightharpoonup> cue_element"
  cu_loop :: "cue \<rightharpoonup> cue_element"
  cu_made :: nat

definition make_cue :: "cue \<Rightarrow> bool \<Rightarrow> cue_element" where
  "make_cue c l = \<lparr>ce_volume = CUE_VOLUME c, ce_loop = l, ce_playing = False, ce_at_start = True\<rparr>"

definition load_cue :: "cue \<Rightarrow> cues \<Rightarrow> cues \<times> cue_element" where
  "load_cue c s =
     (case cu_once s c of
        Some x \<Rightarrow> (s, x)
      | None \<Rightarrow> (s\<lparr>cu_once := (cu_once s)(c \<mapsto> make_cue c False), cu_made := Suc (cu_made s)\<rparr>, make_cue c False))"

definition play_call_sound :: "cue \<Rightarrow> cues \<Rightarrow> cues" where
  "play_call_sound c s =
     (case load_cue c s of
        (s1, x) \<Rightarrow> s1\<lparr>cu_once := (cu_once s1)(c \<mapsto> x\<lparr>ce_playing := True, ce_at_start := True\<rparr>)\<rparr>)"

definition start_call_sound_loop :: "cue \<Rightarrow> cues \<Rightarrow> cues" where
  "start_call_sound_loop c s =
     (let hit = cu_loop s c;
          x = (case hit of None \<Rightarrow> make_cue c True | Some y \<Rightarrow> y)
      in s\<lparr>cu_loop := (cu_loop s)(c \<mapsto> x\<lparr>ce_playing := True, ce_at_start := True\<rparr>),
           cu_made := (if hit = None then Suc (cu_made s) else cu_made s)\<rparr>)"

definition stop_loop :: "cue \<Rightarrow> cues \<Rightarrow> cues" where
  "stop_loop c s =
     (case cu_loop s c of
        None \<Rightarrow> s
      | Some x \<Rightarrow> s\<lparr>cu_loop := (cu_loop s)(c \<mapsto> x\<lparr>ce_playing := False, ce_at_start := True\<rparr>)\<rparr>)"

datatype cue_input = PlayCue cue | LoopCue cue | StopCue cue

fun cue_step :: "cue_input \<Rightarrow> cues \<Rightarrow> cues" where
  "cue_step (PlayCue c) s = play_call_sound c s"
| "cue_step (LoopCue c) s = start_call_sound_loop c s"
| "cue_step (StopCue c) s = stop_loop c s"

definition no_cues :: cues where
  "no_cues = \<lparr>cu_once = (\<lambda>_. None), cu_loop = (\<lambda>_. None), cu_made = 0\<rparr>"

text \<open>There is one element per cue and use, of the volume of the cue, and it was made once.\<close>

definition cues_ok :: "cues \<Rightarrow> bool" where
  "cues_ok s \<longleftrightarrow>
     finite (dom (cu_once s)) \<and> finite (dom (cu_loop s)) \<and>
     cu_made s = card (dom (cu_once s)) + card (dom (cu_loop s)) \<and>
     (\<forall>c x. cu_once s c = Some x \<longrightarrow> ce_volume x = CUE_VOLUME c \<and> \<not> ce_loop x) \<and>
     (\<forall>c x. cu_loop s c = Some x \<longrightarrow> ce_volume x = CUE_VOLUME c \<and> ce_loop x)"

lemma cues_ok_step: "cues_ok s \<Longrightarrow> cues_ok (cue_step e s)"
  by (cases e)
    (auto simp: cues_ok_def play_call_sound_def load_cue_def start_call_sound_loop_def stop_loop_def make_cue_def
      insert_absorb domI Let_def domIff split: option.splits)

interpretation cue_player: invariant_machine cue_step "\<lambda>_ _. True" cues_ok
  by unfold_locales (rule cues_ok_step)

lemma cues_made_once: "cu_made (run cue_step es no_cues) \<le> 2 * card (UNIV :: cue set)"
proof -
  let ?s = "run cue_step es no_cues"
  have f: "finite (UNIV :: cue set)"
  proof -
    have "c \<in> {JoinCue, LeaveCue, ShowDesktopCue, DisableDesktopCue, IncomingCue, EnableCue, DisableCue}" for c
      by (cases c) simp_all
    then have "(UNIV :: cue set) = {JoinCue, LeaveCue, ShowDesktopCue, DisableDesktopCue, IncomingCue, EnableCue, DisableCue}"
      by blast
    then show ?thesis by (metis finite.emptyI finite_insert)
  qed
  have "cues_ok ?s" by (rule cue_player.inv_run) (simp_all add: cues_ok_def no_cues_def)
  then have "cu_made ?s = card (dom (cu_once ?s)) + card (dom (cu_loop ?s))" by (simp add: cues_ok_def)
  moreover have "card (dom (cu_once ?s)) \<le> card (UNIV :: cue set)" "card (dom (cu_loop ?s)) \<le> card (UNIV :: cue set)"
    using f by (auto intro: card_mono)
  ultimately show ?thesis by simp
qed

text \<open>Stopping a loop leaves the single cues playing; of two loops of one cue either stop ends both.\<close>

lemma stop_leaves_cues: "cu_once (cue_step (StopCue c) s) = cu_once s"
  by (simp add: stop_loop_def split: option.split)

lemma first_stop_ends_both:
  "map_option ce_playing (cu_loop (run cue_step [LoopCue c, LoopCue c, StopCue c] s) c) = Some False"
  by (simp add: start_call_sound_loop_def stop_loop_def Let_def)

end
