(* ===== verification/Ringing.thy ===== *)
theory Ringing
  imports IncomingCall CallTiles Auth
begin

text \<open>
  The dialogs that lie over the whole hub: \<open>frontend/components/hub/incoming-call-dialog.tsx\<close>, whose
  effects ring and give up after half a minute, on top of the direct calls and the cues, and
  \<open>frontend/components/session-expired-dialog.tsx\<close>, which takes an expired guest out of the call.

  The lemmas show that a ring is heard exactly while a call is shown and ends by itself.
\<close>

section \<open>The incoming call\<close>

definition RING_TIMEOUT_MS :: nat where
  "RING_TIMEOUT_MS = 30000"

record ring_dialog =
  rd_dms :: dms
  rd_cues :: cues
  rd_timer :: "nat option" \<comment> \<open>when it is due\<close>
  rd_clock :: nat

text \<open>The cleanup and the start of both effects, given whether there was a call before.\<close>

definition ring_effects :: "bool \<Rightarrow> ring_dialog \<Rightarrow> ring_dialog" where
  "ring_effects before s =
     (let quiet = (if before then stop_loop IncomingCue (rd_cues s) else rd_cues s)
      in if i_incoming (rd_dms s) = None then s\<lparr>rd_cues := quiet, rd_timer := None\<rparr>
         else s\<lparr>rd_cues := start_call_sound_loop IncomingCue quiet, rd_timer := Some (rd_clock s + RING_TIMEOUT_MS)\<rparr>)"

text \<open>An invite that is not our own sets a new object, which the effects see as a change.\<close>

definition new_invite :: "dm_input \<Rightarrow> dms \<Rightarrow> bool" where
  "new_invite e d = (case e of IInvite from _ \<Rightarrow> from \<noteq> i_me d | _ \<Rightarrow> False)"

definition ring_dm :: "dm_input \<Rightarrow> ring_dialog \<Rightarrow> ring_dialog" where
  "ring_dm e s =
     (let d = rd_dms s; d' = dm_step e d; s' = s\<lparr>rd_dms := d'\<rparr>
      in if new_invite e d \<or> i_incoming d' \<noteq> i_incoming d then ring_effects (i_incoming d \<noteq> None) s' else s')"

definition ring_timer :: "ring_dialog \<Rightarrow> ring_dialog" where
  "ring_timer s =
     (case rd_timer s of
        None \<Rightarrow> s
      | Some due \<Rightarrow> if rd_clock s < due then s else ring_dm (IDecline ''timeout'') (s\<lparr>rd_timer := None\<rparr>))"

text \<open>\<open>decline\<close> is a new function after the access token changed, so the timer starts again.\<close>

definition ring_token :: "ring_dialog \<Rightarrow> ring_dialog" where
  "ring_token s =
     (if i_incoming (rd_dms s) = None then s else s\<lparr>rd_timer := Some (rd_clock s + RING_TIMEOUT_MS)\<rparr>)"

datatype ring_input = RingDm dm_input | RingDismiss | RingWait nat | RingTimer | RingToken | RingCue cue

fun ring_step :: "ring_input \<Rightarrow> ring_dialog \<Rightarrow> ring_dialog" where
  "ring_step (RingDm e) s = ring_dm e s"
| "ring_step RingDismiss s = ring_dm (IDecline ''declined'') s"
| "ring_step (RingWait d) s = s\<lparr>rd_clock := rd_clock s + d\<rparr>"
| "ring_step RingTimer s = ring_timer s"
| "ring_step RingToken s = ring_token s"
| "ring_step (RingCue c) s = s\<lparr>rd_cues := play_call_sound c (rd_cues s)\<rparr>"

definition new_ring_dialog :: "dms \<Rightarrow> ring_dialog" where
  "new_ring_dialog d = \<lparr>rd_dms = d, rd_cues = no_cues, rd_timer = None, rd_clock = 0\<rparr>"

definition rings :: "ring_dialog \<Rightarrow> bool" where
  "rings s \<longleftrightarrow> (case cu_loop (rd_cues s) IncomingCue of None \<Rightarrow> False | Some x \<Rightarrow> ce_playing x)"

lemma rings_frame [simp]:
  "rings (s\<lparr>rd_dms := d\<rparr>) = rings s" "rings (s\<lparr>rd_timer := t\<rparr>) = rings s" "rings (s\<lparr>rd_clock := n\<rparr>) = rings s"
  by (simp_all add: rings_def)

definition ring_ok :: "ring_dialog \<Rightarrow> bool" where
  "ring_ok s \<longleftrightarrow>
     (if i_incoming (rd_dms s) = None then rd_timer s = None \<and> \<not> rings s
      else rings s \<and> (\<exists>due. rd_timer s = Some due \<and> due \<le> rd_clock s + RING_TIMEOUT_MS))"

lemma ring_effects_ok:
  assumes "b \<or> \<not> rings s"
  shows "ring_ok (ring_effects b s)"
  using assms
  by (auto simp: ring_ok_def ring_effects_def rings_def Let_def start_call_sound_loop_def stop_loop_def split: option.splits)

lemma ring_effects_frame [simp]:
  "rd_dms (ring_effects b s) = rd_dms s" "rd_clock (ring_effects b s) = rd_clock s"
  by (simp_all add: ring_effects_def Let_def)

text \<open>The effects run with the timer still set or, from the timer, just gone.\<close>

lemma ring_dm_ok:
  assumes "ring_ok s \<or> (ring_ok (s\<lparr>rd_timer := Some t\<rparr>) \<and> i_incoming (rd_dms s) \<noteq> None \<and> i_incoming (dm_step e (rd_dms s)) = None)"
  shows "ring_ok (ring_dm e s)"
proof -
  have "(i_incoming (rd_dms s) \<noteq> None) \<or> \<not> rings s"
    using assms by (auto simp: ring_ok_def split: if_splits)
  then have q: "ring_ok (ring_effects (i_incoming (rd_dms s) \<noteq> None) (s\<lparr>rd_dms := dm_step e (rd_dms s)\<rparr>))"
    by (intro ring_effects_ok) simp
  show ?thesis
  proof (cases "new_invite e (rd_dms s) \<or> i_incoming (dm_step e (rd_dms s)) \<noteq> i_incoming (rd_dms s)")
    case True
    with q show ?thesis by (simp add: ring_dm_def Let_def)
  next
    case False
    with assms have "ring_ok s" by auto
    with False show ?thesis by (simp add: ring_dm_def Let_def ring_ok_def)
  qed
qed

lemma declined_gone: "i_incoming (decline_call r d) = None"
  by (simp add: decline_call_def split: option.split)

lemma ring_step_ok: "ring_ok s \<Longrightarrow> ring_ok (ring_step e s)"
proof (cases e)
  case (RingDm x)
  assume "ring_ok s"
  then show ?thesis unfolding RingDm ring_step.simps by (intro ring_dm_ok) simp
next
  case RingDismiss
  assume "ring_ok s"
  then show ?thesis unfolding RingDismiss ring_step.simps by (intro ring_dm_ok) simp
next
  case (RingWait d)
  assume "ring_ok s"
  then show ?thesis by (auto simp: RingWait ring_ok_def split: if_splits)
next
  case RingTimer
  assume ok: "ring_ok s"
  show ?thesis
  proof (cases "rd_timer s")
    case (Some due)
    with ok have "i_incoming (rd_dms s) \<noteq> None" by (auto simp: ring_ok_def split: if_splits)
    moreover have "(s\<lparr>rd_timer := None\<rparr>)\<lparr>rd_timer := Some due\<rparr> = s" using Some by simp
    ultimately have "ring_ok (ring_dm (IDecline ''timeout'') (s\<lparr>rd_timer := None\<rparr>))"
      using ok by (intro ring_dm_ok [of _ due] disjI2) (simp add: declined_gone)
    with ok Some show ?thesis by (simp add: RingTimer ring_timer_def)
  qed (use ok in \<open>simp add: RingTimer ring_timer_def\<close>)
next
  case RingToken
  assume "ring_ok s"
  then show ?thesis by (auto simp: RingToken ring_token_def ring_ok_def split: if_splits)
next
  case (RingCue c)
  assume "ring_ok s"
  then show ?thesis
    by (auto simp: RingCue ring_ok_def rings_def play_call_sound_def load_cue_def split: option.split)
qed

interpretation ring_machine: invariant_machine ring_step "\<lambda>_ _. True" ring_ok
  by unfold_locales (rule ring_step_ok)

lemma ring_dm_declines:
  "i_incoming (rd_dms s) = Some (u, ch) \<Longrightarrow>
     i_incoming (rd_dms (ring_dm (IDecline r) s)) = None \<and>
     i_posts (rd_dms (ring_dm (IDecline r) s)) = i_posts (rd_dms s) @ [PDecline ch r]"
  by (simp add: ring_dm_def Let_def decline_call_def new_invite_def)


text \<open>A token that is refreshed while it rings gives the caller another half minute.\<close>

lemma token_prolongs_ring:
  assumes "i_incoming (rd_dms s) = Some x" "rd_timer s = Some (rd_clock s + 1)"
  shows "i_incoming (rd_dms (run ring_step [RingToken, RingWait 29999, RingTimer] s)) = Some x"
  using assms by (simp add: ring_token_def ring_timer_def RING_TIMEOUT_MS_def)

section \<open>An expired guest\<close>

text \<open>The effect runs when the flag or \<open>leaveVoice\<close> changed, as it does with the active channel.\<close>

definition expired_effect :: "bool \<Rightarrow> call \<Rightarrow> call" where
  "expired_effect expired c = (if expired then leave_voice c else c)"

definition with_expiry :: "bool \<Rightarrow> call_input \<Rightarrow> call \<Rightarrow> call" where
  "with_expiry expired e c =
     (let c' = call_step e c in if c_active c' = c_active c then c' else expired_effect expired c')"

text \<open>The dialog: the only button acknowledges; every other way of closing it is ignored.\<close>

definition expired_dialog :: "exp_of \<Rightarrow> bool \<Rightarrow> auth \<Rightarrow> auth" where
  "expired_dialog exp_of button a = (if button \<and> a_expired a then acknowledge_expired exp_of a else a)"

lemma left_inactive: "c_active (leave_voice c) \<in> {None, Some []}"
  by (simp add: leave_voice_def Let_def)

text \<open>From the moment the session has expired no call goes on, also none that was being joined.\<close>

lemma expired_guest_not_in_call:
  "c_active (run (with_expiry True) es (expired_effect True c)) \<in> {None, Some []}"
proof -
  have "c_active c \<in> {None, Some []} \<Longrightarrow> c_active (with_expiry True e c) \<in> {None, Some []}" for e c
    using left_inactive [of "call_step e c"] by (auto simp: with_expiry_def expired_effect_def Let_def)
  then have "c_active c \<in> {None, Some []} \<Longrightarrow> c_active (run (with_expiry True) es c) \<in> {None, Some []}" for c
    by (induction es arbitrary: c) simp_all
  then show ?thesis using left_inactive [of c] by (simp add: expired_effect_def)
qed

lemma only_the_button_closes:
  "a_expired a \<Longrightarrow> \<not> button \<Longrightarrow> a_expired (expired_dialog f button a)"
  by (simp add: expired_dialog_def)

end
