(* ===== verification/Shell.thy ===== *)
theory Shell
  imports Channels Members Media DebugPanel Uploads VideoEncoding
begin

text \<open>
  What is around the chat and the calls: the configuration (\<open>frontend/src/config.ts\<close>), the language
  (\<open>frontend/i18n/locales.ts\<close>, \<open>react.tsx\<close>, \<open>loader.ts\<close>), the key of the theme
  (\<open>frontend/components/theme-provider.tsx\<close>), the channel sidebar (\<open>frontend/app/hub/layout.tsx\<close> with
  the provider of \<open>frontend/components/ui/sidebar.tsx\<close>), the page of the hub
  (\<open>frontend/app/hub/page.tsx\<close>) with its guard (\<open>frontend/components/auth-guard.tsx\<close>), the head of a chat (\<open>frontend/components/hub/chat-workspace.tsx\<close>),
  the choice of a screen profile (\<open>screen-share-profile-dialog.tsx\<close>), the list of attachments of a
  message (\<open>media/message-attachments.tsx\<close>) and of pending uploads (\<open>media/upload-preview.tsx\<close>).
\<close>

section \<open>Configuration\<close>

datatype config_reply = ConfigFails | ConfigStatus int | ConfigNotJson | ConfigJson json

definition FALLBACK_CONFIG :: json where
  "FALLBACK_CONFIG =
     JObj [(''turn'', JObj [(''url'', JNull), (''username'', JNull), (''credential'', JNull)]), (''app_version'', JNull)]"

definition load_config :: "config_reply \<Rightarrow> json" where
  "load_config r = (case r of ConfigJson v \<Rightarrow> v | _ \<Rightarrow> FALLBACK_CONFIG)"

definition get_config :: "json \<Rightarrow> json" where
  "get_config w = (if nullish w then FALLBACK_CONFIG else w)"

definition or_undefined :: "json \<Rightarrow> json" where
  "or_undefined v = (if nullish v then JUndef else v)"

text \<open>Address, user name and credential of the TURN server, or none; reading may throw.\<close>

definition get_turn_config :: "json \<Rightarrow> js_error + (json \<times> json \<times> json) option" where
  "get_turn_config w =
     (case field (get_config w) ''turn'' of
        Inl e \<Rightarrow> Inl e
      | Inr t \<Rightarrow>
          (case (field t ''url'', field t ''username'', field t ''credential'') of
             (Inr u, Inr n, Inr c) \<Rightarrow>
               Inr (if truthy u then Some (u, or_undefined n, or_undefined c) else None)
           | _ \<Rightarrow> Inl TypeError))"

text \<open>A configuration that cannot be loaded means no TURN server; one that is loaded must have a \<open>turn\<close>.\<close>

lemma field_throws: "(\<exists>v. field t a = Inr v) = (\<not> nullish t)"
  by (cases t) (auto simp: nullish_def)

lemma turn_config_throws:
  "get_turn_config w = Inl TypeError \<longleftrightarrow> (\<exists>t. field (get_config w) ''turn'' = Inr t \<and> nullish t)"
proof -
  have "\<not> nullish (get_config w)" by (simp add: get_config_def FALLBACK_CONFIG_def nullish_def)
  then obtain t where t: "field (get_config w) ''turn'' = Inr t" using field_throws by blast
  show ?thesis
  proof (cases "nullish t")
    case True
    then have "field t ''url'' = Inl TypeError" by (auto simp: nullish_def)
    with True t show ?thesis by (simp add: get_turn_config_def)
  next
    case False
    then obtain u n c where "field t ''url'' = Inr u" "field t ''username'' = Inr n" "field t ''credential'' = Inr c"
      using field_throws by metis
    with False t show ?thesis by (simp add: get_turn_config_def)
  qed
qed

lemma no_config_no_turn:
  "(case r of ConfigJson v \<Rightarrow> nullish v | _ \<Rightarrow> True) \<Longrightarrow> get_turn_config (load_config r) = Inr None"
  by (cases r) (auto simp: load_config_def get_turn_config_def get_config_def FALLBACK_CONFIG_def nullish_def)

section \<open>Language\<close>

definition LOCALES :: "string list" where
  "LOCALES = [''en'', ''ru'', ''de'', ''fr'', ''es'', ''zh'', ''ja'']"

definition DEFAULT_LOCALE :: string where
  "DEFAULT_LOCALE = ''en''"

definition detect_initial_locale :: "string option \<Rightarrow> string \<Rightarrow> string" where
  "detect_initial_locale stored language =
     (case stored of
        Some c \<Rightarrow>
          if c \<noteq> [] \<and> c \<in> set LOCALES then c
          else (let b = takeWhile (\<lambda>x. x \<noteq> CHR ''-'') language in if b \<in> set LOCALES then b else DEFAULT_LOCALE)
      | None \<Rightarrow>
          (let b = takeWhile (\<lambda>x. x \<noteq> CHR ''-'') language in if b \<in> set LOCALES then b else DEFAULT_LOCALE))"

text \<open>The pack of translations in use, with those loaded before. \<open>None\<close> when the chunk cannot be loaded.\<close>

record locale_state =
  lo_cache :: "string \<rightharpoonup> nat"
  lo_pack :: "nat option"

definition load_locale :: "string \<Rightarrow> nat option \<Rightarrow> locale_state \<Rightarrow> locale_state" where
  "load_locale code chunk s =
     (case lo_cache s code of
        Some p \<Rightarrow> s\<lparr>lo_pack := Some p\<rparr>
      | None \<Rightarrow>
          (case chunk of
             None \<Rightarrow> s
           | Some p \<Rightarrow> s\<lparr>lo_cache := (lo_cache s)(code \<mapsto> p), lo_pack := Some p\<rparr>))"

text \<open>Whatever is stored the page has a language that it knows, and a choice survives the reload.\<close>

lemma locale_known: "detect_initial_locale st lang \<in> set LOCALES"
  by (auto simp: detect_initial_locale_def Let_def DEFAULT_LOCALE_def LOCALES_def split: option.split)

lemma chosen_locale_survives: "c \<in> set LOCALES \<Longrightarrow> detect_initial_locale (Some c) lang = c"
  by (auto simp: detect_initial_locale_def LOCALES_def)

section \<open>Who may enter\<close>

text \<open>The guard of the hub: whether it goes to the login page, and whether it shows the hub.\<close>

definition auth_guard :: "bool \<Rightarrow> 's option \<Rightarrow> bool \<times> bool" where
  "auth_guard loads session = (\<not> loads \<and> session = None, \<not> (loads \<or> session = None))"

lemma guard_exclusive: "\<not> (fst (auth_guard b x) \<and> snd (auth_guard b x))"
  by (auto simp: auth_guard_def)

text \<open>The hub as the sidebar names it: id, name, slug, plan, picture, description.\<close>

record hub_profile =
  hp_name :: string
  hp_slug :: string
  hp_plan :: string
  hp_avatar :: "string option"
  hp_description :: "string option"

definition sidebar_hub :: "string \<Rightarrow> string \<Rightarrow> hub_profile option \<Rightarrow> string \<times> hub_profile" where
  "sidebar_hub hub_id slug h =
     (hub_id,
      case h of
        None \<Rightarrow> \<lparr>hp_name = slug, hp_slug = slug, hp_plan = ''free'', hp_avatar = None, hp_description = None\<rparr>
      | Some x \<Rightarrow> x)"

section \<open>The key of the theme\<close>

record theme_event =
  ke_key :: string
  ke_ctrl :: bool \<comment> \<open>Control, Alt or the command key\<close>
  ke_repeat :: bool
  ke_prevented :: bool
  ke_typing :: bool \<comment> \<open>the target takes text\<close>

definition theme_key :: "theme_event \<Rightarrow> bool \<Rightarrow> bool" where
  "theme_key e dark =
     (if ke_prevented e \<or> ke_repeat e \<or> ke_typing e \<or> ke_ctrl e \<or> lower (ke_key e) \<noteq> ''d'' then dark else \<not> dark)"

lemma typing_keeps_theme: "ke_typing e \<Longrightarrow> theme_key e dark = dark"
  by (simp add: theme_key_def)

section \<open>The channel sidebar\<close>

text \<open>The open state is the layout's, with the width, as for the panel of members.\<close>

record left_bar =
  lb_panel :: "int \<times> bool"
  lb_mobile_open :: bool
  lb_cookie :: "bool option"

definition MOBILE_BREAKPOINT :: int where
  "MOBILE_BREAKPOINT = 768"

definition is_mobile :: "left_bar \<Rightarrow> bool" where
  "is_mobile s \<longleftrightarrow> fst (lb_panel s) < MOBILE_BREAKPOINT"

definition new_left_bar :: "int \<Rightarrow> left_bar" where
  "new_left_bar w = \<lparr>lb_panel = (w, panel_initially (Some w)), lb_mobile_open = False, lb_cookie = None\<rparr>"

definition sidebar_set :: "bool \<Rightarrow> left_bar \<Rightarrow> left_bar" where
  "sidebar_set b s = s\<lparr>lb_panel := panel_step (PanelSet b) (lb_panel s), lb_cookie := Some b\<rparr>"

definition toggle_sidebar :: "left_bar \<Rightarrow> left_bar" where
  "toggle_sidebar s =
     (if is_mobile s then s\<lparr>lb_mobile_open := \<not> lb_mobile_open s\<rparr> else sidebar_set (\<not> snd (lb_panel s)) s)"

datatype bar_input = BarToggle | BarKey string bool | BarSheet bool | BarWidth int

fun bar_step :: "bar_input \<Rightarrow> left_bar \<Rightarrow> left_bar" where
  "bar_step BarToggle s = toggle_sidebar s"
| "bar_step (BarKey k command) s = (if k = ''b'' \<and> command then toggle_sidebar s else s)"
| "bar_step (BarSheet b) s = s\<lparr>lb_mobile_open := b\<rparr>"
| "bar_step (BarWidth w) s = s\<lparr>lb_panel := panel_step (PanelWidth w) (lb_panel s)\<rparr>"

definition bar_shown :: "left_bar \<Rightarrow> bool" where
  "bar_shown s = (if is_mobile s then lb_mobile_open s else snd (lb_panel s))"

lemma toggle_toggles: "bar_shown (toggle_sidebar s) = (\<not> bar_shown s)"
  by (cases "lb_panel s") (simp add: bar_shown_def toggle_sidebar_def sidebar_set_def is_mobile_def)

text \<open>
  The cookie is written and never read: after a reload the sidebar follows the width of the window,
  whatever was chosen before.
\<close>

lemma choice_lost_on_reload:
  assumes "w \<ge> COLLAPSE_BREAKPOINT"
  shows "lb_cookie (bar_step BarToggle (new_left_bar w)) = Some False" "bar_shown (new_left_bar w)"
  using assms
  by (simp_all add: new_left_bar_def toggle_sidebar_def is_mobile_def sidebar_set_def panel_initially_def bar_shown_def
      COLLAPSE_BREAKPOINT_def MOBILE_BREAKPOINT_def)

text \<open>Both panels follow the width together.\<close>

lemma both_panels_follow:
  assumes "fst (lb_panel s) = fst p" "(w \<ge> COLLAPSE_BREAKPOINT) \<noteq> (fst p \<ge> COLLAPSE_BREAKPOINT)"
  shows "snd (lb_panel (bar_step (BarWidth w) s)) = snd (panel_step (PanelWidth w) p)"
  using assms panel_follows_width [of w p] panel_follows_width [of w "lb_panel s"] by simp

section \<open>The page of the hub\<close>

definition page_voice :: "string option \<Rightarrow> channel list \<Rightarrow> channel option" where
  "page_voice active cs =
     (case active of None \<Rightarrow> None | Some i \<Rightarrow> if i = [] then None else find (\<lambda>c. ch_id c = i) cs)"

definition page_text :: "string option \<Rightarrow> channel list \<Rightarrow> channel option" where
  "page_text sel cs =
     (case (case sel of None \<Rightarrow> None
            | Some i \<Rightarrow> if i = [] then None
                else find (\<lambda>c. ch_id c = i \<and> ch_type c \<in> {TextChannel, DmChannel}) cs) of
        Some c \<Rightarrow> Some c
      | None \<Rightarrow> find (\<lambda>c. ch_type c = TextChannel) cs)"

text \<open>The effect that pins the channel shown first.\<close>

definition pin_shown :: "bool \<Rightarrow> channel list \<Rightarrow> hub_selection \<Rightarrow> hub_selection" where
  "pin_shown ok cs s =
     (if hs_snapshot s \<notin> {None, Some []} then s
      else case page_text (hs_snapshot s) cs of
        None \<Rightarrow> s
      | Some c \<Rightarrow> fst (hs_upd (SelWrite (Some (ch_id c)) ok) s))"

text \<open>The call above, the chat below and whether the chat stands alone; \<open>None\<close> while the channels load.\<close>

definition hub_page :: "bool \<Rightarrow> string option \<Rightarrow> string option \<Rightarrow> channel list
    \<Rightarrow> (channel option \<times> (channel \<times> bool) option) option" where
  "hub_page loading active sel cs =
     (if loading then None
      else Some (page_voice active cs, map_option (\<lambda>c. (c, page_voice active cs = None)) (page_text sel cs)))"

text \<open>After the effect the channel that is shown is the one selected, and stays so.\<close>

lemma find_ch: "find P cs = Some c \<Longrightarrow> P c \<and> c \<in> set cs"
  by (metis find_Some_iff nth_mem)

lemma find_by_id:
  assumes "distinct (ids cs)" "c \<in> set cs" "P c"
  shows "find (\<lambda>x. ch_id x = ch_id c \<and> P x) cs = Some c"
  using assms
proof (induction cs)
  case (Cons x cs)
  then show ?case
    by (cases "x = c") (auto simp: ids_def image_iff)
qed simp

lemma pinned_is_shown:
  assumes "distinct (ids cs)" "\<And>c. c \<in> set cs \<Longrightarrow> ch_id c \<noteq> []"
    and "hs_snapshot s \<in> {None, Some []}" "page_text (hs_snapshot s) cs = Some c"
  shows "page_text (hs_snapshot (pin_shown ok cs s)) cs = Some c \<and> hs_snapshot (pin_shown ok cs s) = Some (ch_id c)"
proof -
  have f: "find (\<lambda>c. ch_type c = TextChannel) cs = Some c"
    using assms(3,4) by (auto simp: page_text_def)
  then have c: "ch_type c = TextChannel" "c \<in> set cs" using find_ch [OF f] by simp_all
  have "hs_snapshot (pin_shown ok cs s) = Some (ch_id c)"
    using assms(3,4) by (auto simp: pin_shown_def hs_snapshot_def)
  moreover have "find (\<lambda>x. ch_id x = ch_id c \<and> ch_type x \<in> {TextChannel, DmChannel}) cs = Some c"
    using assms(1) c by (intro find_by_id) simp_all
  ultimately show ?thesis using assms(2) [OF c(2)] by (simp add: page_text_def)
qed

text \<open>
  A selected channel that is gone stays selected: the page shows the first text channel, which the sidebar
  does not mark, until somebody clicks.
\<close>

lemma gone_channel_stays_selected:
  assumes "hs_snapshot s = Some i" "i \<noteq> []" "i \<notin> set (ids cs)" "page_text (Some i) cs = Some c"
  shows "pin_shown ok cs s = s" "ch_id c \<noteq> i"
  using assms find_ch [of _ cs c] by (auto simp: pin_shown_def page_text_def ids_def split: option.splits)

section \<open>The head of a chat\<close>

definition header_peer :: "string option \<Rightarrow> channel \<Rightarrow> string option" where
  "header_peer me c =
     (if ch_type c \<noteq> DmChannel then None
      else case find (\<lambda>i. Some i \<noteq> me) (ch_participants c) of
        Some p \<Rightarrow> if p = [] then None else Some p
      | None \<Rightarrow> None)"

definition header_name :: "string option \<Rightarrow> roster_member list \<Rightarrow> channel \<Rightarrow> string" where
  "header_name me ms c =
     (case header_peer me c of
        None \<Rightarrow> ''Unknown''
      | Some p \<Rightarrow> (case find (\<lambda>m. m_user m = p) ms of None \<Rightarrow> p | Some m \<Rightarrow> rm_name m))"

definition shows_call_button :: "string option \<Rightarrow> channel \<Rightarrow> bool" where
  "shows_call_button active c \<longleftrightarrow> active \<noteq> Some (ch_id c)"

text \<open>The icon: a property of the table, also an inherited one, or the default of the type.\<close>

datatype icon_glyph = TableIcon string | InheritedProperty string | DefaultIcon channel_kind

definition ICON_TABLE :: "string list" where
  "ICON_TABLE = [''hash'', ''mic'', ''radio'', ''chat'', ''book'', ''megaphone'', ''zap'', ''star'', ''heart'']"

definition OBJECT_PROPERTIES :: "string list" where
  "OBJECT_PROPERTIES =
     [''constructor'', ''toString'', ''valueOf'', ''hasOwnProperty'', ''isPrototypeOf'', ''propertyIsEnumerable'',
      ''toLocaleString'', ''__proto__'', ''__defineGetter__'', ''__defineSetter__'', ''__lookupGetter__'',
      ''__lookupSetter__'']"

definition glyph_of :: "channel \<Rightarrow> icon_glyph" where
  "glyph_of c =
     (case ch_icon c of
        None \<Rightarrow> DefaultIcon (ch_type c)
      | Some i \<Rightarrow>
          if i \<in> set ICON_TABLE then TableIcon i
          else if i \<in> set OBJECT_PROPERTIES then InheritedProperty i
          else DefaultIcon (ch_type c))"

text \<open>An icon named like a property of every object is not taken as the default.\<close>

lemma inherited_icon: "ch_icon c = Some ''constructor'' \<Longrightarrow> glyph_of c = InheritedProperty ''constructor''"
  by (simp add: glyph_of_def ICON_TABLE_def OBJECT_PROPERTIES_def)

section \<open>Choosing a screen profile\<close>

record share_dialog =
  sd_open :: bool
  sd_selected :: screen_profile
  sd_confirmed :: "screen_profile list"

datatype share_input = ShareOpen bool | ShareSelect screen_profile | ShareCancel | ShareConfirm

fun share_step :: "share_input \<Rightarrow> share_dialog \<Rightarrow> share_dialog" where
  "share_step (ShareOpen b) s = s\<lparr>sd_open := b\<rparr>"
| "share_step (ShareSelect p) s = s\<lparr>sd_selected := p\<rparr>"
| "share_step ShareCancel s = s\<lparr>sd_open := False\<rparr>"
| "share_step ShareConfirm s = s\<lparr>sd_confirmed := sd_confirmed s @ [sd_selected s], sd_open := False\<rparr>"

definition new_share_dialog :: share_dialog where
  "new_share_dialog = \<lparr>sd_open = False, sd_selected = Gaming, sd_confirmed = []\<rparr>"

text \<open>\<open>/Mac/i\<close> over the name of the browser.\<close>

definition mac_hint :: "string \<Rightarrow> bool" where
  "mac_hint ua = holds ''mac'' (lower ua)"

text \<open>What an option says of its profile: lines and, where it says so, frames or bits per second.\<close>

datatype profile_rate = MegaBits int | FramesPerSecond int

fun profile_label :: "screen_profile \<Rightarrow> int \<times> profile_rate" where
  "profile_label Gaming = (1080, MegaBits 6)"
| "profile_label Standard = (720, MegaBits 2)"
| "profile_label Detail = (1440, FramesPerSecond 5)"

text \<open>The options say what the encoder is given.\<close>

lemma labels_true:
  "fst (profile_label p) = VideoEncoding.pf_height (PROFILE_CONFIG p) \<and>
   (case snd (profile_label p) of
      MegaBits n \<Rightarrow> VideoEncoding.pf_bitrate (PROFILE_CONFIG p) = n * 1000000
    | FramesPerSecond n \<Rightarrow> VideoEncoding.pf_fps (PROFILE_CONFIG p) = n)"
  by (cases p) simp_all

text \<open>A phone whose browser says that it is like Mac OS X gets the hint for macOS.\<close>

lemma phone_gets_mac_hint: "mac_hint ''Mozilla/5.0 (iPhone; CPU iPhone OS 17_0 like Mac OS X)''"
  by code_simp

section \<open>Attachments of a message\<close>

record shown_attachment =
  sa_url :: string
  sa_name :: string
  sa_type :: string
  sa_status :: "string option"

datatype document_icon = PdfIcon | ZipIcon | FileIcon

datatype attachment_view =
    ThumbView nat \<comment> \<open>its place in the gallery\<close>
  | SpinnerView
  | FailedView string
  | VideoView string
  | AudioView string
  | DocumentView document_icon

definition document_icon :: "string \<Rightarrow> document_icon" where
  "document_icon ty = (if holds ''pdf'' ty then PdfIcon else if holds ''zip'' ty then ZipIcon else FileIcon)"

definition gallery_of :: "shown_attachment list \<Rightarrow> string list" where
  "gallery_of as = map sa_url (filter (\<lambda>a. attachment_kind (sa_type a) = Image) as)"

text \<open>\<open>indexOf\<close> compares objects, so the place of an image is the number of images before it.\<close>

fun attachment_views :: "nat \<Rightarrow> shown_attachment list \<Rightarrow> attachment_view list" where
  "attachment_views n [] = []"
| "attachment_views n (a # as) =
     (case attachment_kind (sa_type a) of
        Image \<Rightarrow> ThumbView n # attachment_views (Suc n) as
      | Video \<Rightarrow>
          (if sa_status a = Some ''transcoding'' then SpinnerView
           else if sa_status a = Some ''failed'' then FailedView (sa_name a)
           else VideoView (sa_url a)) # attachment_views n as
      | Audio \<Rightarrow> AudioView (sa_url a) # attachment_views n as
      | Document \<Rightarrow> DocumentView (document_icon (sa_type a)) # attachment_views n as)"

text \<open>Every thumbnail opens the gallery at its own picture.\<close>

lemma attachment_views_length [simp]: "length (attachment_views n as) = length as"
  by (induction as arbitrary: n) (auto split: attachment_kind.split)

lemma thumb_opens_own_picture:
  assumes "i < length as" "attachment_views n as ! i = ThumbView k"
  shows "n \<le> k \<and> k - n < length (gallery_of as) \<and> gallery_of as ! (k - n) = sa_url (as ! i)"
  using assms
proof (induction as arbitrary: n i)
  case (Cons a as)
  show ?case
  proof (cases "attachment_kind (sa_type a) = Image")
    case True
    show ?thesis
    proof (cases i)
      case (Suc j)
      with Cons.prems True have "j < length as" "attachment_views (Suc n) as ! j = ThumbView k" by simp_all
      from Cons.IH [OF this] have k: "Suc n \<le> k" "k - Suc n < length (gallery_of as)" "gallery_of as ! (k - Suc n) = sa_url (as ! j)"
        by simp_all
      then have "k - n = Suc (k - Suc n)" by arith
      with k True Suc show ?thesis by (simp add: gallery_of_def)
    qed (use Cons.prems True in \<open>simp add: gallery_of_def\<close>)
  next
    case False
    show ?thesis
    proof (cases i)
      case 0
      with Cons.prems False show ?thesis by (auto split: attachment_kind.splits if_splits)
    next
      case (Suc j)
      with Cons.prems False have "j < length as" "attachment_views n as ! j = ThumbView k"
        by (auto split: attachment_kind.splits)
      from Cons.IH [OF this] False Suc show ?thesis by (simp add: gallery_of_def)
    qed
  qed
qed simp

section \<open>Pending uploads\<close>

record upload_view =
  uv_image :: bool
  uv_video :: bool
  uv_loading :: bool
  uv_percent :: "int option"
  uv_error :: "string option"

definition upload_view_of :: "pending_upload \<Rightarrow> upload_view" where
  "upload_view_of u =
     (let loading = (up_attachment u = None \<and> up_error u = None)
      in \<lparr>uv_image = starts_with ''image/'' (file_type (up_file u)), uv_video = starts_with ''video/'' (file_type (up_file u)),
          uv_loading = loading, uv_percent = (if loading then up_progress u else None),
          uv_error = (if up_error u = Some [] then None else up_error u)\<rparr>)"

definition preview_box :: "upload_view \<Rightarrow> nat \<times> nat" where
  "preview_box v = (if uv_image v \<or> uv_video v then (100, 100) else (200, 60))"

lemma upload_not_loading_and_failed: "\<not> (uv_loading (upload_view_of u) \<and> uv_error (upload_view_of u) \<noteq> None)"
  by (cases "up_error u") (simp_all add: upload_view_of_def Let_def)

end
