(* ===== verification/ChannelView.thy ===== *)
theory ChannelView
  imports MessageView Composer Members ChatGateway CallTiles
begin

text \<open>
  The rest of \<open>frontend/components/hub/text-channel-view.tsx\<close>: the names of members, the state of a
  message with its buttons, who is typing, following the newest message, the height of the input, which
  parts are shown, and the question before an external link is opened.
\<close>

section \<open>Names\<close>

text \<open>A \<open>Map\<close> filled from the list: a later member with the same id wins. \<open>find\<close> takes the first.\<close>

definition member_map :: "roster_member list \<Rightarrow> string \<rightharpoonup> roster_member" where
  "member_map ms = fold (\<lambda>m f. f(m_user m \<mapsto> m)) ms (\<lambda>_. None)"

definition first_member :: "roster_member list \<Rightarrow> string \<Rightarrow> roster_member option" where
  "first_member ms u = find (\<lambda>m. m_user m = u) ms"

definition shown_name :: "roster_member option \<Rightarrow> string \<Rightarrow> string" where
  "shown_name m user =
     (case m of
        None \<Rightarrow> user
      | Some x \<Rightarrow> if rm_name x \<noteq> [] then rm_name x else if rm_username x \<noteq> [] then rm_username x else user)"

definition message_initials :: "string \<Rightarrow> string" where
  "message_initials name = concat (map upper_units (take 2 name))"

definition role_color :: "roster_member option \<Rightarrow> string option" where
  "role_color m =
     (case m of None \<Rightarrow> None | Some x \<Rightarrow> (case rm_groups x of [] \<Rightarrow> None | g # _ \<Rightarrow> mg_color g))"

text \<open>With every id once both ways of looking a member up agree.\<close>

lemma member_map_fold:
  "fold (\<lambda>m f. f(m_user m \<mapsto> m)) ms g u = (case find (\<lambda>m. m_user m = u) (rev ms) of None \<Rightarrow> g u | Some m \<Rightarrow> Some m)"
proof (induction ms rule: rev_induct)
  case (snoc m ms)
  then show ?case by simp
qed simp

lemma find_snoc: "find P (xs @ [y]) = (case find P xs of Some z \<Rightarrow> Some z | None \<Rightarrow> if P y then Some y else None)"
  by (induction xs) auto

lemma find_rev_distinct: "distinct (map f ms) \<Longrightarrow> find (\<lambda>m. f m = u) (rev ms) = find (\<lambda>m. f m = u) ms"
proof (induction ms)
  case (Cons m ms)
  have "f m = u \<Longrightarrow> find (\<lambda>m. f m = u) ms = None" using Cons.prems by (auto simp: find_None_iff image_iff)
  with Cons show ?case by (auto simp: find_snoc split: option.split)
qed simp

lemma lookups_agree: "distinct (map m_user ms) \<Longrightarrow> member_map ms u = first_member ms u"
  using find_rev_distinct [of m_user ms u]
  by (simp add: member_map_def first_member_def member_map_fold split: option.split)

section \<open>The state of a message\<close>

datatype status_badge = NoBadge | SendingBadge | FailedBadge bool

definition status_badge :: "chat_msg \<Rightarrow> status_badge" where
  "status_badge m =
     (case msg_status m of
        Some Sending \<Rightarrow> SendingBadge
      | Some SendFailed \<Rightarrow> FailedBadge (msg_client m \<notin> {None, Some []})
      | None \<Rightarrow> NoBadge)"

text \<open>The buttons of a failed message name its client id.\<close>

definition retry_target :: "chat_msg \<Rightarrow> string option" where
  "retry_target m = (if status_badge m = FailedBadge True then msg_client m else None)"

section \<open>Who is typing\<close>

datatype typing_text = NobodyTypes | OneTypes string | TwoType string string | ManyType nat

definition typing_text :: "string list \<Rightarrow> roster_member list \<Rightarrow> typing_text" where
  "typing_text users ms =
     (let names = map (\<lambda>u. shown_name (first_member ms u) u) users
      in if users = [] then NobodyTypes
         else if length names = 1 then OneTypes (names ! 0)
         else if length names = 2 then TwoType (names ! 0) (names ! 1)
         else ManyType (length names))"

section \<open>Following the newest message\<close>

record follower =
  fo_at_bottom :: bool
  fo_scrolls :: nat

definition handle_scroll :: "int \<Rightarrow> int \<Rightarrow> int \<Rightarrow> follower \<Rightarrow> follower" where
  "handle_scroll scroll_height scroll_top client_height s =
     s\<lparr>fo_at_bottom := scroll_height - scroll_top - client_height < 60\<rparr>"

definition on_messages :: "follower \<Rightarrow> follower" where
  "on_messages s = (if fo_at_bottom s then s\<lparr>fo_scrolls := Suc (fo_scrolls s)\<rparr> else s)"

lemma reader_is_left_alone:
  "60 \<le> h - y - c \<Longrightarrow> on_messages (handle_scroll h y c s) = handle_scroll h y c s"
  by (simp add: on_messages_def handle_scroll_def)

section \<open>The height of the input\<close>

definition MAX_INPUT :: int where
  "MAX_INPUT = 400"

text \<open>The container's own height, if one was set, and its natural height.\<close>

definition auto_grow :: "int \<Rightarrow> int option \<Rightarrow> int option" where
  "auto_grow natural h =
     (case h of None \<Rightarrow> None | Some m \<Rightarrow> if natural > m then Some (min natural MAX_INPUT) else Some m)"

record resize_drag =
  rz_start :: "(int \<times> int) option" \<comment> \<open>height and pointer at the start\<close>
  rz_height :: "int option"

datatype resize_input = ResizeDown int int | ResizeMove int | ResizeUp | ResizeText int

fun resize_step :: "resize_input \<Rightarrow> resize_drag \<Rightarrow> resize_drag" where
  "resize_step (ResizeDown now y) s = s\<lparr>rz_start := Some (now, y), rz_height := Some now\<rparr>"
| "resize_step (ResizeMove y) s =
     (case rz_start s of
        None \<Rightarrow> s
      | Some (h, y0) \<Rightarrow> s\<lparr>rz_height := Some (max h (min (h + (y0 - y)) MAX_INPUT))\<rparr>)"
| "resize_step ResizeUp s = s\<lparr>rz_start := None\<rparr>"
| "resize_step (ResizeText natural) s = s\<lparr>rz_height := auto_grow natural (rz_height s)\<rparr>"

text \<open>The handle only makes the input larger: no drag goes below the height at which it began.\<close>

lemma drag_moves_keep:
  "rz_start s = Some (h, y) \<Longrightarrow> rz_height s = Some k \<Longrightarrow> h \<le> k \<Longrightarrow>
     \<exists>k'. rz_height (run resize_step (map ResizeMove ys) s) = Some k' \<and> h \<le> k' \<and> k' \<le> max h (max k MAX_INPUT)"
proof (induction ys arbitrary: s k)
  case (Cons z ys)
  let ?k = "max h (min (h + (y - z)) MAX_INPUT)"
  have "\<exists>k'. rz_height (run resize_step (map ResizeMove ys) (s\<lparr>rz_height := Some ?k\<rparr>)) = Some k' \<and> h \<le> k' \<and>
      k' \<le> max h (max ?k MAX_INPUT)"
    using Cons.prems by (intro Cons.IH) simp_all
  then show ?case using Cons.prems by auto
qed auto

lemma drag_never_shrinks:
  "\<exists>k. rz_height (run resize_step (ResizeDown h y # map ResizeMove ys @ [ResizeUp]) s) = Some k \<and> h \<le> k \<and> k \<le> max h MAX_INPUT"
  using drag_moves_keep [of "s\<lparr>rz_start := Some (h, y), rz_height := Some h\<rparr>" h y h ys] by auto

section \<open>What is shown\<close>

datatype connection_banner = NoBanner | ConnectingBanner | ReconnectingBanner | DisconnectedBanner

definition connection_banner :: "conn_state \<Rightarrow> connection_banner" where
  "connection_banner c =
     (case c of
        Connected \<Rightarrow> NoBanner
      | Connecting \<Rightarrow> ConnectingBanner | Identifying \<Rightarrow> ConnectingBanner | Resuming \<Rightarrow> ConnectingBanner
      | Reconnecting \<Rightarrow> ReconnectingBanner
      | Disconnected \<Rightarrow> DisconnectedBanner)"

text \<open>Welcome, placeholder and list, given whether there are messages and the members load.\<close>

definition channel_parts :: "bool \<Rightarrow> bool \<Rightarrow> conn_state \<Rightarrow> bool \<times> bool \<times> bool" where
  "channel_parts none waits c =
     (none \<and> c = Connected, waits \<or> (none \<and> c \<noteq> Connected), \<not> waits)"

definition send_enabled :: "conn_state \<Rightarrow> composer \<Rightarrow> bool" where
  "send_enabled c s \<longleftrightarrow>
     \<not> ((js_trim (cp_input s) = [] \<and> ready_attachments (cp_uploads s) = []) \<or> cp_sending s \<noteq> None \<or> c \<noteq> Connected
        \<or> has_in_flight (cp_uploads s))"

text \<open>The button is enabled exactly when, on a link that is up, a click sends.\<close>

lemma enabled_button_sends:
  "send_enabled Connected s = (length (cp_sent (handle_send s)) = Suc (length (cp_sent s)))"
  by (auto simp: send_enabled_def handle_send_def Let_def)

text \<open>While the members of an empty channel load, the welcome and the placeholder are shown together.\<close>

lemma welcome_with_placeholder: "channel_parts True True Connected = (True, True, False)"
  by (simp add: channel_parts_def)

section \<open>External links\<close>

record link_dialog =
  ld_link :: "string option"
  ld_opened :: "string list"

text \<open>A click in the messages: on an external link, with its address, or elsewhere.\<close>

datatype link_input = AreaClick "string option" | LinkCancel | LinkDismiss | LinkOpen

fun link_step :: "link_input \<Rightarrow> link_dialog \<Rightarrow> link_dialog" where
  "link_step (AreaClick a) s = (case a of None \<Rightarrow> s | Some u \<Rightarrow> s\<lparr>ld_link := Some u\<rparr>)"
| "link_step LinkCancel s = s\<lparr>ld_link := None\<rparr>"
| "link_step LinkDismiss s = s\<lparr>ld_link := None\<rparr>"
| "link_step LinkOpen s =
     (case ld_link s of
        None \<Rightarrow> s
      | Some u \<Rightarrow> s\<lparr>ld_link := None, ld_opened := (if u = [] then ld_opened s else ld_opened s @ [u])\<rparr>)"

definition no_link :: link_dialog where
  "no_link = \<lparr>ld_link = None, ld_opened = []\<rparr>"

definition clicked :: "link_input list \<Rightarrow> string list" where
  "clicked is = List.map_filter (\<lambda>i. case i of AreaClick a \<Rightarrow> a | _ \<Rightarrow> None) is"

definition confirmations :: "link_input list \<Rightarrow> nat" where
  "confirmations is = length (filter (\<lambda>i. i = LinkOpen) is)"

text \<open>Only links that were clicked are opened, each after a confirmation of its own.\<close>

lemma opened_were_confirmed:
  "set (ld_opened (run link_step is no_link)) \<subseteq> set (clicked is) \<and>
   length (ld_opened (run link_step is no_link)) \<le> confirmations is"
proof -
  have "set (ld_opened (run link_step is s)) \<subseteq> set (ld_opened s) \<union> set_option (ld_link s) \<union> set (clicked is) \<and>
      length (ld_opened (run link_step is s)) \<le> length (ld_opened s) + confirmations is" for s
  proof (induction "is" arbitrary: s)
    case (Cons i "is")
    from Cons.IH [of "link_step i s"] show ?case
      by (cases i) (auto simp: clicked_def confirmations_def List.map_filter_simps split: option.splits if_splits)
  qed (simp add: clicked_def confirmations_def)
  from this [of no_link] show ?thesis by (simp add: no_link_def)
qed

end
