(* ===== verification/CallView.thy ===== *)
theory CallView
  imports Workspace Permissions VideoDebug
begin

text \<open>
  The header of a call and what is chosen there, \<open>frontend/components/hub/video-workspace/video-workspace.tsx\<close>:
  pages, layout, the number of people and the gate of the panel for diagnostics.
\<close>

section \<open>Pages and layout\<close>

record call_view =
  cv_page :: nat
  cv_layout :: layout_mode
  cv_pinned :: "string option"

definition new_call_view :: call_view where
  "new_call_view = \<lparr>cv_page = 0, cv_layout = Grid, cv_pinned = None\<rparr>"

definition prev_page :: "view_tile list \<Rightarrow> call_view \<Rightarrow> call_view" where
  "prev_page ts s =
     (let c = clamped_page (cv_page s) (sorted_tiles ts)
      in if c = 0 then s else s\<lparr>cv_page := c - 1\<rparr>)"

definition next_page :: "view_tile list \<Rightarrow> call_view \<Rightarrow> call_view" where
  "next_page ts s =
     (let c = clamped_page (cv_page s) (sorted_tiles ts); n = pages (sorted_tiles ts)
      in if c + 1 \<ge> n then s else s\<lparr>cv_page := min (n - 1) (c + 1)\<rparr>)"

definition choose_layout :: "layout_mode \<Rightarrow> view_tile list \<Rightarrow> call_view \<Rightarrow> call_view" where
  "choose_layout l ts s =
     (case l of
        Grid \<Rightarrow> s\<lparr>cv_layout := Grid, cv_pinned := None\<rparr>
      | Spotlight \<Rightarrow>
          s\<lparr>cv_layout := Spotlight,
            cv_pinned := (if cv_pinned s \<in> {None, Some []} then (case ts of [] \<Rightarrow> cv_pinned s | t # _ \<Rightarrow> Some (vt_id t))
                          else cv_pinned s)\<rparr>)"

definition pin_tile :: "string \<Rightarrow> call_view \<Rightarrow> call_view" where
  "pin_tile i s = (case on_pin i (cv_layout s, cv_pinned s) of (l, p) \<Rightarrow> s\<lparr>cv_layout := l, cv_pinned := p\<rparr>)"

datatype view_event = PrevPage | NextPage | ChooseLayout layout_mode | PinTile string

text \<open>An event with the tiles of its render.\<close>

fun view_step :: "view_event \<times> view_tile list \<Rightarrow> call_view \<Rightarrow> call_view" where
  "view_step (PrevPage, ts) s = prev_page ts s"
| "view_step (NextPage, ts) s = next_page ts s"
| "view_step (ChooseLayout l, ts) s = choose_layout l ts s"
| "view_step (PinTile i, ts) s = pin_tile i s"

text \<open>What the area shows: a page of the grid, or the spotlight with its strip.\<close>

definition shown_tiles :: "view_tile list \<Rightarrow> call_view \<Rightarrow> view_tile list" where
  "shown_tiles ts s =
     (case cv_layout s of
        Grid \<Rightarrow> page_tiles (cv_page s) ts
      | Spotlight \<Rightarrow> (case spotlight (cv_pinned s) ts of None \<Rightarrow> [] | Some (big, rest) \<Rightarrow> big # rest))"

definition view_ok :: "call_view \<Rightarrow> bool" where
  "view_ok s \<longleftrightarrow> (cv_layout s = Grid \<longrightarrow> cv_pinned s = None)"

lemma view_ok_step: "view_ok s \<Longrightarrow> view_ok (view_step e s)"
proof (induction e s rule: view_step.induct)
  case (3 l ts s)
  then show ?case by (cases l) (simp_all add: view_ok_def choose_layout_def)
qed (auto simp: view_ok_def prev_page_def next_page_def pin_tile_def on_pin_def Let_def)

interpretation call_view: invariant_machine view_step "\<lambda>_ _. True" view_ok
  by unfold_locales (rule view_ok_step)

text \<open>The grid never keeps a pinned tile, and pinning twice returns to it.\<close>

lemma view_pin_twice: "cv_layout s = Grid \<Longrightarrow> cv_layout (pin_tile i (pin_tile i s)) = Grid \<and> cv_pinned (pin_tile i (pin_tile i s)) = None"
  by (simp add: pin_tile_def on_pin_def)

text \<open>Somebody is always shown, whichever page or tile was chosen before tiles came and went.\<close>

lemma pages_pos: "0 < pages ts"
  by (simp add: pages_def)

lemma drop_page_nonempty:
  assumes "ts \<noteq> []"
  shows "clamped_page n ts * PAGE_SIZE < length ts"
proof -
  have "0 < length ts" using assms by simp
  moreover have "clamped_page n ts \<le> pages ts - 1" by (simp add: clamped_page_def)
  moreover have "(pages ts - 1) * PAGE_SIZE < length ts"
  proof (cases "(length ts + (PAGE_SIZE - 1)) div PAGE_SIZE")
    case 0
    with assms show ?thesis by (simp add: pages_def)
  next
    case (Suc k)
    have "Suc k * PAGE_SIZE \<le> length ts + (PAGE_SIZE - 1)" using Suc by (metis div_times_less_eq_dividend)
    with Suc show ?thesis by (simp add: pages_def PAGE_SIZE_def)
  qed
  ultimately show ?thesis by (meson le_less_trans mult_le_mono1)
qed

lemma sorted_tiles_empty [simp]: "sorted_tiles ts = [] \<longleftrightarrow> ts = []"
proof -
  have "set (sorted_tiles ts) = set ts" by (auto simp: sorted_tiles_def)
  then show ?thesis by (metis set_empty)
qed

theorem somebody_is_shown: "ts \<noteq> [] \<Longrightarrow> shown_tiles ts s \<noteq> []"
  using drop_page_nonempty [of "sorted_tiles ts" "cv_page s"]
  by (auto simp: shown_tiles_def page_tiles_def Let_def PAGE_SIZE_def spotlight_def split: layout_mode.split list.split)

section \<open>Who is in the call\<close>

definition total_in_call :: "view_tile list \<Rightarrow> nat" where
  "total_in_call ts = length (filter (\<lambda>t. case t of CameraTile _ \<Rightarrow> True | ScreenTile _ \<Rightarrow> False) ts)"

text \<open>A peer who is still being called is counted as being in the call.\<close>

lemma ringing_peer_counted:
  assumes "ringing_peer v = Some u"
  shows "total_in_call (build_tiles v) = Suc (Suc (length (vi_participants v)))"
proof -
  have "total_in_call (map (participant_tile v) ps) = length ps" for ps
    by (induction ps) (simp_all add: total_in_call_def participant_tile_def)
  moreover have "total_in_call (screen_tiles v) = 0"
    by (auto simp: total_in_call_def screen_tiles_def List.map_filter_def filter_empty_conv split: option.splits)
  ultimately show ?thesis
    using assms by (simp add: build_tiles_def total_in_call_def local_tile_def ringing_tiles_def Let_def split: option.split)
qed

datatype call_status = StatusConnected | StatusConnecting | StatusNotInCall

definition call_status :: "bool \<Rightarrow> bool \<Rightarrow> call_status" where
  "call_status showing_active up =
     (if showing_active \<and> up then StatusConnected else if showing_active then StatusConnecting else StatusNotInCall)"

section \<open>The gate of the diagnostics\<close>

definition panel_gate :: "bool \<Rightarrow> string option \<Rightarrow> user_permissions option \<Rightarrow> bool" where
  "panel_gate dev flag p \<longleftrightarrow>
     dev \<or> (is_video_trace_enabled flag \<and> (case p of None \<Rightarrow> False | Some x \<Rightarrow> is_admin x))"

text \<open>In production nobody but an admin gets the panel, also not the creator of the hub.\<close>

lemma creator_without_panel: "\<not> is_admin x \<Longrightarrow> \<not> panel_gate False flag (Some x)"
  by (simp add: panel_gate_def)

end
