(* ===== verification/MessageList.thy ===== *)
theory MessageList
  imports ChannelView Markdown
begin

text \<open>
  What \<open>frontend/components/hub/text-channel-view.tsx\<close> puts on the screen: the lines of the message
  list (\<open>DateSeparator\<close>, \<open>UnreadDivider\<close>, \<open>SystemMessageRow\<close>, \<open>ChatMessage\<close>), the header, the tool
  bar and the input with its controls, as values. Style sheets are left out, except where a class
  carries a state.

  The main theorem reads the lines from top to bottom, as a user does, and shows that every message
  stands under the name of its author.
\<close>

section \<open>One message\<close>

record message_head =
  hd_name :: string
  hd_initials :: string
  hd_avatar :: "string option"
  hd_color :: "string option"
  hd_card :: bool \<comment> \<open>name and picture open the member's card\<close>
  hd_edited :: bool

datatype status_class = PlainClass | FadedClass | FailedClass

record bubble =
  bu_head :: "message_head option" \<comment> \<open>\<open>None\<close> for the compact variant\<close>
  bu_class :: status_class
  bu_time :: string
  bu_html :: "string option"
  bu_attachments :: "json list"
  bu_badge :: status_badge
  bu_target :: "string option" \<comment> \<open>the client id that retry and cancel name\<close>

datatype line =
    DayLine string
  | NewLine
  | SystemLine "string list option"
  | BubbleLine bubble

text \<open>
  What the list reads besides the messages. \<open>le_clock\<close> is \<open>toLocaleTimeString\<close>, \<open>le_sanitize\<close> the
  sanitizer of \<open>renderMarkdown\<close>, \<open>le_avatar\<close> the \<open>avatar_url\<close> of a member.
\<close>

record list_env =
  le_sod :: "int \<Rightarrow> int"
  le_cal :: "int \<Rightarrow> nat \<times> nat \<times> nat"
  le_clock :: "int \<Rightarrow> string"
  le_now :: int
  le_sanitize :: "string \<Rightarrow> string"
  le_members :: "roster_member list"
  le_avatar :: "roster_member \<Rightarrow> string option"
  le_divider :: "string option"

definition truthy :: "string option \<Rightarrow> bool" where
  "truthy x \<longleftrightarrow> x \<notin> {None, Some []}"

definition format_time :: "list_env \<Rightarrow> string \<Rightarrow> string" where
  "format_time env i = le_clock env (id_date i)"

definition status_class :: "chat_msg \<Rightarrow> status_class" where
  "status_class m =
     (case msg_status m of Some Sending \<Rightarrow> FadedClass | Some SendFailed \<Rightarrow> FailedClass | None \<Rightarrow> PlainClass)"

definition author_name :: "list_env \<Rightarrow> string \<Rightarrow> string" where
  "author_name env u = shown_name (member_map (le_members env) u) u"

text \<open>\<open>avatarEl\<close>, \<open>nameEl\<close> and \<open>wrapWithCard\<close>; the edited mark.\<close>

definition message_head :: "list_env \<Rightarrow> chat_msg \<Rightarrow> message_head" where
  "message_head env m =
     (let member = member_map (le_members env) (msg_author m);
          name = shown_name member (msg_author m);
          avatar = (case member of None \<Rightarrow> None | Some x \<Rightarrow> le_avatar env x);
          color = role_color member
      in \<lparr>hd_name = name, hd_initials = message_initials name,
          hd_avatar = (if truthy avatar then avatar else None),
          hd_color = (if truthy color then color else None),
          hd_card = (member \<noteq> None), hd_edited = truthy (msg_edited_at m)\<rparr>)"

definition message_html :: "list_env \<Rightarrow> chat_msg \<Rightarrow> string option" where
  "message_html env m =
     (if msg_content m = [] then None else Some (render_markdown (le_sanitize env) (msg_content m)))"

definition chat_message :: "list_env \<Rightarrow> bool \<Rightarrow> chat_msg \<Rightarrow> bubble" where
  "chat_message env grouped m =
     \<lparr>bu_head = (if grouped then None else Some (message_head env m)),
      bu_class = status_class m,
      bu_time = format_time env (msg_id m),
      bu_html = message_html env m,
      bu_attachments = msg_attachments m,
      bu_badge = status_badge m,
      bu_target = retry_target m\<rparr>"

definition system_line :: "list_env \<Rightarrow> chat_msg \<Rightarrow> line" where
  "system_line env m =
     SystemLine (render_system_content (msg_content m) (msg_mentions m)
       (\<lambda>u. map_option rm_name (member_map (le_members env) u)))"

section \<open>The list\<close>

definition row_lines :: "list_env \<Rightarrow> row \<Rightarrow> line list" where
  "row_lines env r =
     (if r_new_day r
      then [DayLine (format_date_separator (le_sod env) (le_cal env) (le_now env) (id_date (msg_id (r_msg r))))]
      else [])
     @ (if shows_unread r then [NewLine] else [])
     @ [if r_system r then system_line env (r_msg r)
        else BubbleLine (chat_message env (r_grouped r) (r_msg r))]"

definition list_lines :: "list_env \<Rightarrow> chat_msg list \<Rightarrow> line list" where
  "list_lines env ms = concat (map (row_lines env) (make_rows (le_sod env) (le_divider env) None ms))"

text \<open>The \<open>key\<close> of a row.\<close>

definition list_key :: "chat_msg \<Rightarrow> string" where
  "list_key m = (case msg_client m of Some c \<Rightarrow> c | None \<Rightarrow> msg_id m)"

text \<open>
  A reader: a bubble without a head belongs to the last name above it, and a separator or a system
  message ends the group. Each bubble is read as a name, a time and a text.
\<close>

fun read_lines :: "string option \<Rightarrow> line list \<Rightarrow> (string option \<times> string \<times> string option) list" where
  "read_lines cur [] = []"
| "read_lines cur (BubbleLine b # ls) =
     (let c = (case bu_head b of Some h \<Rightarrow> Some (hd_name h) | None \<Rightarrow> cur)
      in (c, bu_time b, bu_html b) # read_lines c ls)"
| "read_lines cur (l # ls) = read_lines None ls"

definition above :: "list_env \<Rightarrow> chat_msg option \<Rightarrow> string option" where
  "above env prev =
     (case prev of
        None \<Rightarrow> None
      | Some p \<Rightarrow> if msg_author p = SYSTEM then None else Some (author_name env (msg_author p)))"

lemma read_lines_row:
  "read_lines (above env prev) (row_lines env (make_row sod dv prev m) @ ls) =
     (if msg_author m = SYSTEM then []
      else [(Some (author_name env (msg_author m)), format_time env (msg_id m), message_html env m)])
     @ read_lines (above env (Some m)) ls"
  by (auto simp: row_lines_def make_row_def shows_unread_def system_line_def chat_message_def message_head_def
      author_name_def above_def is_grouped_with_def Let_def split: option.splits)

lemma read_lines_rows:
  "read_lines (above env prev) (concat (map (row_lines env) (make_rows sod dv prev ms))) =
     map (\<lambda>m. (Some (author_name env (msg_author m)), format_time env (msg_id m), message_html env m))
       (filter (\<lambda>m. msg_author m \<noteq> SYSTEM) ms)"
  by (induction ms arbitrary: prev) (simp_all add: read_lines_row)

text \<open>C37. Read from top to bottom, with a name holding for the lines below it until the next one, the message
list shows every message that is not a system message once, in order, with its time and text, under the name of its author.\<close>

theorem read_under_author:
  "read_lines None (list_lines env ms) =
     map (\<lambda>m. (Some (author_name env (msg_author m)), format_time env (msg_id m), message_html env m))
       (filter (\<lambda>m. msg_author m \<noteq> SYSTEM) ms)"
  using read_lines_rows [of env None] by (simp add: list_lines_def above_def)

text \<open>A separator stands between two messages of one author; without it the second has no head.\<close>

lemma first_line_is_a_day: "ms \<noteq> [] \<Longrightarrow> \<exists>d ls. list_lines env ms = DayLine d # ls"
  by (cases ms) (simp_all add: list_lines_def row_lines_def make_row_def)

text \<open>
  The two places that show a member differ when the display name is empty: a message falls back to the
  user name, a system message shows nothing.
\<close>

lemma empty_name_differs:
  assumes "member_map (le_members env) u = Some x" "rm_name x = []" "rm_username x = ''ann''" "u \<noteq> []"
  shows "author_name env u = ''ann''"
    and "ref_name [u] (\<lambda>v. map_option rm_name (member_map (le_members env) v)) ''1'' = []"
proof -
  show "author_name env u = ''ann''" using assms by (simp add: author_name_def shown_name_def)
  have "parse_index ''1'' = 1" by code_simp
  with assms show "ref_name [u] (\<lambda>v. map_option rm_name (member_map (le_members env) v)) ''1'' = []"
    by (simp add: ref_name_def)
qed

text \<open>Rows keep their key while a message is confirmed: the echo carries the client id.\<close>

lemma key_survives_echo: "msg_client m = Some c \<Longrightarrow> list_key (m\<lparr>msg_id := i, msg_status := None\<rparr>) = list_key m"
  by (simp add: list_key_def)

section \<open>The header\<close>

record channel_header =
  he_left :: bool
  he_icon :: "channel option" \<comment> \<open>\<open>None\<close>: the hash sign\<close>
  he_name :: string
  he_banner :: connection_banner
  he_right :: bool

text \<open>\<open>side\<close>: mobile, open and open on mobile.\<close>

definition left_active :: "bool \<times> bool \<times> bool \<Rightarrow> bool" where
  "left_active side = (case side of (mobile, left, left_mobile) \<Rightarrow> if mobile then left_mobile else left)"

definition channel_header ::
  "bool \<Rightarrow> bool \<times> bool \<times> bool \<Rightarrow> bool \<Rightarrow> channel option \<Rightarrow> string \<Rightarrow> conn_state \<Rightarrow> channel_header option" where
  "channel_header hidden side right ch name c =
     (if hidden then None
      else Some \<lparr>he_left = left_active side, he_icon = ch, he_name = name, he_banner = connection_banner c,
                 he_right = right\<rparr>)"

section \<open>The input\<close>

definition toolbar_keys :: "string list" where
  "toolbar_keys =
     [''bold'', ''italic'', ''underline'', ''link'', ''orderedList'', ''unorderedList'', ''code'']"

datatype enter_hint = HintEnter | HintMod string

definition mod_key :: "bool \<Rightarrow> string" where
  "mod_key mac = (if mac then ''Cmd'' else ''Ctrl'')"

definition enter_hint :: "bool \<Rightarrow> composer \<Rightarrow> enter_hint" where
  "enter_hint mac s = (if cp_on_enter s then HintEnter else HintMod (mod_key mac))"

text \<open>The field: its text, whether it is disabled, and its placeholder.\<close>

definition input_field :: "string \<Rightarrow> conn_state \<Rightarrow> composer \<Rightarrow> string \<times> bool \<times> string" where
  "input_field name c s = (cp_input s, c \<noteq> Connected, ''Type something... # '' @ name)"

text \<open>The button: whether it is enabled, and whether it shows a spinner.\<close>

definition send_button :: "conn_state \<Rightarrow> composer \<Rightarrow> bool \<times> bool" where
  "send_button c s = (send_enabled c s, cp_sending s \<noteq> None)"

definition drop_overlay :: "string \<Rightarrow> composer \<Rightarrow> string option" where
  "drop_overlay name s = (if cp_drag_over s then Some (''Files upload to #'' @ name) else None)"

text \<open>The dialog that asks before a link is opened, with its address.\<close>

definition link_question :: "link_dialog \<Rightarrow> string option" where
  "link_question s = (if truthy (ld_link s) then ld_link s else None)"

text \<open>\<open>onChange\<close> of the hidden file input: the files are added and the value is cleared.\<close>

definition files_chosen :: "'f list option \<Rightarrow> string \<times> 'f list list \<Rightarrow> string \<times> 'f list list" where
  "files_chosen files s = ([], (case files of None \<Rightarrow> snd s | Some fs \<Rightarrow> snd s @ [fs]))"

text \<open>Every button of the tool bar has its action.\<close>

lemma toolbar_acts: "list_all (\<lambda>k. map_of md_actions k \<noteq> None) toolbar_keys"
  by code_simp

text \<open>A spinner never stands on a button that can be pressed.\<close>

lemma spinner_disables: "snd (send_button c s) \<Longrightarrow> \<not> fst (send_button c s)"
  by (simp add: send_button_def send_enabled_def)

text \<open>What is opened is what was asked about.\<close>

lemma opens_what_was_asked:
  "ld_opened (link_step LinkOpen s) = ld_opened s @ (case link_question s of None \<Rightarrow> [] | Some u \<Rightarrow> [u])"
  by (auto simp: link_question_def truthy_def split: option.split)

text \<open>The same file can be chosen twice in a row.\<close>

lemma same_file_again: "snd (files_chosen (Some fs) (files_chosen (Some fs) s)) = snd s @ [fs, fs]"
  by (simp add: files_chosen_def)

end
