(* ===== verification/Roster.thy ===== *)
theory Roster
  imports MessageList Invites
begin

text \<open>
  What \<open>frontend/components/hub/member-sidebar.tsx\<close> shows: the sections of the roster, the entry of a
  member (\<open>MemberItem\<close>), the entry and the card of a pending invitation (\<open>PendingInviteItem\<close>), and the
  button for new teammates. The formats of dates are parameters.

  The lemmas show that exactly the active members are listed, that no section is empty and each count is
  right, and that who may not invite sees no invitation.
\<close>

section \<open>A member\<close>

datatype expiry_label = ExpiryTime int | ExpiryDay int | ExpiryInvalid

text \<open>\<open>cal\<close> gives the local year, month and day. No comparison with an invalid date is true.\<close>

definition format_expiry :: "(int \<Rightarrow> int \<times> int \<times> int) \<Rightarrow> int \<Rightarrow> int option \<Rightarrow> expiry_label" where
  "format_expiry cal now d =
     (case d of
        None \<Rightarrow> ExpiryInvalid
      | Some t \<Rightarrow> (case (cal t, cal now) of ((y, mo, dd), (y', mo', dd')) \<Rightarrow>
          if y = y' \<and> mo = mo' \<and> dd = dd' then ExpiryTime t else ExpiryDay t))"

definition first_letter :: "string \<Rightarrow> string" where
  "first_letter name = concat (map upper_units (take 1 name))"

record member_entry =
  me_user :: string
  me_title :: "string option"
  me_avatar :: "string option"
  me_letter :: string
  me_online :: bool
  me_name :: string
  me_until :: "expiry_label option"
  me_badge :: "(string \<times> string option) option"

text \<open>\<open>re_cal\<close>: the local calendar; \<open>re_avatar\<close>: the \<open>avatar_url\<close> of a member.\<close>

record roster_env =
  re_now :: int
  re_cal :: "int \<Rightarrow> int \<times> int \<times> int"
  re_avatar :: "roster_member \<Rightarrow> string option"
  re_perms :: "user_permissions option"
  re_open :: bool

definition member_entry :: "roster_env \<Rightarrow> roster_member \<Rightarrow> member_entry" where
  "member_entry env m =
     \<lparr>me_user = m_user m,
      me_title = (if re_open env then None else Some (rm_name m)),
      me_avatar = (if truthy (re_avatar env m) then re_avatar env m else None),
      me_letter = first_letter (rm_name m),
      me_online = rm_online m,
      me_name = rm_name m,
      me_until = (if rm_temp m then map_option (format_expiry (re_cal env) (re_now env)) (m_expires m) else None),
      me_badge = map_option (\<lambda>g. (mg_name g, if truthy (mg_color g) then mg_color g else None)) (badge_group m)\<rparr>"

section \<open>An invitation\<close>

datatype invite_label = LinkLabel link_label | NameLabel string

definition display_label :: "pending_invite \<Rightarrow> invite_label" where
  "display_label x =
     (if pi_kind x = LinkInvite then LinkLabel (format_link_label (pi_uses x) (pi_max_uses x))
      else NameLabel (pi_name x))"

definition kind_label :: "invite_kind \<Rightarrow> string" where
  "kind_label k =
     (if k = LinkInvite then ''Invite link - share to register''
      else if k = TempInvite then ''Temp link - not yet used''
      else ''Permanent invite - not yet accepted'')"

text \<open>The fields of a \<open>PendingInvite\<close> that only the card shows; the times are formatted.\<close>

record invite_more =
  im_email :: "string option"
  im_created :: string
  im_by_name :: string
  im_by_username :: string
  im_expires :: "string option"

record invite_card =
  ic_kind :: string
  ic_name :: invite_label
  ic_email :: "string option"
  ic_rows :: "(string \<times> string) list"
  ic_error :: "string option"
  ic_delete :: "(string \<times> bool) option" \<comment> \<open>label, disabled\<close>

definition detail_rows :: "(string \<Rightarrow> string) \<Rightarrow> invite_more \<Rightarrow> (string \<times> string) list" where
  "detail_rows fmt x =
     [(''Created'', fmt (im_created x)), (''By'', im_by_name x @ '' ('' @ im_by_username x @ '')'')]
     @ (if truthy (im_expires x) then [(''Expires'', fmt (the (im_expires x)))] else [])"

definition invite_card ::
  "(string \<Rightarrow> string) \<Rightarrow> string option \<Rightarrow> user_permissions option \<Rightarrow> invite_more \<Rightarrow> invite_row \<Rightarrow> invite_card option" where
  "invite_card fmt me p x s =
     (if \<not> ir_open s then None
      else Some \<lparr>ic_kind = kind_label (pi_kind (ir_invite s)), ic_name = display_label (ir_invite s),
                 ic_email = (if truthy (im_email x) then im_email x else None),
                 ic_rows = detail_rows fmt x,
                 ic_error = (if ir_error s = [] then None else Some (ir_error s)),
                 ic_delete = (if can_delete_invite me p (ir_invite s)
                              then Some (if ir_deleting s then ''Deleting...'' else ''Delete invite'', ir_deleting s)
                              else None)\<rparr>)"

record invite_entry =
  ie_key :: string
  ie_title :: "invite_label option"
  ie_link_icon :: bool
  ie_corner :: bool
  ie_name :: invite_label

definition invite_key :: "pending_invite \<Rightarrow> string" where
  "invite_key x = kind_name (pi_kind x) @ ''-'' @ pi_id x"

definition invite_entry :: "bool \<Rightarrow> pending_invite \<Rightarrow> invite_entry" where
  "invite_entry collapsed x =
     \<lparr>ie_key = invite_key x, ie_title = (if collapsed then Some (display_label x) else None),
      ie_link_icon = (pi_kind x = LinkInvite), ie_corner = (pi_kind x = TempInvite), ie_name = display_label x\<rparr>"

text \<open>The keys of the list are those of the invitations: no two kinds share one.\<close>

lemma invite_key_inj: "invite_key x = invite_key y \<Longrightarrow> pi_kind x = pi_kind y \<and> pi_id x = pi_id y"
  by (auto simp: invite_key_def kind_name_def split: invite_kind.splits)

text \<open>Opening and closing the card, a click on its button, and the answer.\<close>

datatype invite_input = InviteOpen bool | InviteDelete | InviteReply "int option"

fun invite_row_step :: "string option \<times> string option \<Rightarrow> invite_input \<Rightarrow> invite_row \<Rightarrow> invite_row" where
  "invite_row_step env (InviteOpen b) s = s\<lparr>ir_open := b\<rparr>"
| "invite_row_step env InviteDelete s = delete_invite (fst env) (snd env) s"
| "invite_row_step env (InviteReply r) s =
     (if ir_deleting s then delete_replied (the (fst env)) r s else s)"

text \<open>Every further request needs an answer to the one before: there is never a second one under way.\<close>

fun is_answer :: "invite_input \<Rightarrow> bool" where
  "is_answer (InviteReply (Some status)) = True"
| "is_answer i = False"

definition answers :: "invite_input list \<Rightarrow> nat" where
  "answers is = length (filter is_answer is)"

definition waiting :: "invite_row \<Rightarrow> nat" where
  "waiting s = (if ir_deleting s then 1 else 0)"

lemma requests_answered:
  "length (ir_requests (run (invite_row_step env) is s)) + waiting s
     \<le> length (ir_requests s) + answers is + waiting (run (invite_row_step env) is s)"
proof (induction "is" arbitrary: s)
  case (Cons i "is")
  have "length (ir_requests (invite_row_step env i s)) + waiting s
      \<le> length (ir_requests s) + answers [i] + waiting (invite_row_step env i s)"
    by (cases "(env, i, s)" rule: invite_row_step.cases)
      (auto simp: delete_invite_def delete_replied_def answers_def waiting_def Let_def split: option.splits)
  moreover have "answers (i # is) = answers [i] + answers is" by (simp add: answers_def)
  ultimately show ?case using Cons.IH [of "invite_row_step env i s"] by simp
qed (simp add: answers_def)

theorem one_deletion_at_a_time:
  "length (ir_requests (run (invite_row_step env) is (new_invite_row x))) \<le> Suc (answers is)"
  using requests_answered [of env "is" "new_invite_row x"]
  by (simp add: new_invite_row_def waiting_def split: if_splits)

text \<open>After a request that got no answer the button stays disabled, whatever is clicked.\<close>

lemma unanswered_deletion_sticks:
  assumes "ir_deleting s"
  shows "ir_deleting (run (invite_row_step env) (InviteReply None # map (\<lambda>b. InviteOpen b) bs @ [InviteDelete]) s)"
proof -
  have "ir_deleting (run (invite_row_step env) (map (\<lambda>b. InviteOpen b) bs) t)" if "ir_deleting t" for t
    using that by (induction bs arbitrary: t) auto
  with assms show ?thesis by (simp add: delete_replied_def delete_invite_def)
qed

section \<open>The sidebar\<close>

datatype section_kind = OnlineSection | OfflineSection | InvitedSection

datatype sidebar_item = MemberLine member_entry | InviteLine invite_entry

record roster_section =
  rs_kind :: section_kind
  rs_count :: nat
  rs_label :: bool \<comment> \<open>the label can be seen\<close>
  rs_items :: "sidebar_item list"

datatype roster_body = RosterPlaceholder nat bool | RosterSections "roster_section list"

record roster_view =
  rv_count :: nat
  rv_body :: roster_body
  rv_add :: "string option option" \<comment> \<open>the button and its title\<close>

definition roster_section :: "bool \<Rightarrow> section_kind \<Rightarrow> sidebar_item list \<Rightarrow> roster_section" where
  "roster_section opened k is = \<lparr>rs_kind = k, rs_count = length is, rs_label = opened, rs_items = is\<rparr>"

definition roster_sections :: "roster_env \<Rightarrow> roster_member list \<Rightarrow> pending_invite list \<Rightarrow> roster_section list" where
  "roster_sections env ms pending =
     (let online = online_members (re_now env) ms; offline = offline_members (re_now env) ms in
      (if online = [] then []
       else [roster_section (re_open env) OnlineSection (map (MemberLine \<circ> member_entry env) online)])
      @ (if offline = [] then []
         else [roster_section (re_open env) OfflineSection (map (MemberLine \<circ> member_entry env) offline)])
      @ (if show_pending (re_perms env) pending
         then [roster_section (re_open env) InvitedSection (map (InviteLine \<circ> invite_entry (\<not> re_open env)) pending)]
         else []))"

definition roster_view :: "roster_env \<Rightarrow> bool \<Rightarrow> roster_member list \<Rightarrow> pending_invite list \<Rightarrow> roster_view" where
  "roster_view env waits ms pending =
     \<lparr>rv_count = length (active_members (re_now env) ms),
      rv_body = (if waits then RosterPlaceholder 3 (re_open env) else RosterSections (roster_sections env ms pending)),
      rv_add = (if can_invite (re_perms env)
                then Some (if re_open env then None else Some ''Add Teammates'') else None)\<rparr>"

fun body_items :: "roster_body \<Rightarrow> sidebar_item list" where
  "body_items (RosterPlaceholder n b) = []"
| "body_items (RosterSections ss) = concat (map rs_items ss)"

definition listed_members :: "sidebar_item list \<Rightarrow> member_entry list" where
  "listed_members is = List.map_filter (\<lambda>i. case i of MemberLine e \<Rightarrow> Some e | InviteLine _ \<Rightarrow> None) is"

definition listed_invites :: "sidebar_item list \<Rightarrow> invite_entry list" where
  "listed_invites is = List.map_filter (\<lambda>i. case i of MemberLine _ \<Rightarrow> None | InviteLine e \<Rightarrow> Some e) is"

lemma listed_simps [simp]:
  "listed_members [] = []" "listed_invites [] = []"
  "listed_members (xs @ ys) = listed_members xs @ listed_members ys"
  "listed_invites (xs @ ys) = listed_invites xs @ listed_invites ys"
  "listed_members (map (MemberLine \<circ> f) ms) = map f ms" "listed_members (map (InviteLine \<circ> g) vs) = []"
  "listed_invites (map (InviteLine \<circ> g) vs) = map g vs" "listed_invites (map (MemberLine \<circ> f) ms) = []"
  by (simp_all add: listed_members_def listed_invites_def map_filter_def comp_def filter_empty_conv)

lemma sections_items:
  "concat (map rs_items (roster_sections env ms pending)) =
     map (MemberLine \<circ> member_entry env) (online_members (re_now env) ms @ offline_members (re_now env) ms)
     @ (if show_pending (re_perms env) pending then map (InviteLine \<circ> invite_entry (\<not> re_open env)) pending else [])"
  by (simp add: roster_sections_def roster_section_def Let_def)

theorem roster_lists_the_active:
  "mset (listed_members (body_items (rv_body (roster_view env False ms pending)))) =
     image_mset (member_entry env) (mset (active_members (re_now env) ms))
   \<and> rv_count (roster_view env False ms pending) =
       length (listed_members (body_items (rv_body (roster_view env False ms pending))))
   \<and> listed_invites (body_items (rv_body (roster_view env False ms pending))) =
       (if can_invite (re_perms env) then map (invite_entry (\<not> re_open env)) pending else [])"
proof -
  let ?on = "online_members (re_now env) ms" and ?off = "offline_members (re_now env) ms"
  have "listed_members (body_items (rv_body (roster_view env False ms pending))) = map (member_entry env) (?on @ ?off)"
    "listed_invites (body_items (rv_body (roster_view env False ms pending))) =
       (if show_pending (re_perms env) pending then map (invite_entry (\<not> re_open env)) pending else [])"
    by (simp_all add: roster_view_def sections_items del: map_append)
  moreover have m: "mset (?on @ ?off) = mset (active_members (re_now env) ms)"
    by (simp add: sections_partition)
  moreover have "length (?on @ ?off) = length (active_members (re_now env) ms)"
    using m by (metis size_mset)
  ultimately show ?thesis
    by (auto simp: roster_view_def show_pending_def simp flip: mset_map m)
qed

text \<open>No section is empty and each count is that of its items.\<close>

lemma sections_counted: "list_all (\<lambda>s. rs_items s \<noteq> [] \<and> rs_count s = length (rs_items s)) (roster_sections env ms pending)"
  by (auto simp: roster_sections_def roster_section_def show_pending_def Let_def)

text \<open>The badge names a group of the member.\<close>

lemma badge_is_own: "me_badge (member_entry env m) = Some (n, c) \<Longrightarrow> n \<in> mg_name ` set (rm_groups m) \<and> n \<noteq> ''everyone''"
  by (auto simp: member_entry_def badge_group_def find_Some_iff)

text \<open>A guest whose time is over is in the list of members, but not in the sidebar.\<close>

lemma expired_not_listed:
  assumes "m_expires m = Some (Some e)" "e \<le> re_now env"
  shows "listed_members (body_items (rv_body (roster_view env False [m] pending))) = []"
proof -
  have "\<not> is_member_active (re_now env) m" using assms by (simp add: is_member_active_def)
  then show ?thesis
    by (simp add: roster_view_def sections_items online_members_def offline_members_def active_members_def del: map_append)
qed

end
