(* ===== verification/Diagnostics.thy ===== *)
theory Diagnostics
  imports VideoClient
begin

text \<open>
  \<open>getDiagnostics\<close> of \<open>packages/sdk-video/src/client.ts\<close>, the snapshot that the debug panel shows and
  uploads, and the device list. The peer connection is the browser's: what it says of itself, its
  senders, receivers and statistics are arguments.

  The snapshot is taken in two parts, before and after the statistics are awaited; the lemmas show what
  that means when the call ends in between, and that each participant is listed once although the map of
  participants holds him under several keys.
\<close>

section \<open>Statistics\<close>

record rtc_report =
  rr_type :: string
  rr_id :: string

datatype stat_entry = StatReport rtc_report | StatError string

definition KEEP :: "string list" where
  "KEEP =
     [''inbound-rtp'', ''outbound-rtp'', ''remote-inbound-rtp'', ''remote-outbound-rtp'', ''candidate-pair'',
      ''local-candidate'', ''remote-candidate'', ''transport'']"

text \<open>The result of \<open>getStats\<close>: the reports, or the text of its error. Without a connection it is not called.\<close>

definition kept_stats :: "(string + rtc_report list) option \<Rightarrow> stat_entry list" where
  "kept_stats r =
     (case r of
        None \<Rightarrow> []
      | Some (Inl e) \<Rightarrow> [StatError e]
      | Some (Inr rs) \<Rightarrow> map StatReport (filter (\<lambda>x. rr_type x \<in> set KEEP) rs))"

section \<open>The snapshot\<close>

text \<open>A track as the browser describes it; every field is undefined for a sender without a track.\<close>

record track_info =
  ti_kind :: string
  ti_enabled :: bool
  ti_muted :: bool
  ti_ready :: string
  ti_id :: string

record pc_states =
  pc_connection :: string
  pc_ice :: string
  pc_gathering :: string
  pc_signaling :: string
  pc_local :: "string option"
  pc_remote :: "string option"

record participant_dump =
  pd_participant :: string
  pd_user :: string
  pd_has_audio :: bool
  pd_has_video :: bool
  pd_speaking :: bool
  pd_muted :: bool

record video_diagnostics =
  di_user :: string
  di_session :: string
  di_participant :: "string option"
  di_joined :: bool
  di_mic :: bool
  di_cam :: bool
  di_states :: pc_states
  di_senders :: "track_info option list"
  di_receivers :: "track_info option list"
  di_participants :: "participant_dump list"
  di_stats :: "stat_entry list"

definition participant_dump :: "participant \<Rightarrow> participant_dump" where
  "participant_dump p =
     \<lparr>pd_participant = p_id p, pd_user = p_user p, pd_has_audio = (p_audio p \<noteq> None),
      pd_has_video = (p_video p \<noteq> None), pd_speaking = p_speaking p, pd_muted = p_mic_muted p\<rparr>"

definition no_states :: pc_states where
  "no_states = \<lparr>pc_connection = ''none'', pc_ice = ''none'', pc_gathering = ''none'', pc_signaling = ''none'',
                pc_local = None, pc_remote = None\<rparr>"

text \<open>The first part, up to the \<open>await\<close>: which connection, and its senders and receivers.\<close>

record diagnostics_begun =
  dg_pc :: "nat option"
  dg_senders :: "track_info option list"
  dg_receivers :: "track_info option list"

definition diagnostics_begin ::
  "(nat \<Rightarrow> track_info option list \<times> track_info option list) \<Rightarrow> vc \<Rightarrow> diagnostics_begun" where
  "diagnostics_begin tracks s =
     (case v_pc s of
        None \<Rightarrow> \<lparr>dg_pc = None, dg_senders = [], dg_receivers = []\<rparr>
      | Some pc \<Rightarrow> \<lparr>dg_pc = Some pc, dg_senders = fst (tracks pc), dg_receivers = snd (tracks pc)\<rparr>)"

text \<open>
  The second part, in the state after the \<open>await\<close>. The connection is still the one of the first part
  (\<open>const pc\<close>); everything else is read from the client as it is now.
\<close>

definition diagnostics_end ::
  "(nat \<Rightarrow> pc_states) \<Rightarrow> string + rtc_report list \<Rightarrow> diagnostics_begun \<Rightarrow> vc \<Rightarrow> video_diagnostics" where
  "diagnostics_end states reply d s =
     \<lparr>di_user = v_user s, di_session = v_session s, di_participant = v_pid s, di_joined = v_joined s,
      di_mic = v_mic s, di_cam = v_cam s,
      di_states = (case dg_pc d of None \<Rightarrow> no_states | Some pc \<Rightarrow> states pc),
      di_senders = dg_senders d, di_receivers = dg_receivers d,
      di_participants = map (participant_dump \<circ> snd) (diagnostic_participants s),
      di_stats = kept_stats (map_option (\<lambda>_. reply) (dg_pc d))\<rparr>"

section \<open>Each participant once\<close>

lemma fold_by_id:
  "jwf m \<Longrightarrow> list_all (\<lambda>(k, p). k = p_id p) m \<Longrightarrow>
     jwf (fold (\<lambda>p m. jset (p_id p) p m) ps m) \<and> list_all (\<lambda>(k, p). k = p_id p) (fold (\<lambda>p m. jset (p_id p) p m) ps m)
     \<and> fst ` set (fold (\<lambda>p m. jset (p_id p) p m) ps m) = fst ` set m \<union> p_id ` set ps"
proof (induction ps arbitrary: m)
  case (Cons p ps)
  have keys: "fst ` set (jset (p_id p) p m) = insert (p_id p) (fst ` set m)"
    by (simp add: jset_def dom_update)
  have "list_all (\<lambda>(k, p). k = p_id p) (jset (p_id p) p m)"
    using Cons.prems(2) by (induction m) (auto simp: jset_def)
  with Cons.IH [of "jset (p_id p) p m"] Cons.prems keys show ?case by auto
qed simp

theorem dumped_once:
  "distinct (map pd_participant (di_participants (diagnostics_end states r d s)))
   \<and> set (map pd_participant (di_participants (diagnostics_end states r d s))) = p_id ` set (get_participants s)"
proof -
  let ?ps = "diagnostic_participants s"
  have *: "jwf ?ps" "list_all (\<lambda>(k, p). k = p_id p) ?ps" "fst ` set ?ps = p_id ` set (get_participants s)"
    using fold_by_id [of "[]" "get_participants s"] by (auto simp: diagnostic_participants_def)
  have "map pd_participant (di_participants (diagnostics_end states r d s)) = map fst ?ps"
    using *(2) by (auto simp: diagnostics_end_def participant_dump_def list_all_iff)
  moreover have "distinct (map fst ?ps)" using *(1) by (simp add: jwf_def)
  ultimately show ?thesis using *(3) by (simp del: map_map)
qed

text \<open>
  When the client has disconnected while the statistics were awaited, the dump still has the states and
  senders of the old connection, next to a client with no participants.
\<close>

lemma dump_of_a_mixed_state:
  assumes "v_pc s = Some pc" "v_parts t = []" "v_pc t = None"
  shows "let x = diagnostics_end states (Inl e) (diagnostics_begin tracks s) t
         in di_states x = states pc \<and> di_senders x = fst (tracks pc) \<and> di_participants x = [] \<and> di_stats x = [StatError e]"
  using assms
  by (simp add: diagnostics_end_def diagnostics_begin_def diagnostic_participants_def get_participants_def
      kept_stats_def Let_def)

lemma kept_are_of_use: "set (kept_stats (Some (Inr rs))) \<subseteq> StatReport ` {x. rr_type x \<in> set KEEP}"
  by (auto simp: kept_stats_def)

section \<open>Devices\<close>

record media_device =
  md_kind :: string
  md_id :: string

definition list_devices :: "media_device list \<Rightarrow> media_device list \<times> media_device list" where
  "list_devices ds =
     (filter (\<lambda>d. md_kind d = ''audioinput'') ds, filter (\<lambda>d. md_kind d = ''videoinput'') ds)"

lemma device_in_one_list: "set (fst (list_devices ds)) \<inter> set (snd (list_devices ds)) = {}"
  by (auto simp: list_devices_def)

end
