(* ===== verification/CopyButton.thy ===== *)
theory CopyButton
  imports Prelude
begin

text \<open>
  The copy buttons: \<open>CallIdBar\<close> and the header of \<open>frontend/components/hub/call-debug-panel.tsx\<close>, and
  \<open>InviteResult\<close> of \<open>frontend/components/hub/add-teammates-dialog.tsx\<close>. The clipboard's answer sets the
  tick and a timer; a refusal changes nothing. The clock and the deadlines of the timers are part of the
  state, and the time that a tick stays is an argument.
\<close>

record copy_button =
  cb_copied :: bool
  cb_clock :: int
  cb_timers :: "int list"

datatype copy_input = CopyWritten | CopyRefused | CopyTick int

definition run_due :: "copy_button \<Rightarrow> copy_button" where
  "run_due s =
     (if list_ex (\<lambda>t. t \<le> cb_clock s) (cb_timers s)
      then s\<lparr>cb_copied := False, cb_timers := filter (\<lambda>t. \<not> t \<le> cb_clock s) (cb_timers s)\<rparr> else s)"

fun copy_step :: "int \<Rightarrow> copy_input \<Rightarrow> copy_button \<Rightarrow> copy_button" where
  "copy_step ms CopyWritten s = s\<lparr>cb_copied := True, cb_timers := cb_timers s @ [cb_clock s + ms]\<rparr>"
| "copy_step ms CopyRefused s = s"
| "copy_step ms (CopyTick d) s = run_due (s\<lparr>cb_clock := cb_clock s + max 0 d\<rparr>)"

definition new_copy :: copy_button where
  "new_copy = \<lparr>cb_copied = False, cb_clock = 0, cb_timers = []\<rparr>"

definition copy_ok :: "int \<Rightarrow> copy_button \<Rightarrow> bool" where
  "copy_ok ms s \<longleftrightarrow> (cb_copied s \<longrightarrow> cb_timers s \<noteq> []) \<and> (\<forall>t \<in> set (cb_timers s). t \<le> cb_clock s + ms)"

lemma copy_ok_step: "copy_ok ms s \<Longrightarrow> copy_ok ms (copy_step ms i s)"
  by (cases i) (fastforce simp: copy_ok_def run_due_def list_ex_iff filter_empty_conv)+

interpretation copying: invariant_machine "copy_step ms" "\<lambda>_ _. True" "copy_ok ms" for ms
  by unfold_locales (rule copy_ok_step)

text \<open>Whatever was copied and when: that time without a further copy and the tick is gone.\<close>

theorem tick_goes_away:
  "\<not> cb_copied (run (copy_step ms) (is @ [CopyTick ms]) new_copy)
   \<and> cb_timers (run (copy_step ms) (is @ [CopyTick ms]) new_copy) = []"
proof -
  let ?s = "run (copy_step ms) is new_copy"
  have "copy_ok ms ?s" by (rule copying.inv_run) (simp_all add: new_copy_def copy_ok_def)
  then show ?thesis
    by (cases "cb_timers ?s") (auto simp: copy_ok_def run_due_def list_ex_iff filter_empty_conv)
qed

text \<open>But after a second copy it can go early: the timer of the first copy takes it away.\<close>

lemma second_tick_cut_short:
  "\<not> cb_copied (run (copy_step 1500) [CopyWritten, CopyTick 1400, CopyWritten, CopyTick 100] new_copy)"
  by (simp add: new_copy_def run_due_def)

end
