(* ===== verification/DebugView.thy ===== *)
theory DebugView
  imports Diagnostics DebugPanel VideoDebug CopyButton
begin

text \<open>
  What \<open>frontend/components/hub/call-debug-panel.tsx\<close> shows of a snapshot: the header with its pills,
  the bar with the id of the call and its copy button, the summary, and the log. A name is found by
  \<open>lookupName\<close>, an argument.

  The lemma shows that the log is read from the newest entry down.
\<close>

section \<open>Pills and rows\<close>

definition yes_no :: "string \<Rightarrow> string \<Rightarrow> bool \<Rightarrow> string" where
  "yes_no y n b = (if b then y else n)"

definition or_dash :: "string option \<Rightarrow> string" where
  "or_dash x = (case x of None \<Rightarrow> ''-'' | Some s \<Rightarrow> s)"

text \<open>\<open>TrackPill\<close>: its border is green for a live track. Without a track every field is undefined.\<close>

definition track_pill :: "track_info option \<Rightarrow> bool \<times> string" where
  "track_pill x =
     (case x of
        None \<Rightarrow> (False, ''?:off.?'')
      | Some i \<Rightarrow>
          (ti_ready i = ''live'',
           ti_kind i @ '':'' @ yes_no ''on'' ''off'' (ti_enabled i) @ yes_no ''.mut'' '''' (ti_muted i) @ ''.'' @ ti_ready i))"

definition state_pills :: "video_diagnostics option \<Rightarrow> (tone \<times> string) list" where
  "state_pills d =
     (case d of
        None \<Rightarrow> []
      | Some x \<Rightarrow>
          [(state_tone (pc_connection (di_states x)), ''pc:'' @ pc_connection (di_states x)),
           (state_tone (pc_ice (di_states x)), ''ice:'' @ pc_ice (di_states x))])"

definition id_text :: "string option \<Rightarrow> string" where
  "id_text i = (case short_id i of None \<Rightarrow> ''-'' | Some (s, longer) \<Rightarrow> s @ (if longer then ''...'' else []))"

section \<open>Header\<close>

record panel_header =
  ph_user :: "(string \<times> string) option" \<comment> \<open>name and title\<close>
  ph_pills :: "(tone \<times> string) list"
  ph_copied :: bool

definition panel_header :: "(string \<Rightarrow> string) \<Rightarrow> bool \<Rightarrow> video_diagnostics option \<Rightarrow> panel_header" where
  "panel_header lookup copied d =
     \<lparr>ph_user = (case d of
        None \<Rightarrow> None
      | Some x \<Rightarrow> if di_user x = [] then None else Some (lookup (di_user x), di_user x)),
      ph_pills = state_pills d, ph_copied = copied\<rparr>"

section \<open>Summary\<close>

record participant_pill =
  pp_name :: string
  pp_title :: string
  pp_audio :: bool
  pp_video :: bool

record debug_summary =
  su_rows :: "(string \<times> string) list"
  su_senders :: "(bool \<times> string) list"
  su_no_senders :: bool
  su_receivers :: "(bool \<times> string) list"
  su_no_receivers :: bool
  su_count :: nat
  su_participants :: "participant_pill list"

definition summary_rows :: "string \<Rightarrow> string \<Rightarrow> video_diagnostics \<Rightarrow> (string \<times> string) list" where
  "summary_rows browser os d =
     [(''browser'', browser), (''os'', os), (''participant'', id_text (di_participant d)),
      (''joined'', yes_no ''yes'' ''no'' (di_joined d)), (''mic'', yes_no ''on'' ''off'' (di_mic d)),
      (''cam'', yes_no ''on'' ''off'' (di_cam d)), (''signaling'', pc_signaling (di_states d)),
      (''gathering'', pc_gathering (di_states d)), (''local sdp'', or_dash (pc_local (di_states d))),
      (''remote sdp'', or_dash (pc_remote (di_states d)))]"

definition participant_pill :: "(string \<Rightarrow> string) \<Rightarrow> participant_dump \<Rightarrow> participant_pill" where
  "participant_pill lookup p =
     \<lparr>pp_name = lookup (pd_user p), pp_title = pd_user p @ '' (participant '' @ pd_participant p @ '')'',
      pp_audio = pd_has_audio p, pp_video = pd_has_video p\<rparr>"

text \<open>\<open>None\<close>: the line that waits for the first snapshot.\<close>

definition debug_summary ::
  "(string \<Rightarrow> string) \<Rightarrow> string \<Rightarrow> string \<Rightarrow> video_diagnostics option \<Rightarrow> debug_summary option" where
  "debug_summary lookup browser os d =
     map_option (\<lambda>x.
       \<lparr>su_rows = summary_rows browser os x,
        su_senders = map track_pill (di_senders x), su_no_senders = (di_senders x = []),
        su_receivers = map track_pill (di_receivers x), su_no_receivers = (di_receivers x = []),
        su_count = length (di_participants x),
        su_participants = map (participant_pill lookup) (di_participants x)\<rparr>) d"

section \<open>Log\<close>

datatype log_color = LogRed | LogAmber | LogPlain

definition log_color :: "log_level \<Rightarrow> log_color" where
  "log_color l = (case l of LError \<Rightarrow> LogRed | LWarn \<Rightarrow> LogAmber | LInfo \<Rightarrow> LogPlain)"

text \<open>\<open>padStart\<close> with zeros, and \<open>fmtTime\<close> of a local time: hours, minutes, seconds, milliseconds.\<close>

definition pad_start :: "nat \<Rightarrow> string \<Rightarrow> string" where
  "pad_start n s = replicate (n - length s) CHR ''0'' @ s"

definition fmt_log_time :: "nat \<times> nat \<times> nat \<times> nat \<Rightarrow> string" where
  "fmt_log_time x =
     (case x of (h, m, s, f) \<Rightarrow>
        pad_start 2 (show_nat h) @ '':'' @ pad_start 2 (show_nat m) @ '':'' @ pad_start 2 (show_nat s)
        @ ''.'' @ pad_start 3 (show_nat f))"

text \<open>The column is reversed: the entries stand from the last to the first. The empty list has a line of its own.\<close>

definition log_feed ::
  "(int \<Rightarrow> nat \<times> nat \<times> nat \<times> nat) \<Rightarrow> log_entry list \<Rightarrow> (log_color \<times> string \<times> string \<times> string) list option" where
  "log_feed clock ls =
     (if ls = [] then None
      else Some (rev (map (\<lambda>e. (log_color (le_level e), fmt_log_time (clock (le_time e)), le_type e, le_msg e)) ls)))"

lemma newest_on_top:
  "log_feed clock (append_log e ls) =
     Some ((log_color (le_level e), fmt_log_time (clock (le_time e)), le_type e, le_msg e)
       # (case log_feed clock (slice_last (MAX_LOG_ENTRIES - 1) ls) of None \<Rightarrow> [] | Some xs \<Rightarrow> xs))"
  by (auto simp: log_feed_def append_log_def)

text \<open>Every time of a day has the same width, so that the columns of the log line up.\<close>

lemma pad_start_length: "length s \<le> n \<Longrightarrow> length (pad_start n s) = n"
  by (simp add: pad_start_def)

section \<open>The bar with the id of the call\<close>

definition COPY_MS :: int where
  "COPY_MS = 1500"

definition call_id_step :: "copy_input \<Rightarrow> copy_button \<Rightarrow> copy_button" where
  "call_id_step = copy_step COPY_MS"

definition call_id_bar :: "string option \<Rightarrow> copy_button \<Rightarrow> (string \<times> bool) option" where
  "call_id_bar session s =
     (case session of None \<Rightarrow> None | Some i \<Rightarrow> if i = [] then None else Some (i, cb_copied s))"

end
