(* ===== verification/Menus.thy ===== *)
theory Menus
  imports Roster Profile Shell
begin

text \<open>
  The menus and headers of the hub: the hub's menu with its feedback dialog
  (\<open>frontend/components/hub-switcher.tsx\<close>), the user's menu with the profile dialog
  (\<open>frontend/components/nav-user.tsx\<close>), and the headers and the collapsed bar of the chat
  (\<open>frontend/components/hub/chat-workspace.tsx\<close>), as values. What a click does is in the theories
  Profile, Shell and WorkspaceStack.

  The lemmas show which entries the permissions of the user give him, and that a direct conversation
  always has one header, with the call button exactly while one is not in that call.
\<close>

section \<open>The hub's menu\<close>

datatype menu_item =
    LabelItem string
  | SeparatorItem
  | SiteItem
  | FeedbackItem
  | GeneralItem
  | RolesItem
  | OtherHubItem string string string \<comment> \<open>id, letter, name\<close>

record hub_entry =
  hb_id :: string
  hb_name :: string
  hb_avatar :: "string option"

definition admin_of :: "user_permissions option \<Rightarrow> bool" where
  "admin_of p = (case p of None \<Rightarrow> False | Some x \<Rightarrow> is_admin x)"

definition settings_items :: "user_permissions option \<Rightarrow> menu_item list" where
  "settings_items p =
     (if admin_of p \<or> perms_has p P_MANAGE_ROLES
      then [SeparatorItem, LabelItem ''Hub Settings'']
        @ (if admin_of p then [GeneralItem] else [])
        @ (if perms_has p P_MANAGE_ROLES then [RolesItem] else [])
      else [])"

definition other_hub_items :: "hub_entry list \<Rightarrow> menu_item list" where
  "other_hub_items hubs =
     (if hubs = [] then []
      else [SeparatorItem, LabelItem ''Other Hubs'']
        @ map (\<lambda>h. OtherHubItem (hb_id h) (first_letter (hb_name h)) (hb_name h)) hubs)"

definition hub_menu :: "user_permissions option \<Rightarrow> hub_entry list \<Rightarrow> menu_item list" where
  "hub_menu p hubs = [LabelItem ''App'', SiteItem, FeedbackItem] @ settings_items p @ other_hub_items hubs"

record hub_button =
  hw_avatar :: "string option"
  hw_letter :: string
  hw_name :: string
  hw_version :: string

definition hub_button :: "string option \<Rightarrow> hub_entry \<Rightarrow> hub_button" where
  "hub_button release h =
     \<lparr>hw_avatar = (if truthy (hb_avatar h) then hb_avatar h else None), hw_letter = first_letter (hb_name h),
      hw_name = hb_name h, hw_version = ''pre-alpha '' @ (if truthy release then the release else ''v0.0.1'')\<rparr>"

theorem hub_menu_by_permission:
  "(GeneralItem \<in> set (hub_menu p hubs) \<longleftrightarrow> admin_of p)
   \<and> (RolesItem \<in> set (hub_menu p hubs) \<longleftrightarrow> perms_has p P_MANAGE_ROLES)
   \<and> (LabelItem ''Hub Settings'' \<in> set (hub_menu p hubs) \<longleftrightarrow>
        GeneralItem \<in> set (hub_menu p hubs) \<or> RolesItem \<in> set (hub_menu p hubs))"
  by (auto simp: hub_menu_def settings_items_def other_hub_items_def)

text \<open>A hub may be named like a heading; still nothing but a heading follows a separator.\<close>

lemma heading_after_separator:
  "i + 1 < length (hub_menu p hubs) \<Longrightarrow> hub_menu p hubs ! i = SeparatorItem \<Longrightarrow>
     \<exists>x. hub_menu p hubs ! Suc i = LabelItem x"
  by (auto simp: hub_menu_def settings_items_def other_hub_items_def nth_Cons nth_append
      split: nat.splits if_splits)

section \<open>The feedback dialog\<close>

datatype feedback_body = FeedbackThanks | FeedbackForm string string

datatype feedback_button = FbClose | FbCancel | FbSend bool string \<comment> \<open>disabled, label\<close>

definition feedback_view :: "feedback \<Rightarrow> (feedback_body \<times> feedback_button list) option" where
  "feedback_view s =
     (if \<not> fk_open s then None
      else Some (if fk_sent s then (FeedbackThanks, [FbClose])
        else (FeedbackForm (fk_email s) (fk_text s),
              [FbCancel, FbSend (js_trim (fk_email s) = [] \<or> js_trim (fk_text s) = [] \<or> fk_sending s)
                 (if fk_sending s then ''Sending...'' else ''Send'')])))"

text \<open>A click on the button is taken exactly if the button is there and enabled.\<close>

lemma feedback_click_taken:
  assumes "fk_open s" "\<not> fk_sending s"
  shows "fk_sending (feedback_step FeedbackSend s) \<longleftrightarrow>
    (\<exists>b. feedback_view s = Some (b, [FbCancel, FbSend False ''Send'']))"
  using assms by (simp add: feedback_view_def)

section \<open>The user's menu and profile\<close>

record user_button =
  ub_avatar :: "string option"
  ub_letter :: string
  ub_name :: string
  ub_handle :: string

definition user_button :: "string \<Rightarrow> profile \<Rightarrow> user_button" where
  "user_button name s =
     \<lparr>ub_avatar = (if truthy (current_avatar s) then current_avatar s else None),
      ub_letter = first_letter (pf_saved s), ub_name = pf_saved s, ub_handle = CHR ''@'' # name\<rparr>"

datatype user_item =
    UserLabel user_button "string option"
  | UserSeparator
  | ProfileItem
  | LanguageItem "(string \<times> bool) list"
  | ThemeItem "(string \<times> bool) list"
  | LogoutItem

text \<open>The radio groups: every choice and whether it is the current one.\<close>

definition language_menu :: "string \<Rightarrow> (string \<times> bool) list" where
  "language_menu locale = map (\<lambda>l. (l, l = locale)) LOCALES"

definition theme_menu :: "string option \<Rightarrow> (string \<times> bool) list" where
  "theme_menu theme =
     (let current = (case theme of None \<Rightarrow> ''system'' | Some x \<Rightarrow> x)
      in map (\<lambda>x. (x, x = current)) [''light'', ''dark'', ''system''])"

definition user_menu :: "string \<Rightarrow> string option \<Rightarrow> string \<Rightarrow> string option \<Rightarrow> profile \<Rightarrow> user_item list" where
  "user_menu name role locale theme s =
     [UserLabel (user_button name s) (if truthy role then role else None), UserSeparator, ProfileItem,
      LanguageItem (language_menu locale), ThemeItem (theme_menu theme), UserSeparator, LogoutItem]"

record profile_dialog =
  pv_avatar :: "string option"
  pv_letter :: string
  pv_name :: string
  pv_handle :: string
  pv_error :: "string option"
  pv_saving :: bool

definition profile_dialog :: "string \<Rightarrow> profile \<Rightarrow> profile_dialog option" where
  "profile_dialog name s =
     (if \<not> pf_open s then None
      else Some \<lparr>pv_avatar = (if truthy (current_avatar s) then current_avatar s else None),
                 pv_letter = first_letter (pf_saved s), pv_name = pf_draft s, pv_handle = CHR ''@'' # name,
                 pv_error = (if pf_error s = [] then None else Some (pf_error s)),
                 pv_saving = (pf_save s \<noteq> None)\<rparr>)"

text \<open>The language in use is marked, and it alone.\<close>

lemma one_language_marked: "l \<in> set LOCALES \<Longrightarrow> map fst (filter snd (language_menu l)) = [l]"
  by (auto simp: language_menu_def LOCALES_def)

text \<open>A stored theme that is none of the three leaves the group without a mark.\<close>

lemma unknown_theme_unmarked: "map fst (filter snd (theme_menu (Some ''sepia''))) = []"
  by (simp add: theme_menu_def)

text \<open>A picture that was only chosen shows in the menu as well, before it is saved.\<close>

lemma unsaved_picture_in_menu: "pf_preview s = Some p \<Longrightarrow> p \<noteq> [] \<Longrightarrow> ub_avatar (user_button name s) = Some p"
  by (simp add: user_button_def current_avatar_def truthy_def)

section \<open>Headers of the chat\<close>

datatype header_button = LeftToggle bool | RightToggle bool | CollapseButton | CallButton | InCallBadge

record dm_header =
  dh_avatar :: "string option"
  dh_letter :: string
  dh_online :: bool
  dh_name :: string
  dh_buttons :: "header_button list"

record header_env =
  hv_me :: "string option"
  hv_members :: "roster_member list"
  hv_avatar :: "roster_member \<Rightarrow> string option"
  hv_active :: "string option"
  hv_side :: "bool \<times> bool \<times> bool"
  hv_right :: bool

definition peer_member :: "header_env \<Rightarrow> channel \<Rightarrow> roster_member option" where
  "peer_member env c =
     (case header_peer (hv_me env) c of None \<Rightarrow> None | Some p \<Rightarrow> first_member (hv_members env) p)"

definition dm_header :: "header_env \<Rightarrow> header_button list \<Rightarrow> channel \<Rightarrow> dm_header" where
  "dm_header env extras c =
     (let m = peer_member env c;
          avatar = (case m of None \<Rightarrow> None | Some x \<Rightarrow> hv_avatar env x);
          name = header_name (hv_me env) (hv_members env) c
      in \<lparr>dh_avatar = (if truthy avatar then avatar else None), dh_letter = first_letter name,
          dh_online = (case m of None \<Rightarrow> False | Some x \<Rightarrow> rm_online x), dh_name = name,
          dh_buttons = [LeftToggle (left_active (hv_side env)),
                        if shows_call_button (hv_active env) c then CallButton else InCallBadge]
                       @ extras @ [RightToggle (hv_right env)]\<rparr>)"

datatype chat_header = DmHeader dm_header | PlainHeader string "header_button list" | OwnHeader

definition plain_header :: "header_env \<Rightarrow> header_button list \<Rightarrow> channel \<Rightarrow> chat_header" where
  "plain_header env extras c =
     PlainHeader (ch_name c) ([LeftToggle (left_active (hv_side env))] @ extras @ [RightToggle (hv_right env)])"

text \<open>
  \<open>ChatWorkspace\<close>: the headers above the text view, and whether the text view hides its own. On its own,
  a channel that is not a conversation keeps the header of the text view.
\<close>

definition chat_workspace :: "header_env \<Rightarrow> bool \<Rightarrow> channel \<Rightarrow> chat_header list \<times> bool" where
  "chat_workspace env standalone c =
     (let dm = (ch_type c = DmChannel) in
      if standalone then ((if dm then [DmHeader (dm_header env [] c)] else []), dm)
      else ([if dm then DmHeader (dm_header env [CollapseButton] c) else plain_header env [CollapseButton] c], True))"

text \<open>All headers that are shown, the one of the text view included.\<close>

definition shown_headers :: "chat_header list \<times> bool \<Rightarrow> chat_header list" where
  "shown_headers x = (case x of (hs, hidden) \<Rightarrow> hs @ (if hidden then [] else [OwnHeader]))"

theorem one_header_each:
  "length (shown_headers (chat_workspace env standalone c)) = 1
   \<and> (case hd (shown_headers (chat_workspace env standalone c)) of
        DmHeader h \<Rightarrow>
          ch_type c = DmChannel \<and> (CallButton \<in> set (dh_buttons h)) = (hv_active env \<noteq> Some (ch_id c))
          \<and> (InCallBadge \<in> set (dh_buttons h)) = (hv_active env = Some (ch_id c))
      | PlainHeader n bs \<Rightarrow> ch_type c \<noteq> DmChannel \<and> \<not> standalone \<and> n = ch_name c
      | OwnHeader \<Rightarrow> ch_type c \<noteq> DmChannel \<and> standalone)"
  by (auto simp: chat_workspace_def shown_headers_def dm_header_def plain_header_def shows_call_button_def Let_def)

text \<open>The collapsed bar; the counts are optional properties.\<close>

record collapsed_bar =
  cl_name :: string
  cl_unread :: "string option"
  cl_mentions :: "string option"

definition positive_count :: "int option \<Rightarrow> int option" where
  "positive_count x = (case x of None \<Rightarrow> None | Some n \<Rightarrow> if n > 0 then Some n else None)"

definition collapsed_bar :: "channel \<Rightarrow> int option \<Rightarrow> int option \<Rightarrow> collapsed_bar" where
  "collapsed_bar c news pings =
     \<lparr>cl_name = ch_name c,
      cl_unread = map_option (\<lambda>n. show_nat (nat n) @ '' new'') (positive_count news),
      cl_mentions = map_option (\<lambda>n. CHR ''@'' # show_nat (nat n)) (positive_count pings)\<rparr>"

lemma no_badge_for_zero: "cl_unread (collapsed_bar c (Some 0) m) = None"
  by (simp add: collapsed_bar_def positive_count_def)

end
