(* ===== verification/TileView.thy ===== *)
theory TileView
  imports CallView CallTiles
begin

text \<open>
  What the tiles of a call show and play: \<open>CameraVideoTile\<close> and \<open>ScreenShareVideoTile\<close> of
  \<open>frontend/components/hub/video-workspace/video-tile.tsx\<close>, as \<open>video-grid.tsx\<close> and
  \<open>video-spotlight.tsx\<close> put them on the screen.

  The audio of a participant is played by an element of his tile. The lemmas show what follows: who is
  heard depends on the page and on the layout.
\<close>

section \<open>A tile\<close>

record camera_view =
  cw_gray :: bool
  cw_lit :: bool \<comment> \<open>the border of a speaker\<close>
  cw_video :: "(nat \<times> bool) option" \<comment> \<open>the track, and whether it is muted and mirrored\<close>
  cw_avatar :: "(string option \<times> string) option" \<comment> \<open>picture and initials, with the camera off\<close>
  cw_palette :: "nat option"
  cw_audio :: "nat option option" \<comment> \<open>an audio element and its track\<close>
  cw_menu :: bool
  cw_pinned :: bool
  cw_caption :: "string \<times> caption_end"
  cw_badges :: "tile_badge list"

definition shown_picture :: "string option \<Rightarrow> string option" where
  "shown_picture a = (if a \<in> {None, Some []} then None else a)"

definition camera_view :: "bool \<Rightarrow> tile_size \<Rightarrow> real \<Rightarrow> camera_tile \<Rightarrow> camera_view" where
  "camera_view pinned sz volume c =
     \<lparr>cw_gray = ct_ringing c, cw_lit = ct_speaking c,
      cw_video = map_option (\<lambda>v. (v, ct_local c)) (ct_video c),
      cw_avatar = (if ct_video c = None then Some (shown_picture (ct_avatar c), tile_initials (ct_name c)) else None),
      cw_palette = (if ct_video c = None then Some (tile_palette (ct_name c)) else None),
      cw_audio = (if ct_local c then None else Some (ct_audio c)),
      cw_menu = has_volume_menu sz (CameraTile c),
      cw_pinned = (pinned \<and> sz \<noteq> XS),
      cw_caption = tile_caption c, cw_badges = tile_badges c volume\<rparr>"

record screen_share_view =
  sw_track :: nat
  sw_audio :: "nat option option"
  sw_menu :: bool
  sw_caption :: string
  sw_big :: "(string \<times> bool) option" \<comment> \<open>the enlarged picture: its name, and whether "(you)" follows\<close>

definition screen_share_view :: "bool \<Rightarrow> tile_size \<Rightarrow> screen_tile \<Rightarrow> screen_share_view" where
  "screen_share_view expanded sz t =
     \<lparr>sw_track = st_video t,
      sw_audio = (if st_audio t \<noteq> None \<and> \<not> st_local t then Some (st_audio t) else None),
      sw_menu = has_volume_menu sz (ScreenTile t),
      sw_caption = st_owner_name t @ [char_of (39 :: nat)] @ ''s screen'',
      sw_big = (if expanded then Some (st_owner_name t, st_local t) else None)\<rparr>"

text \<open>Picture or video, never both; the menu of a volume only where there is something to hear.\<close>

lemma video_or_avatar: "(cw_video (camera_view p z v c) = None) = (cw_avatar (camera_view p z v c) \<noteq> None)"
  by (simp add: camera_view_def)

lemma menu_needs_audio:
  "cw_menu (camera_view p z v c) \<Longrightarrow> cw_audio (camera_view p z v c) \<noteq> None"
  "sw_menu (screen_share_view e z t) \<Longrightarrow> sw_audio (screen_share_view e z t) \<noteq> None"
  by (auto simp: camera_view_def screen_share_view_def has_volume_menu_def)

text \<open>The own picture is muted: nobody hears himself.\<close>

lemma own_tile_is_silent: "ct_local c \<Longrightarrow> cw_audio (camera_view p z v c) = None \<and> map_option snd (cw_video (camera_view p z v c)) \<noteq> Some False"
  by (cases "ct_video c") (simp_all add: camera_view_def)

section \<open>Who is heard\<close>

definition tile_plays :: "view_tile \<Rightarrow> nat option" where
  "tile_plays t =
     (case t of
        CameraTile c \<Rightarrow> (if ct_local c then None else ct_audio c)
      | ScreenTile s \<Rightarrow> (if st_local s then None else st_audio s))"

lemma tile_plays_view:
  "tile_plays (CameraTile c) = (case cw_audio (camera_view p z v c) of None \<Rightarrow> None | Some a \<Rightarrow> a)"
  "tile_plays (ScreenTile s) = (case sw_audio (screen_share_view e z s) of None \<Rightarrow> None | Some a \<Rightarrow> a)"
  by (auto simp: tile_plays_def camera_view_def screen_share_view_def)

definition heard_tracks :: "view_tile list \<Rightarrow> call_view \<Rightarrow> nat list" where
  "heard_tracks ts s = List.map_filter tile_plays (shown_tiles ts s)"

definition sent_to_us :: "view_tile list \<Rightarrow> nat list" where
  "sent_to_us ts = List.map_filter tile_plays ts"

text \<open>Up to twelve tiles there is one page, and the grid plays everything.\<close>

theorem small_call_heard_in_full:
  "length ts \<le> PAGE_SIZE \<Longrightarrow> cv_layout s = Grid \<Longrightarrow> heard_tracks ts s = sent_to_us ts"
  by (simp add: heard_tracks_def sent_to_us_def shown_tiles_def page_tiles_def sorted_tiles_def pages_def PAGE_SIZE_def)

text \<open>
  In a larger call the first page holds whoever speaks, as long as they and the own tiles fit on it: the
  order puts them there. The others' audio is not played at all.
\<close>

lemma insort_past: "list_all (\<lambda>a. f a < f x) xs \<Longrightarrow> insort_key f x (xs @ ys) = xs @ insort_key f x ys"
  by (induction xs) auto

lemma sort_key_two:
  "sort_key (\<lambda>t. if P t then 0 else 1 :: nat) xs = filter P xs @ filter (\<lambda>t. \<not> P t) xs"
proof (induction xs)
  case (Cons x xs)
  let ?f = "\<lambda>t. if P t then 0 else 1 :: nat"
  have "insort_key ?f x (filter P xs @ filter (\<lambda>t. \<not> P t) xs) = x # filter P xs @ filter (\<lambda>t. \<not> P t) xs" if "P x"
    using that by (intro insort_is_Cons) auto
  moreover have "insort_key ?f x (filter P xs @ filter (\<lambda>t. \<not> P t) xs) = filter P xs @ x # filter (\<lambda>t. \<not> P t) xs"
    if "\<not> P x"
  proof -
    have "insort_key ?f x (filter (\<lambda>t. \<not> P t) xs) = x # filter (\<lambda>t. \<not> P t) xs"
      using that by (intro insort_is_Cons) auto
    then show ?thesis using that by (simp add: insort_past list_all_iff)
  qed
  ultimately show ?case using Cons.IH by simp
qed simp

lemma first_page_holds_speakers:
  assumes "cv_layout s = Grid" "cv_page s = 0"
    and "length (filter vt_local ts) + length (filter (\<lambda>t. \<not> vt_local t \<and> vt_speaks t) ts) \<le> PAGE_SIZE"
    and "t \<in> set ts" "vt_local t \<or> vt_speaks t"
  shows "t \<in> set (shown_tiles ts s)"
proof (cases "length ts \<le> PAGE_SIZE")
  case True
  with assms show ?thesis by (simp add: shown_tiles_def page_tiles_def sorted_tiles_def pages_def PAGE_SIZE_def)
next
  case False
  let ?s = "sorted_tiles ts"
  let ?front = "filter vt_local ts @ filter (\<lambda>t. \<not> vt_local t \<and> vt_speaks t) ts"
  have s: "?s = ?front @ filter (\<lambda>t. \<not> vt_speaks t) (filter (\<lambda>t. \<not> vt_local t) ts)"
    using False by (simp add: sorted_tiles_def sort_key_two conj_commute)
  have "set ?front \<subseteq> set (take PAGE_SIZE ?s)"
    unfolding s take_append using assms(3) by auto
  moreover have "t \<in> set ?front" using assms(4,5) by auto
  moreover have "shown_tiles ts s = take PAGE_SIZE ?s"
    using assms(1,2) False
    by (simp add: shown_tiles_def page_tiles_def clamped_page_def pages_def PAGE_SIZE_def Let_def)
  ultimately show ?thesis by auto
qed


definition demo_remote :: "nat \<Rightarrow> view_tile" where
  "demo_remote i = CameraTile
     \<lparr>ct_id = show_nat i, ct_user = show_nat i, ct_name = show_nat i, ct_avatar = None, ct_audio = Some i, ct_video = None,
      ct_mic_muted = False, ct_deafened = False, ct_speaking = (i = 14), ct_local = False, ct_ringing = False\<rparr>"

definition demo_call :: "view_tile list" where
  "demo_call = map demo_remote [1 ..< 15]"


text \<open>The same call: on the second page the one who speaks is not heard.\<close>

lemma speaker_lost_on_second_page: "14 \<notin> set (heard_tracks demo_call (new_call_view\<lparr>cv_page := 1\<rparr>))"
  by (simp add: heard_tracks_def shown_tiles_def page_tiles_def sorted_tiles_def sort_key_two clamped_page_def pages_def
      PAGE_SIZE_def new_call_view_def demo_call_def demo_remote_def tile_plays_def map_filter_def upt_rec)

text \<open>The spotlight plays at most nine, whoever speaks: of the fourteen at least five cannot be heard.\<close>

lemma spotlight_plays_nine:
  assumes "cv_layout s = Spotlight"
  shows "length (heard_tracks ts s) \<le> 9"
proof -
  have "length (shown_tiles ts s) \<le> 9"
  proof (cases "spotlight (cv_pinned s) ts")
    case (Some p)
    with assms spotlight_hides [of "cv_pinned s" ts "fst p" "snd p"] show ?thesis
      by (simp add: shown_tiles_def case_prod_beta)
  qed (simp add: shown_tiles_def assms)
  moreover have "length (List.map_filter tile_plays xs) \<le> length xs" for xs
    by (induction xs) (auto simp: List.map_filter_simps split: option.split)
  ultimately show ?thesis unfolding heard_tracks_def using order_trans by blast
qed

lemma fourteen_are_sent: "length (sent_to_us demo_call) = 14"
proof -
  have "tile_plays (demo_remote i) \<noteq> None" for i by (simp add: tile_plays_def demo_remote_def)
  then show ?thesis by (simp add: sent_to_us_def demo_call_def map_filter_def filter_map comp_def)
qed

end
