(* ===== verification/InviteView.thy ===== *)
theory InviteView
  imports Invites MessageView CopyButton
begin

text \<open>
  What the dialog for new teammates shows, \<open>frontend/components/hub/add-teammates-dialog.tsx\<close>: the load of
  the groups, the three forms or their result, the fields of a date, and the picker of a group. What the
  forms do is in the theory Invites.

  The lemmas show that the field of the time reads back what it shows, that a result takes the form's
  place, and that the picker marks the group that is sent.
\<close>

section \<open>The groups\<close>

record groups_load =
  gl_groups :: "invite_group list"
  gl_pending :: "nat list"
  gl_next :: nat
  gl_requests :: "string list"

text \<open>The effect runs when the dialog or the session changes; nothing stops an earlier request.\<close>

definition load_groups :: "bool \<Rightarrow> string option \<Rightarrow> groups_load \<Rightarrow> groups_load" where
  "load_groups opened hub s =
     (case hub of
        None \<Rightarrow> s
      | Some h \<Rightarrow>
          if \<not> opened then s
          else s\<lparr>gl_pending := gl_pending s @ [gl_next s], gl_next := Suc (gl_next s),
                 gl_requests := gl_requests s @ [''/api/hub/v1/hubs/'' @ h @ ''/groups'']\<rparr>)"

text \<open>An answer with its good list, a bad status, or a failure.\<close>

datatype groups_reply = GroupsOk "invite_group list" | GroupsBad | GroupsFail

definition groups_replied :: "nat \<Rightarrow> groups_reply \<Rightarrow> groups_load \<Rightarrow> groups_load" where
  "groups_replied n r s =
     (if n \<in> set (gl_pending s)
      then (let s1 = s\<lparr>gl_pending := removeAll n (gl_pending s)\<rparr> in
            case r of GroupsOk gs \<Rightarrow> s1\<lparr>gl_groups := gs\<rparr> | GroupsBad \<Rightarrow> s1\<lparr>gl_groups := []\<rparr> | GroupsFail \<Rightarrow> s1)
      else s)"

definition no_groups :: groups_load where
  "no_groups = \<lparr>gl_groups = [], gl_pending = [], gl_next = 0, gl_requests = []\<rparr>"

text \<open>Two openings, and the older answer comes last: it wins, though it is older.\<close>

lemma older_groups_win:
  "gl_groups (groups_replied 0 (GroupsOk old) (groups_replied 1 (GroupsOk new)
      (load_groups True (Some h) (load_groups True (Some h) no_groups)))) = old"
  by (simp add: groups_replied_def load_groups_def no_groups_def Let_def)

section \<open>The fields of a date\<close>

definition two_digit :: "int \<Rightarrow> string" where
  "two_digit n = pad2 (nat n)"

definition time_value :: "local_date \<Rightarrow> string" where
  "time_value d = two_digit (ld_hour d) @ CHR '':'' # two_digit (ld_min d)"

text \<open>\<open>sod\<close> is the start of a local day.\<close>

definition day_disabled :: "(int \<Rightarrow> int) \<Rightarrow> int \<Rightarrow> int \<Rightarrow> bool" where
  "day_disabled sod now d \<longleftrightarrow> d < sod now"

lemma today_enabled: "sod now \<le> d \<Longrightarrow> \<not> day_disabled sod now d"
  by (simp add: day_disabled_def)

definition reads_back :: "nat \<Rightarrow> bool" where
  "reads_back n \<longleftrightarrow> js_number (pad2 n) = Some (of_nat n) \<and> CHR '':'' \<notin> set (pad2 n)"

lemma reads_back_60: "list_all reads_back [0 ..< 60]"
  by code_simp

lemma split_colon_plain: "CHR '':'' \<notin> set w \<Longrightarrow> split_colon w = [w]"
  by (induction w) auto

lemma split_colon_pair: "CHR '':'' \<notin> set v \<Longrightarrow> CHR '':'' \<notin> set w \<Longrightarrow> split_colon (v @ CHR '':'' # w) = [v, w]"
  by (induction v) (auto simp: split_colon_plain)

text \<open>Reading the field as it is shown gives the same hour and minute.\<close>

theorem time_field_reads_back:
  assumes "0 \<le> ld_hour d" "ld_hour d < 24" "0 \<le> ld_min d" "ld_min d < 60"
  shows "pick_time (time_value d) (Some e) =
     Some (e\<lparr>ld_hour := ld_hour d, ld_min := ld_min d, ld_sec := 0, ld_ms := 0\<rparr>)"
proof -
  have r: "reads_back (nat n)" if "0 \<le> n" "n < 60" for n :: int
    using reads_back_60 that by (simp add: list_all_iff)
  have h: "reads_back (nat (ld_hour d))" and m: "reads_back (nat (ld_min d))" using assms by (auto intro!: r)
  have "time_parts (time_value d) = [Some (of_nat (nat (ld_hour d))), Some (of_nat (nat (ld_min d)))]"
    using h m by (simp add: time_parts_def time_value_def two_digit_def split_colon_pair reads_back_def)
  with assms show ?thesis by (simp add: pick_time_def part_at_def set_hours_def Let_def)
qed

section \<open>The picker of a group\<close>

definition dot_color :: "invite_group \<Rightarrow> string" where
  "dot_color g = (if given (ig_color g) then the (ig_color g) else ''#666'')"

record picker_item =
  pk_id :: string
  pk_dot :: string
  pk_name :: string
  pk_default :: bool
  pk_selected :: bool

definition picker_item :: "string option \<Rightarrow> invite_group \<Rightarrow> picker_item" where
  "picker_item sel g =
     \<lparr>pk_id = ig_id g, pk_dot = dot_color g, pk_name = ig_name g, pk_default = ig_default g,
      pk_selected = (Some (ig_id g) = sel)\<rparr>"

text \<open>The button, \<open>None\<close> for "Select group", and the items.\<close>

definition group_picker :: "invite_group list \<Rightarrow> string option \<Rightarrow> picker_item option \<times> picker_item list" where
  "group_picker gs sel = (map_option (picker_item sel) (picker_selected gs sel), map (picker_item sel) gs)"

theorem picker_marks_choice:
  assumes "distinct (map ig_id gs)"
  shows "filter pk_selected (snd (group_picker gs sel)) = (case fst (group_picker gs sel) of None \<Rightarrow> [] | Some x \<Rightarrow> [x])"
  using assms
proof (induction gs)
  case (Cons g gs)
  have "filter pk_selected (map (picker_item sel) gs) = []" if "sel = Some (ig_id g)"
    using Cons.prems that by (auto simp: filter_empty_conv picker_item_def image_iff)
  with Cons show ?case by (auto simp: group_picker_def picker_selected_def picker_item_def split: option.splits)
qed (simp add: group_picker_def picker_selected_def)

section \<open>The forms\<close>

datatype 'v form_view = ResultView string | FieldsView 'v

datatype submit_button = SubmitButton bool string \<comment> \<open>disabled, label\<close>

definition submit_button :: "string \<Rightarrow> bool \<Rightarrow> submit_button" where
  "submit_button label busy = SubmitButton busy (if busy then ''Creating...'' else label)"

definition error_line :: "string \<Rightarrow> string option" where
  "error_line e = (if e = [] then None else Some e)"

record date_view =
  dv_day :: "render_error + int"
  dv_open :: bool
  dv_time :: "string option" \<comment> \<open>nothing is shown of an invalid date: the page has thrown\<close>

definition date_view :: "local_date option \<Rightarrow> bool \<Rightarrow> date_view" where
  "date_view d b = \<lparr>dv_day = shown_day d, dv_open = b, dv_time = map_option time_value d\<rparr>"

record link_view =
  lw_date :: date_view
  lw_limited :: bool
  lw_max :: "(string \<times> string option) option"
  lw_picker :: "picker_item option \<times> picker_item list"
  lw_error :: "string option"
  lw_submit :: submit_button

definition link_view :: "invite_group list \<Rightarrow> string option \<Rightarrow> link_form \<Rightarrow> link_view form_view" where
  "link_view gs dflt s =
     (if lf_url s \<noteq> [] then ResultView (lf_url s)
      else FieldsView
        \<lparr>lw_date = date_view (lf_expires s) (lf_date_open s), lw_limited = lf_limited s,
         lw_max = (if lf_limited s then Some (lf_max_uses s, error_line (lf_max_err s)) else None),
         lw_picker = group_picker gs (effective_group dflt s), lw_error = error_line (lf_form_err s),
         lw_submit = submit_button ''Generate link'' (lf_submitting s)\<rparr>)"

record temp_view =
  tw_nick :: string
  tw_placeholder :: string
  tw_date :: date_view
  tw_error :: "string option"
  tw_submit :: submit_button

definition temp_view :: "string option \<Rightarrow> temp_form \<Rightarrow> temp_view form_view" where
  "temp_view hub s =
     (if tf_url s \<noteq> [] then ResultView (tf_url s)
      else FieldsView
        \<lparr>tw_nick = tf_nickname s, tw_placeholder = placeholder_nick hub s,
         tw_date = date_view (tf_expires s) (tf_date_open s), tw_error = error_line (tf_error s),
         tw_submit = submit_button ''Generate link'' (tf_submitting s)\<rparr>)"

record perm_view =
  pw_name :: "string \<times> string option"
  pw_email :: "string \<times> string option"
  pw_error :: "string option"
  pw_submit :: submit_button

definition perm_view :: "perm_form \<Rightarrow> perm_view form_view" where
  "perm_view s =
     (if pf_url s \<noteq> [] then ResultView (pf_url s)
      else FieldsView
        \<lparr>pw_name = (pf_username s, error_line (pf_username_err s)), pw_email = (pf_email s, error_line (pf_email_err s)),
         pw_error = error_line (pf_form_err s), pw_submit = submit_button ''Create invitation'' (pf_submitting s)\<rparr>)"

text \<open>A limit's error is never hidden while it is there: unchecking the limit clears it.\<close>

definition limit_ok :: "link_form \<Rightarrow> bool" where
  "limit_ok s \<longleftrightarrow> lf_max_err s = [] \<or> lf_limited s"

lemma limit_ok_change: "limit_ok s \<Longrightarrow> limit_ok (link_change c s)"
  by (cases c) (auto simp: limit_ok_def)

lemma limit_ok_submit: "limit_ok s \<Longrightarrow> limit_ok (link_submit x s)"
  by (auto simp: limit_ok_def link_submit_def Let_def split: option.splits prod.splits)

text \<open>But the server can refuse a limit that has been unchecked meanwhile; then its error is not shown.\<close>

lemma refused_limit_not_shown:
  assumes "\<not> lf_limited s" "lf_url s = []"
  shows "case link_view gs dflt (link_replied (e, Refused 400 (Some ''invalid_max_uses'')) s) of
      ResultView u \<Rightarrow> False
    | FieldsView v \<Rightarrow> lw_max v = None \<and> lw_error v = error_line (lf_form_err s)"
  using assms by (simp add: link_view_def link_replied_def link_refused_def)

text \<open>The picker shows the group that a request names.\<close>

theorem sent_group_is_shown:
  assumes "link_submit (e, dflt) s = t" "lf_requests t = lf_requests s @ [r]" "lf_url s = []"
  shows "case link_view gs dflt s of
      ResultView u \<Rightarrow> False
    | FieldsView v \<Rightarrow> lw_picker v = group_picker gs (lr_group r)"
  using assms by (auto simp: link_view_def link_submit_def Let_def split: if_splits option.splits)

section \<open>The result\<close>

definition RESULT_COPY_MS :: int where
  "RESULT_COPY_MS = 2000"

definition result_step :: "copy_input \<Rightarrow> copy_button \<Rightarrow> copy_button" where
  "result_step = copy_step RESULT_COPY_MS"

definition invite_result :: "string \<Rightarrow> copy_button \<Rightarrow> string \<times> bool" where
  "invite_result url s = (url, cb_copied s)"

end
