(* ===== verification/NavView.thy ===== *)
theory NavView
  imports Menus Navigation
begin

text \<open>
  The list of channels as \<open>frontend/components/nav-channels.tsx\<close> shows it: the links with their badges and
  gears, the people in the voice channels, the conversations, and the buttons that add something. What
  a click does is in the theory Navigation.

  The lemmas show that every channel has one link, that only the permitted buttons are there, and that
  badges mark exactly the unread channels that are not open.
\<close>

section \<open>A link\<close>

datatype link_tone = ActiveTone | UnreadTone | QuietTone

record channel_link =
  cl_channel :: string
  cl_icon :: channel_icon
  cl_label :: string
  cl_tone :: link_tone
  cl_badge :: "string option"
  cl_gear :: bool

definition link_tone :: "bool \<Rightarrow> nat option \<Rightarrow> link_tone" where
  "link_tone act n = (if act then ActiveTone else if n \<notin> {None, Some 0} then UnreadTone else QuietTone)"

definition link_badge :: "bool \<Rightarrow> nat option \<Rightarrow> string option" where
  "link_badge act n = (if show_badge act n then Some (badge_text (the n)) else None)"

definition channel_link :: "bool \<Rightarrow> bool \<Rightarrow> nat option \<Rightarrow> channel \<Rightarrow> channel_link" where
  "channel_link act gear n c =
     \<lparr>cl_channel = ch_id c, cl_icon = channel_icon c, cl_label = ch_name c, cl_tone = link_tone act n,
      cl_badge = link_badge act n, cl_gear = gear\<rparr>"

text \<open>A channel that is unread and not open is bold and has a badge, and no other.\<close>

lemma tone_and_badge: "(cl_tone (channel_link act gear n c) = UnreadTone) = (cl_badge (channel_link act gear n c) \<noteq> None)"
  by (auto simp: channel_link_def link_tone_def link_badge_def show_badge_def split: option.splits)

section \<open>A row under a voice channel\<close>

record voice_line =
  vl_user :: string
  vl_avatar :: "string option"
  vl_letter :: string
  vl_name :: string
  vl_you :: bool
  vl_ring :: bool
  vl_mic_off :: bool

definition voice_line :: "(string \<Rightarrow> string option) \<Rightarrow> voice_row \<Rightarrow> voice_line" where
  "voice_line avatar r =
     \<lparr>vl_user = vr_user r, vl_avatar = (if truthy (avatar (vr_user r)) then avatar (vr_user r) else None),
      vl_letter = first_letter (vr_name r), vl_name = vr_name r, vl_you = vr_self r, vl_ring = vr_speaking r,
      vl_mic_off = vr_mic_muted r\<rparr>"

section \<open>A conversation\<close>

record dm_link =
  dl_channel :: string
  dl_avatar :: "string option"
  dl_letter :: string
  dl_online :: bool
  dl_name :: string
  dl_active :: bool
  dl_badge :: "string option"

section \<open>The list\<close>

text \<open>
  What the list reads: the own id, the members with their pictures, the permissions, the two selections,
  the own microphone, the participants of the own call, the two stores, and the unread counts.
\<close>

record nav_env =
  nw_me :: "string option"
  nw_members :: "roster_member list"
  nw_avatar :: "string \<Rightarrow> string option"
  nw_perms :: "user_permissions option"
  nw_text :: "string option"
  nw_voice :: "string option"
  nw_mic :: bool
  nw_participants :: "participant list"
  nw_occupancy :: "(string, string) jmap"
  nw_mutes :: "(string, mute_state) jmap"
  nw_unread :: "string \<Rightarrow> nat option"

definition row_peer :: "nav_env \<Rightarrow> channel \<Rightarrow> roster_member option" where
  "row_peer env c =
     (case dm_peer_id (nw_me env) c of
        None \<Rightarrow> None
      | Some i \<Rightarrow> if i = [] then None else first_member (nw_members env) i)"

definition dm_link :: "nav_env \<Rightarrow> channel \<Rightarrow> dm_link" where
  "dm_link env c =
     (let peer = row_peer env c; act = (nw_text env = Some (ch_id c));
          avatar = (case peer of None \<Rightarrow> None | Some m \<Rightarrow> nw_avatar env (m_user m));
          name = dm_name (nw_me env) (nw_members env) c
      in \<lparr>dl_channel = ch_id c, dl_avatar = (if truthy avatar then avatar else None), dl_letter = first_letter name,
          dl_online = (case peer of None \<Rightarrow> False | Some m \<Rightarrow> rm_online m), dl_name = name, dl_active = act,
          dl_badge = link_badge act (nw_unread env (ch_id c))\<rparr>)"

datatype nav_line =
    TextLine channel_link
  | VoiceLine channel_link "voice_line list"
  | DmLine dm_link
  | AddLine channel_kind
  | InviteLine

definition edit_gear :: "nav_env \<Rightarrow> bool" where
  "edit_gear env = perms_has (nw_perms env) P_EDIT_OTHER_CHANNELS"

definition text_section :: "nav_env \<Rightarrow> channel list \<Rightarrow> nav_line list" where
  "text_section env cs =
     map (\<lambda>c. TextLine (channel_link (nw_text env = Some (ch_id c)) (edit_gear env) (nw_unread env (ch_id c)) c))
       (text_channels cs)
     @ (if perms_has (nw_perms env) P_CREATE_TEXT_CHANNELS then [AddLine TextChannel] else [])"

definition voice_section :: "nav_env \<Rightarrow> channel list \<Rightarrow> nav_line list" where
  "voice_section env cs =
     map (\<lambda>c. VoiceLine (channel_link (nw_voice env = Some (ch_id c)) (edit_gear env) None c)
                (map (voice_line (nw_avatar env))
                  (voice_rows (nw_me env) (nw_voice env) (nw_mic env) (nw_participants env) (nw_occupancy env)
                     (nw_mutes env) (nw_members env) (ch_id c))))
       (voice_channels cs)
     @ (if perms_has (nw_perms env) P_CREATE_VOICE_CHANNELS then [AddLine VoiceChannel] else [])"

definition dm_section :: "nav_env \<Rightarrow> channel list \<Rightarrow> nav_line list" where
  "dm_section env cs =
     map (\<lambda>c. DmLine (dm_link env c)) (dm_channels cs)
     @ (if invite_button_shown (nw_perms env) cs then [InviteLine] else [])"

text \<open>The sections with their labels; the last one only if it has a line.\<close>

definition nav_sections :: "nav_env \<Rightarrow> channel list \<Rightarrow> (string \<times> nav_line list) list" where
  "nav_sections env cs =
     [(''Channels'', text_section env cs), (''Voice Channels'', voice_section env cs)]
     @ (if dm_channels cs = [] then [] else [(''Direct Messages'', dm_section env cs)])"

fun line_channel :: "nav_line \<Rightarrow> string option" where
  "line_channel (TextLine l) = Some (cl_channel l)"
| "line_channel (VoiceLine l vs) = Some (cl_channel l)"
| "line_channel (DmLine l) = Some (dl_channel l)"
| "line_channel (AddLine k) = None"
| "line_channel InviteLine = None"

definition linked :: "(string \<times> nav_line list) list \<Rightarrow> string list" where
  "linked ss = concat (map (List.map_filter line_channel \<circ> snd) ss)"

lemma map_filter_Some: "List.map_filter (\<lambda>x. Some (f x)) xs = map f xs"
  by (simp add: map_filter_def)

lemma map_filter_append: "List.map_filter f (xs @ ys) = List.map_filter f xs @ List.map_filter f ys"
  by (simp add: map_filter_def)

lemma section_links:
  "List.map_filter line_channel (text_section env cs) = map ch_id (text_channels cs)"
  "List.map_filter line_channel (voice_section env cs) = map ch_id (voice_channels cs)"
  "List.map_filter line_channel (dm_section env cs) = map ch_id (dm_channels cs)"
  by (simp_all add: text_section_def voice_section_def dm_section_def map_filter_append channel_link_def dm_link_def
      map_filter_def filter_map comp_def Let_def)


text \<open>Without a permission none of the buttons that need one is there.\<close>

lemma buttons_need_permission:
  assumes "nw_perms env = None" "(l, ls) \<in> set (nav_sections env cs)"
  shows "AddLine k \<notin> set ls \<and> InviteLine \<notin> set ls"
  using assms
  by (auto simp: nav_sections_def text_section_def voice_section_def dm_section_def perms_has_def
      invite_button_shown_def can_invite_def split: if_splits)

text \<open>Somebody with the right to invite but without a conversation finds no button here.\<close>

lemma no_conversation_no_invite: "dm_channels cs = [] \<Longrightarrow> (l, ls) \<in> set (nav_sections env cs) \<Longrightarrow> InviteLine \<notin> set ls"
  by (auto simp: nav_sections_def text_section_def voice_section_def split: if_splits)

section \<open>A shortcut with two meanings\<close>

text \<open>
  The keys of the input and of the sidebar: the input prevents the browser's own action, but lets the event
  go on to the window, where the sidebar listens.
\<close>

definition page_key :: "key_event \<Rightarrow> composer \<times> left_bar \<Rightarrow> composer \<times> left_bar" where
  "page_key k x = (handle_key k (fst x), bar_step (BarKey (k_key k) (k_ctrl k \<or> k_meta k)) (snd x))"

lemma bold_toggles_sidebar:
  assumes "k_key k = ''b''" "k_ctrl k"
  shows "page_key k (s, b) = (apply_format ''bold'' (k_from k) (k_to k) s, toggle_sidebar b)"
    and "bar_shown (snd (page_key k (s, b))) = (\<not> bar_shown b)"
  using assms by (simp_all add: page_key_def handle_key_def should_send_def Let_def toggle_toggles)

end
