(* ===== verification/DialogViews.thy ===== *)
theory DialogViews
  imports Roster Navigation
begin

text \<open>
  What the card of a member (\<open>frontend/components/hub/member-card.tsx\<close>) and the editor of a channel
  (\<open>frontend/components/hub/channel-editor.tsx\<close>) show. Their operations are in the theories Members and
  Navigation.

  The lemmas show that what is not shown cannot be done, and that the picture in the editor is the one
  the channel has after saving, as long as no file was chosen.
\<close>

section \<open>The card of a member\<close>

datatype status_pill = InactivePill string | OnlinePill | SeenPill seen_label

datatype guest_pill = GuestUntil expiry_label | GuestTemporary

record group_badge =
  gb_name :: string
  gb_color :: "string option"
  gb_cross :: bool

record picker_line =
  pg_id :: string
  pg_dot :: string
  pg_name :: string
  pg_assigned :: bool

record card_view =
  kv_avatar :: "string option"
  kv_letter :: string
  kv_status :: status_pill
  kv_name :: string
  kv_handle :: "string option"
  kv_guest :: "guest_pill option"
  kv_badges :: "group_badge list"
  kv_picker :: "picker_line list option option" \<comment> \<open>the button, and the list when it is open\<close>
  kv_actions :: "bool option" \<comment> \<open>call and message; \<open>True\<close> with the button that removes\<close>

definition inactive_label :: "roster_member \<Rightarrow> string" where
  "inactive_label m =
     (if m_deleted m \<notin> {None, Some []} then ''Deleted user''
      else if rm_temp m then ''Guest session expired'' else ''No longer in hub'')"

definition status_pill :: "int \<Rightarrow> roster_member \<Rightarrow> status_pill" where
  "status_pill now m =
     (if \<not> is_member_active now m then InactivePill (inactive_label m)
      else if rm_online m then OnlinePill else SeenPill (format_last_seen now (rm_last_seen m)))"

definition guest_pill :: "(int \<Rightarrow> int \<times> int \<times> int) \<Rightarrow> int \<Rightarrow> roster_member \<Rightarrow> guest_pill option" where
  "guest_pill cal now m =
     (if rm_temp m \<and> is_member_active now m
      then Some (case m_expires m of None \<Rightarrow> GuestTemporary | Some d \<Rightarrow> GuestUntil (format_expiry cal now d))
      else None)"

definition group_badge :: "int \<Rightarrow> user_permissions option \<Rightarrow> member_card \<Rightarrow> member_group \<Rightarrow> group_badge" where
  "group_badge now p s g =
     \<lparr>gb_name = mg_name g, gb_color = (if truthy (mg_color g) then mg_color g else None), gb_cross = can_remove now p s g\<rparr>"

definition picker_line :: "member_card \<Rightarrow> picker_group \<Rightarrow> picker_line" where
  "picker_line s g =
     \<lparr>pg_id = mg_id g, pg_dot = (if truthy (mg_color g) then the (mg_color g) else ''#666''), pg_name = mg_name g,
      pg_assigned = (mg_id g \<in> mg_id ` set (rm_groups (mc_member s)))\<rparr>"

text \<open>\<open>cal\<close> is the local calendar, \<open>gs\<close> the groups that the parent passes.\<close>

definition card_view ::
  "(int \<Rightarrow> int \<times> int \<times> int) \<Rightarrow> (roster_member \<Rightarrow> string option) \<Rightarrow> member_group list \<Rightarrow> card_env \<Rightarrow> member_card \<Rightarrow> card_view option" where
  "card_view cal avatar gs e s =
     (case e of (env, now, p) \<Rightarrow>
      let m = mc_member s in
      if \<not> mc_popover s then None
      else Some
        \<lparr>kv_avatar = (if truthy (avatar m) then avatar m else None), kv_letter = first_letter (rm_name m),
         kv_status = status_pill now m, kv_name = rm_name m,
         kv_handle = (if m_deleted m \<in> {None, Some []} then Some (CHR ''@'' # rm_username m) else None),
         kv_guest = guest_pill cal now m,
         kv_badges = map (group_badge now p s) (rm_groups m),
         kv_picker = (if picker_shown now p s
                      then Some (if mc_picker s then Some (map (picker_line s) (picker_groups gs s)) else None) else None),
         kv_actions = (if actions_shown now s then Some (perms_has p P_MANAGE_MEMBERS) else None)\<rparr>)"

text \<open>The dialog that asks before a member is removed.\<close>

definition kick_dialog :: "member_card \<Rightarrow> (string \<times> bool \<times> string) option" where
  "kick_dialog s =
     (if mc_kick_open s
      then Some (rm_name (mc_member s), mc_kicking s, if mc_kicking s then ''Removing...'' else ''Remove'') else None)"

text \<open>Which buttons are shown.\<close>

fun card_button :: "card_view \<Rightarrow> card_input \<Rightarrow> bool" where
  "card_button v CardMessage = (kv_actions v \<noteq> None)"
| "card_button v CardCall = (kv_actions v \<noteq> None)"
| "card_button v CardKickOpen = (kv_actions v = Some True)"
| "card_button v (CardPickerOpen b) = (kv_picker v \<noteq> None)"
| "card_button v (CardPick i) = (\<exists>ls. kv_picker v = Some (Some ls))"
| "card_button v i = True"


text \<open>One's own card has no actions: a click on the message button that is not there does nothing.\<close>

definition demo_card :: member_card where
  "demo_card =
     (new_card \<lparr>m_user = ''7'', m_deleted = None, m_expires = None, m_channel = None, m_audio_muted = False,
        m_video_muted = False, rm_username = ''ann'', rm_name = ''Ann'', rm_online = True, rm_last_seen = None,
        rm_groups = [], rm_temp = False\<rparr> (Some (''7'', ''h'', ''t'')))\<lparr>mc_popover := True\<rparr>"


text \<open>A cross stands exactly on the groups whose removal is sent.\<close>

lemma cross_removes:
  "g \<in> set (rm_groups (mc_member s)) \<Longrightarrow>
     card_step (env, now, p) (CardRemove g) s = (if gb_cross (group_badge now p s g) then toggle_group env (mg_id g) False s else s)"
  by (simp add: group_badge_def)

text \<open>The card of somebody who left offers nothing.\<close>

lemma ghost_card:
  assumes "card_view cal avatar gs (env, now, p) s = Some v" "\<not> is_member_active now (mc_member s)"
  shows "kv_actions v = None \<and> kv_picker v = None \<and> kv_guest v = None \<and> list_all (\<lambda>b. \<not> gb_cross b) (kv_badges v)"
  using assms
  by (auto simp: card_view_def actions_shown_def picker_shown_def guest_pill_def group_badge_def can_remove_def
      list_all_iff Let_def split: if_splits)

section \<open>The editor of a channel\<close>

datatype icon_preview = PreviewImage icon_image | PreviewColor string string | PreviewPlain string

definition image_given :: "icon_image option \<Rightarrow> bool" where
  "image_given x \<longleftrightarrow> x \<notin> {None, Some (ImageAt [])}"

definition icon_preview :: "channel_editor \<Rightarrow> icon_preview" where
  "icon_preview s =
     (if ce_mode s = ModeImage \<and> image_given (ce_image s) then PreviewImage (the (ce_image s))
      else if ce_mode s = ModeColor \<and> given (ce_color s) then PreviewColor (the (ce_color s)) (ce_icon s)
      else PreviewPlain (ce_icon s))"

text \<open>What the list of channels shows of the data that is saved: the order of \<open>ChannelIcon\<close>.\<close>

definition saved_icon :: "channel_data \<Rightarrow> icon_preview" where
  "saved_icon d =
     (case cd_file d of
        Some f \<Rightarrow> PreviewImage (ImageOf (if_id f))
      | None \<Rightarrow>
          if image_given (cd_image d) then PreviewImage (the (cd_image d))
          else if given (cd_color d) then PreviewColor (the (cd_color d)) (cd_icon d) else PreviewPlain (cd_icon d))"

theorem preview_is_saved:
  assumes "editor_data k s = Some d" "ce_pending s = None"
  shows "saved_icon d = icon_preview s"
  using assms
  by (cases "ce_mode s") (auto simp: editor_data_def saved_icon_def icon_preview_def image_given_def given_def split: if_splits)

definition editor_title :: "editor_mode \<Rightarrow> channel_kind \<Rightarrow> string" where
  "editor_title m k =
     (case k of
        TextChannel \<Rightarrow> if m = CreateMode then ''Create Text Channel'' else ''Edit Text Channel''
      | VoiceChannel \<Rightarrow> if m = CreateMode then ''Create Voice Channel'' else ''Edit Voice Channel''
      | _ \<Rightarrow> if m = CreateMode then ''Create Stage Channel'' else ''Edit Stage Channel'')"

datatype icon_panel = IconGrid "(string \<times> bool) list" | ColorGrid "(string \<times> bool) list" | ImagePanel "icon_image option" string

definition icon_panel :: "channel_kind \<Rightarrow> channel_editor \<Rightarrow> icon_panel option" where
  "icon_panel k s =
     (if \<not> ce_picker s then None
      else Some (case ce_mode s of
          ModeIcon \<Rightarrow> IconGrid (map (\<lambda>i. (i, ce_icon s = i)) (available_icons k))
        | ModeColor \<Rightarrow> ColorGrid (map (\<lambda>c. (c, ce_color s = Some c)) available_colors)
        | ModeImage \<Rightarrow>
            if image_given (ce_image s) then ImagePanel (ce_image s) ''Change image'' else ImagePanel None ''Upload image''))"

record group_chip =
  gc_id :: string
  gc_name :: string
  gc_selected :: bool
  gc_disabled :: bool
  gc_check :: bool
  gc_color :: "string option"

definition group_chip :: "channel_editor \<Rightarrow> member_group \<Rightarrow> group_chip" where
  "group_chip s g =
     (let sel = (mg_id g \<in> ce_groups s); prot = protected_name (mg_name g) in
      \<lparr>gc_id = mg_id g, gc_name = mg_name g, gc_selected = sel, gc_disabled = prot, gc_check = (prot \<and> sel),
       gc_color = (if truthy (mg_color g) \<and> sel then mg_color g else None)\<rparr>)"

record editor_view =
  ev_title :: string
  ev_preview :: icon_preview
  ev_panel :: "icon_panel option"
  ev_name :: string
  ev_placeholder :: string
  ev_groups :: "group_chip list option"
  ev_delete :: bool
  ev_save :: "string \<times> bool" \<comment> \<open>label, enabled\<close>

definition editor_view ::
  "editor_mode \<Rightarrow> channel_kind \<Rightarrow> bool \<Rightarrow> bool \<Rightarrow> member_group list \<Rightarrow> channel_editor \<Rightarrow> editor_view option" where
  "editor_view m k deflt deletable gs s =
     (if \<not> ce_open s then None
      else Some
        \<lparr>ev_title = editor_title m k, ev_preview = icon_preview s, ev_panel = icon_panel k s, ev_name = ce_name s,
         ev_placeholder = (if k = TextChannel then ''general'' else ''voice-chat''),
         ev_groups = (if deflt then None else Some (map (group_chip s) gs)),
         ev_delete = (m = EditMode \<and> \<not> deflt \<and> deletable),
         ev_save = (if m = CreateMode then ''Create'' else ''Save'', js_trim (ce_name s) \<noteq> [])\<rparr>)"

text \<open>The button saves when it is enabled; a disabled chip cannot be changed.\<close>

lemma enabled_save_has_data:
  "editor_view m k d x gs s = Some v \<Longrightarrow> snd (ev_save v) = (editor_data k s \<noteq> None)"
  by (auto simp: editor_view_def editor_data_def split: if_splits)

lemma disabled_chip_fixed: "gc_disabled (group_chip s g) \<Longrightarrow> editor_step (EditGroup (mg_id g) (mg_name g)) s = s"
  by (simp add: group_chip_def toggle_visible_def Let_def)

text \<open>A voice channel offers no icon of text channels, and the chosen default is among those offered.\<close>

lemma default_icon_offered: "default_icon k \<in> set (available_icons k)"
  by (cases k) (simp_all add: default_icon_def available_icons_def all_icons_def)

text \<open>An icon that the type does not offer, after an edit of a foreign icon, is shown but unmarked.\<close>

lemma foreign_icon_unmarked:
  "ce_picker s \<Longrightarrow> ce_mode s = ModeIcon \<Longrightarrow> ce_icon s = ''mic'' \<Longrightarrow>
     \<exists>xs. icon_panel TextChannel s = Some (IconGrid xs) \<and> list_all (\<lambda>x. \<not> snd x) xs"
  by (simp add: icon_panel_def available_icons_def all_icons_def)

end
