(* ===== verification/EntryViews.thy ===== *)
theory EntryViews
  imports SignIn Roster
begin

text \<open>
  What the entry pages under \<open>frontend/app/\<close> show: \<open>(auth)/login/page.tsx\<close>, \<open>(auth)/signup/page.tsx\<close>,
  \<open>(auth)/register/page.tsx\<close>, \<open>(auth)/join/page.tsx\<close> and \<open>setup/page.tsx\<close>, as fields with their values
  and errors. What the pages do is in the theory SignIn.

  The lemmas show what is on the page after an answer: the form only behind a good link, and exactly one
  error after a refusal.
\<close>

section \<open>Fields\<close>

record field_view =
  fv_label :: string
  fv_value :: string
  fv_required :: bool
  fv_error :: "string option"

definition shown_error :: "string \<Rightarrow> string option" where
  "shown_error e = (if e = [] then None else Some e)"

definition text_field :: "string \<Rightarrow> string \<Rightarrow> bool \<Rightarrow> string \<Rightarrow> field_view" where
  "text_field l v req e = \<lparr>fv_label = l, fv_value = v, fv_required = req, fv_error = shown_error e\<rparr>"

record form_page =
  fp_title :: string
  fp_lines :: "string list"
  fp_fields :: "field_view list"
  fp_error :: "string option"
  fp_button :: "string \<times> bool" \<comment> \<open>label, disabled\<close>

definition page_errors :: "form_page \<Rightarrow> string list" where
  "page_errors p = List.map_filter fv_error (fp_fields p) @ (case fp_error p of None \<Rightarrow> [] | Some e \<Rightarrow> [e])"

section \<open>Signing in\<close>

record login_view =
  lv_hub :: string
  lv_login :: string
  lv_password :: string
  lv_remember :: bool
  lv_warning :: bool
  lv_error :: "string option"
  lv_button :: "string \<times> bool"

definition login_view :: "login_page \<Rightarrow> login_view" where
  "login_view s =
     \<lparr>lv_hub = (case lp_hub_name s of None \<Rightarrow> '' '' | Some n \<Rightarrow> n), lv_login = lp_login s, lv_password = lp_password s,
      lv_remember = lp_remember s, lv_warning = lp_status_error s, lv_error = shown_error (lp_error s),
      lv_button = (if lp_loading s then ''Logging in...'' else if \<not> lp_status_loaded s then ''Preparing...'' else ''Sign in'',
                   lp_loading s \<or> \<not> lp_status_loaded s)\<rparr>"

text \<open>A disabled button and a submission that is ignored are the same; the label is then not "Sign in".\<close>

lemma login_button_decides:
  "snd (lv_button (login_view s)) \<longleftrightarrow> fst (lv_button (login_view s)) \<noteq> ''Sign in''"
  "snd (lv_button (login_view s)) \<Longrightarrow> login_submit s = s"
  by (auto simp: login_view_def login_submit_def)

text \<open>The first answer about the hub lets the user in, whatever it is; only the warning differs.\<close>

lemma any_status_enables:
  "snd (lv_button (login_view (mount_status r new_login_page))) = False
   \<and> lv_warning (login_view (mount_status r new_login_page)) = (r = None)"
  by (auto simp: login_view_def mount_status_def status_applied_def new_login_page_def split: option.split)

section \<open>Pages behind a link\<close>

text \<open>Both pages show a spinner, a broken link, or their form.\<close>

datatype gate = GateWaits | GateBroken string | GateForm

definition link_gate :: "bool \<Rightarrow> string \<Rightarrow> bool \<Rightarrow> gate" where
  "link_gate waits e preview =
     (if waits then GateWaits
      else if e \<noteq> [] \<or> \<not> preview then GateBroken (if e = [] then ''Link is invalid'' else e) else GateForm)"

definition signup_gate :: "signup_page \<Rightarrow> gate" where
  "signup_gate s = link_gate (sg_loading s) (sg_load_error s) (sg_preview s)"

definition invite_gate :: "invite_page \<Rightarrow> gate" where
  "invite_gate s = link_gate (ip_loading s) (ip_load_error s) (ip_preview s)"

lemma link_error_given: "link_error gone r = Some e \<Longrightarrow> gone \<noteq> [] \<Longrightarrow> e \<noteq> []"
  by (auto simp: link_error_def status_text_def split: option.splits if_splits)

theorem link_opens_form:
  assumes "given tok"
  shows "signup_gate (signup_checked r (new_signup_page tok)) =
      (case link_error ''This link is no longer valid'' r of None \<Rightarrow> GateForm | Some e \<Rightarrow> GateBroken e)"
    and "invite_gate (invite_checked r (new_invite_page tok)) =
      (case link_error ''This link has already been used'' r of None \<Rightarrow> GateForm | Some e \<Rightarrow> GateBroken e)"
proof -
  show "signup_gate (signup_checked r (new_signup_page tok)) =
      (case link_error ''This link is no longer valid'' r of None \<Rightarrow> GateForm | Some e \<Rightarrow> GateBroken e)"
    using assms link_error_given [of "''This link is no longer valid''" r]
    by (auto simp: signup_gate_def link_gate_def signup_checked_def new_signup_page_def split: option.split)
  show "invite_gate (invite_checked r (new_invite_page tok)) =
      (case link_error ''This link has already been used'' r of None \<Rightarrow> GateForm | Some e \<Rightarrow> GateBroken e)"
    using assms link_error_given [of "''This link has already been used''" r]
    by (auto simp: invite_gate_def link_gate_def invite_checked_def new_invite_page_def split: option.split)
qed

text \<open>Without a token nothing is asked and the spinner stays.\<close>

lemma no_token_waits: "\<not> given tok \<Longrightarrow> signup_gate (run (\<lambda>r. signup_checked r) rs (new_signup_page tok)) = GateWaits"
proof -
  assume "\<not> given tok"
  then have "run (\<lambda>r. signup_checked r) rs (new_signup_page tok) = new_signup_page tok"
    by (induction rs) (simp_all add: signup_checked_def, simp add: new_signup_page_def)
  then show ?thesis by (simp add: signup_gate_def link_gate_def new_signup_page_def)
qed

text \<open>The preview of a shared link: hub, group, and the numbers of its uses.\<close>

record link_preview =
  pr_hub :: string
  pr_group :: "string option"
  pr_max :: "int option"
  pr_uses :: int

definition preview_lines :: "link_preview \<Rightarrow> string list" where
  "preview_lines x =
     (if given (pr_group x) then [''Group: '' @ the (pr_group x)] else [])
     @ (case slots_left (pr_max x) (pr_uses x) of
          None \<Rightarrow> []
        | Some n \<Rightarrow> [show_int n @ '' of '' @ show_int (case pr_max x of None \<Rightarrow> 0 | Some c \<Rightarrow> c) @ '' spots left''])"

definition signup_form :: "link_preview \<Rightarrow> signup_page \<Rightarrow> form_page" where
  "signup_form x s =
     \<lparr>fp_title = ''Join '' @ pr_hub x, fp_lines = preview_lines x,
      fp_fields =
        [text_field ''Login'' (sg_username s) True (sg_username_err s), text_field ''Your name'' (sg_display s) True (sg_display_err s),
         text_field ''Email'' (sg_email s) True (sg_email_err s), text_field ''Password'' (sg_password s) True (sg_password_err s),
         text_field ''Confirm password'' (sg_confirm s) True []],
      fp_error = shown_error (sg_form_err s),
      fp_button = (if sg_submitting s then ''Creating...'' else ''Sign up'', sg_submitting s)\<rparr>"

text \<open>A submission clears the errors; the server's refusal then stands in exactly one place.\<close>

lemma signup_errors:
  "page_errors (signup_form x s) =
     filter (\<lambda>e. e \<noteq> []) [sg_username_err s, sg_display_err s, sg_email_err s, sg_password_err s, sg_form_err s]"
  by (simp add: page_errors_def signup_form_def text_field_def shown_error_def List.map_filter_simps)

lemma if_case: "P u \<Longrightarrow> P v \<Longrightarrow> P (if a then u else v)"
  by simp

lemma signup_refused_errors:
  assumes "sg_username_err s = []" "sg_email_err s = []" "sg_password_err s = []" "sg_display_err s = []" "sg_form_err s = []"
  shows "length (page_errors (signup_form x (signup_refused n code s))) = 1"
  unfolding signup_refused_def
  by (rule if_case [where P = "\<lambda>t. length (page_errors (signup_form x t)) = 1"]
      | simp add: signup_errors assms status_text_def)+

lemma signup_refused_shown:
  assumes "page_errors (signup_form x s) = []"
  shows "length (page_errors (signup_form x (signup_replied (PageRefused n code) s))) = 1"
proof -
  have "sg_username_err s = []" "sg_email_err s = []" "sg_password_err s = []" "sg_display_err s = []" "sg_form_err s = []"
    using assms unfolding signup_errors filter_empty_conv by simp_all
  then have "length (page_errors (signup_form x (signup_refused n code s))) = 1" by (rule signup_refused_errors)
  then show ?thesis by (simp add: signup_replied_def signup_errors)
qed

theorem one_error_after_refusal:
  assumes "given (sg_token s)" "sg_preview s" "sg_password s = sg_confirm s"
  shows "page_errors (signup_form x (signup_submit () s)) = []
    \<and> length (page_errors (signup_form x (signup_replied (PageRefused n code) (signup_submit () s)))) = 1
    \<and> fp_button (signup_form x (signup_replied (PageRefused n code) (signup_submit () s))) = (''Sign up'', False)"
proof -
  have c: "page_errors (signup_form x (signup_submit () s)) = []"
    using assms
    by (simp add: signup_errors signup_submit_def Let_def)
  have b: "fp_button (signup_form x (signup_replied (PageRefused n code) t)) = (''Sign up'', False)" for t
    by (simp add: signup_replied_def signup_form_def)
  show ?thesis by (intro conjI c b signup_refused_shown [OF c])
qed

text \<open>The page of an invitation: the picture or a letter of the name, else of the login it is for.\<close>

record invite_form =
  iw_hub :: string
  iw_username :: string
  iw_picture :: "string option" \<comment> \<open>a letter, when no file is chosen\<close>
  iw_fields :: "field_view list"
  iw_error :: "string option"
  iw_button :: "string \<times> bool"

definition invite_form :: "string \<Rightarrow> string \<Rightarrow> invite_page \<Rightarrow> invite_form" where
  "invite_form hub user s =
     \<lparr>iw_hub = ''Join '' @ hub, iw_username = user,
      iw_picture = (if ip_avatar s then None else Some (first_letter (if ip_display s = [] then user else ip_display s))),
      iw_fields = [text_field ''Your name'' (ip_display s) True [], text_field ''Password'' (ip_password s) True [],
                   text_field ''Confirm password'' (ip_confirm s) True []],
      iw_error = shown_error (ip_error s),
      iw_button = (if ip_submitting s then ''Creating...'' else ''Accept invitation'', ip_submitting s)\<rparr>"

lemma invite_button_decides: "snd (iw_button (invite_form h u s)) \<Longrightarrow> invite_submit s = s"
  by (simp add: invite_form_def invite_submit_def)

section \<open>A guest link\<close>

datatype join_view =
    JoinSpinner string
  | JoinCard string string string string \<comment> \<open>letter and name of the hub, letter and name of the guest\<close>
  | JoinEntering
  | JoinBroken string
  | JoinBlank

text \<open>\<open>hub\<close> gives the name of the hub of an answer.\<close>

definition join_view :: "(sign_in \<Rightarrow> string) \<Rightarrow> join_page \<Rightarrow> join_view" where
  "join_view hub s =
     (case jp_phase s of
        Resolving \<Rightarrow> JoinSpinner (''Resolving invite'' @ replicate (jp_dots s) CHR ''.'')
      | Ready \<Rightarrow>
          (case jp_data s of
             None \<Rightarrow> JoinBlank
           | Some d \<Rightarrow> JoinCard (first_letter (hub d)) (hub d) (first_letter (si_username d)) (si_username d))
      | Entering \<Rightarrow> JoinEntering
      | JoinError \<Rightarrow> JoinBroken (jp_error s))"

datatype join_input = JoinTick | JoinReply page_reply | JoinEnter

fun join_step :: "join_input \<Rightarrow> join_page \<Rightarrow> join_page" where
  "join_step JoinTick s = join_tick s"
| "join_step (JoinReply r) s = (if jp_phase s = Resolving then join_resolved r s else s)"
| "join_step JoinEnter s = join_enter s"

definition join_ok :: "join_page \<Rightarrow> bool" where
  "join_ok s \<longleftrightarrow> (jp_phase s = Ready \<longrightarrow> jp_data s \<noteq> None) \<and> jp_dots s \<le> 3 \<and> (jp_phase s = JoinError \<longrightarrow> jp_error s \<noteq> [])"

lemma join_ok_step: "join_ok s \<Longrightarrow> join_ok (join_step i s)"
  by (cases i)
    (auto simp: join_ok_def join_tick_def join_resolved_def join_enter_def split: option.split page_reply.split)

interpretation joining: invariant_machine join_step "\<lambda>_ _. True" join_ok
  by unfold_locales (rule join_ok_step)

text \<open>The page of a guest is never blank, and its dots are at most three.\<close>

theorem join_page_shows_something:
  "case join_view hub (run join_step is new_join_page) of
     JoinBlank \<Rightarrow> False
   | JoinSpinner x \<Rightarrow> length x \<le> 19
   | JoinBroken e \<Rightarrow> e \<noteq> []
   | _ \<Rightarrow> True"
proof -
  let ?s = "run join_step is new_join_page"
  have "join_ok ?s"
    by (rule joining.inv_run) (simp_all add: join_ok_def new_join_page_def)
  then show ?thesis by (auto simp: join_view_def join_ok_def split: join_phase.split option.split)
qed

section \<open>The first start\<close>

record setup_view =
  sv_subtitle :: string
  sv_picture :: "string option"
  sv_fields :: "field_view list"
  sv_error :: "string option"
  sv_back :: "bool option" \<comment> \<open>the button, and whether it is disabled\<close>
  sv_button :: "string \<times> bool"

definition or_else :: "string \<Rightarrow> string \<Rightarrow> string" where
  "or_else a b = (if a = [] then b else a)"

definition setup_view :: "setup_page \<Rightarrow> setup_view" where
  "setup_view s =
     (if su_step s = 1
      then \<lparr>sv_subtitle = ''Step 1 of 2'',
            sv_picture = (if su_admin_avatar s then None
                          else Some (first_letter (or_else (or_else (su_display s) (su_username s)) ''?''))),
            sv_fields = [text_field ''Your name'' (su_display s) True [], text_field ''Login'' (su_username s) True [],
                         text_field ''Email (optional)'' (su_email s) False [], text_field ''Password'' (su_password s) True [],
                         text_field ''Confirm password'' (su_confirm s) True []],
            sv_error = shown_error (su_error s), sv_back = None, sv_button = (''Continue'', False)\<rparr>
      else \<lparr>sv_subtitle = ''Step 2 of 2'',
            sv_picture = (if su_hub_avatar s then None else Some (first_letter (or_else (su_hub_name s) ''H''))),
            sv_fields = [text_field ''Hub name'' (su_hub_name s) True []],
            sv_error = shown_error (su_error s), sv_back = Some (su_submitting s),
            sv_button = (if su_submitting s then ''Creating...'' else ''Create hub'', su_submitting s)\<rparr>)"

text \<open>Going on clears the error or shows one; it never stays on the first step without a reason.\<close>

lemma next_explains:
  assumes "su_step s = 1"
  shows "sv_error (setup_view (go_next s)) = None \<longleftrightarrow> sv_subtitle (setup_view (go_next s)) = ''Step 2 of 2''"
  using assms
  by (simp add: go_next_def setup_view_def shown_error_def account_error_def Let_def split: option.split)

text \<open>Going back keeps an error of the second step on the page of the first.\<close>

lemma back_keeps_error:
  "su_step s = 2 \<Longrightarrow> \<not> su_submitting s \<Longrightarrow> sv_error (setup_view (setup_step SetupBack s)) = shown_error (su_error s)"
  by (simp add: setup_view_def)

end
