(* ===== verification/Spec2Isabelle.thy ===== *)
theory Spec2Isabelle
  imports VoiceStores VolumeStore Snowflake ChatGatewayProps ChatStoreProps VideoProps VideoEncoding VideoHookProps IncomingCall Auth Presence Permissions
    MarkdownProps Composer MessageView Channels Workspace TileAudio VideoDebug GroupRoles Members Invites SignIn WorkspaceStack Navigation Media DebugPanel Profile CallTiles Ringing Shell ChannelView CallView
    MessageList Roster Diagnostics CopyButton DebugView Menus TileView InviteView NavView DialogViews EntryViews
begin

text \<open>
  This library verifies the TypeScript side of MateHub: the two SDK packages
  (\<open>packages/sdk-chat\<close>, \<open>packages/sdk-video\<close>) and the web client under \<open>frontend/\<close>. The paths below
  are relative to \<open>src/\<close>. Every definition is a translation of the code it names; the services behind
  the client, the browser and third-party packages enter as inputs.

  \<^bold>\<open>How the program is put together.\<close> A visitor comes in through the entry pages, which end in a session
  held by \<open>AuthProvider\<close>. The hub's layout then mounts providers inside each other: the voice call,
  the selected channel, the list of channels, the chat, direct calls, and the panels. The chat
  provider owns one \<open>ChatClient\<close> (a gateway over a WebSocket, with REST calls beside it) and turns its
  events into messages, unread counts and typing. The presence socket of \<open>useMembers\<close> feeds three
  module-level stores (occupancy, mutes, volumes) that components subscribe to. The voice provider
  owns the hook \<open>useVideoClient\<close>, which owns one \<open>VideoClient\<close> (signaling over a WebSocket and one
  peer connection). Direct calls sit on both: they listen to chat events and join voice channels.

  \<^bold>\<open>How code becomes definitions.\<close> A component's state is a record; each handler, effect or method is a
  function on it; a datatype lists the inputs (user actions, messages, replies, timers) and a step
  function dispatches them, so a run is \<open>run step inputs state\<close> (\<open>Prelude\<close>). An \<open>await\<close> ends a step: what the
  continuation captured is stored in the state and a later input resumes it, so every interleaving
  of replies is a list of inputs. A React state is its value after the render that follows the
  step, effects run in the order of the code, and a closure uses the values of its own render.
  Errors are values of sums and options. Requests, notices and sounds are appended to lists.

  \<^bold>\<open>Contracts.\<close> The locales of \<open>Prelude\<close> are the interfaces: \<open>invariant_machine\<close> (an invariant kept under
  a guard on inputs), \<open>monotone_machine\<close>, \<open>simulation\<close> (refinement of an abstract machine),
  \<open>external_store\<close> and \<open>keyed_store\<close> (what \<open>useSyncExternalStore\<close> needs of a store). \<open>JsMap\<close> has the
  contract of a JavaScript \<open>Map\<close>, \<open>Invites\<close> that of a form with one request at a time. Each is interpreted on
  the model's own operations where those are defined, and the properties rest on these interpretations.

  \<^bold>\<open>Theories\<close>

  \<^item> \<open>Prelude\<close>, \<open>JsMap\<close>, \<open>Rx\<close>: JSON values, array idioms, runs and contracts; \<open>Map\<close>; regular expressions
    with JavaScript's order of backtracking.
  \<^item> \<open>Snowflake\<close>: message ids, their order as \<open>BigInt\<close>s and the ids made up for messages under way
    (\<open>frontend/contexts/chat-context.tsx\<close>): such an id keeps its time.
  \<^item> \<open>ChatGateway\<close>, \<open>ChatGatewayLemmas\<close>, \<open>ChatGatewayProps\<close>: \<open>ChatClient\<close> of \<open>packages/sdk-chat/src/client.ts\<close> as a
    connection machine with heartbeat, RESUME and backoff. It is never stuck, has one open socket, stays
    closed after \<open>disconnect\<close>, resumes its session, notices a dead link, and refines an abstract session.
  \<^item> \<open>ChatApi\<close>: its REST calls, errors with \<open>Retry-After\<close>, and an upload over XMLHttpRequest that settles once.
  \<^item> \<open>ChatStore\<close>, \<open>ChatStoreLemmas\<close>, \<open>ChatLog\<close>, \<open>ChatStoreProps\<close>: \<open>ChatProvider\<close>. The list of a channel refines a
    log, echoes settle sends, read positions only grow, unread counts match what arrived, typing entries
    always have a timeout, and every history request settles.
  \<^item> \<open>VoiceStores\<close>, \<open>VolumeStore\<close>: the three stores; subscribers are told exactly of the keys that changed.
  \<^item> \<open>Presence\<close>: \<open>frontend/hooks/use-members.ts\<close>; the presence link always comes back, and its messages leave in
    the stores what the roster and the events say.
  \<^item> \<open>VideoClient\<close>, \<open>VideoMedia\<close>: \<open>packages/sdk-video/src/client.ts\<close>: joining, offers and answers, trickled
    candidates, microphone, camera, screen, devices, voice activity. \<open>VideoLemmas\<close>, \<open>VideoMic\<close>, \<open>VideoMuted\<close>, \<open>VideoKeeps\<close>,
    \<open>VideoProps\<close>: candidates are sent once and in order, a muted microphone sends nothing, a permission that comes
    late is released, remote tracks reach their owner, speaking is what the levels say. \<open>VideoEncoding\<close>: encoder
    settings.
  \<^item> \<open>VideoHook\<close>, \<open>VideoHookProps\<close>: \<open>frontend/hooks/use-video-client.ts\<close>; camera tiles follow the signals in every
    order. \<open>VideoCall\<close>, \<open>VideoCallProps\<close>: \<open>frontend/contexts/video-call-context.tsx\<close>; who is connected is
    connected to the channel that is shown. \<open>IncomingCall\<close>: direct calls; at most one goodbye per call. \<open>Ringing\<close>: the
    dialogs over the hub; a ring ends by itself, an expired guest is in no call.
  \<^item> \<open>TileAudio\<close>, \<open>CallTiles\<close>, \<open>Workspace\<close>, \<open>CallView\<close>, \<open>WorkspaceStack\<close>, \<open>VideoDebug\<close>, \<open>DebugPanel\<close>: what a call shows:
    sound of a tile, badges and volume menus, devices, cues, tiles with their pages and the largest grid that fits,
    the header, the split with the chat, diagnostics and their floating button.
  \<^item> \<open>Auth\<close>, \<open>SignIn\<close>, \<open>Profile\<close>: the session with its refresh timer, the entry pages, and editing a profile or a hub.
  \<^item> \<open>Permissions\<close>, \<open>GroupRoles\<close>, \<open>Members\<close>, \<open>Invites\<close>: permission bits, the dialogs of groups, members and invitations.
  \<^item> \<open>Channels\<close>, \<open>Navigation\<close>, \<open>Shell\<close>: the channel list with its requests, the sidebar with the channel editor, and the
    start and the page of the hub.
  \<^item> \<open>Markdown\<close>, \<open>MarkdownProps\<close>: \<open>frontend/lib/markdown.ts\<close>; the HTML handed to the sanitizer has only the renderer's
    own tags. \<open>Uploads\<close>, \<open>Composer\<close>, \<open>MessageView\<close>, \<open>ChannelView\<close>, \<open>Media\<close>: attachments under way, the draft, the
    list of messages, the rest of the channel's view, and players and thumbnails.
  \<^item> \<open>MessageList\<close>, \<open>Roster\<close>, \<open>TileView\<close>, \<open>NavView\<close>, \<open>Menus\<close>, \<open>InviteView\<close>, \<open>DialogViews\<close>, \<open>EntryViews\<close>, \<open>DebugView\<close>, \<open>CopyButton\<close>:
    what the components put on the screen, as values (lines, fields, buttons with their labels and conditions), on
    top of the theories of their state. Every message is read under its author, every channel is linked once, the
    roster lists exactly the active members, who speaks is heard on the first page of a call, buttons that are not
    shown do nothing, a refused form shows one error. \<open>Diagnostics\<close>: \<open>getDiagnostics\<close> and \<open>listDevices\<close> of
    \<open>packages/sdk-video/src/client.ts\<close>, the snapshot in its two parts around \<open>getStats\<close>.

  \<^bold>\<open>What is assumed.\<close> Guards on inputs stand in the theorems by name, each with a witness. They state how a
  component is used or what its surroundings do: \<open>random_ok\<close> (\<open>Math.random\<close> is in \<open>[0, 1)\<close>), \<open>log_ok\<close> (which
  replies keep a list), \<open>reading_ok\<close> (a render runs its effects before the next change), \<open>reply_ok\<close> (a reply has
  the shape of its request), \<open>mic_ok\<close> (microphone operations do not overlap, a capture returns one
  track), \<open>ice_ok\<close> (the answer comes on an open link), \<open>call_ok\<close> (one join waits at a time and the media server
  answers for the channel asked), \<open>uploading_ok\<close> (an upload is reported as cancelled only after its abort),
  \<open>channels_ok\<close> (ids in a list of channels are distinct) and \<open>auth_ok\<close> (the provider restores first and once).

  \<^bold>\<open>Numbers, text, loops.\<close> Bit operations are done on 32-bit words as JavaScript does them, timer delays wrap at
  32 bits, ids are unbounded as \<open>BigInt\<close>s are. Lengths, volumes and times of media are rationals or reals: the
  rounding of doubles is not modelled, and neither are NaN and infinities where the code cannot meet
  them. Text is a list of code units up to 255. No definition needs fuel: the loops are structural, the regular
  expressions end because each match consumes a bounded rest (\<open>termination\<close> by the length of the rest), and the one
  loop whose end is not evident, over the references of a system message, is a \<open>partial_function\<close>
  proved to return on every input.

  \<^bold>\<open>Not modelled.\<close> Style sheets, animations and the nesting of elements that only lays out; translations (a text is
  its English key); the
  generated components of \<open>frontend/components/ui/\<close> beyond the sidebar's state and the crop dialog; the translator
  (\<open>jed\<close>) and the generated language packs; what the browser does with media (decoding, mixing, codecs, ICE,
  DTLS); DOMPurify, which gets the HTML verified here; the parts that only forward to a library (routing, toasts,
  themes); scripts and build files; the static pages of the template (dashboard, projects,
  teams); and the services in other languages, whose answers are inputs.
\<close>

end
